(* ===== verification/Prelude.thy ===== *)
theory Prelude
  imports Main "HOL-Library.Word"
begin

section \<open>Prelude: bytes, strings, errors and results\<close>

text \<open>
  What every theory of the development shares.
  \<^item> A Go \<open>[]byte\<close> is a list of \<open>8 word\<close>; a Go \<open>string\<close> is a sequence of bytes
    and is modelled as an Isabelle \<open>string\<close>, whose characters are 8-bit.
  \<^item> A Go \<open>error\<close> is the list of the sentinel errors that it wraps (which is what
    \<open>errors.Is\<close> looks at) and the constant part of its message. A run-time panic is a
    value of the same type, so that no function hides one.
  \<^item> A fallible function returns \<open>error + 'a\<close>; \<open>rbind\<close> is Go's
    \<open>if err != nil { return err }\<close>.
  \<^item> Go's \<open>int\<close> and \<open>int64\<close> are mathematical integers with \<open>wrap64\<close> written out
    where an overflow can occur.
\<close>

unbundle bit_operations_syntax

type_synonym byte = "8 word"
type_synonym bytes = "byte list"

named_theorems go_defs \<open>definitions that unfold in most proofs\<close>
named_theorems go_inv \<open>inversion of successful results\<close>

subsection \<open>Errors\<close>

text \<open>
  The sentinels of \<open>internal/pqx509/errors.go\<close>, \<open>internal/keystore/seal.go\<close>,
  \<open>internal/store/store.go\<close> and \<open>internal/ca/profiles.go\<close>.
\<close>

datatype sentinel =
    ErrUnknownAlgorithm
  | ErrMalformedDER
  | ErrTrailingData
  | ErrBadSignature
  | ErrUnsupportedCriticalExtension
  | ErrInvalidKeySize
  | ErrExpired
  | ErrNotYetValid
  | ErrUnknownAuthority
  | ErrNotACA
  | ErrPathLenExceeded
  | ErrKeyUsageNotPermitted
  | ErrRevoked
  | ErrInvalidCSR
  | ErrCSRSignature
  | ErrWrongPassphrase
  | ErrKeyNotFound
  | ErrKeyExists
  | ErrEmptyPassphrase
  | StoreErrNotFound
  | StoreErrConflict
  | ErrConstraintViolation
  | CaErrNotFound
  | ErrAlreadyRevoked

datatype error = Err "sentinel list" string | Panic string

type_synonym 'a res = "error + 'a"

fun errors_is :: "error \<Rightarrow> sentinel \<Rightarrow> bool" where
  "errors_is (Err ks m) s = (s \<in> set ks)"
| "errors_is (Panic m) s = False"

fun is_panic :: "error \<Rightarrow> bool" where
  "is_panic (Err ks m) = False"
| "is_panic (Panic m) = True"

text \<open>\<open>fmt.Errorf\<close> with one or two \<open>%w\<close> verbs; a panic is not caught by it.\<close>

fun wrap_errs :: "sentinel list \<Rightarrow> string \<Rightarrow> error \<Rightarrow> error" where
  "wrap_errs ss m (Err ks m') = Err (ss @ ks) m"
| "wrap_errs ss m (Panic p) = Panic p"

definition rbind :: "'a res \<Rightarrow> ('a \<Rightarrow> 'b res) \<Rightarrow> 'b res" where
  "rbind m f = (case m of Inl e \<Rightarrow> Inl e | Inr x \<Rightarrow> f x)"

definition rmap_err :: "(error \<Rightarrow> error) \<Rightarrow> 'a res \<Rightarrow> 'a res" where
  "rmap_err g m = (case m of Inl e \<Rightarrow> Inl (g e) | Inr x \<Rightarrow> Inr x)"

definition guard_err :: "bool \<Rightarrow> error \<Rightarrow> unit res" where
  "guard_err b e = (if b then Inl e else Inr ())"

lemma rbind_simps [simp]:
  "rbind (Inl e) f = Inl e"
  "rbind (Inr x) f = f x"
  by (simp_all add: rbind_def)

lemma rmap_err_simps [simp]:
  "rmap_err g (Inl e) = Inl (g e)"
  "rmap_err g (Inr x) = Inr x"
  by (simp_all add: rmap_err_def)

lemma guard_err_simps [simp]:
  "guard_err True e = Inl e"
  "guard_err False e = Inr ()"
  by (simp_all add: guard_err_def)

lemma rbind_Inr_iff [go_inv]: "rbind m f = Inr y \<longleftrightarrow> (\<exists>x. m = Inr x \<and> f x = Inr y)"
  by (cases m) auto

lemma rbind_Inl_iff: "rbind m f = Inl e \<longleftrightarrow> m = Inl e \<or> (\<exists>x. m = Inr x \<and> f x = Inl e)"
  by (cases m) auto

lemma rmap_err_Inr_iff [go_inv]: "rmap_err g m = Inr y \<longleftrightarrow> m = Inr y"
  by (cases m) auto

lemma guard_err_Inr_iff [go_inv]: "guard_err b e = Inr u \<longleftrightarrow> \<not> b"
  by (simp add: guard_err_def)

lemma guard_err_Inl_iff: "guard_err b e = Inl e' \<longleftrightarrow> b \<and> e' = e"
  by (auto simp: guard_err_def)

lemma rbind_cong [fundef_cong]:
  "m = m' \<Longrightarrow> (\<And>x. m' = Inr x \<Longrightarrow> f x = f' x) \<Longrightarrow> rbind m f = rbind m' f'"
  by (cases m') auto

lemma rbind_assoc: "rbind (rbind m f) g = rbind m (\<lambda>x. rbind (f x) g)"
  by (cases m) auto

text \<open>Mapping a fallible function over a list stops at the first error.\<close>

fun rmap :: "('a \<Rightarrow> 'b res) \<Rightarrow> 'a list \<Rightarrow> 'b list res" where
  "rmap f [] = Inr []"
| "rmap f (x # xs) = rbind (f x) (\<lambda>y. rbind (rmap f xs) (\<lambda>ys. Inr (y # ys)))"

lemma rmap_cong [fundef_cong]:
  "xs = ys \<Longrightarrow> (\<And>x. x \<in> set ys \<Longrightarrow> f x = g x) \<Longrightarrow> rmap f xs = rmap g ys"
  by (induction ys arbitrary: xs) auto

lemma rmap_Inr_length: "rmap f xs = Inr ys \<Longrightarrow> length ys = length xs"
  by (induction xs arbitrary: ys) (auto simp: go_inv)

lemma rmap_Inr_iff: "rmap f xs = Inr ys \<longleftrightarrow> list_all2 (\<lambda>x y. f x = Inr y) xs ys"
proof (induction xs arbitrary: ys)
  case Nil
  then show ?case by auto
next
  case (Cons x xs)
  then show ?case by (cases ys) (auto simp: go_inv)
qed

subsection \<open>Go strings and byte slices\<close>

definition bytes_of :: "string \<Rightarrow> bytes" where
  "bytes_of s = map (\<lambda>c. word_of_nat (of_char c)) s"

definition string_of :: "bytes \<Rightarrow> string" where
  "string_of bs = map (\<lambda>b. char_of (unat b)) bs"

lemma string_of_bytes_of [simp]: "string_of (bytes_of s) = s"
proof -
  have "char_of (unat (word_of_nat (of_char c) :: byte)) = c" for c
    by (simp add: unat_of_nat)
  then show ?thesis by (simp add: string_of_def bytes_of_def map_idI)
qed

lemma bytes_of_string_of [simp]: "bytes_of (string_of bs) = bs"
proof -
  have "word_of_nat (of_char (char_of (unat b) :: char)) = b" for b :: byte
    using unsigned_less [of b, where ?'a = nat] by simp
  then show ?thesis by (simp add: string_of_def bytes_of_def map_idI)
qed

lemma length_bytes_of [simp]: "length (bytes_of s) = length s"
  by (simp add: bytes_of_def)

lemma length_string_of [simp]: "length (string_of s) = length s"
  by (simp add: string_of_def)

lemma bytes_of_Nil_iff [simp]: "bytes_of s = [] \<longleftrightarrow> s = []"
  by (simp add: bytes_of_def)

lemma bytes_of_inj [simp]: "bytes_of s = bytes_of t \<longleftrightarrow> s = t"
  by (metis string_of_bytes_of)

subsection \<open>Fixed-width integers\<close>

text \<open>Two's complement wrap-around of Go's 64-bit \<open>int\<close>.\<close>

definition wrap64 :: "int \<Rightarrow> int" where
  "wrap64 x = (x + 2 ^ 63) mod 2 ^ 64 - 2 ^ 63"

lemma wrap64_id: "- (2 ^ 63) \<le> x \<Longrightarrow> x < 2 ^ 63 \<Longrightarrow> wrap64 x = x"
  by (simp add: wrap64_def)

lemma wrap64_range: "- (2 ^ 63) \<le> wrap64 x \<and> wrap64 x < 2 ^ 63"
proof -
  have "0 \<le> (x + 2 ^ 63) mod (2 ^ 64)" "(x + 2 ^ 63) mod (2 ^ 64) < (2 ^ 64 :: int)"
    by simp_all
  then show ?thesis by (simp add: wrap64_def)
qed

subsection \<open>Bit operations on bytes\<close>

lemma byte_less: "unat (b :: byte) < 256"
  using unsigned_less [of b, where ?'a = nat] by simp

lemma byte_low7: "unat ((b :: byte) AND 0x7f) = unat b mod 128"
proof -
  have "b AND 0x7f = b mod 128"
    using take_bit_eq_mask [of 7 b] by (simp add: mask_eq_exp_minus_1 take_bit_eq_mod)
  then show ?thesis by (simp add: unat_mod)
qed

lemma byte_low5: "unat ((b :: byte) AND 0x1f) = unat b mod 32"
proof -
  have "b AND 0x1f = b mod 32"
    using take_bit_eq_mask [of 5 b] by (simp add: mask_eq_exp_minus_1 take_bit_eq_mod)
  then show ?thesis by (simp add: unat_mod)
qed

lemma byte_high2: "unat (drop_bit 6 (b :: byte)) = unat b div 64"
  by (simp add: drop_bit_eq_div unat_div)

lemma byte_single_bit: "((b :: byte) AND 2 ^ n = 0) = (\<not> (n < 8 \<and> odd (unat b div 2 ^ n)))"
proof -
  have "(b AND 2 ^ n = 0) = (\<not> bit b n)"
    by (rule and_exp_eq_0_iff_not_bit)
  also have "... = (\<not> (n < 8 \<and> bit (unat b) n))"
    by (auto simp: bit_unsigned_iff dest: bit_imp_le_length)
  finally show ?thesis by (simp add: bit_iff_odd)
qed

lemma byte_bit5: "(b :: byte) AND 0x20 = 0 \<longleftrightarrow> even (unat b div 32)"
  using byte_single_bit [of b 5] by simp

lemma byte_high_bit: "(b :: byte) AND 0x80 = 0 \<longleftrightarrow> unat b < 128"
proof -
  have "unat b div 128 < 2"
    using byte_less [of b] by (simp add: less_mult_imp_div_less)
  then have "even (unat b div 128) = (unat b div 128 = 0)"
    by (auto elim: evenE)
  then show ?thesis
    using byte_single_bit [of b 7] by (simp add: div_eq_0_iff)
qed

lemma unat_byte_of_nat: "unat (word_of_nat n :: byte) = n mod 256"
  by (simp add: unat_of_nat)

lemmas byte_arith = byte_low7 byte_low5 byte_high2 byte_bit5 byte_high_bit unat_byte_of_nat

end
