(* ===== verification/Asn1.thy ===== *)
theory Asn1
  imports Der
begin

section \<open>encoding/asn1: values\<close>

text \<open>
  The part of Go's standard package \<open>encoding/asn1\<close> that \<open>pqx509\<close> uses: the identifier
  and length octets, base-128 integers, INTEGER, OBJECT IDENTIFIER, BIT STRING and BOOLEAN
  contents. \<open>Asn1_Fields\<close> adds the treatment of struct fields.
\<close>

subsection \<open>Identifier and length octets\<close>

record header =
  h_class :: nat
  h_compound :: bool
  h_tag :: nat
  h_len :: nat

fun parse_base128 :: "nat \<Rightarrow> nat \<Rightarrow> bytes \<Rightarrow> (nat \<times> bytes) res" where
  "parse_base128 shifted ret [] = Inl (Err [] ''truncated base 128 integer'')"
| "parse_base128 shifted ret (b # bs) =
     (if shifted = 5 then Inl (Err [] ''base 128 integer too large'')
      else if shifted = 0 \<and> b = 0x80 then Inl (Err [] ''integer is not minimally encoded'')
      else
        (let ret' = ret * 128 + unat (b AND 0x7f) in
         if b AND 0x80 = 0
         then (if 2147483647 < ret' then Inl (Err [] ''base 128 integer too large'')
               else Inr (ret', bs))
         else parse_base128 (Suc shifted) ret' bs))"

fun length_octets :: "nat \<Rightarrow> nat \<Rightarrow> bytes \<Rightarrow> (nat \<times> bytes) res" where
  "length_octets 0 l bs = Inr (l, bs)"
| "length_octets (Suc n) l [] = Inl (Err [] ''truncated tag or length'')"
| "length_octets (Suc n) l (b # bs) =
     (if 2 ^ 23 \<le> l then Inl (Err [] ''length too large'')
      else
        (let l' = l * 256 + unat b in
         if l' = 0 then Inl (Err [] ''superfluous leading zeros in length'')
         else length_octets n l' bs))"

definition parse_length :: "bytes \<Rightarrow> (nat \<times> bytes) res" where
  "parse_length bs =
     (case bs of
        [] \<Rightarrow> Inl (Err [] ''truncated tag or length'')
      | b # r \<Rightarrow>
          if b AND 0x80 = 0 then Inr (unat (b AND 0x7f), r)
          else if unat (b AND 0x7f) = 0
          then Inl (Err [] ''indefinite length found (not DER)'')
          else rbind (length_octets (unat (b AND 0x7f)) 0 r) (\<lambda>(l, r').
            if l < 0x80 then Inl (Err [] ''non-minimal length'') else Inr (l, r')))"

definition parse_header :: "bytes \<Rightarrow> (header \<times> bytes) res" where
  "parse_header bs =
     (case bs of
        [] \<Rightarrow> Inl (Err [] ''internal error in parseTagAndLength'')
      | b # r \<Rightarrow>
          rbind
            (if unat (b AND 0x1f) = 0x1f
             then rbind (parse_base128 0 0 r) (\<lambda>(t, r').
                    if t < 0x1f then Inl (Err [] ''non-minimal tag'') else Inr (t, r'))
             else Inr (unat (b AND 0x1f), r))
            (\<lambda>(t, r1). rbind (parse_length r1) (\<lambda>(l, r2).
               Inr (\<lparr>h_class = unat (drop_bit 6 b), h_compound = (b AND 0x20 \<noteq> 0),
                     h_tag = t, h_len = l\<rparr>, r2))))"

fun base128_high :: "nat \<Rightarrow> bytes" where
  "base128_high n =
     (if n = 0 then [] else base128_high (n div 128) @ [word_of_nat (128 + n mod 128)])"

declare base128_high.simps [simp del]

definition base128 :: "nat \<Rightarrow> bytes" where
  "base128 n = base128_high (n div 128) @ [word_of_nat (n mod 128)]"

definition header_bytes :: "nat \<Rightarrow> bool \<Rightarrow> nat \<Rightarrow> nat \<Rightarrow> bytes" where
  "header_bytes cls cons tag len =
     (let b = cls * 64 + (if cons then 32 else 0) in
      (if tag < 31 then [word_of_nat (b + tag)] else word_of_nat (b + 31) # base128 tag)
      @ marshalLength len)"

definition tlv :: "nat \<Rightarrow> bool \<Rightarrow> nat \<Rightarrow> bytes \<Rightarrow> bytes" where
  "tlv cls cons tag body = header_bytes cls cons tag (length body) @ body"

subsection \<open>INTEGER\<close>

function int_bytes :: "int \<Rightarrow> bytes" where
  "int_bytes i =
     (if - 128 \<le> i \<and> i \<le> 127 then [word_of_int i]
      else int_bytes (i div 256) @ [word_of_int i])"
  by pat_completeness auto
termination
proof (relation "measure (\<lambda>i. nat \<bar>i\<bar>)")
  fix i :: int
  assume "\<not> (- 128 \<le> i \<and> i \<le> 127)"
  then have "\<bar>i div 256\<bar> < \<bar>i\<bar>"
    by (cases "i < 0") auto
  then show "(i div 256, i) \<in> measure (\<lambda>i. nat \<bar>i\<bar>)" by simp
qed simp

declare int_bytes.simps [simp del]

definition check_integer :: "bytes \<Rightarrow> unit res" where
  "check_integer bs =
     (case bs of
        [] \<Rightarrow> Inl (Err [] ''empty integer'')
      | [b] \<Rightarrow> Inr ()
      | b0 # b1 # _ \<Rightarrow>
          if b0 = 0 \<and> b1 AND 0x80 = 0 \<or> b0 = 0xff \<and> b1 AND 0x80 \<noteq> 0
          then Inl (Err [] ''integer not minimally-encoded'') else Inr ())"

definition int_value :: "bytes \<Rightarrow> int" where
  "int_value bs =
     foldl (\<lambda>a b. a * 256 + uint b)
       (case bs of [] \<Rightarrow> 0 | b # _ \<Rightarrow> if b AND 0x80 = 0 then 0 else - 1) bs"

definition parse_bigint :: "bytes \<Rightarrow> int res" where
  "parse_bigint bs = rbind (check_integer bs) (\<lambda>_. Inr (int_value bs))"

definition parse_int64 :: "bytes \<Rightarrow> int res" where
  "parse_int64 bs = rbind (check_integer bs) (\<lambda>_.
     if 8 < length bs then Inl (Err [] ''integer too large'') else Inr (int_value bs))"

definition parse_int32 :: "bytes \<Rightarrow> int res" where
  "parse_int32 bs = rbind (parse_int64 bs) (\<lambda>i.
     if i < - (2 ^ 31) \<or> 2 ^ 31 \<le> i then Inl (Err [] ''integer too large'') else Inr i)"

subsection \<open>BOOLEAN and BIT STRING\<close>

definition parse_bool :: "bytes \<Rightarrow> bool res" where
  "parse_bool bs =
     (case bs of
        [b] \<Rightarrow> if b = 0 then Inr False else if b = 0xff then Inr True
               else Inl (Err [] ''invalid boolean'')
      | _ \<Rightarrow> Inl (Err [] ''invalid boolean''))"

definition bool_bytes :: "bool \<Rightarrow> bytes" where
  "bool_bytes b = [if b then 0xff else 0]"

record bit_string =
  bs_bytes :: bytes
  bs_bits :: nat

definition parse_bit_string :: "bytes \<Rightarrow> bit_string res" where
  "parse_bit_string bs =
     (case bs of
        [] \<Rightarrow> Inl (Err [] ''zero length BIT STRING'')
      | p # r \<Rightarrow>
          if 7 < unat p \<or> r = [] \<and> 0 < unat p
             \<or> last (p # r) AND (push_bit (unat p) 1 - 1) \<noteq> 0
          then Inl (Err [] ''invalid padding bits in BIT STRING'')
          else Inr \<lparr>bs_bytes = r, bs_bits = length r * 8 - unat p\<rparr>)"

definition bit_string_bytes :: "bit_string \<Rightarrow> bytes" where
  "bit_string_bytes b = word_of_nat ((8 - bs_bits b mod 8) mod 8) # bs_bytes b"

text \<open>\<open>BitString.At\<close>: out of range bits read as zero.\<close>

definition bit_at :: "bit_string \<Rightarrow> nat \<Rightarrow> bool" where
  "bit_at b i = (i < bs_bits b \<and> bit (bs_bytes b ! (i div 8)) (7 - i mod 8))"

definition octet_bits :: "bytes \<Rightarrow> bit_string" where
  "octet_bits bs = \<lparr>bs_bytes = bs, bs_bits = length bs * 8\<rparr>"

subsection \<open>OBJECT IDENTIFIER\<close>

lemma parse_base128_shorter: "parse_base128 k v bs = Inr (t, r) \<Longrightarrow> length r < length bs"
  by (induction k v bs rule: parse_base128.induct)
    (auto simp: Let_def less_Suc_eq split: if_splits)

function oid_arcs :: "bytes \<Rightarrow> nat list res" where
  "oid_arcs bs =
     (if bs = [] then Inr []
      else (case parse_base128 0 0 bs of
              Inl e \<Rightarrow> Inl e
            | Inr (v, r) \<Rightarrow> rbind (oid_arcs r) (\<lambda>vs. Inr (v # vs))))"
  by pat_completeness auto
termination
  by (relation "measure length") (auto dest: parse_base128_shorter)

declare oid_arcs.simps [simp del]

definition parse_oid :: "bytes \<Rightarrow> nat list res" where
  "parse_oid bs =
     (if bs = [] then Inl (Err [] ''zero length OBJECT IDENTIFIER'')
      else rbind (parse_base128 0 0 bs) (\<lambda>(v, r).
        rbind (oid_arcs r) (\<lambda>vs.
          Inr ((if v < 80 then [v div 40, v mod 40] else [2, v - 80]) @ vs))))"

definition oid_bytes :: "nat list \<Rightarrow> bytes res" where
  "oid_bytes oid =
     (case oid of
        a # b # vs \<Rightarrow>
          if 2 < a \<or> a < 2 \<and> 40 \<le> b then Inl (Err [] ''invalid object identifier'')
          else Inr (base128 (a * 40 + b) @ concat (map base128 vs))
      | _ \<Rightarrow> Inl (Err [] ''invalid object identifier''))"

definition oid_ok :: "nat list \<Rightarrow> bool" where
  "oid_ok oid =
     (case oid of
        a # b # vs \<Rightarrow> a \<le> 2 \<and> (a < 2 \<longrightarrow> b < 40) \<and> a * 40 + b \<le> 2147483647
                      \<and> list_all (\<lambda>v. v \<le> 2147483647) vs
      | _ \<Rightarrow> False)"

subsection \<open>Round trips of the primitives\<close>

lemma base128_high_0 [simp]: "base128_high 0 = []"
  by (subst base128_high.simps) simp

lemma base128_high_pos:
  "0 < n \<Longrightarrow> base128_high n = base128_high (n div 128) @ [word_of_nat (128 + n mod 128)]"
  by (subst base128_high.simps) simp

lemma base128_high_Nil_iff [simp]: "base128_high n = [] \<longleftrightarrow> n = 0"
  by (subst base128_high.simps) simp

lemma length_base128_high: "n < 128 ^ k \<Longrightarrow> length (base128_high n) \<le> k"
proof (induction k arbitrary: n)
  case 0
  then show ?case by simp
next
  case (Suc k)
  show ?case
  proof (cases "n = 0")
    case False
    have "n div 128 < 128 ^ k"
      using Suc.prems by (simp add: less_mult_imp_div_less mult.commute)
    then have "length (base128_high (n div 128)) \<le> k" by (rule Suc.IH)
    with False show ?thesis by (simp add: base128_high_pos)
  qed simp
qed

lemma cont_byte:
  assumes "d < 128"
  shows "unat ((word_of_nat (128 + d) :: byte) AND 0x7f) = d"
    and "(word_of_nat (128 + d) :: byte) AND 0x80 \<noteq> 0"
    and "(word_of_nat (128 + d) :: byte) = 0x80 \<longleftrightarrow> d = 0"
proof -
  have u: "unat (word_of_nat (128 + d) :: byte) = 128 + d"
    using assms by (simp only: unat_byte_of_nat) simp
  show "unat ((word_of_nat (128 + d) :: byte) AND 0x7f) = d"
    using assms u by (simp add: byte_low7 del: of_nat_add)
  show "(word_of_nat (128 + d) :: byte) AND 0x80 \<noteq> 0"
    using u by (simp add: byte_high_bit del: of_nat_add)
  show "(word_of_nat (128 + d) :: byte) = 0x80 \<longleftrightarrow> d = 0"
    using u by (auto simp: word_unat_eq_iff simp del: of_nat_add)
qed

lemma parse_base128_high:
  assumes "n < 128 ^ 4"
  shows "parse_base128 0 0 (base128_high n @ xs) = parse_base128 (length (base128_high n)) n xs"
  using assms
proof (induction n arbitrary: xs rule: base128_high.induct)
  case (1 n)
  show ?case
  proof (cases "n = 0")
    case False
    let ?m = "n div 128" and ?b = "word_of_nat (128 + n mod 128) :: byte"
    have m: "?m < 128 ^ 3" using "1.prems" by (simp add: less_mult_imp_div_less)
    then have IH: "parse_base128 0 0 (base128_high ?m @ ?b # xs) =
        parse_base128 (length (base128_high ?m)) ?m (?b # xs)"
      using "1.IH" False by simp
    have len: "length (base128_high ?m) \<le> 3" using m by (rule length_base128_high)
    have nz: "\<not> (length (base128_high ?m) = 0 \<and> ?b = 0x80)"
      using cont_byte(3) [of "n mod 128"] False by (auto simp: div_eq_0_iff)
    have "?m * 128 + n mod 128 = n" by simp
    then have "parse_base128 (length (base128_high ?m)) ?m (?b # xs) =
        parse_base128 (Suc (length (base128_high ?m))) n xs"
      using nz len cont_byte(1,2) [of "n mod 128"] by (auto simp: Let_def simp del: of_nat_add)
    with IH False show ?thesis by (simp add: base128_high_pos)
  qed simp
qed

lemma parse_base128_base128:
  assumes "n \<le> 2147483647"
  shows "parse_base128 0 0 (base128 n @ xs) = Inr (n, xs)"
proof -
  let ?m = "n div 128" and ?b = "word_of_nat (n mod 128) :: byte"
  have m: "?m < 128 ^ 4" using assms by (simp add: less_mult_imp_div_less)
  have len: "length (base128_high ?m) \<le> 4" using m by (rule length_base128_high)
  have b: "unat ?b = n mod 128" by (simp only: unat_byte_of_nat) simp
  then have "unat (?b AND 0x7f) = n mod 128" "?b AND 0x80 = 0"
    by (simp_all add: byte_low7 byte_high_bit)
  moreover have "?b \<noteq> 0x80"
    using b by (auto simp: word_unat_eq_iff)
  ultimately have "parse_base128 (length (base128_high ?m)) ?m (?b # xs) = Inr (n, xs)"
    using len assms by (simp add: Let_def)
  then show ?thesis
    by (simp add: base128_def parse_base128_high [OF m])
qed

lemma base128_neq_Nil [simp]: "base128 n \<noteq> []"
  by (simp add: base128_def)

lemma oid_arcs_concat:
  "list_all (\<lambda>v. v \<le> 2147483647) vs \<Longrightarrow> oid_arcs (concat (map base128 vs)) = Inr vs"
proof (induction vs)
  case Nil
  then show ?case by (simp add: oid_arcs.simps)
next
  case (Cons v vs)
  then show ?case
    by (subst oid_arcs.simps) (simp add: parse_base128_base128)
qed

lemma parse_oid_oid_bytes:
  assumes "oid_ok oid" and "oid_bytes oid = Inr bs"
  shows "parse_oid bs = Inr oid"
proof -
  obtain a b vs where oid: "oid = a # b # vs"
    using assms(1) by (auto simp: oid_ok_def split: list.splits)
  then have bs: "bs = base128 (a * 40 + b) @ concat (map base128 vs)"
    and ab: "a \<le> 2" "a < 2 \<longrightarrow> b < 40" "a * 40 + b \<le> 2147483647"
    and vs: "list_all (\<lambda>v. v \<le> 2147483647) vs"
    using assms by (auto simp: oid_bytes_def oid_ok_def split: if_splits)
  have first: "(if a * 40 + b < 80 then [(a * 40 + b) div 40, (a * 40 + b) mod 40]
      else [2, a * 40 + b - 80]) = [a, b]"
  proof -
    consider "a = 0" | "a = 1" | "a = 2" using ab(1) by linarith
    then show ?thesis using ab(2) by cases auto
  qed
  show ?thesis
    using bs vs ab(3) first
    by (simp add: parse_oid_def parse_base128_base128 oid_arcs_concat oid del: map_append)
qed

lemma oid_ok_bytes: "oid_ok oid \<Longrightarrow> \<exists>bs. oid_bytes oid = Inr bs"
  by (auto simp: oid_ok_def oid_bytes_def split: list.splits)

lemma length_octets_be:
  "v < 2 ^ 31 \<Longrightarrow>
   length_octets (length (be_bytes v) + n) 0 (be_bytes v @ xs) = length_octets n v xs"
proof (induction v arbitrary: n xs rule: be_bytes.induct)
  case (1 v)
  show ?case
  proof (cases "v = 0")
    case False
    let ?m = "v div 256" and ?b = "word_of_nat v :: byte"
    have m: "?m < 2 ^ 23" using "1.prems" by (simp add: less_mult_imp_div_less)
    then have "length_octets (length (be_bytes ?m) + Suc n) 0 (be_bytes ?m @ ?b # xs) =
        length_octets (Suc n) ?m (?b # xs)"
      using "1.IH" [of "Suc n" "?b # xs"] False by simp
    also have "\<dots> = length_octets n v xs"
      using m False by (simp add: Let_def unat_byte_of_nat)
    finally show ?thesis using False by (simp add: be_bytes_pos)
  qed simp
qed

lemma parse_length_marshalLength:
  assumes "l < 2 ^ 31"
  shows "parse_length (marshalLength l @ rest) = Inr (l, rest)"
proof (cases "l < 128")
  case True
  then show ?thesis
    by (simp add: marshalLength_def parse_length_def byte_arith)
next
  case False
  have n: "0 < length (be_bytes l)" "length (be_bytes l) \<le> 8"
    using False assms length_be_bytes_127 [of l] by simp_all
  have "length_octets (length (be_bytes l)) 0 (be_bytes l @ rest) = Inr (l, rest)"
    using length_octets_be [OF assms, of 0 rest] by simp
  then show ?thesis
    using False long_form_byte [OF n] n(1)
    by (simp add: marshalLength_def parse_length_def Let_def)
qed

lemma header_byte_fields:
  fixes cls tag :: nat and cons :: bool
  assumes "cls < 4" "tag < 31"
  defines "b \<equiv> word_of_nat (cls * 64 + (if cons then 32 else 0) + tag) :: byte"
  shows "unat (b AND 0x1f) = tag" and "(b AND 0x20 = 0) = (\<not> cons)"
    and "unat (drop_bit 6 b) = cls"
proof -
  have u: "unat b = cls * 64 + (if cons then 32 else 0) + tag"
    using assms by (simp add: unat_byte_of_nat del: of_nat_add of_nat_mult)
  let ?k = "cls * 2 + (if cons then 1 else 0)"
  have "unat b = 32 * ?k + tag" using u by simp
  then have "unat b div 32 = ?k" "unat b mod 32 = tag"
    using assms(2) by (simp_all only: mod_mult_self4 div_mult_self4) simp_all
  moreover have "unat b div 64 = ?k div 2"
    using \<open>unat b div 32 = ?k\<close> div_mult2_eq [of "unat b" 32 2] by simp
  ultimately show "unat (b AND 0x1f) = tag" and "(b AND 0x20 = 0) = (\<not> cons)"
    and "unat (drop_bit 6 b) = cls"
    by (auto simp: byte_arith)
qed
lemma parse_header_header_bytes:
  assumes "cls < 4" "tag < 31" "len < 2 ^ 31"
  shows "parse_header (header_bytes cls cons tag len @ rest) =
    Inr (\<lparr>h_class = cls, h_compound = cons, h_tag = tag, h_len = len\<rparr>, rest)"
  using header_byte_fields [OF assms(1,2), of cons] assms(2)
  by (simp add: parse_header_def header_bytes_def Let_def parse_length_marshalLength [OF assms(3)]
      del: of_nat_add of_nat_mult)

lemma parse_length_shorter: "parse_length bs = Inr (l, r) \<Longrightarrow> length r < length bs"
proof -
  have octets: "length_octets n k xs = Inr (l, r) \<Longrightarrow> length r \<le> length xs" for n k xs
    by (induction n k xs rule: length_octets.induct) (auto simp: Let_def split: if_splits)
  assume "parse_length bs = Inr (l, r)"
  then show ?thesis
    by (auto simp: parse_length_def go_inv less_Suc_eq_le split: list.splits if_splits
        dest: octets)
qed

lemma parse_header_shorter: "parse_header bs = Inr (t, r) \<Longrightarrow> length r < length bs"
  by (fastforce simp: parse_header_def go_inv split: list.splits if_splits
      dest: parse_length_shorter parse_base128_shorter)

lemma header_bytes_neq_Nil [simp]: "header_bytes cls cons tag len \<noteq> []"
  by (simp add: header_bytes_def Let_def)

lemma tlv_neq_Nil [simp]: "tlv cls cons tag body \<noteq> []"
  by (simp add: tlv_def)

lemma length_tlv_body: "length body \<le> length (tlv cls cons tag body)"
  by (simp add: tlv_def)

lemma int_value_snoc: "bs \<noteq> [] \<Longrightarrow> int_value (bs @ [b]) = int_value bs * 256 + uint b"
  by (cases bs) (simp_all add: int_value_def)

lemma uint_byte_of_int: "uint (word_of_int i :: byte) = i mod 256"
  by (simp add: unsigned_of_int take_bit_eq_mod)

lemma int_bytes_neq_Nil [simp]: "int_bytes i \<noteq> []"
  by (subst int_bytes.simps) simp

lemma mod_256_signed:
  assumes "- 128 \<le> j" "j \<le> (127 :: int)"
  shows "j mod 256 = (if j < 0 then j + 256 else j)"
proof (cases "j < 0")
  case True
  have "j mod 256 = (j + 256) mod 256" by simp
  also have "\<dots> = j + 256" using True assms by (intro mod_pos_pos_trivial) simp_all
  finally show ?thesis using True by simp
next
  case False
  then show ?thesis using assms by (simp add: mod_pos_pos_trivial)
qed

lemma int_value_int_bytes: "int_value (int_bytes i) = i"
proof (induction i rule: int_bytes.induct)
  case (1 i)
  show ?case
  proof (cases "- 128 \<le> i \<and> i \<le> 127")
    case True
    have "i mod 256 = (if i < 0 then i + 256 else i)"
      using True mod_256_signed by blast
    moreover have "unat (word_of_int i :: byte) = nat (i mod 256)"
      by (simp add: unat_eq_nat_uint uint_byte_of_int)
    ultimately show ?thesis
      using True
      by (subst int_bytes.simps) (auto simp: int_value_def byte_high_bit uint_byte_of_int)
  next
    case False
    with "1.IH" show ?thesis
      by (subst int_bytes.simps) (simp add: int_value_snoc uint_byte_of_int False)
  qed
qed

lemma int_bytes_wide:
  "\<not> (- 128 \<le> i \<and> i \<le> 127) \<Longrightarrow> int_bytes i = int_bytes (i div 256) @ [word_of_int i]"
  by (subst int_bytes.simps) simp

lemma int_bytes_narrow: "- 128 \<le> i \<Longrightarrow> i \<le> 127 \<Longrightarrow> int_bytes i = [word_of_int i]"
  by (subst int_bytes.simps) simp

text \<open>The encoding is minimal, which is what \<open>checkInteger\<close> asks for.\<close>

lemma check_integer_append:
  "check_integer (b0 # b1 # bs) = Inr () \<Longrightarrow> check_integer (b0 # b1 # bs @ cs) = Inr ()"
  by (simp add: check_integer_def)

lemma byte_of_int_eq: "(word_of_int j :: byte) = word_of_int l \<longleftrightarrow> j mod 256 = l mod 256"
  by (simp add: word_of_int_eq_iff take_bit_eq_mod)

lemma byte_of_int_eq_0: "- 128 \<le> j \<Longrightarrow> j \<le> 127 \<Longrightarrow> (word_of_int j :: byte) = 0 \<longleftrightarrow> j = 0"
  using byte_of_int_eq [of j 0] mod_256_signed [of j] by simp

lemma byte_of_int_eq_255:
  "- 128 \<le> j \<Longrightarrow> j \<le> 127 \<Longrightarrow> (word_of_int j :: byte) = 0xff \<longleftrightarrow> j = - 1"
  using byte_of_int_eq [of j 255] mod_256_signed [of j] by (auto split: if_splits)

lemma check_integer_int_bytes: "check_integer (int_bytes i) = Inr ()"
proof (induction i rule: int_bytes.induct)
  case (1 i)
  show ?case
  proof (cases "- 128 \<le> i \<and> i \<le> 127")
    case True
    then show ?thesis by (simp add: int_bytes_narrow check_integer_def)
  next
    case wide: False
    let ?j = "i div 256" and ?b = "word_of_int i :: byte"
    have b: "unat ?b = nat (i mod 256)"
      by (simp add: unat_eq_nat_uint uint_byte_of_int)
    show ?thesis
    proof (cases "- 128 \<le> ?j \<and> ?j \<le> 127")
      case True
      have "(word_of_int ?j :: byte) = 0 \<longleftrightarrow> ?j = 0" "(word_of_int ?j :: byte) = 0xff \<longleftrightarrow> ?j = - 1"
        using True by (simp_all add: byte_of_int_eq_0 byte_of_int_eq_255)
      moreover have "?j = 0 \<Longrightarrow> \<not> i mod 256 < 128" "?j = - 1 \<Longrightarrow> i mod 256 < 128"
        using wide by presburger+
      ultimately show ?thesis
        using wide True b
        by (auto simp: int_bytes_wide int_bytes_narrow check_integer_def byte_high_bit nat_less_iff)
    next
      case False
      then have "int_bytes ?j = int_bytes (?j div 256) @ [word_of_int ?j]"
        by (rule int_bytes_wide)
      then obtain b0 b1 bs where "int_bytes ?j = b0 # b1 # bs"
        by (cases "int_bytes (?j div 256)"; cases "tl (int_bytes (?j div 256))") auto
      then show ?thesis
        using "1.IH" wide by (simp add: int_bytes_wide check_integer_append)
    qed
  qed
qed

lemma length_int_bytes:
  "- (128 * 256 ^ n) \<le> i \<Longrightarrow> i < 128 * 256 ^ n \<Longrightarrow> length (int_bytes i) \<le> Suc n"
proof (induction n arbitrary: i)
  case 0
  then show ?case by (simp add: int_bytes_narrow)
next
  case (Suc n)
  show ?case
  proof (cases "- 128 \<le> i \<and> i \<le> 127")
    case True
    then show ?thesis by (simp add: int_bytes_narrow)
  next
    case False
    have "- (128 * 256 ^ n) \<le> i div 256" "i div 256 < 128 * 256 ^ n"
      using Suc.prems by simp_all
    then have "length (int_bytes (i div 256)) \<le> Suc n" by (rule Suc.IH)
    with False show ?thesis by (simp add: int_bytes_wide)
  qed
qed

lemma parse_bigint_int_bytes [simp]: "parse_bigint (int_bytes i) = Inr i"
  by (simp add: parse_bigint_def check_integer_int_bytes int_value_int_bytes)

lemma parse_int64_int_bytes:
  "- (2 ^ 63) \<le> i \<Longrightarrow> i < 2 ^ 63 \<Longrightarrow> parse_int64 (int_bytes i) = Inr i"
  using length_int_bytes [of 7 i]
  by (simp add: parse_int64_def check_integer_int_bytes int_value_int_bytes)

lemma parse_int32_int_bytes:
  "- (2 ^ 31) \<le> i \<Longrightarrow> i < 2 ^ 31 \<Longrightarrow> parse_int32 (int_bytes i) = Inr i"
  by (simp add: parse_int32_def parse_int64_int_bytes)

lemma parse_bool_bool_bytes [simp]: "parse_bool (bool_bytes b) = Inr b"
  by (simp add: parse_bool_def bool_bytes_def)

lemma parse_bit_string_octet_bits [simp]:
  "parse_bit_string (bit_string_bytes (octet_bits bs)) = Inr (octet_bits bs)"
  by (simp add: parse_bit_string_def bit_string_bytes_def octet_bits_def)

subsection \<open>Sizes\<close>

lemma length_tlv_le:
  assumes "tag < 31" "length body < 2 ^ 31"
  shows "length (tlv cls cons tag body) \<le> length body + 6"
proof -
  have "length (be_bytes (length body)) \<le> 4"
    using assms(2) by (intro length_be_bytes) simp
  then show ?thesis
    using assms(1) by (simp add: tlv_def header_bytes_def marshalLength_def Let_def)
qed

lemma length_base128: "n \<le> 2147483647 \<Longrightarrow> length (base128 n) \<le> 5"
proof -
  assume "n \<le> 2147483647"
  then have "n div 128 < 128 ^ 4" by (simp add: less_mult_imp_div_less)
  then have "length (base128_high (n div 128)) \<le> 4" by (rule length_base128_high)
  then show ?thesis by (simp add: base128_def)
qed

lemma length_oid_bytes:
  assumes "oid_ok oid" "oid_bytes oid = Inr bs"
  shows "length bs \<le> 5 * length oid"
proof -
  obtain a b vs where oid: "oid = a # b # vs"
    using assms(1) by (auto simp: oid_ok_def split: list.splits)
  have "list_all (\<lambda>v. v \<le> 2147483647) vs \<Longrightarrow> length (concat (map base128 vs)) \<le> 5 * length vs"
    by (induction vs) (auto dest!: length_base128)
  then show ?thesis
    using assms oid length_base128 [of "a * 40 + b"]
    by (auto simp: oid_ok_def oid_bytes_def split: if_splits)
qed

end
