(* ===== verification/Asn1_Fields.thy ===== *)
theory Asn1_Fields
  imports Asn1
begin

section \<open>encoding/asn1: struct fields, slices and the codec contract\<close>

text \<open>
  \<open>parseField\<close> and \<open>makeField\<close> of \<open>encoding/asn1\<close>, with the field parameters that the
  struct tags of \<open>pqx509\<close> use (\<open>optional\<close>, \<open>explicit\<close>, \<open>tag:n\<close>, \<open>set\<close>). The Go
  functions switch on the reflected type of the field; here the type is an argument: its
  universal tag and the function that reads its contents octets.
  The offset of the Go code is the list of the bytes that remain of the enclosing value.

  The locale \<open>asn1_codec\<close> is the contract between a marshalled type and its callers: what
  was marshalled is read back, whatever follows it. \<open>asn1_element\<close> adds what a slice
  element needs. Each type of the program interprets one of them.
\<close>

record field_params =
  p_optional :: bool
  p_explicit :: bool
  p_tag :: "nat option"
  p_set :: bool

definition no_params :: field_params where
  "no_params = \<lparr>p_optional = False, p_explicit = False, p_tag = None, p_set = False\<rparr>"

definition optional_params :: field_params where
  "optional_params = no_params\<lparr>p_optional := True\<rparr>"

definition explicit_tag :: "nat \<Rightarrow> field_params" where
  "explicit_tag n = \<lparr>p_optional = True, p_explicit = True, p_tag = Some n, p_set = False\<rparr>"

definition implicit_tag :: "nat \<Rightarrow> field_params" where
  "implicit_tag n = no_params\<lparr>p_tag := Some n\<rparr>"

datatype utype = AnyType | Univ nat bool

text \<open>\<open>setDefaultValue\<close>: an optional field that is absent keeps the value it has.\<close>

definition default_or :: "field_params \<Rightarrow> 'a \<Rightarrow> string \<Rightarrow> bytes \<Rightarrow> ('a \<times> bytes) res" where
  "default_or p d m bs = (if p_optional p then Inr (d, bs) else Inl (Err [] m))"

definition field_mismatch :: "field_params \<Rightarrow> utype \<Rightarrow> header \<Rightarrow> bool" where
  "field_mismatch p u t =
     (let implicit = \<not> p_explicit p \<and> p_tag p \<noteq> None;
          expectedClass = (if implicit then 2 else 0) in
      case u of
        AnyType \<Rightarrow> implicit \<and> (h_class t \<noteq> expectedClass \<or> Some (h_tag t) \<noteq> p_tag p)
      | Univ tag compoundType \<Rightarrow>
          (let expectedTag = (if implicit then the (p_tag p) else if p_set p then 17 else tag) in
           h_class t \<noteq> expectedClass \<or> h_tag t \<noteq> expectedTag \<or> h_compound t \<noteq> compoundType))"

definition field_contents ::
  "field_params \<Rightarrow> utype \<Rightarrow> (header \<Rightarrow> bytes \<Rightarrow> bytes \<Rightarrow> 'a res) \<Rightarrow> 'a \<Rightarrow> bytes \<Rightarrow> header \<Rightarrow> bytes
   \<Rightarrow> ('a \<times> bytes) res" where
  "field_contents p u body d bs t r =
     (if field_mismatch p u t then default_or p d ''tags don't match'' bs
      else if length r < h_len t then Inl (Err [] ''data truncated'')
      else
        (let inner = take (h_len t) r; rest = drop (h_len t) r;
             full = take (length bs - length rest) bs in
         rbind (body t inner full) (\<lambda>v. Inr (v, rest))))"

definition parse_field ::
  "field_params \<Rightarrow> utype \<Rightarrow> (header \<Rightarrow> bytes \<Rightarrow> bytes \<Rightarrow> 'a res) \<Rightarrow> 'a \<Rightarrow> bytes \<Rightarrow> ('a \<times> bytes) res" where
  "parse_field p u body d bs =
     (if bs = [] then default_or p d ''sequence truncated'' bs
      else rbind (parse_header bs) (\<lambda>(t, r).
        if \<not> p_explicit p then field_contents p u body d bs t r
        else if r = [] then Inl (Err [] ''explicit tag has no child'')
        else if h_class t = 2 \<and> Some (h_tag t) = p_tag p \<and> (h_len t = 0 \<or> h_compound t)
        then
          (if u = AnyType then field_contents p u body d bs t r
           else if 0 < h_len t
           then rbind (parse_header r) (\<lambda>(t', r'). field_contents p u body d bs t' r')
           else Inl (Err [] ''zero length explicit tag was not an asn1.Flag''))
        else default_or p d ''explicitly tagged member didn't match'' bs))"

text \<open>\<open>makeField\<close>, once the omission of optional zero values has been decided.\<close>

definition make_field :: "field_params \<Rightarrow> nat \<Rightarrow> bool \<Rightarrow> bytes \<Rightarrow> bytes" where
  "make_field p tag cons body =
     (let utag = (if p_set p then 17 else tag) in
      case p_tag p of
        None \<Rightarrow> tlv 0 cons utag body
      | Some n \<Rightarrow>
          if p_explicit p then tlv 2 True n (tlv 0 cons utag body) else tlv 2 cons n body)"

subsection \<open>Reading what makeField wrote\<close>

lemma parse_header_tlv:
  assumes "cls < 4" "tag < 31" "length body < 2 ^ 31"
  shows "parse_header (tlv cls cons tag body @ rest) =
    Inr (\<lparr>h_class = cls, h_compound = cons, h_tag = tag, h_len = length body\<rparr>, body @ rest)"
  using parse_header_header_bytes [OF assms, of cons "body @ rest"] by (simp add: tlv_def)

lemma field_contents_tlv:
  assumes "\<not> field_mismatch p u
      \<lparr>h_class = cls, h_compound = cons, h_tag = tag, h_len = length body\<rparr>"
  shows "field_contents p u f d (pre @ body @ rest)
      \<lparr>h_class = cls, h_compound = cons, h_tag = tag, h_len = length body\<rparr> (body @ rest) =
    rbind (f \<lparr>h_class = cls, h_compound = cons, h_tag = tag, h_len = length body\<rparr> body (pre @ body))
      (\<lambda>v. Inr (v, rest))"
  using assms by (simp add: field_contents_def Let_def)

lemma parse_field_plain:
  assumes "tag < 31" "length body < 2 ^ 31" "\<not> p_explicit p" "p_tag p = None" "\<not> p_set p"
  shows "parse_field p (Univ tag cons) f d (tlv 0 cons tag body @ rest) =
    rbind (f \<lparr>h_class = 0, h_compound = cons, h_tag = tag, h_len = length body\<rparr> body
        (tlv 0 cons tag body)) (\<lambda>v. Inr (v, rest))"
proof -
  let ?t = "\<lparr>h_class = 0, h_compound = cons, h_tag = tag, h_len = length body\<rparr>"
  have "\<not> field_mismatch p (Univ tag cons) ?t"
    using assms by (simp add: field_mismatch_def Let_def)
  then show ?thesis
    using assms field_contents_tlv [of p "Univ tag cons" 0 cons tag body f d
        "header_bytes 0 cons tag (length body)" rest]
    by (simp add: parse_field_def parse_header_tlv) (simp add: tlv_def)
qed

lemma parse_field_any:
  assumes "cls < 4" "tag < 31" "length body < 2 ^ 31" "\<not> p_explicit p" "p_tag p = None"
  shows "parse_field p AnyType f d (tlv cls cons tag body @ rest) =
    rbind (f \<lparr>h_class = cls, h_compound = cons, h_tag = tag, h_len = length body\<rparr> body
        (tlv cls cons tag body)) (\<lambda>v. Inr (v, rest))"
proof -
  let ?t = "\<lparr>h_class = cls, h_compound = cons, h_tag = tag, h_len = length body\<rparr>"
  have "\<not> field_mismatch p AnyType ?t"
    using assms by (simp add: field_mismatch_def Let_def)
  then show ?thesis
    using assms field_contents_tlv [of p AnyType cls cons tag body f d
        "header_bytes cls cons tag (length body)" rest]
    by (simp add: parse_field_def parse_header_tlv) (simp add: tlv_def)
qed

lemma parse_field_implicit:
  assumes "n < 31" "length body < 2 ^ 31" "\<not> p_explicit p" "p_tag p = Some n"
  shows "parse_field p (Univ tag cons) f d (tlv 2 cons n body @ rest) =
    rbind (f \<lparr>h_class = 2, h_compound = cons, h_tag = n, h_len = length body\<rparr> body
        (tlv 2 cons n body)) (\<lambda>v. Inr (v, rest))"
proof -
  let ?t = "\<lparr>h_class = 2, h_compound = cons, h_tag = n, h_len = length body\<rparr>"
  have "\<not> field_mismatch p (Univ tag cons) ?t"
    using assms by (simp add: field_mismatch_def Let_def)
  then show ?thesis
    using assms field_contents_tlv [of p "Univ tag cons" 2 cons n body f d
        "header_bytes 2 cons n (length body)" rest]
    by (simp add: parse_field_def parse_header_tlv) (simp add: tlv_def)
qed

lemma parse_field_explicit:
  assumes "n < 31" "tag < 31" "length (tlv 0 cons tag body) < 2 ^ 31"
    and "p_explicit p" "p_tag p = Some n" "\<not> p_set p"
  shows "parse_field p (Univ tag cons) f d (tlv 2 True n (tlv 0 cons tag body) @ rest) =
    rbind (f \<lparr>h_class = 0, h_compound = cons, h_tag = tag, h_len = length body\<rparr> body
        (tlv 2 True n (tlv 0 cons tag body))) (\<lambda>v. Inr (v, rest))"
proof -
  let ?t = "\<lparr>h_class = 0, h_compound = cons, h_tag = tag, h_len = length body\<rparr>"
  let ?in = "tlv 0 cons tag body"
  have l: "length body < 2 ^ 31"
    using assms(3) length_tlv_body [of body 0 cons tag] by linarith
  have "\<not> field_mismatch p (Univ tag cons) ?t"
    using assms by (simp add: field_mismatch_def Let_def)
  then show ?thesis
    using assms field_contents_tlv [of p "Univ tag cons" 0 cons tag body f d
        "header_bytes 2 True n (length ?in) @ header_bytes 0 cons tag (length body)" rest]
      parse_header_header_bytes [of 0 tag "length body" cons "body @ rest"] l
    by (simp add: parse_field_def parse_header_tlv) (simp add: tlv_def)
qed

lemma parse_field_absent [simp]:
  "p_optional p \<Longrightarrow> parse_field p u f d [] = Inr (d, [])"
  by (simp add: parse_field_def default_or_def)

lemma parse_field_skip:
  assumes "cls < 4" "tag < 31" "length body < 2 ^ 31" "p_optional p" "\<not> p_explicit p"
    and "field_mismatch p u \<lparr>h_class = cls, h_compound = cons, h_tag = tag, h_len = length body\<rparr>"
  shows "parse_field p u f d (tlv cls cons tag body @ rest) =
    Inr (d, tlv cls cons tag body @ rest)"
  using assms by (simp add: parse_field_def parse_header_tlv field_contents_def default_or_def)

subsection \<open>SEQUENCE OF\<close>

definition element_mismatch :: "utype \<Rightarrow> header \<Rightarrow> bool" where
  "element_mismatch u t =
     (case u of
        AnyType \<Rightarrow> False
      | Univ tag cons \<Rightarrow> h_class t \<noteq> 0 \<or> h_compound t \<noteq> cons \<or> h_tag t \<noteq> tag)"

function count_elements :: "utype \<Rightarrow> bytes \<Rightarrow> nat res" where
  "count_elements u bs =
     (if bs = [] then Inr 0
      else (case parse_header bs of
              Inl e \<Rightarrow> Inl e
            | Inr (t, r) \<Rightarrow>
                if element_mismatch u t then Inl (Err [] ''sequence tag mismatch'')
                else if length r < h_len t then Inl (Err [] ''truncated sequence'')
                else rbind (count_elements u (drop (h_len t) r)) (\<lambda>n. Inr (Suc n))))"
  by pat_completeness auto
termination
  by (relation "measure (\<lambda>(u, bs). length bs)") (auto dest!: parse_header_shorter)

declare count_elements.simps [simp del]

fun parse_elements :: "nat \<Rightarrow> (bytes \<Rightarrow> ('a \<times> bytes) res) \<Rightarrow> bytes \<Rightarrow> 'a list res" where
  "parse_elements 0 dec bs = Inr []"
| "parse_elements (Suc n) dec bs =
     rbind (dec bs) (\<lambda>(x, r). rbind (parse_elements n dec r) (\<lambda>xs. Inr (x # xs)))"

definition parse_sequence_of :: "utype \<Rightarrow> (bytes \<Rightarrow> ('a \<times> bytes) res) \<Rightarrow> bytes \<Rightarrow> 'a list res" where
  "parse_sequence_of u dec bs = rbind (count_elements u bs) (\<lambda>n. parse_elements n dec bs)"

subsection \<open>The contract of a marshalled type\<close>

locale asn1_codec =
  fixes enc :: "'a \<Rightarrow> bytes res"
    and dec :: "bytes \<Rightarrow> ('a \<times> bytes) res"
    and ok :: "'a \<Rightarrow> bool"
  assumes dec_enc: "ok x \<Longrightarrow> enc x = Inr bs \<Longrightarrow> length bs < 2 ^ 31 \<Longrightarrow> dec (bs @ rest) = Inr (x, rest)"
begin

lemma dec_enc_all:
  assumes "ok x" "enc x = Inr bs" "length bs < 2 ^ 31"
  shows "dec bs = Inr (x, [])"
  using dec_enc [OF assms, of "[]"] by simp

lemma enc_injective:
  assumes "ok x" "ok y" "enc x = Inr bs" "enc y = Inr bs" "length bs < 2 ^ 31"
  shows "x = y"
  using dec_enc_all [of x bs] dec_enc_all [of y bs] assms by simp

lemma enc_prefix_free:
  assumes "ok x" "ok y" "enc x = Inr bs" "enc y = Inr (bs @ cs)" "length (bs @ cs) < 2 ^ 31"
  shows "cs = []"
  using dec_enc [of x bs cs] dec_enc_all [of y "bs @ cs"] assms by simp

lemma parse_elements_enc:
  assumes "list_all2 (\<lambda>x bs. enc x = Inr bs) xs bss" "list_all ok xs"
    and "length (concat bss) < 2 ^ 31"
  shows "parse_elements (length bss) dec (concat bss @ rest) = Inr xs"
  using assms
proof (induction xs bss rule: list_all2_induct)
  case Nil
  then show ?case by simp
next
  case (Cons x xs bs bss)
  have "dec (bs @ concat bss @ rest) = Inr (x, concat bss @ rest)"
    using Cons by (intro dec_enc) simp_all
  with Cons show ?case by simp
qed

end

locale asn1_element = asn1_codec +
  fixes u :: utype
  assumes enc_tlv: "ok x \<Longrightarrow> enc x = Inr bs \<Longrightarrow>
    \<exists>cls cons tag body. bs = tlv cls cons tag body \<and> cls < 4 \<and> tag < 31 \<and>
      (\<forall>len. \<not> element_mismatch u \<lparr>h_class = cls, h_compound = cons, h_tag = tag, h_len = len\<rparr>)"
begin

lemma count_elements_enc:
  assumes "list_all2 (\<lambda>x bs. enc x = Inr bs) xs bss" "list_all ok xs"
    and "length (concat bss) < 2 ^ 31"
  shows "count_elements u (concat bss) = Inr (length bss)"
  using assms
proof (induction xs bss rule: list_all2_induct)
  case Nil
  then show ?case by (simp add: count_elements.simps)
next
  case (Cons x xs bs bss)
  obtain cls cons tag body where b: "bs = tlv cls cons tag body" "cls < 4" "tag < 31"
    and m: "\<And>len. \<not> element_mismatch u \<lparr>h_class = cls, h_compound = cons, h_tag = tag, h_len = len\<rparr>"
    using enc_tlv [of x bs] Cons by auto
  have "length body < 2 ^ 31"
    using Cons.prems b(1) length_tlv_body [of body cls cons tag] by simp
  with b m Cons show ?case
    by (subst count_elements.simps) (simp add: parse_header_tlv)
qed

theorem parse_sequence_of_enc:
  assumes "rmap enc xs = Inr bss" "list_all ok xs" "length (concat bss) < 2 ^ 31"
  shows "parse_sequence_of u dec (concat bss) = Inr xs"
  using assms count_elements_enc [of xs bss] parse_elements_enc [of xs bss "[]"]
  by (simp add: parse_sequence_of_def rmap_Inr_iff)

end

subsection \<open>Basic field types\<close>

definition parse_int :: "field_params \<Rightarrow> int \<Rightarrow> bytes \<Rightarrow> (int \<times> bytes) res" where
  "parse_int p = parse_field p (Univ 2 False) (\<lambda>t inner full. parse_int64 inner)"

definition parse_big :: "bytes \<Rightarrow> (int \<times> bytes) res" where
  "parse_big = parse_field no_params (Univ 2 False) (\<lambda>t inner full. parse_bigint inner) 0"

definition parse_enumerated :: "bytes \<Rightarrow> (int \<times> bytes) res" where
  "parse_enumerated = parse_field no_params (Univ 10 False) (\<lambda>t inner full. parse_int32 inner) 0"

definition parse_boolean :: "field_params \<Rightarrow> bytes \<Rightarrow> (bool \<times> bytes) res" where
  "parse_boolean p = parse_field p (Univ 1 False) (\<lambda>t inner full. parse_bool inner) False"

definition parse_object_id :: "bytes \<Rightarrow> (nat list \<times> bytes) res" where
  "parse_object_id = parse_field no_params (Univ 6 False) (\<lambda>t inner full. parse_oid inner) []"

definition parse_bits :: "bytes \<Rightarrow> (bit_string \<times> bytes) res" where
  "parse_bits = parse_field no_params (Univ 3 False) (\<lambda>t inner full. parse_bit_string inner)
     \<lparr>bs_bytes = [], bs_bits = 0\<rparr>"

definition parse_octets :: "field_params \<Rightarrow> bytes \<Rightarrow> (bytes \<times> bytes) res" where
  "parse_octets p = parse_field p (Univ 4 False) (\<lambda>t inner full. Inr inner) []"

record raw_value =
  rv_class :: nat
  rv_tag :: nat
  rv_compound :: bool
  rv_bytes :: bytes
  rv_full :: bytes

definition zero_raw :: raw_value where
  "zero_raw = \<lparr>rv_class = 0, rv_tag = 0, rv_compound = False, rv_bytes = [], rv_full = []\<rparr>"

definition raw_of :: "nat \<Rightarrow> bool \<Rightarrow> nat \<Rightarrow> bytes \<Rightarrow> raw_value" where
  "raw_of cls cons tag body =
     \<lparr>rv_class = cls, rv_tag = tag, rv_compound = cons, rv_bytes = body,
      rv_full = tlv cls cons tag body\<rparr>"

definition parse_raw :: "field_params \<Rightarrow> bytes \<Rightarrow> (raw_value \<times> bytes) res" where
  "parse_raw p = parse_field p AnyType (\<lambda>t inner full.
     Inr \<lparr>rv_class = h_class t, rv_tag = h_tag t, rv_compound = h_compound t,
          rv_bytes = inner, rv_full = full\<rparr>) zero_raw"

definition marshal_raw :: "raw_value \<Rightarrow> bytes" where
  "marshal_raw rv =
     (if rv_full rv \<noteq> [] then rv_full rv
      else tlv (rv_class rv) (rv_compound rv) (rv_tag rv) (rv_bytes rv))"

definition parse_struct ::
  "field_params \<Rightarrow> (bytes \<Rightarrow> 'a res) \<Rightarrow> 'a \<Rightarrow> bytes \<Rightarrow> ('a \<times> bytes) res" where
  "parse_struct p contents = parse_field p (Univ 16 True) (\<lambda>t inner full. contents inner)"

definition parse_slice ::
  "field_params \<Rightarrow> utype \<Rightarrow> (bytes \<Rightarrow> ('a \<times> bytes) res) \<Rightarrow> bytes \<Rightarrow> ('a list \<times> bytes) res" where
  "parse_slice p u dec = parse_field p (Univ (if p_set p then 17 else 16) True)
     (\<lambda>t inner full. parse_sequence_of u dec inner) []"

lemmas params_defs = no_params_def optional_params_def explicit_tag_def implicit_tag_def

lemma raw_sel [simp]:
  "rv_full (raw_of cls cons tag body) = tlv cls cons tag body"
  "rv_bytes (raw_of cls cons tag body) = body"
  "rv_tag (raw_of cls cons tag body) = tag"
  "marshal_raw (raw_of cls cons tag body) = tlv cls cons tag body"
  by (simp_all add: raw_of_def marshal_raw_def)

lemma parse_raw_tlv:
  assumes "cls < 4" "tag < 31" "length body < 2 ^ 31" "\<not> p_explicit p" "p_tag p = None"
  shows "parse_raw p (tlv cls cons tag body @ rest) = Inr (raw_of cls cons tag body, rest)"
  using assms by (simp add: parse_raw_def parse_field_any raw_of_def)

lemma parse_struct_tlv:
  assumes "length body < 2 ^ 31"
  shows "parse_struct no_params f d (tlv 0 True 16 body @ rest) = rbind (f body) (\<lambda>v. Inr (v, rest))"
  using assms by (simp add: parse_struct_def parse_field_plain params_defs)

lemma parse_slice_tlv:
  assumes "length body < 2 ^ 31"
  shows "parse_slice no_params u dec (tlv 0 True 16 body @ rest) =
    rbind (parse_sequence_of u dec body) (\<lambda>v. Inr (v, rest))"
  using assms by (simp add: parse_slice_def parse_field_plain params_defs)

text \<open>Raw values are their own codec, as long as the header is in short form.\<close>

definition raw_ok :: "raw_value \<Rightarrow> bool" where
  "raw_ok rv = (rv_class rv < 4 \<and> rv_tag rv < 31
     \<and> rv = raw_of (rv_class rv) (rv_compound rv) (rv_tag rv) (rv_bytes rv))"

lemma raw_ok_raw_of: "cls < 4 \<Longrightarrow> tag < 31 \<Longrightarrow> raw_ok (raw_of cls cons tag body)"
  by (simp add: raw_ok_def raw_of_def)

lemma raw_okE:
  assumes "raw_ok rv"
  obtains cls cons tag body where "rv = raw_of cls cons tag body" "cls < 4" "tag < 31"
  using assms unfolding raw_ok_def by metis

interpretation raw_codec: asn1_element "\<lambda>rv. Inr (marshal_raw rv)" "parse_raw no_params" raw_ok AnyType
proof
  fix rv bs rest
  assume rv: "raw_ok rv" "Inr (marshal_raw rv) = (Inr bs :: bytes res)" "length bs < 2 ^ 31"
  obtain cls cons tag body where r: "rv = raw_of cls cons tag body" "cls < 4" "tag < 31"
    using raw_okE [OF rv(1)] .
  moreover have "length body < 2 ^ 31"
    using rv(2,3) r(1) length_tlv_body [of body cls cons tag] by auto
  ultimately show "parse_raw no_params (bs @ rest) = Inr (rv, rest)"
    using rv(2) parse_raw_tlv [of cls tag body no_params cons rest] by (auto simp: params_defs)
next
  fix rv bs
  assume rv: "raw_ok rv" "Inr (marshal_raw rv) = (Inr bs :: bytes res)"
  obtain cls cons tag body where r: "rv = raw_of cls cons tag body" "cls < 4" "tag < 31"
    using raw_okE [OF rv(1)] .
  then show "\<exists>cls cons tag body. bs = tlv cls cons tag body \<and> cls < 4 \<and> tag < 31 \<and>
      (\<forall>len. \<not> element_mismatch AnyType
        \<lparr>h_class = cls, h_compound = cons, h_tag = tag, h_len = len\<rparr>)"
    using rv(2) by (intro exI [of _ cls] exI [of _ cons] exI [of _ tag] exI [of _ body])
      (simp add: element_mismatch_def)
qed

lemma rmap_total: "rmap (\<lambda>x. Inr (f x)) xs = Inr (map f xs)"
  by (induction xs) simp_all

end
