(* ===== verification/Go_Strings.thy ===== *)
theory Go_Strings
  imports Prelude "HOL-Library.Char_ord" "HOL-Library.Sublist"
begin

section \<open>The parts of Go's packages strings, strconv and hex that pqtrust calls\<close>

text \<open>
  Strings are byte sequences. Where a function of package \<open>strings\<close> works on Unicode code
  points, the model works on their UTF-8 encodings: a code point at the start (end) of a string
  is a prefix (suffix) equal to its encoding.
\<close>

subsection \<open>Case\<close>

definition lower_char :: "char \<Rightarrow> char" where
  "lower_char c =
     (if CHR ''A'' \<le> c \<and> c \<le> CHR ''Z''
      then Char (digit0 c) (digit1 c) (digit2 c) (digit3 c) (digit4 c) True (digit6 c) (digit7 c)
      else c)"

definition upper_char :: "char \<Rightarrow> char" where
  "upper_char c =
     (if CHR ''a'' \<le> c \<and> c \<le> CHR ''z''
      then Char (digit0 c) (digit1 c) (digit2 c) (digit3 c) (digit4 c) False (digit6 c) (digit7 c)
      else c)"

text \<open>
  The encodings of the code points that Unicode simple folding identifies with an ASCII
  character: both cases, U+017F for \<open>s\<close> and U+212A for \<open>k\<close>.
\<close>

definition fold_variants :: "char \<Rightarrow> string list" where
  "fold_variants c =
     [[lower_char c], [upper_char c]]
     @ (if lower_char c = CHR ''s'' then [[CHR 0xC5, CHR 0xBF]] else [])
     @ (if lower_char c = CHR ''k'' then [[CHR 0xE2, CHR 0x84, CHR 0xAA]] else [])"

text \<open>The encodings of the code points whose upper case is a given ASCII character.\<close>

definition upper_variants :: "char \<Rightarrow> string list" where
  "upper_variants c =
     [[c]] @ (if lower_char c \<noteq> c then [[lower_char c]] else [])
     @ (if c = CHR ''S'' then [[CHR 0xC5, CHR 0xBF]] else [])
     @ (if c = CHR ''I'' then [[CHR 0xC4, CHR 0xB1]] else [])"

fun match_variants :: "(char \<Rightarrow> string list) \<Rightarrow> string \<Rightarrow> string \<Rightarrow> bool" where
  "match_variants v s [] = (s = [])"
| "match_variants v s (c # t) =
     list_ex (\<lambda>p. prefix p s \<and> match_variants v (drop (length p) s) t) (v c)"

text \<open>\<open>strings.EqualFold(s, t)\<close> for an ASCII \<open>t\<close>, and \<open>strings.ToUpper(s) == t\<close> for an
  upper-case ASCII \<open>t\<close>.\<close>

definition equal_fold :: "string \<Rightarrow> string \<Rightarrow> bool" where
  "equal_fold s t = match_variants fold_variants s t"

definition upper_equals :: "string \<Rightarrow> string \<Rightarrow> bool" where
  "upper_equals s t = match_variants upper_variants s t"

lemma lower_char_cases: "c = lower_char c \<or> c = upper_char c"
  by (cases c) (auto simp: lower_char_def upper_char_def)

lemma equal_fold_refl [simp]: "equal_fold s s"
proof -
  have "[c] \<in> set (fold_variants c)" for c
    using lower_char_cases [of c] by (auto simp: fold_variants_def)
  then have "match_variants fold_variants s s"
    by (induction s) (auto simp: list_ex_iff intro!: bexI [of _ "[c]" for c])
  then show ?thesis by (simp add: equal_fold_def)
qed

lemma upper_equals_refl [simp]: "upper_equals s s"
proof -
  have "match_variants upper_variants s s"
    by (induction s) (auto simp: upper_variants_def)
  then show ?thesis by (simp add: upper_equals_def)
qed

text \<open>What a string folds to is determined up to case.\<close>

definition is_ascii :: "char \<Rightarrow> bool" where
  "is_ascii c = (\<not> digit7 c)"

lemma lower_char_table:
  "\<forall>c. lower_char (lower_char c) = lower_char c \<and> lower_char (upper_char c) = lower_char c
     \<and> is_ascii (lower_char c) = is_ascii c \<and> is_ascii (upper_char c) = is_ascii c"
  by code_simp

lemma lower_char_fold [simp]:
  "lower_char (lower_char c) = lower_char c" "lower_char (upper_char c) = lower_char c"
  "is_ascii (lower_char c) = is_ascii c" "is_ascii (upper_char c) = is_ascii c"
  using lower_char_table by blast+

lemma fold_variants_cases:
  assumes "p \<in> set (fold_variants c)" "is_ascii c"
  obtains x where "p = [x]" "is_ascii x" "lower_char x = lower_char c"
  | "p = [CHR 0xC5, CHR 0xBF]" "lower_char c = CHR ''s''"
  | "p = [CHR 0xE2, CHR 0x84, CHR 0xAA]" "lower_char c = CHR ''k''"
  using assms by (auto simp: fold_variants_def split: if_splits)

lemma fold_variants_unique:
  assumes "p \<in> set (fold_variants c)" "q \<in> set (fold_variants d)" "is_ascii c" "is_ascii d"
    and "prefix p s" "prefix q s"
  shows "lower_char c = lower_char d \<and> length p = length q"
  using assms
  by (elim fold_variants_cases; cases s)
    (auto simp: prefix_Cons is_ascii_def)

lemma equal_fold_lower:
  assumes "equal_fold s t" "equal_fold s u" "list_all is_ascii t" "list_all is_ascii u"
  shows "map lower_char t = map lower_char u"
  using assms unfolding equal_fold_def
proof (induction t arbitrary: s u)
  case Nil
  then show ?case
    by (cases u) (auto simp: fold_variants_def list_ex_iff)
next
  case (Cons c t)
  from Cons.prems obtain p where p: "p \<in> set (fold_variants c)" "prefix p s"
    "match_variants fold_variants (drop (length p) s) t"
    by (auto simp: list_ex_iff)
  then have "s \<noteq> []" by (auto simp: fold_variants_def split: if_splits)
  with Cons.prems obtain d u' q where u: "u = d # u'" "q \<in> set (fold_variants d)" "prefix q s"
    "match_variants fold_variants (drop (length q) s) u'"
    by (cases u) (auto simp: list_ex_iff)
  then show ?case
    using Cons.IH [of "drop (length p) s" u'] Cons.prems p fold_variants_unique [of p c q d s]
    by simp
qed

subsection \<open>White space\<close>

definition space_runes :: "string list" where
  "space_runes =
     [[CHR 0x09], [CHR 0x0A], [CHR 0x0B], [CHR 0x0C], [CHR 0x0D], [CHR 0x20],
      [CHR 0xC2, CHR 0x85], [CHR 0xC2, CHR 0xA0], [CHR 0xE1, CHR 0x9A, CHR 0x80],
      [CHR 0xE2, CHR 0x80, CHR 0x80], [CHR 0xE2, CHR 0x80, CHR 0x81],
      [CHR 0xE2, CHR 0x80, CHR 0x82], [CHR 0xE2, CHR 0x80, CHR 0x83],
      [CHR 0xE2, CHR 0x80, CHR 0x84], [CHR 0xE2, CHR 0x80, CHR 0x85],
      [CHR 0xE2, CHR 0x80, CHR 0x86], [CHR 0xE2, CHR 0x80, CHR 0x87],
      [CHR 0xE2, CHR 0x80, CHR 0x88], [CHR 0xE2, CHR 0x80, CHR 0x89],
      [CHR 0xE2, CHR 0x80, CHR 0x8A], [CHR 0xE2, CHR 0x80, CHR 0xA8],
      [CHR 0xE2, CHR 0x80, CHR 0xA9], [CHR 0xE2, CHR 0x80, CHR 0xAF],
      [CHR 0xE2, CHR 0x81, CHR 0x9F], [CHR 0xE3, CHR 0x80, CHR 0x80]]"

lemma space_runes_neq_Nil: "p \<in> set space_runes \<Longrightarrow> 0 < length p"
  by (auto simp: space_runes_def)

lemma find_prefix_length:
  "find (\<lambda>p. prefix p s) space_runes = Some p \<Longrightarrow> 0 < length p \<and> length p \<le> length s"
  by (auto simp: find_Some_iff dest: space_runes_neq_Nil [OF nth_mem] prefix_length_le)

lemma find_suffix_length:
  "find (\<lambda>p. suffix p s) space_runes = Some p \<Longrightarrow> 0 < length p \<and> length p \<le> length s"
  by (auto simp: find_Some_iff dest: space_runes_neq_Nil [OF nth_mem] suffix_length_le)

function trim_left :: "string \<Rightarrow> string" where
  "trim_left s =
     (case find (\<lambda>p. prefix p s) space_runes of
        None \<Rightarrow> s
      | Some p \<Rightarrow> trim_left (drop (length p) s))"
  by pat_completeness auto
termination
  by (relation "measure length") (auto dest!: find_prefix_length intro!: diff_less)

function trim_right :: "string \<Rightarrow> string" where
  "trim_right s =
     (case find (\<lambda>p. suffix p s) space_runes of
        None \<Rightarrow> s
      | Some p \<Rightarrow> trim_right (take (length s - length p) s))"
  by pat_completeness auto
termination
  by (relation "measure length") (auto dest!: find_suffix_length intro!: diff_less)

declare trim_left.simps [simp del] trim_right.simps [simp del]

definition trim_space :: "string \<Rightarrow> string" where
  "trim_space s = trim_right (trim_left s)"

text \<open>A string that starts with a character that starts no white space keeps it.\<close>

definition space_head :: "char \<Rightarrow> bool" where
  "space_head c = (c \<in> hd ` set space_runes)"

lemma find_space_prefix: "\<not> space_head c \<Longrightarrow> find (\<lambda>p. prefix p (c # s)) space_runes = None"
proof -
  assume c: "\<not> space_head c"
  have "\<not> prefix p (c # s)" if p: "p \<in> set space_runes" for p
  proof -
    obtain x xs where "p = x # xs"
      using space_runes_neq_Nil [OF p] by (cases p) auto
    with p c show ?thesis by (force simp: space_head_def)
  qed
  then show ?thesis by (auto simp: find_None_iff)
qed

lemma trim_left_keep: "\<not> space_head c \<Longrightarrow> trim_left (c # s) = c # s"
  by (subst trim_left.simps) (simp add: find_space_prefix)

lemma trim_right_keep: "\<not> space_head c \<Longrightarrow> \<exists>t. trim_right (c # s) = c # t"
proof (induction "c # s" arbitrary: s rule: trim_right.induct)
  case 1
  show ?case
  proof (cases "find (\<lambda>p. suffix p (c # s)) space_runes")
    case None
    then show ?thesis by (subst trim_right.simps) simp
  next
    case (Some p)
    then have p: "p \<in> set space_runes" "suffix p (c # s)"
      by (auto simp: find_Some_iff)
    have "p \<noteq> c # s"
      using p(1) 1(2) by (force simp: space_head_def)
    then have "suffix p s" using p(2) by (simp add: suffix_Cons)
    then have "length p \<le> length s" by (rule suffix_length_le)
    then have t: "take (length (c # s) - length p) (c # s) = c # take (length s - length p) s"
      by (simp add: Suc_diff_le)
    show ?thesis
      using 1(1) [OF Some t 1(2)] Some t by (subst trim_right.simps) simp
  qed
qed

lemma trim_space_keep: "\<not> space_head c \<Longrightarrow> trim_space (c # s) \<noteq> []"
  using trim_right_keep [of c s] by (auto simp: trim_space_def trim_left_keep)

definition space_tail :: "char \<Rightarrow> bool" where
  "space_tail c = (c \<in> last ` set space_runes)"

lemma find_space_suffix: "\<not> space_tail c \<Longrightarrow> find (\<lambda>p. suffix p (s @ [c])) space_runes = None"
proof -
  assume c: "\<not> space_tail c"
  have "\<not> suffix p (s @ [c])" if p: "p \<in> set space_runes" for p
  proof -
    have "p \<noteq> []" using space_runes_neq_Nil [OF p] by auto
    then show ?thesis
      using p c by (force simp: space_tail_def suffix_snoc image_iff)
  qed
  then show ?thesis by (auto simp: find_None_iff)
qed

lemma trim_space_id:
  assumes "s \<noteq> []" "\<not> space_head (hd s)" "\<not> space_tail (last s)"
  shows "trim_space s = s"
proof -
  have "trim_left s = s" using assms(1,2) by (cases s) (simp_all add: trim_left_keep)
  moreover have "trim_right s = s"
    using find_space_suffix [OF assms(3), of "butlast s"] assms(1)
    by (subst trim_right.simps) simp
  ultimately show ?thesis by (simp add: trim_space_def)
qed

subsection \<open>Splitting and joining\<close>

text \<open>\<open>strings.Cut(s, sep)\<close> for a one-character separator.\<close>

definition str_cut :: "char \<Rightarrow> string \<Rightarrow> string \<times> string \<times> bool" where
  "str_cut sep s =
     (let b = takeWhile (\<lambda>c. c \<noteq> sep) s; a = dropWhile (\<lambda>c. c \<noteq> sep) s in
      if a = [] then (s, [], False) else (b, tl a, True))"

fun str_join :: "string \<Rightarrow> string list \<Rightarrow> string" where
  "str_join sep [] = []"
| "str_join sep [x] = x"
| "str_join sep (x # y # ys) = x @ sep @ str_join sep (y # ys)"

lemma str_cut_append: "sep \<notin> set k \<Longrightarrow> str_cut sep (k @ sep # v) = (k, v, True)"
proof -
  assume "sep \<notin> set k"
  then have "takeWhile (\<lambda>c. c \<noteq> sep) (k @ sep # v) = k"
    "dropWhile (\<lambda>c. c \<noteq> sep) (k @ sep # v) = sep # v"
    by (induction k) auto
  then show ?thesis by (simp add: str_cut_def)
qed

subsection \<open>Numbers\<close>

definition digit_char :: "nat \<Rightarrow> char" where
  "digit_char d = ''0123456789abcdef'' ! d"

fun radix_digits :: "nat \<Rightarrow> nat \<Rightarrow> string" where
  "radix_digits b n =
     (if b < 2 \<or> n < b then [digit_char n] else radix_digits b (n div b) @ [digit_char (n mod b)])"

declare radix_digits.simps [simp del]

definition decimal :: "int \<Rightarrow> string" where
  "decimal i = (if i < 0 then CHR ''-'' # radix_digits 10 (nat (- i)) else radix_digits 10 (nat i))"

text \<open>\<open>hex.EncodeToString\<close>.\<close>

definition hex_encode :: "bytes \<Rightarrow> string" where
  "hex_encode bs =
     concat (map (\<lambda>b. [digit_char (unat b div 16), digit_char (unat b mod 16)]) bs)"

lemma length_hex_encode [simp]: "length (hex_encode bs) = 2 * length bs"
  by (induction bs) (auto simp: hex_encode_def)

end
