(* ===== verification/Algorithm.thy ===== *)
theory Algorithm
  imports Go_Strings Asn1
begin

section \<open>The registry of signature algorithms (internal/pqx509/algorithm.go)\<close>

text \<open>
  \<open>Algorithm\<close> is an \<open>int\<close>, so values outside the registry exist (zero is "not set") and the
  functions say what they do on them. The registry is a Go map, whose iteration order is not
  specified: the two functions that search it take the order as an argument, and the lemmas show
  that it does not matter.
\<close>

type_synonym algorithm = int
type_synonym oid = "nat list"

definition MLDSA44 :: algorithm where "MLDSA44 = 1"
definition MLDSA65 :: algorithm where "MLDSA65 = 2"
definition MLDSA87 :: algorithm where "MLDSA87 = 3"
definition SLHDSA_SHA2_128s :: algorithm where "SLHDSA_SHA2_128s = 4"
definition SLHDSA_SHA2_128f :: algorithm where "SLHDSA_SHA2_128f = 5"
definition SLHDSA_SHA2_192s :: algorithm where "SLHDSA_SHA2_192s = 6"
definition SLHDSA_SHA2_192f :: algorithm where "SLHDSA_SHA2_192f = 7"
definition SLHDSA_SHA2_256s :: algorithm where "SLHDSA_SHA2_256s = 8"
definition SLHDSA_SHA2_256f :: algorithm where "SLHDSA_SHA2_256f = 9"
definition SLHDSA_SHAKE_128s :: algorithm where "SLHDSA_SHAKE_128s = 10"
definition SLHDSA_SHAKE_128f :: algorithm where "SLHDSA_SHAKE_128f = 11"
definition SLHDSA_SHAKE_192s :: algorithm where "SLHDSA_SHAKE_192s = 12"
definition SLHDSA_SHAKE_192f :: algorithm where "SLHDSA_SHAKE_192f = 13"
definition SLHDSA_SHAKE_256s :: algorithm where "SLHDSA_SHAKE_256s = 14"
definition SLHDSA_SHAKE_256f :: algorithm where "SLHDSA_SHAKE_256f = 15"

lemmas algorithm_consts =
  MLDSA44_def MLDSA65_def MLDSA87_def
  SLHDSA_SHA2_128s_def SLHDSA_SHA2_128f_def SLHDSA_SHA2_192s_def SLHDSA_SHA2_192f_def
  SLHDSA_SHA2_256s_def SLHDSA_SHA2_256f_def
  SLHDSA_SHAKE_128s_def SLHDSA_SHAKE_128f_def SLHDSA_SHAKE_192s_def SLHDSA_SHAKE_192f_def
  SLHDSA_SHAKE_256s_def SLHDSA_SHAKE_256f_def

datatype algorithmFamily = mldsaFamily | slhdsaFamily

record algorithmInfo =
  ai_name :: string
  ai_oid :: oid
  ai_pkSize :: nat
  ai_sigSize :: nat
  ai_seedSize :: nat
  ai_family :: algorithmFamily

definition algorithms :: "(algorithm \<times> algorithmInfo) list" where
  "algorithms =
    [(MLDSA44, \<lparr>ai_name = ''ML-DSA-44'', ai_oid = [2,16,840,1,101,3,4,3,17],
       ai_pkSize = 1312, ai_sigSize = 2420, ai_seedSize = 32, ai_family = mldsaFamily\<rparr>),
     (MLDSA65, \<lparr>ai_name = ''ML-DSA-65'', ai_oid = [2,16,840,1,101,3,4,3,18],
       ai_pkSize = 1952, ai_sigSize = 3309, ai_seedSize = 32, ai_family = mldsaFamily\<rparr>),
     (MLDSA87, \<lparr>ai_name = ''ML-DSA-87'', ai_oid = [2,16,840,1,101,3,4,3,19],
       ai_pkSize = 2592, ai_sigSize = 4627, ai_seedSize = 32, ai_family = mldsaFamily\<rparr>),
     (SLHDSA_SHA2_128s, \<lparr>ai_name = ''SLH-DSA-SHA2-128s'', ai_oid = [2,16,840,1,101,3,4,3,20],
       ai_pkSize = 32, ai_sigSize = 7856, ai_seedSize = 64, ai_family = slhdsaFamily\<rparr>),
     (SLHDSA_SHA2_128f, \<lparr>ai_name = ''SLH-DSA-SHA2-128f'', ai_oid = [2,16,840,1,101,3,4,3,21],
       ai_pkSize = 32, ai_sigSize = 17088, ai_seedSize = 64, ai_family = slhdsaFamily\<rparr>),
     (SLHDSA_SHA2_192s, \<lparr>ai_name = ''SLH-DSA-SHA2-192s'', ai_oid = [2,16,840,1,101,3,4,3,22],
       ai_pkSize = 48, ai_sigSize = 16224, ai_seedSize = 96, ai_family = slhdsaFamily\<rparr>),
     (SLHDSA_SHA2_192f, \<lparr>ai_name = ''SLH-DSA-SHA2-192f'', ai_oid = [2,16,840,1,101,3,4,3,23],
       ai_pkSize = 48, ai_sigSize = 35664, ai_seedSize = 96, ai_family = slhdsaFamily\<rparr>),
     (SLHDSA_SHA2_256s, \<lparr>ai_name = ''SLH-DSA-SHA2-256s'', ai_oid = [2,16,840,1,101,3,4,3,24],
       ai_pkSize = 64, ai_sigSize = 29792, ai_seedSize = 128, ai_family = slhdsaFamily\<rparr>),
     (SLHDSA_SHA2_256f, \<lparr>ai_name = ''SLH-DSA-SHA2-256f'', ai_oid = [2,16,840,1,101,3,4,3,25],
       ai_pkSize = 64, ai_sigSize = 49856, ai_seedSize = 128, ai_family = slhdsaFamily\<rparr>),
     (SLHDSA_SHAKE_128s, \<lparr>ai_name = ''SLH-DSA-SHAKE-128s'', ai_oid = [2,16,840,1,101,3,4,3,26],
       ai_pkSize = 32, ai_sigSize = 7856, ai_seedSize = 64, ai_family = slhdsaFamily\<rparr>),
     (SLHDSA_SHAKE_128f, \<lparr>ai_name = ''SLH-DSA-SHAKE-128f'', ai_oid = [2,16,840,1,101,3,4,3,27],
       ai_pkSize = 32, ai_sigSize = 17088, ai_seedSize = 64, ai_family = slhdsaFamily\<rparr>),
     (SLHDSA_SHAKE_192s, \<lparr>ai_name = ''SLH-DSA-SHAKE-192s'', ai_oid = [2,16,840,1,101,3,4,3,28],
       ai_pkSize = 48, ai_sigSize = 16224, ai_seedSize = 96, ai_family = slhdsaFamily\<rparr>),
     (SLHDSA_SHAKE_192f, \<lparr>ai_name = ''SLH-DSA-SHAKE-192f'', ai_oid = [2,16,840,1,101,3,4,3,29],
       ai_pkSize = 48, ai_sigSize = 35664, ai_seedSize = 96, ai_family = slhdsaFamily\<rparr>),
     (SLHDSA_SHAKE_256s, \<lparr>ai_name = ''SLH-DSA-SHAKE-256s'', ai_oid = [2,16,840,1,101,3,4,3,30],
       ai_pkSize = 64, ai_sigSize = 29792, ai_seedSize = 128, ai_family = slhdsaFamily\<rparr>),
     (SLHDSA_SHAKE_256f, \<lparr>ai_name = ''SLH-DSA-SHAKE-256f'', ai_oid = [2,16,840,1,101,3,4,3,31],
       ai_pkSize = 64, ai_sigSize = 49856, ai_seedSize = 128, ai_family = slhdsaFamily\<rparr>)]"

definition alg_info :: "algorithm \<Rightarrow> algorithmInfo option" where
  "alg_info a = map_of algorithms a"

definition alg_String :: "algorithm \<Rightarrow> string" where
  "alg_String a =
     (case alg_info a of
        Some info \<Rightarrow> ai_name info
      | None \<Rightarrow> ''Algorithm('' @ decimal a @ '')'')"

text \<open>Reading a missing key of a Go map gives the zero value.\<close>

definition alg_OID :: "algorithm \<Rightarrow> oid" where
  "alg_OID a = (case alg_info a of Some info \<Rightarrow> ai_oid info | None \<Rightarrow> [])"

definition PublicKeySize :: "algorithm \<Rightarrow> nat" where
  "PublicKeySize a = (case alg_info a of Some info \<Rightarrow> ai_pkSize info | None \<Rightarrow> 0)"

definition SignatureSize :: "algorithm \<Rightarrow> nat" where
  "SignatureSize a = (case alg_info a of Some info \<Rightarrow> ai_sigSize info | None \<Rightarrow> 0)"

definition SeedSize :: "algorithm \<Rightarrow> nat" where
  "SeedSize a = (case alg_info a of Some info \<Rightarrow> ai_seedSize info | None \<Rightarrow> 0)"

definition alg_Valid :: "algorithm \<Rightarrow> bool" where
  "alg_Valid a = (alg_info a \<noteq> None)"

fun find_name :: "(algorithm \<times> algorithmInfo) list \<Rightarrow> string \<Rightarrow> algorithm option" where
  "find_name [] s = None"
| "find_name ((alg, info) # rest) s =
     (if equal_fold s (ai_name info) then Some alg else find_name rest s)"

fun find_oid :: "(algorithm \<times> algorithmInfo) list \<Rightarrow> oid \<Rightarrow> algorithm option" where
  "find_oid [] i = None"
| "find_oid ((alg, info) # rest) i = (if ai_oid info = i then Some alg else find_oid rest i)"

definition ParseAlgorithm_in :: "(algorithm \<times> algorithmInfo) list \<Rightarrow> string \<Rightarrow> algorithm res" where
  "ParseAlgorithm_in reg s =
     (case find_name reg s of
        Some alg \<Rightarrow> Inr alg
      | None \<Rightarrow> Inl (Err [ErrUnknownAlgorithm] ''name''))"

definition algorithmFromOID_in :: "(algorithm \<times> algorithmInfo) list \<Rightarrow> oid \<Rightarrow> algorithm res" where
  "algorithmFromOID_in reg i =
     (case find_oid reg i of
        Some alg \<Rightarrow> Inr alg
      | None \<Rightarrow> Inl (Err [ErrUnknownAlgorithm] ''OID''))"

definition ParseAlgorithm :: "string \<Rightarrow> algorithm res" where
  "ParseAlgorithm s = ParseAlgorithm_in algorithms s"

definition algorithmFromOID :: "oid \<Rightarrow> algorithm res" where
  "algorithmFromOID i = algorithmFromOID_in algorithms i"

subsection \<open>Facts about the registry\<close>

lemma algorithms_cases:
  assumes "(a, info) \<in> set algorithms"
  obtains "a \<in> {1..15}" "alg_info a = Some info"
proof -
  have "distinct (map fst algorithms)"
    by (simp add: algorithms_def algorithm_consts)
  then have "alg_info a = Some info"
    using assms by (simp add: alg_info_def)
  moreover have "fst ` set algorithms \<subseteq> {1..15}"
    by (simp add: algorithms_def algorithm_consts)
  ultimately show ?thesis using that assms by force
qed

lemma alg_Valid_iff: "alg_Valid a \<longleftrightarrow> a \<in> {1..15}"
proof -
  have "fst ` set algorithms = {1..15 :: int}"
    by (simp add: algorithms_def algorithm_consts set_eq_iff) presburger
  then show ?thesis by (simp add: alg_Valid_def alg_info_def map_of_eq_None_iff)
qed

lemma distinct_oids: "distinct (map (ai_oid \<circ> snd) algorithms)"
  by (simp add: algorithms_def)

lemma distinct_names: "distinct (map (ai_name \<circ> snd) algorithms)"
  by (simp add: algorithms_def)

lemma find_oid_Some: "find_oid reg i = Some a \<Longrightarrow> \<exists>info. (a, info) \<in> set reg \<and> ai_oid info = i"
  by (induction reg i rule: find_oid.induct) (auto split: if_splits)

lemma find_oid_None: "find_oid reg i = None \<longleftrightarrow> (\<forall>(a, info) \<in> set reg. ai_oid info \<noteq> i)"
  by (induction reg i rule: find_oid.induct) auto

lemma find_name_Some:
  "find_name reg s = Some a \<Longrightarrow> \<exists>info. (a, info) \<in> set reg \<and> equal_fold s (ai_name info)"
  by (induction reg s rule: find_name.induct) (auto split: if_splits)

lemma find_name_None:
  "find_name reg s = None \<longleftrightarrow> (\<forall>(a, info) \<in> set reg. \<not> equal_fold s (ai_name info))"
  by (induction reg s rule: find_name.induct) auto

text \<open>A string folds to at most one of the names, so the search has one answer.\<close>

lemma algorithms_fold_unique:
  assumes "(a, i) \<in> set algorithms" "(b, j) \<in> set algorithms"
    and "equal_fold s (ai_name i)" "equal_fold s (ai_name j)"
  shows "a = b"
proof -
  have asc: "list_all (\<lambda>(a, i). list_all is_ascii (ai_name i)) algorithms"
    by (simp add: algorithms_def is_ascii_def)
  have "map lower_char (ai_name i) = map lower_char (ai_name j)"
    using assms asc by (intro equal_fold_lower [of s]) (force simp: list_all_iff)+
  moreover have "distinct (map (\<lambda>(a, i). map lower_char (ai_name i)) algorithms)"
    by (simp add: algorithms_def lower_char_def)
  ultimately show ?thesis
    using assms(1,2) by (force simp: distinct_map inj_on_def)
qed

lemma algorithms_oid_unique:
  assumes "(a, i) \<in> set algorithms" "(b, j) \<in> set algorithms" "ai_oid i = ai_oid j"
  shows "a = b"
  using assms distinct_oids by (force simp: distinct_map inj_on_def)

lemma alg_info_in: "alg_info a = Some info \<longleftrightarrow> (a, info) \<in> set algorithms"
proof -
  have "distinct (map fst algorithms)"
    by (simp add: algorithms_def algorithm_consts)
  then show ?thesis by (simp add: alg_info_def)
qed

lemma algorithmFromOID_alg_OID: "alg_Valid a \<Longrightarrow> algorithmFromOID (alg_OID a) = Inr a"
proof -
  assume "alg_Valid a"
  then obtain info where info: "(a, info) \<in> set algorithms" "alg_OID a = ai_oid info"
    by (auto simp: alg_Valid_def alg_OID_def simp flip: alg_info_in)
  then obtain b where b: "find_oid algorithms (ai_oid info) = Some b"
    by (cases "find_oid algorithms (ai_oid info)") (force simp: find_oid_None)+
  then have "b = a"
    using find_oid_Some [OF b] algorithms_oid_unique [OF _ info(1)] by auto
  with b info show ?thesis by (simp add: algorithmFromOID_def algorithmFromOID_in_def)
qed

lemma algorithmFromOID_Inr: "algorithmFromOID i = Inr a \<Longrightarrow> alg_Valid a \<and> alg_OID a = i"
  by (auto simp: algorithmFromOID_def algorithmFromOID_in_def alg_Valid_def alg_OID_def
      split: option.splits dest!: find_oid_Some simp flip: alg_info_in)

lemma ParseAlgorithm_Inr_iff:
  "ParseAlgorithm s = Inr a \<longleftrightarrow> (\<exists>info. alg_info a = Some info \<and> equal_fold s (ai_name info))"
proof
  assume "ParseAlgorithm s = Inr a"
  then have "find_name algorithms s = Some a"
    by (auto simp: ParseAlgorithm_def ParseAlgorithm_in_def split: option.splits)
  then show "\<exists>info. alg_info a = Some info \<and> equal_fold s (ai_name info)"
    by (auto simp: alg_info_in dest!: find_name_Some)
next
  assume "\<exists>info. alg_info a = Some info \<and> equal_fold s (ai_name info)"
  then obtain info where info: "(a, info) \<in> set algorithms" "equal_fold s (ai_name info)"
    by (auto simp: alg_info_in)
  then obtain b where b: "find_name algorithms s = Some b"
    by (cases "find_name algorithms s") (force simp: find_name_None)+
  then have "b = a"
    using find_name_Some [OF b] algorithms_fold_unique [OF _ info(1) _ info(2)] by auto
  with b show "ParseAlgorithm s = Inr a" by (simp add: ParseAlgorithm_def ParseAlgorithm_in_def)
qed

lemma alg_OID_ok: "alg_Valid a \<Longrightarrow> oid_ok (alg_OID a)"
proof -
  assume "alg_Valid a"
  moreover have "list_all (\<lambda>(a, i). oid_ok (ai_oid i)) algorithms"
    by (simp add: algorithms_def oid_ok_def)
  ultimately show ?thesis
    by (force simp: alg_Valid_def alg_OID_def list_all_iff simp flip: alg_info_in)
qed

lemma size_bounds:
  "PublicKeySize a \<le> 2592" "SignatureSize a \<le> 49856" "SeedSize a \<le> 128"
proof -
  have "list_all (\<lambda>(a, i). ai_pkSize i \<le> 2592 \<and> ai_sigSize i \<le> 49856 \<and> ai_seedSize i \<le> 128) algorithms"
    by (simp add: algorithms_def)
  then show "PublicKeySize a \<le> 2592" "SignatureSize a \<le> 49856" "SeedSize a \<le> 128"
    by (force simp: PublicKeySize_def SignatureSize_def SeedSize_def list_all_iff
        simp flip: alg_info_in split: option.splits)+
qed

end
