(* ===== verification/Asn1_Types.thy ===== *)
theory Asn1_Types
  imports Asn1_Fields Algorithm
begin

section \<open>The ASN.1 structures shared by keys, certificates, CRLs and CSRs\<close>

text \<open>
  \<open>algorithmIdentifier\<close>, \<open>subjectPublicKeyInfo\<close>, \<open>extension\<close> and \<open>validity\<close> of
  \<open>internal/pqx509/asn1types.go\<close>. For each structure: its record, what \<open>asn1.Marshal\<close>
  writes for it, what \<open>asn1.Unmarshal\<close> reads (the fields in order; octets that follow the
  last field of a SEQUENCE are ignored, as \<open>encoding/asn1\<close> does), and the interpretation of
  the codec contract.
\<close>

lemmas field_defs = params_defs field_mismatch_def element_mismatch_def Let_def

subsection \<open>Codecs of the basic types\<close>

definition marshal_oid :: "oid \<Rightarrow> bytes res" where
  "marshal_oid i = rbind (oid_bytes i) (\<lambda>bs. Inr (tlv 0 False 6 bs))"

definition marshal_int :: "int \<Rightarrow> bytes res" where
  "marshal_int i = Inr (tlv 0 False 2 (int_bytes i))"

definition marshal_octets :: "bytes \<Rightarrow> bytes" where
  "marshal_octets bs = tlv 0 False 4 bs"

definition marshal_bits :: "bit_string \<Rightarrow> bytes" where
  "marshal_bits b = tlv 0 False 3 (bit_string_bytes b)"

lemma tlv_body_bound: "length (tlv cls cons tag body) < n \<Longrightarrow> length body < n"
  using length_tlv_body [of body cls cons tag] by simp

lemma parse_octets_marshal [simp]:
  "length bs < 2 ^ 31 \<Longrightarrow> parse_octets no_params (marshal_octets bs @ rest) = Inr (bs, rest)"
  by (simp add: parse_octets_def marshal_octets_def parse_field_plain params_defs)

lemma length_bit_string_bytes [simp]: "length (bit_string_bytes b) = Suc (length (bs_bytes b))"
  by (simp add: bit_string_bytes_def)

lemma parse_bits_marshal [simp]:
  "Suc (length bs) < 2 ^ 31 \<Longrightarrow>
    parse_bits (marshal_bits (octet_bits bs) @ rest) = Inr (octet_bits bs, rest)"
  by (simp add: parse_bits_def marshal_bits_def parse_field_plain params_defs octet_bits_def
      parse_bit_string_octet_bits [unfolded octet_bits_def])

interpretation oid_codec: asn1_element marshal_oid parse_object_id oid_ok "Univ 6 False"
proof
  fix i bs rest
  assume i: "oid_ok i" "marshal_oid i = Inr bs" "length bs < 2 ^ 31"
  then obtain o1 where o1: "oid_bytes i = Inr o1" "bs = tlv 0 False 6 o1"
    by (auto simp: marshal_oid_def go_inv)
  then show "parse_object_id (bs @ rest) = Inr (i, rest)"
    using i parse_oid_oid_bytes [OF i(1) o1(1)]
    by (simp add: parse_object_id_def parse_field_plain params_defs tlv_body_bound)
next
  fix i bs
  assume "oid_ok i" "marshal_oid i = Inr bs"
  then show "\<exists>cls cons tag body. bs = tlv cls cons tag body \<and> cls < 4 \<and> tag < 31 \<and>
      (\<forall>len. \<not> element_mismatch (Univ 6 False)
        \<lparr>h_class = cls, h_compound = cons, h_tag = tag, h_len = len\<rparr>)"
    by (intro exI [of _ 0] exI [of _ False] exI [of _ 6])
      (auto simp: marshal_oid_def go_inv element_mismatch_def)
qed

interpretation big_codec: asn1_codec marshal_int parse_big "\<lambda>i. True"
proof
  fix i bs rest
  assume "marshal_int i = Inr bs" "length bs < 2 ^ 31"
  then show "parse_big (bs @ rest) = Inr (i, rest)"
    by (auto simp: marshal_int_def parse_big_def parse_field_plain params_defs dest: tlv_body_bound)
qed

definition int64_ok :: "int \<Rightarrow> bool" where
  "int64_ok i = (- (2 ^ 63) \<le> i \<and> i < 2 ^ 63)"

interpretation int_codec: asn1_codec marshal_int "parse_int no_params 0" int64_ok
proof
  fix i bs rest
  assume "int64_ok i" "marshal_int i = Inr bs" "length bs < 2 ^ 31"
  then show "parse_int no_params 0 (bs @ rest) = Inr (i, rest)"
    by (auto simp: marshal_int_def parse_int_def parse_field_plain params_defs int64_ok_def
        parse_int64_int_bytes dest: tlv_body_bound)
qed

subsection \<open>AlgorithmIdentifier\<close>

record algorithmIdentifier =
  aid_algorithm :: oid
  aid_parameters :: raw_value

definition algorithm_identifier :: "oid \<Rightarrow> algorithmIdentifier" where
  "algorithm_identifier i = \<lparr>aid_algorithm = i, aid_parameters = zero_raw\<rparr>"

definition marshal_algorithmIdentifier :: "algorithmIdentifier \<Rightarrow> bytes res" where
  "marshal_algorithmIdentifier a =
     rbind (marshal_oid (aid_algorithm a)) (\<lambda>i.
       Inr (tlv 0 True 16
         (i @ (if aid_parameters a = zero_raw then [] else marshal_raw (aid_parameters a)))))"

definition algorithmIdentifier_fields :: "bytes \<Rightarrow> algorithmIdentifier res" where
  "algorithmIdentifier_fields inner =
     rbind (parse_object_id inner) (\<lambda>(i, r).
     rbind (parse_raw optional_params r) (\<lambda>(ps, _).
       Inr \<lparr>aid_algorithm = i, aid_parameters = ps\<rparr>))"

definition parse_algorithmIdentifier :: "bytes \<Rightarrow> (algorithmIdentifier \<times> bytes) res" where
  "parse_algorithmIdentifier =
     parse_struct no_params algorithmIdentifier_fields (algorithm_identifier [])"

definition algorithmIdentifier_ok :: "algorithmIdentifier \<Rightarrow> bool" where
  "algorithmIdentifier_ok a = (oid_ok (aid_algorithm a) \<and> aid_parameters a = zero_raw)"

lemma parse_raw_absent [simp]: "parse_raw optional_params [] = Inr (zero_raw, [])"
  by (simp add: parse_raw_def params_defs)

interpretation algorithmIdentifier_codec:
  asn1_codec marshal_algorithmIdentifier parse_algorithmIdentifier algorithmIdentifier_ok
proof
  fix a bs rest
  assume a: "algorithmIdentifier_ok a" "marshal_algorithmIdentifier a = Inr bs" "length bs < 2 ^ 31"
  then obtain i where i: "marshal_oid (aid_algorithm a) = Inr i" "bs = tlv 0 True 16 i"
    by (auto simp: marshal_algorithmIdentifier_def algorithmIdentifier_ok_def go_inv)
  have l: "length i < 2 ^ 31" using a(3) i(2) tlv_body_bound by blast
  have "parse_object_id i = Inr (aid_algorithm a, [])"
    using a(1) i(1) l oid_codec.dec_enc_all by (auto simp: algorithmIdentifier_ok_def)
  with a(1) l i(2) show "parse_algorithmIdentifier (bs @ rest) = Inr (a, rest)"
    by (simp add: parse_algorithmIdentifier_def parse_struct_tlv algorithmIdentifier_fields_def
        algorithmIdentifier_ok_def)
qed

subsection \<open>SubjectPublicKeyInfo\<close>

record subjectPublicKeyInfo =
  spki_algorithm :: algorithmIdentifier
  spki_key :: bit_string

definition marshal_spki :: "subjectPublicKeyInfo \<Rightarrow> bytes res" where
  "marshal_spki s =
     rbind (marshal_algorithmIdentifier (spki_algorithm s)) (\<lambda>a.
       Inr (tlv 0 True 16 (a @ marshal_bits (spki_key s))))"

definition spki_fields :: "bytes \<Rightarrow> subjectPublicKeyInfo res" where
  "spki_fields inner =
     rbind (parse_algorithmIdentifier inner) (\<lambda>(a, r).
     rbind (parse_bits r) (\<lambda>(k, _).
       Inr \<lparr>spki_algorithm = a, spki_key = k\<rparr>))"

definition parse_spki :: "bytes \<Rightarrow> (subjectPublicKeyInfo \<times> bytes) res" where
  "parse_spki = parse_struct no_params spki_fields
     \<lparr>spki_algorithm = algorithm_identifier [], spki_key = octet_bits []\<rparr>"

definition spki_ok :: "subjectPublicKeyInfo \<Rightarrow> bool" where
  "spki_ok s = (algorithmIdentifier_ok (spki_algorithm s) \<and>
     spki_key s = octet_bits (bs_bytes (spki_key s)))"

interpretation spki_codec: asn1_codec marshal_spki parse_spki spki_ok
proof
  fix s bs rest
  assume s: "spki_ok s" "marshal_spki s = Inr bs" "length bs < 2 ^ 31"
  let ?k = "bs_bytes (spki_key s)"
  obtain a where a: "marshal_algorithmIdentifier (spki_algorithm s) = Inr a"
    and bs: "bs = tlv 0 True 16 (a @ marshal_bits (octet_bits ?k))"
    using s(1,2) by (auto simp: marshal_spki_def spki_ok_def go_inv)
  have "length (a @ marshal_bits (octet_bits ?k)) < 2 ^ 31"
    using s(3) bs tlv_body_bound by blast
  then have l: "length a < 2 ^ 31" "Suc (length ?k) < 2 ^ 31"
    "length (a @ marshal_bits (octet_bits ?k)) < 2 ^ 31"
    using length_tlv_body [of "bit_string_bytes (octet_bits ?k)" 0 False 3]
    by (simp_all add: marshal_bits_def octet_bits_def)
  have "parse_algorithmIdentifier (a @ marshal_bits (octet_bits ?k)) =
      Inr (spki_algorithm s, marshal_bits (octet_bits ?k))"
    using s(1) a l(1) by (intro algorithmIdentifier_codec.dec_enc) (simp_all add: spki_ok_def)
  moreover have "parse_bits (marshal_bits (octet_bits ?k)) = Inr (octet_bits ?k, [])"
    using parse_bits_marshal [OF l(2), of "[]"] by simp
  ultimately have "spki_fields (a @ marshal_bits (octet_bits ?k)) = Inr s"
    using s(1) by (simp add: spki_fields_def spki_ok_def)
  then show "parse_spki (bs @ rest) = Inr (s, rest)"
    by (simp add: parse_spki_def bs parse_struct_tlv [OF l(3)])
qed

subsection \<open>Extension\<close>

record extension =
  ext_id :: oid
  ext_critical :: bool
  ext_value :: bytes

definition marshal_extension :: "extension \<Rightarrow> bytes res" where
  "marshal_extension e =
     rbind (marshal_oid (ext_id e)) (\<lambda>i.
       Inr (tlv 0 True 16
         (i @ (if ext_critical e then tlv 0 False 1 (bool_bytes True) else [])
            @ marshal_octets (ext_value e))))"

definition extension_fields :: "bytes \<Rightarrow> extension res" where
  "extension_fields inner =
     rbind (parse_object_id inner) (\<lambda>(i, r).
     rbind (parse_boolean optional_params r) (\<lambda>(c, r1).
     rbind (parse_octets no_params r1) (\<lambda>(v, _).
       Inr \<lparr>ext_id = i, ext_critical = c, ext_value = v\<rparr>)))"

definition parse_extension :: "bytes \<Rightarrow> (extension \<times> bytes) res" where
  "parse_extension = parse_struct no_params extension_fields
     \<lparr>ext_id = [], ext_critical = False, ext_value = []\<rparr>"

definition extension_ok :: "extension \<Rightarrow> bool" where
  "extension_ok e = oid_ok (ext_id e)"

lemma parse_boolean_true:
  "parse_boolean optional_params (tlv 0 False 1 (bool_bytes True) @ rest) = Inr (True, rest)"
  by (simp add: parse_boolean_def parse_field_plain params_defs bool_bytes_def parse_bool_def)

lemma parse_boolean_skip:
  "length v < 2 ^ 31 \<Longrightarrow>
   parse_boolean optional_params (marshal_octets v @ rest) = Inr (False, marshal_octets v @ rest)"
  by (simp add: parse_boolean_def marshal_octets_def parse_field_skip field_defs)

interpretation extension_codec:
  asn1_element marshal_extension parse_extension extension_ok "Univ 16 True"
proof
  fix e bs rest
  assume e: "extension_ok e" "marshal_extension e = Inr bs" "length bs < 2 ^ 31"
  define c where "c = (if ext_critical e then tlv 0 False 1 (bool_bytes True) else [])"
  obtain i where i: "marshal_oid (ext_id e) = Inr i"
    and bs: "bs = tlv 0 True 16 (i @ c @ marshal_octets (ext_value e))"
    using e(2) by (auto simp: marshal_extension_def go_inv c_def)
  have l: "length (i @ c @ marshal_octets (ext_value e)) < 2 ^ 31"
    using e(3) bs tlv_body_bound by blast
  then have l': "length i < 2 ^ 31" "length (ext_value e) < 2 ^ 31"
    using length_tlv_body [of "ext_value e" 0 False 4] by (simp_all add: marshal_octets_def)
  have "parse_object_id (i @ c @ marshal_octets (ext_value e)) =
      Inr (ext_id e, c @ marshal_octets (ext_value e))"
    using e(1) i l'(1) by (intro oid_codec.dec_enc) (simp_all add: extension_ok_def)
  moreover have "parse_boolean optional_params (c @ marshal_octets (ext_value e)) =
      Inr (ext_critical e, marshal_octets (ext_value e))"
    using parse_boolean_skip [OF l'(2), of "[]"] parse_boolean_true [of "marshal_octets (ext_value e)"]
    by (simp add: c_def)
  moreover have "parse_octets no_params (marshal_octets (ext_value e)) = Inr (ext_value e, [])"
    using parse_octets_marshal [OF l'(2), of "[]"] by simp
  ultimately have "extension_fields (i @ c @ marshal_octets (ext_value e)) = Inr e"
    by (simp add: extension_fields_def)
  then show "parse_extension (bs @ rest) = Inr (e, rest)"
    by (simp add: parse_extension_def bs parse_struct_tlv [OF l])
next
  fix e bs
  assume "extension_ok e" "marshal_extension e = Inr bs"
  then show "\<exists>cls cons tag body. bs = tlv cls cons tag body \<and> cls < 4 \<and> tag < 31 \<and>
      (\<forall>len. \<not> element_mismatch (Univ 16 True)
        \<lparr>h_class = cls, h_compound = cons, h_tag = tag, h_len = len\<rparr>)"
    by (intro exI [of _ 0] exI [of _ True] exI [of _ 16])
      (auto simp: marshal_extension_def go_inv element_mismatch_def)
qed

end
