(* ===== verification/Keys.thy ===== *)
theory Keys
  imports Asn1_Types Sha256
begin

section \<open>Keys and the two signature families (keys.go, family.go, slhdsa.go)\<close>

text \<open>
  \<open>GenerateKey\<close>, \<open>PrivateKey.Signer\<close>, \<open>Verify\<close>, the PKIX encoding of public keys and
  \<open>KeyIdentifier\<close>. The signature schemes themselves are in \<open>github.com/cloudflare/circl\<close>,
  which is not part of the repository: its packages are the fields of the record \<open>circl\<close>,
  an argument of every function that reaches them, and \<open>circl_ok\<close> states what their
  documentation promises. An \<open>io.Reader\<close> of entropy is the list of the bytes it still has.
\<close>

subsection \<open>The interface of circl\<close>

record ('pk, 'sk) mldsa_package =
  NewKeyFromSeed :: "bytes \<Rightarrow> 'pk \<times> 'sk"
  pk_Bytes :: "'pk \<Rightarrow> bytes"
  pk_UnmarshalBinary :: "bytes \<Rightarrow> 'pk res"
  sk_Sign :: "'sk \<Rightarrow> bytes \<Rightarrow> bytes res"
  mldsa_Verify :: "'pk \<Rightarrow> bytes \<Rightarrow> bytes \<Rightarrow> bytes \<Rightarrow> bool"

record ('pk, 'sk) slhdsa_package =
  IDByName :: "string \<Rightarrow> nat res"
  slhdsa_GenerateKey :: "bytes \<Rightarrow> nat \<Rightarrow> (('pk \<times> 'sk) \<times> bytes) res"
  pk_MarshalBinary :: "'pk \<Rightarrow> bytes res"
  sk_MarshalBinary :: "'sk \<Rightarrow> bytes res"
  sl_pk_UnmarshalBinary :: "nat \<Rightarrow> bytes \<Rightarrow> 'pk res"
  sl_sk_UnmarshalBinary :: "nat \<Rightarrow> bytes \<Rightarrow> 'sk res"
  sk_PublicKey :: "'sk \<Rightarrow> 'pk"
  SignDeterministic :: "'sk \<Rightarrow> bytes \<Rightarrow> bytes \<Rightarrow> bytes res"
  slhdsa_Verify :: "'pk \<Rightarrow> bytes \<Rightarrow> bytes \<Rightarrow> bytes \<Rightarrow> bool"

record ('pk, 'sk) circl =
  mldsa44 :: "('pk, 'sk) mldsa_package"
  mldsa65 :: "('pk, 'sk) mldsa_package"
  mldsa87 :: "('pk, 'sk) mldsa_package"
  slhdsa :: "('pk, 'sk) slhdsa_package"

subsection \<open>Types\<close>

record PublicKey =
  pub_alg :: algorithm
  pub_bytes :: bytes

record PrivateKey =
  priv_alg :: algorithm
  priv_seed :: bytes

record Signer =
  sg_alg :: algorithm
  sg_pub :: PublicKey
  sg_sign :: "bytes \<Rightarrow> bytes res"

definition read_full :: "nat \<Rightarrow> bytes \<Rightarrow> (bytes \<times> bytes) res" where
  "read_full n r =
     (if length r < n then Inl (Err [] ''unexpected EOF'') else Inr (take n r, drop n r))"

subsection \<open>The ML-DSA family\<close>

definition mldsa_package_of :: "('pk, 'sk) circl \<Rightarrow> algorithm \<Rightarrow> ('pk, 'sk) mldsa_package option" where
  "mldsa_package_of C alg =
     (if alg = MLDSA44 then Some (mldsa44 C)
      else if alg = MLDSA65 then Some (mldsa65 C)
      else if alg = MLDSA87 then Some (mldsa87 C)
      else None)"

definition mldsa_signer :: "('pk, 'sk) circl \<Rightarrow> bytes \<Rightarrow> algorithm \<Rightarrow> Signer res" where
  "mldsa_signer C keyMaterial alg =
     (if length keyMaterial \<noteq> SeedSize alg then Inl (Err [ErrInvalidKeySize] ''seed size'')
      else
        (let seed = take 32 (keyMaterial @ replicate 32 0) in
         case mldsa_package_of C alg of
           Some pkg \<Rightarrow>
             (let (pub, sk) = NewKeyFromSeed pkg seed in
              Inr \<lparr>sg_alg = alg, sg_pub = \<lparr>pub_alg = alg, pub_bytes = pk_Bytes pkg pub\<rparr>,
                   sg_sign = sk_Sign pkg sk\<rparr>)
         | None \<Rightarrow> Inl (Err [ErrUnknownAlgorithm] ''signer'')))"

definition mldsa_verify :: "('pk, 'sk) circl \<Rightarrow> PublicKey \<Rightarrow> bytes \<Rightarrow> bytes \<Rightarrow> unit res" where
  "mldsa_verify C pub msg sig =
     (if length (pub_bytes pub) \<noteq> PublicKeySize (pub_alg pub)
      then Inl (Err [ErrInvalidKeySize] ''public key size'')
      else
        (case mldsa_package_of C (pub_alg pub) of
           Some pkg \<Rightarrow>
             rbind (rmap_err (wrap_errs [ErrInvalidKeySize] ''public key'')
                (pk_UnmarshalBinary pkg (pub_bytes pub))) (\<lambda>k.
               if \<not> mldsa_Verify pkg k msg [] sig then Inl (Err [ErrBadSignature] [])
               else Inr ())
         | None \<Rightarrow> Inl (Err [ErrUnknownAlgorithm] ''verify'')))"

subsection \<open>The SLH-DSA family\<close>

definition slhdsaID :: "('pk, 'sk) circl \<Rightarrow> algorithm \<Rightarrow> nat res" where
  "slhdsaID C alg =
     (case IDByName (slhdsa C) (alg_String alg) of
        Inl (Err ks m) \<Rightarrow> Inl (Err [ErrUnknownAlgorithm] ''slhdsa'')
      | r \<Rightarrow> r)"

definition slhdsa_generateKey ::
  "('pk, 'sk) circl \<Rightarrow> bytes \<Rightarrow> algorithm \<Rightarrow> ((PublicKey \<times> PrivateKey) \<times> bytes) res" where
  "slhdsa_generateKey C r alg =
     rbind (slhdsaID C alg) (\<lambda>id.
     rbind (rmap_err (wrap_errs [] ''pqx509: generating SLH-DSA key'')
        (slhdsa_GenerateKey (slhdsa C) r id)) (\<lambda>((pub, priv), r').
     rbind (rmap_err (wrap_errs [] ''pqx509: encoding SLH-DSA public key'')
        (pk_MarshalBinary (slhdsa C) pub)) (\<lambda>pubBytes.
     rbind (rmap_err (wrap_errs [] ''pqx509: encoding SLH-DSA private key'')
        (sk_MarshalBinary (slhdsa C) priv)) (\<lambda>keyMaterial.
       Inr ((\<lparr>pub_alg = alg, pub_bytes = pubBytes\<rparr>,
             \<lparr>priv_alg = alg, priv_seed = keyMaterial\<rparr>), r')))))"

definition slhdsa_signer :: "('pk, 'sk) circl \<Rightarrow> bytes \<Rightarrow> algorithm \<Rightarrow> Signer res" where
  "slhdsa_signer C keyMaterial alg =
     (if length keyMaterial \<noteq> SeedSize alg
      then Inl (Err [ErrInvalidKeySize] ''SLH-DSA key material size'')
      else
        rbind (slhdsaID C alg) (\<lambda>id.
        rbind (rmap_err (wrap_errs [ErrInvalidKeySize] ''SLH-DSA private key'')
           (sl_sk_UnmarshalBinary (slhdsa C) id keyMaterial)) (\<lambda>sk.
        rbind (rmap_err (wrap_errs [] ''pqx509: encoding SLH-DSA public key'')
           (pk_MarshalBinary (slhdsa C) (sk_PublicKey (slhdsa C) sk))) (\<lambda>pubBytes.
          Inr \<lparr>sg_alg = alg, sg_pub = \<lparr>pub_alg = alg, pub_bytes = pubBytes\<rparr>,
               sg_sign = (\<lambda>msg. SignDeterministic (slhdsa C) sk msg [])\<rparr>))))"

definition slhdsa_verify :: "('pk, 'sk) circl \<Rightarrow> PublicKey \<Rightarrow> bytes \<Rightarrow> bytes \<Rightarrow> unit res" where
  "slhdsa_verify C pub msg sig =
     (if length (pub_bytes pub) \<noteq> PublicKeySize (pub_alg pub)
      then Inl (Err [ErrInvalidKeySize] ''public key size'')
      else
        rbind (slhdsaID C (pub_alg pub)) (\<lambda>id.
        rbind (rmap_err (wrap_errs [ErrInvalidKeySize] ''public key'')
           (sl_pk_UnmarshalBinary (slhdsa C) id (pub_bytes pub))) (\<lambda>k.
          if \<not> slhdsa_Verify (slhdsa C) k msg sig [] then Inl (Err [ErrBadSignature] [])
          else Inr ())))"

subsection \<open>Keys of any family\<close>

definition key_Signer :: "('pk, 'sk) circl \<Rightarrow> PrivateKey \<Rightarrow> Signer res" where
  "key_Signer C k =
     (case alg_info (priv_alg k) of
        None \<Rightarrow> Inl (Err [ErrUnknownAlgorithm] ''Signer'')
      | Some info \<Rightarrow>
          (case ai_family info of
             mldsaFamily \<Rightarrow> mldsa_signer C (priv_seed k) (priv_alg k)
           | slhdsaFamily \<Rightarrow> slhdsa_signer C (priv_seed k) (priv_alg k)))"

definition mldsa_generateKey ::
  "('pk, 'sk) circl \<Rightarrow> bytes \<Rightarrow> algorithm \<Rightarrow> ((PublicKey \<times> PrivateKey) \<times> bytes) res" where
  "mldsa_generateKey C r alg =
     rbind (rmap_err (wrap_errs [] ''pqx509: reading seed'') (read_full (SeedSize alg) r)) (\<lambda>(seed, r').
       (let priv = \<lparr>priv_alg = alg, priv_seed = seed\<rparr> in
        rbind (key_Signer C priv) (\<lambda>signer. Inr ((sg_pub signer, priv), r'))))"

definition GenerateKey ::
  "('pk, 'sk) circl \<Rightarrow> bytes \<Rightarrow> algorithm \<Rightarrow> ((PublicKey \<times> PrivateKey) \<times> bytes) res" where
  "GenerateKey C rand alg =
     (case alg_info alg of
        None \<Rightarrow> Inl (Err [ErrUnknownAlgorithm] ''GenerateKey'')
      | Some info \<Rightarrow>
          (case ai_family info of
             mldsaFamily \<Rightarrow> mldsa_generateKey C rand alg
           | slhdsaFamily \<Rightarrow> slhdsa_generateKey C rand alg))"

definition Verify :: "('pk, 'sk) circl \<Rightarrow> PublicKey \<Rightarrow> bytes \<Rightarrow> bytes \<Rightarrow> unit res" where
  "Verify C pub msg sig =
     (case alg_info (pub_alg pub) of
        None \<Rightarrow> Inl (Err [ErrUnknownAlgorithm] ''Verify'')
      | Some info \<Rightarrow>
          (case ai_family info of
             mldsaFamily \<Rightarrow> mldsa_verify C pub msg sig
           | slhdsaFamily \<Rightarrow> slhdsa_verify C pub msg sig))"

definition MarshalPKIXPublicKey :: "PublicKey \<Rightarrow> bytes res" where
  "MarshalPKIXPublicKey pub =
     (if \<not> alg_Valid (pub_alg pub) then Inl (Err [ErrUnknownAlgorithm] ''MarshalPKIXPublicKey'')
      else if length (pub_bytes pub) \<noteq> PublicKeySize (pub_alg pub)
      then Inl (Err [ErrInvalidKeySize] ''public key size'')
      else rmap_err (wrap_errs [] ''pqx509: marshaling SPKI'')
        (marshal_spki \<lparr>spki_algorithm = algorithm_identifier (alg_OID (pub_alg pub)),
                       spki_key = octet_bits (pub_bytes pub)\<rparr>))"

definition publicKeyFromSPKI :: "subjectPublicKeyInfo \<Rightarrow> PublicKey res" where
  "publicKeyFromSPKI spki =
     rbind (algorithmFromOID (aid_algorithm (spki_algorithm spki))) (\<lambda>alg.
       if rv_full (aid_parameters (spki_algorithm spki)) \<noteq> []
       then Inl (Err [ErrMalformedDER] ''AlgorithmIdentifier must omit parameters'')
       else if bs_bits (spki_key spki) mod 8 \<noteq> 0
       then Inl (Err [ErrMalformedDER] ''SPKI BIT STRING has unused bits'')
       else if length (bs_bytes (spki_key spki)) \<noteq> PublicKeySize alg
       then Inl (Err [ErrInvalidKeySize] ''public key size'')
       else Inr \<lparr>pub_alg = alg, pub_bytes = bs_bytes (spki_key spki)\<rparr>)"

definition ParsePKIXPublicKey :: "bytes \<Rightarrow> PublicKey res" where
  "ParsePKIXPublicKey der =
     rbind (rmap_err (wrap_errs [ErrMalformedDER] ''SPKI'') (parse_spki der)) (\<lambda>(spki, rest).
       if rest \<noteq> [] then Inl (Err [ErrTrailingData] ''bytes after SPKI'')
       else publicKeyFromSPKI spki)"

definition KeyIdentifier :: "PublicKey \<Rightarrow> bytes res" where
  "KeyIdentifier pub =
     (if length (pub_bytes pub) \<noteq> PublicKeySize (pub_alg pub)
      then Inl (Err [ErrInvalidKeySize] ''public key size'')
      else Inr (take 20 (sha256 (pub_bytes pub))))"

subsection \<open>What the code relies on\<close>

definition mldsa_ok :: "('pk, 'sk) mldsa_package \<Rightarrow> algorithm \<Rightarrow> bool" where
  "mldsa_ok pkg alg =
     (\<forall>seed. length seed = 32 \<longrightarrow>
       (\<exists>pub sk. NewKeyFromSeed pkg seed = (pub, sk)
         \<and> length (pk_Bytes pkg pub) = PublicKeySize alg
         \<and> pk_UnmarshalBinary pkg (pk_Bytes pkg pub) = Inr pub
         \<and> (\<forall>msg. \<exists>sig. sk_Sign pkg sk msg = Inr sig \<and> length sig = SignatureSize alg
               \<and> mldsa_Verify pkg pub msg [] sig)))"

definition slhdsa_ok :: "('pk, 'sk) slhdsa_package \<Rightarrow> algorithm \<Rightarrow> bool" where
  "slhdsa_ok S alg =
     (\<exists>id. IDByName S (alg_String alg) = Inr id \<and>
       (\<forall>r pub sk r'. slhdsa_GenerateKey S r id = Inr ((pub, sk), r') \<longrightarrow>
         (\<exists>pb km. pk_MarshalBinary S pub = Inr pb \<and> length pb = PublicKeySize alg
           \<and> sl_pk_UnmarshalBinary S id pb = Inr pub
           \<and> sk_MarshalBinary S sk = Inr km \<and> length km = SeedSize alg
           \<and> sl_sk_UnmarshalBinary S id km = Inr sk \<and> sk_PublicKey S sk = pub
           \<and> (\<forall>msg. \<exists>sig. SignDeterministic S sk msg [] = Inr sig
                 \<and> length sig = SignatureSize alg \<and> slhdsa_Verify S pub msg sig []))))"

text \<open>
  \<open>circl_ok\<close>: the documented behaviour of the three ML-DSA packages and of \<open>slhdsa\<close>:
  sizes, encodings that decode to the same key, and signatures that verify.
\<close>

definition circl_ok :: "('pk, 'sk) circl \<Rightarrow> bool" where
  "circl_ok C =
     (mldsa_ok (mldsa44 C) MLDSA44 \<and> mldsa_ok (mldsa65 C) MLDSA65 \<and> mldsa_ok (mldsa87 C) MLDSA87
      \<and> (\<forall>alg \<in> {SLHDSA_SHA2_128s..SLHDSA_SHAKE_256f}. slhdsa_ok (slhdsa C) alg))"

definition pub_ok :: "PublicKey \<Rightarrow> bool" where
  "pub_ok pub = (alg_Valid (pub_alg pub) \<and> length (pub_bytes pub) = PublicKeySize (pub_alg pub))"

definition priv_ok :: "PrivateKey \<Rightarrow> bool" where
  "priv_ok k = (alg_Valid (priv_alg k) \<and> length (priv_seed k) = SeedSize (priv_alg k))"

definition signer_ok :: "('pk, 'sk) circl \<Rightarrow> Signer \<Rightarrow> bool" where
  "signer_ok C s =
     (pub_ok (sg_pub s) \<and> pub_alg (sg_pub s) = sg_alg s
      \<and> (\<forall>msg. \<exists>sig. sg_sign s msg = Inr sig \<and> length sig = SignatureSize (sg_alg s)
            \<and> Verify C (sg_pub s) msg sig = Inr ()))"

subsection \<open>Families\<close>

lemma alg_info_Some:
  assumes "alg_info alg = Some info"
  shows "ai_family info = mldsaFamily \<longleftrightarrow> alg \<in> {MLDSA44, MLDSA65, MLDSA87}"
    and "ai_family info = slhdsaFamily \<longleftrightarrow> alg \<in> {SLHDSA_SHA2_128s..SLHDSA_SHAKE_256f}"
    and "ai_family info = mldsaFamily \<Longrightarrow> SeedSize alg = 32"
proof -
  have "list_all (\<lambda>(a, i). (ai_family i = mldsaFamily \<longleftrightarrow> a \<in> {MLDSA44, MLDSA65, MLDSA87}) \<and>
      (ai_family i = slhdsaFamily \<longleftrightarrow> a \<in> {SLHDSA_SHA2_128s..SLHDSA_SHAKE_256f}) \<and>
      (ai_family i = mldsaFamily \<longrightarrow> ai_seedSize i = 32)) algorithms"
    by (simp add: algorithms_def algorithm_consts)
  moreover have "SeedSize alg = ai_seedSize info"
    using assms by (simp add: SeedSize_def)
  moreover have "(alg, info) \<in> set algorithms"
    using assms by (simp add: alg_info_in)
  ultimately show "ai_family info = mldsaFamily \<longleftrightarrow> alg \<in> {MLDSA44, MLDSA65, MLDSA87}"
    and "ai_family info = slhdsaFamily \<longleftrightarrow> alg \<in> {SLHDSA_SHA2_128s..SLHDSA_SHAKE_256f}"
    and "ai_family info = mldsaFamily \<Longrightarrow> SeedSize alg = 32"
    by (auto simp: list_all_iff)
qed

lemma mldsa_package_ok:
  assumes "circl_ok C" "alg_info alg = Some info" "ai_family info = mldsaFamily"
  obtains pkg where "mldsa_package_of C alg = Some pkg" "mldsa_ok pkg alg"
  using assms alg_info_Some(1) [OF assms(2)]
  by (auto simp: mldsa_package_of_def circl_ok_def algorithm_consts)

lemma mldsa_signer_ok:
  assumes "circl_ok C" "alg_info alg = Some info" "ai_family info = mldsaFamily"
    and "length seed = SeedSize alg"
  shows "\<exists>s. mldsa_signer C seed alg = Inr s \<and> sg_alg s = alg \<and> signer_ok C s"
proof -
  obtain pkg where pkg: "mldsa_package_of C alg = Some pkg" "mldsa_ok pkg alg"
    using mldsa_package_ok [OF assms(1-3)] .
  have l: "length seed = 32" using assms(4) alg_info_Some(3) [OF assms(2,3)] by simp
  then obtain pub sk where k: "NewKeyFromSeed pkg seed = (pub, sk)"
    "length (pk_Bytes pkg pub) = PublicKeySize alg"
    "pk_UnmarshalBinary pkg (pk_Bytes pkg pub) = Inr pub"
    "\<And>msg. \<exists>sig. sk_Sign pkg sk msg = Inr sig \<and> length sig = SignatureSize alg
        \<and> mldsa_Verify pkg pub msg [] sig"
    using pkg(2) unfolding mldsa_ok_def by blast
  let ?s = "\<lparr>sg_alg = alg, sg_pub = \<lparr>pub_alg = alg, pub_bytes = pk_Bytes pkg pub\<rparr>,
      sg_sign = sk_Sign pkg sk\<rparr>"
  have "mldsa_signer C seed alg = Inr ?s"
    using l assms(4) pkg(1) k(1) by (simp add: mldsa_signer_def)
  moreover have "signer_ok C ?s"
    using k assms(2,3) pkg(1)
    by (auto simp: signer_ok_def pub_ok_def Verify_def mldsa_verify_def alg_Valid_def)
  ultimately show ?thesis by auto
qed

lemma GenerateKey_signer:
  assumes "circl_ok C" "GenerateKey C r alg = Inr ((pub, priv), r')"
  shows "\<exists>s. key_Signer C priv = Inr s \<and> sg_pub s = pub \<and> sg_alg s = alg \<and> signer_ok C s
    \<and> priv_alg priv = alg \<and> priv_ok priv"
proof -
  obtain info where info: "alg_info alg = Some info"
    using assms(2) by (auto simp: GenerateKey_def split: option.splits)
  show ?thesis
  proof (cases "ai_family info")
    case mldsaFamily
    then obtain seed s where s: "read_full (SeedSize alg) r = Inr (seed, r')"
      "priv = \<lparr>priv_alg = alg, priv_seed = seed\<rparr>" "key_Signer C priv = Inr s" "pub = sg_pub s"
      using assms(2) info mldsaFamily
      by (auto simp: GenerateKey_def mldsa_generateKey_def go_inv Let_def)
    then have l: "length seed = SeedSize alg"
      by (auto simp: read_full_def split: if_splits)
    show ?thesis
      using mldsa_signer_ok [OF assms(1) info mldsaFamily l] s info mldsaFamily l
      by (auto simp: key_Signer_def priv_ok_def alg_Valid_def)
  next
    case slhdsaFamily
    let ?S = "slhdsa C"
    have "slhdsa_ok ?S alg"
      using assms(1) alg_info_Some(2) [OF info] slhdsaFamily by (simp add: circl_ok_def)
    then obtain id where id: "IDByName ?S (alg_String alg) = Inr id"
      and gen: "\<And>r pk sk r'. slhdsa_GenerateKey ?S r id = Inr ((pk, sk), r') \<Longrightarrow>
         (\<exists>pb km. pk_MarshalBinary ?S pk = Inr pb \<and> length pb = PublicKeySize alg
           \<and> sl_pk_UnmarshalBinary ?S id pb = Inr pk
           \<and> sk_MarshalBinary ?S sk = Inr km \<and> length km = SeedSize alg
           \<and> sl_sk_UnmarshalBinary ?S id km = Inr sk \<and> sk_PublicKey ?S sk = pk
           \<and> (\<forall>msg. \<exists>sig. SignDeterministic ?S sk msg [] = Inr sig
                 \<and> length sig = SignatureSize alg \<and> slhdsa_Verify ?S pk msg sig []))"
      unfolding slhdsa_ok_def by blast
    then have ID: "slhdsaID C alg = Inr id" by (simp add: slhdsaID_def)
    obtain pk sk pb km where g: "slhdsa_GenerateKey ?S r id = Inr ((pk, sk), r')"
      "pk_MarshalBinary ?S pk = Inr pb" "sk_MarshalBinary ?S sk = Inr km"
      "pub = \<lparr>pub_alg = alg, pub_bytes = pb\<rparr>" "priv = \<lparr>priv_alg = alg, priv_seed = km\<rparr>"
      using assms(2) info slhdsaFamily ID
      by (auto simp: GenerateKey_def slhdsa_generateKey_def go_inv)
    let ?s = "\<lparr>sg_alg = alg, sg_pub = pub, sg_sign = (\<lambda>msg. SignDeterministic ?S sk msg [])\<rparr>"
    have k: "length pb = PublicKeySize alg" "length km = SeedSize alg"
      "sl_pk_UnmarshalBinary ?S id pb = Inr pk" "sl_sk_UnmarshalBinary ?S id km = Inr sk"
      "sk_PublicKey ?S sk = pk"
      "\<And>msg. \<exists>sig. SignDeterministic ?S sk msg [] = Inr sig
          \<and> length sig = SignatureSize alg \<and> slhdsa_Verify ?S pk msg sig []"
      using gen [OF g(1)] g(2,3) by auto
    have "key_Signer C priv = Inr ?s"
      using k g info slhdsaFamily ID by (simp add: key_Signer_def slhdsa_signer_def)
    moreover have "signer_ok C ?s"
      using k g info slhdsaFamily ID
      by (auto simp: signer_ok_def pub_ok_def Verify_def slhdsa_verify_def alg_Valid_def)
    ultimately show ?thesis
      using k(2) g(5) info by (auto simp: priv_ok_def alg_Valid_def)
  qed
qed

text \<open>A signature is only accepted under a known algorithm and a key of the right size.\<close>

lemma Verify_Inr_pub_ok: "Verify C pub msg sig = Inr () \<Longrightarrow> pub_ok pub"
  by (auto simp: Verify_def mldsa_verify_def slhdsa_verify_def pub_ok_def alg_Valid_def
      split: option.splits algorithmFamily.splits if_splits)

subsection \<open>PKIX round trip\<close>

definition spki_of :: "PublicKey \<Rightarrow> subjectPublicKeyInfo" where
  "spki_of pub = \<lparr>spki_algorithm = algorithm_identifier (alg_OID (pub_alg pub)),
                  spki_key = octet_bits (pub_bytes pub)\<rparr>"

lemma algorithm_identifier_ok: "alg_Valid a \<Longrightarrow> algorithmIdentifier_ok (algorithm_identifier (alg_OID a))"
  by (simp add: algorithmIdentifier_ok_def algorithm_identifier_def alg_OID_ok)

lemma spki_of_ok: "pub_ok pub \<Longrightarrow> spki_ok (spki_of pub)"
  by (simp add: spki_ok_def spki_of_def pub_ok_def algorithm_identifier_ok octet_bits_def)

lemma marshal_algorithm_identifier:
  "alg_Valid a \<Longrightarrow> \<exists>bs. marshal_algorithmIdentifier (algorithm_identifier (alg_OID a)) = Inr bs"
  using oid_ok_bytes [OF alg_OID_ok, of a]
  by (auto simp: marshal_algorithmIdentifier_def algorithm_identifier_def marshal_oid_def)

lemma length_algorithm_identifier:
  assumes "alg_Valid a" "marshal_algorithmIdentifier (algorithm_identifier (alg_OID a)) = Inr bs"
  shows "length bs \<le> 60"
proof -
  obtain i where i: "oid_bytes (alg_OID a) = Inr i" "bs = tlv 0 True 16 (tlv 0 False 6 i)"
    using assms(2)
    by (auto simp: marshal_algorithmIdentifier_def algorithm_identifier_def marshal_oid_def go_inv)
  have "list_all (\<lambda>(a, i). length (ai_oid i) = 9) algorithms"
    by (simp add: algorithms_def)
  then have "length (alg_OID a) = 9"
    using assms(1) by (force simp: alg_Valid_def alg_OID_def list_all_iff simp flip: alg_info_in)
  then have "length i \<le> 45"
    using length_oid_bytes [OF alg_OID_ok [OF assms(1)] i(1)] by simp
  then show ?thesis
    using length_tlv_le [of 6 i 0 False] length_tlv_le [of 16 "tlv 0 False 6 i" 0 True] i(2)
    by simp
qed

lemma publicKeyFromSPKI_spki_of [simp]: "pub_ok pub \<Longrightarrow> publicKeyFromSPKI (spki_of pub) = Inr pub"
  by (simp add: publicKeyFromSPKI_def spki_of_def pub_ok_def algorithm_identifier_def
      algorithmFromOID_alg_OID octet_bits_def zero_raw_def)

lemma publicKeyFromSPKI_ok: "publicKeyFromSPKI spki = Inr pub \<Longrightarrow> pub_ok pub"
  by (auto simp: publicKeyFromSPKI_def pub_ok_def go_inv algorithmFromOID_Inr split: if_splits)

lemma MarshalPKIX_spki: "pub_ok pub \<Longrightarrow> MarshalPKIXPublicKey pub = rmap_err (wrap_errs [] ''pqx509: marshaling SPKI'') (marshal_spki (spki_of pub))"
  by (simp add: MarshalPKIXPublicKey_def pub_ok_def spki_of_def)

lemma MarshalPKIX_total: "pub_ok pub \<Longrightarrow> \<exists>der. MarshalPKIXPublicKey pub = Inr der"
  using marshal_algorithm_identifier [of "pub_alg pub"]
  by (auto simp: MarshalPKIX_spki marshal_spki_def spki_of_def pub_ok_def)

lemma length_spki_of:
  assumes "pub_ok pub" "marshal_spki (spki_of pub) = Inr bs"
  shows "length bs \<le> 2700"
proof -
  obtain a where a: "marshal_algorithmIdentifier (algorithm_identifier (alg_OID (pub_alg pub))) = Inr a"
    "bs = tlv 0 True 16 (a @ marshal_bits (octet_bits (pub_bytes pub)))"
    using assms(2) by (auto simp: marshal_spki_def spki_of_def go_inv)
  have "length a \<le> 60"
    using a(1) assms(1) length_algorithm_identifier by (auto simp: pub_ok_def)
  moreover have "length (marshal_bits (octet_bits (pub_bytes pub))) \<le> 2600"
    using size_bounds(1) [of "pub_alg pub"] assms(1)
      length_tlv_le [of 3 "bit_string_bytes (octet_bits (pub_bytes pub))" 0 False]
    by (simp add: marshal_bits_def pub_ok_def octet_bits_def)
  ultimately show ?thesis
    using length_tlv_le [of 16 "a @ marshal_bits (octet_bits (pub_bytes pub))" 0 True] a(2)
    by simp
qed

lemma length_KeyIdentifier: "KeyIdentifier pub = Inr kid \<Longrightarrow> length kid = 20"
  by (auto simp: KeyIdentifier_def split: if_splits)

subsection \<open>A concrete instance of the interface\<close>

text \<open>
  \<open>toy_circl\<close> instantiates the interface with computable functions of the right sizes that
  satisfy \<open>circl_ok\<close>; it shows that the hypothesis can hold and is what the concrete
  examples of the development run on. It is not a signature scheme.
\<close>

definition toy_sig :: "algorithm \<Rightarrow> bytes \<Rightarrow> bytes \<Rightarrow> bytes" where
  "toy_sig alg k msg = replicate (SignatureSize alg) (foldl (+) 0 msg + foldl (+) 0 k)"

definition toy_mldsa :: "algorithm \<Rightarrow> (algorithm \<times> bytes, algorithm \<times> bytes) mldsa_package" where
  "toy_mldsa alg =
     \<lparr>NewKeyFromSeed = (\<lambda>seed. ((alg, seed), (alg, seed))),
      pk_Bytes = (\<lambda>(a, k). k @ replicate (PublicKeySize alg - 32) 0),
      pk_UnmarshalBinary = (\<lambda>b. if length b \<noteq> PublicKeySize alg then Inl (Err [] ''size'')
                                else Inr (alg, take 32 b)),
      sk_Sign = (\<lambda>(a, k) msg. Inr (toy_sig alg k msg)),
      mldsa_Verify = (\<lambda>(a, k) msg ctx sig. ctx = [] \<and> sig = toy_sig alg k msg)\<rparr>"

definition toy_public :: "algorithm \<times> bytes \<Rightarrow> algorithm \<times> bytes" where
  "toy_public k = (fst k, drop (SeedSize (fst k) - PublicKeySize (fst k)) (snd k))"

definition toy_slhdsa :: "(algorithm \<times> bytes, algorithm \<times> bytes) slhdsa_package" where
  "toy_slhdsa =
     \<lparr>IDByName = (\<lambda>s. case map_of (map (\<lambda>(a, i). (ai_name i, a)) algorithms) s of
                        None \<Rightarrow> Inl (Err [] ''name'') | Some a \<Rightarrow> Inr (nat a)),
      slhdsa_GenerateKey = (\<lambda>r id.
        if length r < SeedSize (int id) then Inl (Err [] ''EOF'')
        else (let sk = (int id, take (SeedSize (int id)) r) in
              Inr ((toy_public sk, sk), drop (SeedSize (int id)) r))),
      pk_MarshalBinary = (\<lambda>k. Inr (snd k)),
      sk_MarshalBinary = (\<lambda>k. Inr (snd k)),
      sl_pk_UnmarshalBinary = (\<lambda>id b. if length b \<noteq> PublicKeySize (int id) then Inl (Err [] ''size'')
                                       else Inr (int id, b)),
      sl_sk_UnmarshalBinary = (\<lambda>id b. if length b \<noteq> SeedSize (int id) then Inl (Err [] ''size'')
                                       else Inr (int id, b)),
      sk_PublicKey = toy_public,
      SignDeterministic = (\<lambda>k msg ctx. Inr (toy_sig (fst k) (snd (toy_public k)) msg)),
      slhdsa_Verify = (\<lambda>k msg sig ctx. ctx = [] \<and> sig = toy_sig (fst k) (snd k) msg)\<rparr>"

definition toy_circl :: "(algorithm \<times> bytes, algorithm \<times> bytes) circl" where
  "toy_circl = \<lparr>mldsa44 = toy_mldsa MLDSA44, mldsa65 = toy_mldsa MLDSA65,
     mldsa87 = toy_mldsa MLDSA87, slhdsa = toy_slhdsa\<rparr>"

lemma length_toy_sig [simp]: "length (toy_sig alg k msg) = SignatureSize alg"
  by (simp add: toy_sig_def)

lemma toy_mldsa_ok: "32 \<le> PublicKeySize alg \<Longrightarrow> mldsa_ok (toy_mldsa alg) alg"
  by (simp add: mldsa_ok_def toy_mldsa_def)

lemma registry_sizes:
  assumes "alg_Valid alg"
  shows "map_of (map (\<lambda>(a, i). (ai_name i, a)) algorithms) (alg_String alg) = Some alg"
    and "32 \<le> PublicKeySize alg"
    and "alg \<in> {SLHDSA_SHA2_128s..SLHDSA_SHAKE_256f} \<Longrightarrow> PublicKeySize alg \<le> SeedSize alg"
proof -
  obtain info where i: "alg_info alg = Some info"
    using assms by (auto simp: alg_Valid_def)
  then have "(ai_name info, alg) \<in> set (map (\<lambda>(a, i). (ai_name i, a)) algorithms)"
    by (force simp: alg_info_in)
  moreover have "distinct (map fst (map (\<lambda>(a, i). (ai_name i, a)) algorithms))"
    using distinct_names by (simp add: comp_def case_prod_unfold)
  ultimately show "map_of (map (\<lambda>(a, i). (ai_name i, a)) algorithms) (alg_String alg) = Some alg"
    using i by (simp add: alg_String_def)
  have "list_all (\<lambda>(a, i). 32 \<le> ai_pkSize i \<and>
      (a \<in> {SLHDSA_SHA2_128s..SLHDSA_SHAKE_256f} \<longrightarrow> ai_pkSize i \<le> ai_seedSize i)) algorithms"
    by (simp add: algorithms_def algorithm_consts)
  moreover have "(alg, info) \<in> set algorithms" using i by (simp add: alg_info_in)
  ultimately show "32 \<le> PublicKeySize alg"
    and "alg \<in> {SLHDSA_SHA2_128s..SLHDSA_SHAKE_256f} \<Longrightarrow> PublicKeySize alg \<le> SeedSize alg"
    using i by (auto simp: list_all_iff PublicKeySize_def SeedSize_def)
qed

lemma toy_slhdsa_ok:
  assumes "alg \<in> {SLHDSA_SHA2_128s..SLHDSA_SHAKE_256f}"
  shows "slhdsa_ok toy_slhdsa alg"
proof -
  have v: "alg_Valid alg" "0 \<le> alg"
    using assms by (auto simp: alg_Valid_iff algorithm_consts)
  show ?thesis
    using registry_sizes [OF v(1)] v(2) assms
    by (auto simp: slhdsa_ok_def toy_slhdsa_def toy_public_def Let_def split: if_splits
        intro!: exI [of _ "nat alg"])
qed

lemma toy_circl_ok: "circl_ok toy_circl"
proof -
  have "32 \<le> PublicKeySize a" if "a \<in> {MLDSA44, MLDSA65, MLDSA87}" for a
    using that by (intro registry_sizes(2)) (auto simp: alg_Valid_iff algorithm_consts)
  then show ?thesis
    by (simp add: circl_ok_def toy_circl_def toy_slhdsa_ok toy_mldsa_ok)
qed

subsection \<open>Properties\<close>

text \<open>Whatever \<open>GenerateKey\<close> returns, under the documented behaviour of circl, is a
  usable key pair: the private key has its algorithm's size and expands to a signer whose
  public key is the one returned, every message can be signed, the signature has the size the
  registry announces, and \<open>Verify\<close> accepts it under the returned public key.\<close>

theorem GenerateKey_sign_verify:
  assumes "circl_ok C" and "GenerateKey C rand alg = Inr ((pub, priv), rest)"
  shows "pub_ok pub \<and> pub_alg pub = alg \<and> priv_ok priv \<and> priv_alg priv = alg \<and>
    (\<exists>s. key_Signer C priv = Inr s \<and> sg_pub s = pub \<and>
       (\<forall>msg. \<exists>sig. sg_sign s msg = Inr sig \<and> length sig = SignatureSize alg
              \<and> Verify C pub msg sig = Inr ()))"
  using GenerateKey_signer [OF assms] by (auto simp: signer_ok_def)

theorem GenerateKey_sign_verify_witness:
  "\<exists>pub priv. GenerateKey toy_circl (replicate 33 7) MLDSA44 = Inr ((pub, priv), [7])
     \<and> pub_ok pub"
proof -
  have i: "alg_info MLDSA44 = Some \<lparr>ai_name = ''ML-DSA-44'', ai_oid = [2,16,840,1,101,3,4,3,17],
       ai_pkSize = 1312, ai_sigSize = 2420, ai_seedSize = 32, ai_family = mldsaFamily\<rparr>"
    by (simp add: alg_info_def algorithms_def)
  have "\<exists>pub priv. GenerateKey toy_circl (replicate 33 7) MLDSA44 = Inr ((pub, priv), [7])"
    using i by (simp add: GenerateKey_def mldsa_generateKey_def read_full_def SeedSize_def key_Signer_def
        mldsa_signer_def mldsa_package_of_def toy_circl_def toy_mldsa_def Let_def)
  then show ?thesis using GenerateKey_sign_verify [OF toy_circl_ok] by blast
qed

text \<open>\<open>MarshalPKIXPublicKey\<close> succeeds on every well-formed public key (a known algorithm
  and a key of its size) and \<open>ParsePKIXPublicKey\<close> reads the same key back from the DER.\<close>

theorem ParsePKIX_MarshalPKIX:
  assumes "pub_ok pub"
  shows "\<exists>der. MarshalPKIXPublicKey pub = Inr der \<and> ParsePKIXPublicKey der = Inr pub"
proof -
  obtain der where der: "MarshalPKIXPublicKey pub = Inr der"
    using MarshalPKIX_total [OF assms] by blast
  then have m: "marshal_spki (spki_of pub) = Inr der"
    using assms by (simp add: MarshalPKIX_spki go_inv)
  then have "length der < 2 ^ 31" using length_spki_of [OF assms m] by simp
  then have "parse_spki der = Inr (spki_of pub, [])"
    using spki_codec.dec_enc_all [OF spki_of_ok [OF assms] m] by blast
  then show ?thesis using der assms by (simp add: ParsePKIXPublicKey_def)
qed

theorem ParsePKIX_MarshalPKIX_witness:
  "\<exists>der. MarshalPKIXPublicKey \<lparr>pub_alg = SLHDSA_SHA2_128s, pub_bytes = replicate 32 5\<rparr> = Inr der
     \<and> ParsePKIXPublicKey der = Inr \<lparr>pub_alg = SLHDSA_SHA2_128s, pub_bytes = replicate 32 5\<rparr>"
  by (rule ParsePKIX_MarshalPKIX)
    (simp add: pub_ok_def alg_Valid_def PublicKeySize_def alg_info_def algorithms_def algorithm_consts)

text \<open>No malformed key gets through the two gates of the package: a key that
  \<open>ParsePKIXPublicKey\<close> returns and a key under which \<open>Verify\<close> accepts some signature have a
  registered algorithm and exactly its key size.\<close>

theorem accepted_public_keys_well_formed:
  assumes "ParsePKIXPublicKey der = Inr pub \<or> Verify C pub msg sig = Inr ()"
  shows "alg_Valid (pub_alg pub) \<and> length (pub_bytes pub) = PublicKeySize (pub_alg pub)"
  using assms Verify_Inr_pub_ok [of C pub msg sig] publicKeyFromSPKI_ok [of _ pub]
  by (auto simp: pub_ok_def ParsePKIXPublicKey_def go_inv split: if_splits)

theorem accepted_public_keys_well_formed_witness:
  "length (pub_bytes (fst (fst (projr (GenerateKey toy_circl (replicate 32 7) MLDSA44))))) = 1312"
proof -
  have i: "alg_info MLDSA44 = Some \<lparr>ai_name = ''ML-DSA-44'', ai_oid = [2,16,840,1,101,3,4,3,17],
       ai_pkSize = 1312, ai_sigSize = 2420, ai_seedSize = 32, ai_family = mldsaFamily\<rparr>"
    by (simp add: alg_info_def algorithms_def)
  let ?pub = "fst (fst (projr (GenerateKey toy_circl (replicate 32 7) MLDSA44)))"
  have "Verify toy_circl ?pub [] (toy_sig MLDSA44 (replicate 32 7) []) = Inr ()"
    "pub_alg ?pub = MLDSA44"
    using i by (simp_all add: GenerateKey_def mldsa_generateKey_def read_full_def SeedSize_def
        PublicKeySize_def key_Signer_def mldsa_signer_def mldsa_package_of_def toy_circl_def
        toy_mldsa_def Let_def Verify_def mldsa_verify_def)
  then show ?thesis
    using accepted_public_keys_well_formed
      [of "[]" ?pub toy_circl "[]" "toy_sig MLDSA44 (replicate 32 7) []"] i
    by (simp add: PublicKeySize_def)
qed

end
