(* ===== verification/Signed.thy ===== *)
theory Signed
  imports Keys
begin

section \<open>Signed structures: what certificates, CRLs and CSRs have in common\<close>

text \<open>
  \<open>certificateDER\<close>, \<open>certificateListDER\<close> and \<open>certificationRequestDER\<close> have the same
  three fields: the octets that are signed, the signature algorithm and the signature. The record
  \<open>signedDER\<close> stands for the three; \<open>signed_ok\<close> describes the values that are written, and the
  codec contract gives back every one of them.
\<close>

record signedDER =
  sd_tbs :: raw_value
  sd_alg :: algorithmIdentifier
  sd_sig :: bit_string

type_synonym certificateDER = signedDER
type_synonym certificateListDER = signedDER
type_synonym certificationRequestDER = signedDER

definition raw_full :: "bytes \<Rightarrow> raw_value" where
  "raw_full der = \<lparr>rv_class = 0, rv_tag = 0, rv_compound = False, rv_bytes = [], rv_full = der\<rparr>"

definition marshal_signed :: "signedDER \<Rightarrow> bytes res" where
  "marshal_signed s =
     rbind (marshal_algorithmIdentifier (sd_alg s)) (\<lambda>a.
       Inr (tlv 0 True 16 (marshal_raw (sd_tbs s) @ a @ marshal_bits (sd_sig s))))"

definition signed_fields :: "bytes \<Rightarrow> signedDER res" where
  "signed_fields inner =
     rbind (parse_raw no_params inner) (\<lambda>(t, r).
     rbind (parse_algorithmIdentifier r) (\<lambda>(a, r1).
     rbind (parse_bits r1) (\<lambda>(s, _).
       Inr \<lparr>sd_tbs = t, sd_alg = a, sd_sig = s\<rparr>)))"

definition parse_signed :: "bytes \<Rightarrow> (signedDER \<times> bytes) res" where
  "parse_signed = parse_struct no_params signed_fields
     \<lparr>sd_tbs = zero_raw, sd_alg = algorithm_identifier [], sd_sig = \<lparr>bs_bytes = [], bs_bits = 0\<rparr>\<rparr>"

definition signed_ok :: "signedDER \<Rightarrow> bool" where
  "signed_ok s = (raw_ok (sd_tbs s) \<and> algorithmIdentifier_ok (sd_alg s)
     \<and> sd_sig s = octet_bits (bs_bytes (sd_sig s)))"

interpretation signed_codec: asn1_codec marshal_signed parse_signed signed_ok
proof
  fix s bs rest
  assume s: "signed_ok s" "marshal_signed s = Inr bs" "length bs < 2 ^ 31"
  let ?k = "bs_bytes (sd_sig s)" and ?t = "marshal_raw (sd_tbs s)"
  obtain a where a: "marshal_algorithmIdentifier (sd_alg s) = Inr a"
    and bs: "bs = tlv 0 True 16 (?t @ a @ marshal_bits (octet_bits ?k))"
    using s(1,2) by (auto simp: marshal_signed_def signed_ok_def go_inv)
  have l: "length (?t @ a @ marshal_bits (octet_bits ?k)) < 2 ^ 31"
    using s(3) bs tlv_body_bound by blast
  then have l': "length ?t < 2 ^ 31" "length a < 2 ^ 31" "Suc (length ?k) < 2 ^ 31"
    using length_tlv_body [of "bit_string_bytes (octet_bits ?k)" 0 False 3]
    by (simp_all add: marshal_bits_def octet_bits_def)
  have "parse_raw no_params (?t @ a @ marshal_bits (octet_bits ?k)) =
      Inr (sd_tbs s, a @ marshal_bits (octet_bits ?k))"
    using s(1) l'(1) by (intro raw_codec.dec_enc) (simp_all add: signed_ok_def)
  moreover have "parse_algorithmIdentifier (a @ marshal_bits (octet_bits ?k)) =
      Inr (sd_alg s, marshal_bits (octet_bits ?k))"
    using s(1) a l'(2) by (intro algorithmIdentifier_codec.dec_enc) (simp_all add: signed_ok_def)
  moreover have "parse_bits (marshal_bits (octet_bits ?k)) = Inr (octet_bits ?k, [])"
    using parse_bits_marshal [OF l'(3), of "[]"] by simp
  ultimately have "signed_fields (?t @ a @ marshal_bits (octet_bits ?k)) = Inr s"
    using s(1) by (simp add: signed_fields_def signed_ok_def)
  then show "parse_signed (bs @ rest) = Inr (s, rest)"
    by (simp add: parse_signed_def bs parse_struct_tlv [OF l])
qed

text \<open>Writing the octets of a sequence or the sequence itself is the same.\<close>

lemma marshal_raw_full [simp]: "der \<noteq> [] \<Longrightarrow> marshal_raw (raw_full der) = der"
  by (simp add: marshal_raw_def raw_full_def)

lemma marshal_signed_tbs:
  "marshal_signed \<lparr>sd_tbs = raw_full (tlv cls cons tag body), sd_alg = a, sd_sig = s\<rparr> =
   marshal_signed \<lparr>sd_tbs = raw_of cls cons tag body, sd_alg = a, sd_sig = s\<rparr>"
  by (simp add: marshal_signed_def)

lemma parse_marshal_signed:
  assumes "marshal_signed \<lparr>sd_tbs = raw_full (tlv 0 True 16 body),
      sd_alg = algorithm_identifier (alg_OID alg), sd_sig = octet_bits sig\<rparr> = Inr der"
    and "alg_Valid alg" "length der < 2 ^ 31"
  shows "parse_signed der = Inr (\<lparr>sd_tbs = raw_of 0 True 16 body,
      sd_alg = algorithm_identifier (alg_OID alg), sd_sig = octet_bits sig\<rparr>, [])"
    and "length (tlv 0 True 16 body) < 2 ^ 31"
proof -
  let ?s = "\<lparr>sd_tbs = raw_of 0 True 16 body, sd_alg = algorithm_identifier (alg_OID alg),
      sd_sig = octet_bits sig\<rparr>"
  have "signed_ok ?s"
    using assms(2) by (simp add: signed_ok_def raw_ok_raw_of algorithm_identifier_ok)
      (simp add: octet_bits_def)
  then show "parse_signed der = Inr (?s, [])"
    using assms(1,3) signed_codec.dec_enc_all by (simp add: marshal_signed_tbs)
  obtain a where "der = tlv 0 True 16 (tlv 0 True 16 body @ a @ marshal_bits (octet_bits sig))"
    using assms(1) by (auto simp: marshal_signed_def go_inv)
  then have "length (tlv 0 True 16 body @ a @ marshal_bits (octet_bits sig)) < 2 ^ 31"
    using assms(3) tlv_body_bound by blast
  then show "length (tlv 0 True 16 body) < 2 ^ 31" by simp
qed

subsection \<open>An example signer\<close>

definition toy_key :: PublicKey where
  "toy_key = \<lparr>pub_alg = SLHDSA_SHA2_128s, pub_bytes = replicate 32 1\<rparr>"

definition toy_signer :: Signer where
  "toy_signer = \<lparr>sg_alg = SLHDSA_SHA2_128s, sg_pub = toy_key,
     sg_sign = (\<lambda>msg. Inr (toy_sig SLHDSA_SHA2_128s (replicate 32 1) msg))\<rparr>"

lemma toy_info:
  "alg_info SLHDSA_SHA2_128s = Some \<lparr>ai_name = ''SLH-DSA-SHA2-128s'', ai_oid = [2, 16, 840, 1, 101, 3, 4, 3, 20],
     ai_pkSize = 32, ai_sigSize = 7856, ai_seedSize = 64, ai_family = slhdsaFamily\<rparr>"
  by (simp add: alg_info_def algorithms_def algorithm_consts)

lemma toy_signer_sel [simp]:
  "sg_alg toy_signer = SLHDSA_SHA2_128s" "sg_pub toy_signer = toy_key"
  "sg_sign toy_signer msg = Inr (toy_sig SLHDSA_SHA2_128s (replicate 32 1) msg)"
  "pub_alg toy_key = SLHDSA_SHA2_128s" "pub_bytes toy_key = replicate 32 1"
  by (simp_all add: toy_signer_def toy_key_def)

lemma toy_alg [simp]:
  "SignatureSize SLHDSA_SHA2_128s = 7856" "PublicKeySize SLHDSA_SHA2_128s = 32"
  "alg_Valid SLHDSA_SHA2_128s" "alg_OID SLHDSA_SHA2_128s = [2, 16, 840, 1, 101, 3, 4, 3, 20]"
  by (simp_all add: SignatureSize_def PublicKeySize_def alg_Valid_def alg_OID_def toy_info)

lemma toy_signer_ok: "signer_ok toy_circl toy_signer"
proof -
  have "slhdsaID toy_circl SLHDSA_SHA2_128s = Inr (nat SLHDSA_SHA2_128s)"
    using registry_sizes(1) [of SLHDSA_SHA2_128s]
    by (simp add: slhdsaID_def toy_circl_def toy_slhdsa_def)
  moreover have i: "int (nat SLHDSA_SHA2_128s) = SLHDSA_SHA2_128s"
    by (simp add: algorithm_consts)
  ultimately have "Verify toy_circl toy_key msg (toy_sig SLHDSA_SHA2_128s (replicate 32 1) msg) = Inr ()" for msg
    using i by (simp add: Verify_def toy_info slhdsa_verify_def)
      (simp add: toy_circl_def toy_slhdsa_def)
  then show ?thesis
    by (simp add: signer_ok_def pub_ok_def)
qed


text \<open>A length bound for what a signer writes.\<close>

lemma marshal_signed_total:
  assumes "alg_Valid alg" "length tbs < 2 ^ 30" "length sig < 2 ^ 20" "tbs \<noteq> []"
  shows "\<exists>der. marshal_signed \<lparr>sd_tbs = raw_full tbs, sd_alg = algorithm_identifier (alg_OID alg),
      sd_sig = octet_bits sig\<rparr> = Inr der \<and> length der < 2 ^ 31"
proof -
  obtain a where a: "marshal_algorithmIdentifier (algorithm_identifier (alg_OID alg)) = Inr a"
    "length a \<le> 60"
    using marshal_algorithm_identifier [OF assms(1)] length_algorithm_identifier [OF assms(1)] by blast
  have "length (marshal_bits (octet_bits sig)) \<le> length sig + 7"
    using assms(3) length_tlv_le [of 3 "bit_string_bytes (octet_bits sig)" 0 False]
    by (simp add: marshal_bits_def octet_bits_def)
  then have l: "length (tbs @ a @ marshal_bits (octet_bits sig)) < 2 ^ 30 + 2 ^ 20 + 2000"
    using assms(2,3) a(2) by simp
  then have "length (tlv 0 True 16 (tbs @ a @ marshal_bits (octet_bits sig))) < 2 ^ 31"
    using length_tlv_le [of 16 "tbs @ a @ marshal_bits (octet_bits sig)" 0 True] by simp
  then show ?thesis using a(1) assms(4) by (simp add: marshal_signed_def)
qed

end
