(* ===== verification/Names.thy ===== *)
theory Names
  imports Asn1_Types
begin

section \<open>X.501 names (internal/pqx509/name.go)\<close>

text \<open>
  \<open>Name\<close>, its DER form (\<open>ToRDNSequence\<close>, \<open>ParseName\<close>) and its RFC 4514 string form
  (\<open>String\<close>, \<open>ParseNameString\<close>). The loop of \<open>ParseName\<close> runs over what \<open>parseSet\<close>
  leaves, so it stops; a run-time panic of the hand-written DER reader is a \<open>Panic\<close> result.
  The lemmas give both round trips, and the input on which the DER reader panics is in
  the properties.
\<close>

definition oidCountry :: oid where "oidCountry = [2, 5, 4, 6]"
definition oidOrganization :: oid where "oidOrganization = [2, 5, 4, 10]"
definition oidOrganizationalUnit :: oid where "oidOrganizationalUnit = [2, 5, 4, 11]"
definition oidCommonName :: oid where "oidCommonName = [2, 5, 4, 3]"
definition oidLocality :: oid where "oidLocality = [2, 5, 4, 7]"
definition oidProvince :: oid where "oidProvince = [2, 5, 4, 8]"

lemmas name_oids = oidCountry_def oidOrganization_def oidOrganizationalUnit_def oidCommonName_def
  oidLocality_def oidProvince_def

record Name =
  Country :: "string list"
  Organization :: "string list"
  OrganizationalUnit :: "string list"
  Locality :: "string list"
  Province :: "string list"
  CommonName :: string

definition zero_Name :: Name where
  "zero_Name = \<lparr>Country = [], Organization = [], OrganizationalUnit = [], Locality = [],
     Province = [], CommonName = []\<rparr>"

subsection \<open>Encoding\<close>

definition printable_char :: "char \<Rightarrow> bool" where
  "printable_char c =
     (list_ex (\<lambda>(a, z). a \<le> c \<and> c \<le> z)
        [(CHR ''0'', CHR ''9''), (CHR ''A'', CHR ''Z''), (CHR ''a'', CHR ''z'')] \<or> c \<in> set '' '' \<or> c = CHR 0x27
      \<or> c \<in> set ''()+,-./:=?'')"

definition isPrintableString :: "string \<Rightarrow> bool" where
  "isPrintableString s = list_all printable_char s"

text \<open>\<open>asn1.MarshalWithParams\<close> of a string writes its octets; the result is read back as a
  raw value.\<close>

definition marshalDirectoryString :: "string \<Rightarrow> raw_value res" where
  "marshalDirectoryString s =
     (let der = tlv 0 False (if isPrintableString s then 19 else 12) (bytes_of s) in
      rbind (rmap_err (wrap_errs [] ''pqx509: re-reading marshaled string'')
        (parse_raw no_params der)) (\<lambda>(rv, _). Inr rv))"

definition marshal_atv :: "oid \<Rightarrow> raw_value \<Rightarrow> bytes res" where
  "marshal_atv i rv =
     rbind (marshal_oid i) (\<lambda>o1. Inr (tlv 0 True 16 (o1 @ marshal_raw rv)))"

definition marshal_rdn :: "oid \<Rightarrow> string \<Rightarrow> bytes res" where
  "marshal_rdn i v =
     rbind (marshalDirectoryString v) (\<lambda>rv.
     rbind (rmap_err (wrap_errs [] ''pqx509: marshaling attributeTypeAndValue'')
        (marshal_atv i rv)) (\<lambda>atv. Inr (marshalSet atv)))"

fun marshal_parts :: "(oid \<times> string list) list \<Rightarrow> bytes res" where
  "marshal_parts [] = Inr []"
| "marshal_parts ((i, values) # parts) =
     rbind (rmap (marshal_rdn i) values) (\<lambda>rdns.
     rbind (marshal_parts parts) (\<lambda>rest. Inr (concat rdns @ rest)))"

definition name_parts :: "Name \<Rightarrow> (oid \<times> string list) list" where
  "name_parts n =
     [(oidCountry, Country n), (oidProvince, Province n), (oidLocality, Locality n),
      (oidOrganization, Organization n), (oidOrganizationalUnit, OrganizationalUnit n)]
     @ (if CommonName n \<noteq> [] then [(oidCommonName, [CommonName n])] else [])"

definition ToRDNSequence :: "Name \<Rightarrow> bytes res" where
  "ToRDNSequence n =
     rbind (marshal_parts (name_parts n)) (\<lambda>rdnSequence. Inr (marshalSequence rdnSequence))"

subsection \<open>Unicode strings\<close>

definition utf8_encode :: "nat \<Rightarrow> string" where
  "utf8_encode r =
     (let r = (if 0x10FFFF < r \<or> 0xD800 \<le> r \<and> r \<le> 0xDFFF then 0xFFFD else r) in
      map char_of
       (if r < 0x80 then [r]
        else if r < 0x800 then [0xC0 + r div 64, 0x80 + r mod 64]
        else if r < 0x10000 then [0xE0 + r div 4096, 0x80 + r div 64 mod 64, 0x80 + r mod 64]
        else [0xF0 + r div 262144, 0x80 + r div 4096 mod 64, 0x80 + r div 64 mod 64,
              0x80 + r mod 64]))"

fun be_units :: "bytes \<Rightarrow> nat list" where
  "be_units (a # b # bs) = (unat a * 256 + unat b) # be_units bs"
| "be_units _ = []"

definition isLead :: "nat \<Rightarrow> bool" where "isLead u = (0xD800 \<le> u \<and> u \<le> 0xDBFF)"
definition isTrail :: "nat \<Rightarrow> bool" where "isTrail u = (0xDC00 \<le> u \<and> u \<le> 0xDFFF)"

text \<open>The surrogate check, unit by unit: \<open>prev\<close> is the unit before.\<close>

fun check_surrogates :: "nat option \<Rightarrow> nat list \<Rightarrow> unit res" where
  "check_surrogates prev [] = Inr ()"
| "check_surrogates prev (u # us) =
     (if isLead u \<and> (us = [] \<or> \<not> isTrail (hd us))
      then Inl (Err [ErrMalformedDER] ''BMPString leading surrogate is unpaired'')
      else if isTrail u \<and> (case prev of None \<Rightarrow> True | Some p \<Rightarrow> \<not> isLead p)
      then Inl (Err [ErrMalformedDER] ''BMPString trailing surrogate is unpaired'')
      else check_surrogates (Some u) us)"

fun utf16_decode :: "nat list \<Rightarrow> nat list" where
  "utf16_decode [] = []"
| "utf16_decode [u] = [if isLead u \<or> isTrail u then 0xFFFD else u]"
| "utf16_decode (u # v # us) =
     (if isLead u \<and> isTrail v
      then ((u - 0xD800) * 0x400 + (v - 0xDC00) + 0x10000) # utf16_decode us
      else (if isLead u \<or> isTrail u then 0xFFFD else u) # utf16_decode (v # us))"

definition decodeBMPString :: "bytes \<Rightarrow> string res" where
  "decodeBMPString b =
     (if length b mod 2 \<noteq> 0
      then Inl (Err [ErrMalformedDER] ''BMPString is not a multiple of 2'')
      else
        (let units = be_units b in
         rbind (check_surrogates None units) (\<lambda>_.
           Inr (concat (map utf8_encode (utf16_decode units))))))"

fun decode_utf32 :: "bytes \<Rightarrow> string res" where
  "decode_utf32 (a # b # c # d # bs) =
     (let r = ((unat a * 256 + unat b) * 256 + unat c) * 256 + unat d in
      if 0x10FFFF < r \<or> 0xD800 \<le> r \<and> r \<le> 0xDFFF
      then Inl (Err [ErrMalformedDER] ''UniversalString rune is invalid'')
      else rbind (decode_utf32 bs) (\<lambda>s. Inr (utf8_encode r @ s)))"
| "decode_utf32 _ = Inr []"

definition decodeUniversalString :: "bytes \<Rightarrow> string res" where
  "decodeUniversalString b =
     (if length b mod 4 \<noteq> 0
      then Inl (Err [ErrMalformedDER] ''UniversalString is not a multiple of 4'')
      else decode_utf32 b)"

definition parseDirectoryString :: "raw_value \<Rightarrow> string res" where
  "parseDirectoryString rv =
     (if rv_tag rv \<in> {19, 12, 22, 20} then Inr (string_of (rv_bytes rv))
      else if rv_tag rv = 30 then decodeBMPString (rv_bytes rv)
      else if rv_tag rv = 28 then decodeUniversalString (rv_bytes rv)
      else Inl (Err [ErrMalformedDER] ''unsupported directory string tag''))"

subsection \<open>Decoding\<close>

definition name_add :: "oid \<Rightarrow> string \<Rightarrow> Name \<Rightarrow> Name" where
  "name_add i v n =
     (if i = oidCountry then n\<lparr>Country := Country n @ [v]\<rparr>
      else if i = oidProvince then n\<lparr>Province := Province n @ [v]\<rparr>
      else if i = oidLocality then n\<lparr>Locality := Locality n @ [v]\<rparr>
      else if i = oidOrganization then n\<lparr>Organization := Organization n @ [v]\<rparr>
      else if i = oidOrganizationalUnit
      then n\<lparr>OrganizationalUnit := OrganizationalUnit n @ [v]\<rparr>
      else if i = oidCommonName then n\<lparr>CommonName := v\<rparr>
      else n)"

definition parse_rdn_content :: "bytes \<Rightarrow> (oid \<times> string) res" where
  "parse_rdn_content setContent =
     rbind (rmap_err (wrap_errs [ErrMalformedDER] ''name AttributeTypeAndValue'')
        (parseSequence setContent)) (\<lambda>(atvBytes, s).
       if s \<noteq> [] then Inl (Err [ErrMalformedDER] ''trailing data in RDN SET'')
       else
         rbind (rmap_err (wrap_errs [ErrMalformedDER] ''name OID'')
            (parse_object_id atvBytes)) (\<lambda>(atvOID, rest2).
         rbind (rmap_err (wrap_errs [ErrMalformedDER] ''name value'')
            (parse_raw no_params rest2)) (\<lambda>(atvValue, _).
         rbind (parseDirectoryString atvValue) (\<lambda>dirStr. Inr (atvOID, dirStr)))))"

function parse_rdns :: "Name \<Rightarrow> bytes \<Rightarrow> Name res" where
  "parse_rdns n inner =
     (if inner = [] then Inr n
      else
        (case rmap_err (wrap_errs [ErrMalformedDER] ''name RDN'') (parseSet inner) of
           Inl e \<Rightarrow> Inl e
         | Inr (setContent, r) \<Rightarrow>
             rbind (parse_rdn_content setContent) (\<lambda>(i, v). parse_rdns (name_add i v n) r)))"
  by pat_completeness auto
termination
  by (relation "measure (\<lambda>(n, inner). length inner)") (auto simp: go_inv dest: parseSet_shorter)

declare parse_rdns.simps [simp del]

definition ParseName :: "bytes \<Rightarrow> Name res" where
  "ParseName der =
     rbind (rmap_err (wrap_errs [ErrMalformedDER] ''name'') (parseSequence der)) (\<lambda>(inner, rest).
       if rest \<noteq> [] then Inl (Err [ErrTrailingData] ''bytes after name'')
       else parse_rdns zero_Name inner)"

subsection \<open>DER round trip\<close>

definition name_size :: "Name \<Rightarrow> nat" where
  "name_size n =
     sum_list (map (\<lambda>(i, vs). sum_list (map (\<lambda>v. length v + 50) vs)) (name_parts n))"

lemma tlv_marshalSequence: "tlv 0 True 16 body = marshalSequence body"
  by (simp add: tlv_def header_bytes_def marshalSequence_def)

lemma length_marshalLength: "l < 2 ^ 63 \<Longrightarrow> length (marshalLength l) \<le> 9"
  using length_be_bytes_127 [of l] by (simp add: marshalLength_def Let_def)

lemma marshalDirectoryString_Inr:
  assumes "length v < 2 ^ 31"
  shows "\<exists>t \<in> {12, 19}. marshalDirectoryString v = Inr (raw_of 0 False t (bytes_of v))"
  using assms parse_raw_tlv [of 0 _ "bytes_of v" no_params False "[]"]
  by (simp add: marshalDirectoryString_def Let_def params_defs)

lemma marshal_rdn_parse:
  assumes "oid_ok i" "length i = 4" "length v \<le> 2 ^ 30"
  shows "\<exists>atv. marshal_rdn i v = Inr (marshalSet atv) \<and> length atv \<le> length v + 40
    \<and> parse_rdn_content atv = Inr (i, v)"
proof -
  obtain t where t: "t \<in> {12, 19 :: nat}" "marshalDirectoryString v = Inr (raw_of 0 False t (bytes_of v))"
    using marshalDirectoryString_Inr [of v] assms(3) by force
  obtain o1 where o1: "oid_bytes i = Inr o1"
    using oid_ok_bytes [OF assms(1)] by blast
  let ?o = "tlv 0 False 6 o1" and ?v = "tlv 0 False t (bytes_of v)"
  have l: "length o1 \<le> 20" using length_oid_bytes [OF assms(1) o1] assms(2) by simp
  have ol: "length ?o \<le> 26" using length_tlv_le [of 6 o1 0 False] l by simp
  have vl: "length ?v \<le> length v + 6"
    using length_tlv_le [of t "bytes_of v" 0 False] t(1) assms(3) by auto
  have sl: "length (tlv 0 True 16 (?o @ ?v)) \<le> length v + 40"
    using length_tlv_le [of 16 "?o @ ?v" 0 True] ol vl assms(3) by simp
  have m: "marshal_rdn i v = Inr (marshalSet (tlv 0 True 16 (?o @ ?v)))"
    using t(2) o1 by (simp add: marshal_rdn_def marshal_atv_def marshal_oid_def)
  have "parseSequence (tlv 0 True 16 (?o @ ?v)) = Inr (?o @ ?v, [])"
    using parseSequence_marshalSequence [of "?o @ ?v" "[]"] ol vl assms(3)
    by (simp add: tlv_marshalSequence)
  moreover have "parse_object_id (?o @ ?v) = Inr (i, ?v)"
    using assms(1) o1 ol by (intro oid_codec.dec_enc) (simp_all add: marshal_oid_def)
  moreover have "parse_raw no_params ?v = Inr (raw_of 0 False t (bytes_of v), [])"
    using parse_raw_tlv [of 0 t "bytes_of v" no_params False "[]"] t(1) assms(3)
    by (auto simp: params_defs)
  moreover have "parseDirectoryString (raw_of 0 False t (bytes_of v)) = Inr v"
    using t(1) by (auto simp: parseDirectoryString_def)
  ultimately have "parse_rdn_content (tlv 0 True 16 (?o @ ?v)) = Inr (i, v)"
    by (simp add: parse_rdn_content_def)
  with m sl show ?thesis by blast
qed

lemma parse_rdns_Nil [simp]: "parse_rdns n [] = Inr n"
  by (simp add: parse_rdns.simps)

lemma parse_rdns_marshalSet:
  assumes "parse_rdn_content atv = Inr (i, v)" "length atv < 2 ^ 63"
  shows "parse_rdns n (marshalSet atv @ rest) = parse_rdns (name_add i v n) rest"
  using assms parseSet_marshalSet [OF assms(2), of rest]
  by (subst parse_rdns.simps) (simp add: marshalSet_def)

lemma marshal_values_parse:
  assumes "oid_ok i" "length i = 4" "sum_list (map (\<lambda>v. length v + 50) vs) \<le> 2 ^ 30"
  shows "\<exists>rdns. rmap (marshal_rdn i) vs = Inr rdns
    \<and> length (concat rdns) \<le> sum_list (map (\<lambda>v. length v + 50) vs)
    \<and> (\<forall>n rest. parse_rdns n (concat rdns @ rest) = parse_rdns (fold (name_add i) vs n) rest)"
  using assms(3)
proof (induction vs)
  case Nil
  then show ?case by simp
next
  case (Cons v vs)
  then have v: "length v \<le> 2 ^ 30" "sum_list (map (\<lambda>v. length v + 50) vs) \<le> 2 ^ 30"
    by simp_all
  obtain atv where atv: "marshal_rdn i v = Inr (marshalSet atv)" "length atv \<le> length v + 40"
    "parse_rdn_content atv = Inr (i, v)"
    using marshal_rdn_parse [OF assms(1,2) v(1)] by blast
  obtain rdns where rdns: "rmap (marshal_rdn i) vs = Inr rdns"
    "length (concat rdns) \<le> sum_list (map (\<lambda>v. length v + 50) vs)"
    "\<And>n rest. parse_rdns n (concat rdns @ rest) = parse_rdns (fold (name_add i) vs n) rest"
    using Cons.IH [OF v(2)] by blast
  have l: "length atv < 2 ^ 63" using atv(2) v(1) by simp
  have "length (marshalSet atv) \<le> length v + 50"
    using atv(2) length_marshalLength [OF l] by (simp add: marshalSet_def)
  moreover have "parse_rdns n ((marshalSet atv @ concat rdns) @ rest) =
      parse_rdns (fold (name_add i) (v # vs) n) rest" for n rest
    using parse_rdns_marshalSet [OF atv(3) l] rdns(3) by simp
  ultimately show ?case
    using atv(1) rdns(1,2) by (intro exI [of _ "marshalSet atv # rdns"]) auto
qed

lemma marshal_parts_parse:
  assumes "list_all (\<lambda>(i, vs). oid_ok i \<and> length i = 4) parts"
    and "sum_list (map (\<lambda>(i, vs). sum_list (map (\<lambda>v. length v + 50) vs)) parts) \<le> 2 ^ 30"
  shows "\<exists>bs. marshal_parts parts = Inr bs
    \<and> length bs \<le> sum_list (map (\<lambda>(i, vs). sum_list (map (\<lambda>v. length v + 50) vs)) parts)
    \<and> (\<forall>n. parse_rdns n bs = Inr (fold (\<lambda>(i, vs). fold (name_add i) vs) parts n))"
  using assms
proof (induction parts)
  case Nil
  then show ?case by simp
next
  case (Cons p parts)
  obtain i vs where p: "p = (i, vs)" by force
  obtain rdns where rdns: "rmap (marshal_rdn i) vs = Inr rdns"
    "length (concat rdns) \<le> sum_list (map (\<lambda>v. length v + 50) vs)"
    "\<And>n rest. parse_rdns n (concat rdns @ rest) = parse_rdns (fold (name_add i) vs n) rest"
    using marshal_values_parse [of i vs] Cons.prems p by auto
  obtain bs where bs: "marshal_parts parts = Inr bs"
    "length bs \<le> sum_list (map (\<lambda>(i, vs). sum_list (map (\<lambda>v. length v + 50) vs)) parts)"
    "\<And>n. parse_rdns n bs = Inr (fold (\<lambda>(i, vs). fold (name_add i) vs) parts n)"
    using Cons p by auto
  have "parse_rdns n (concat rdns @ bs) = Inr (fold (\<lambda>(i, vs). fold (name_add i) vs) (p # parts) n)" for n
    using rdns(3) bs(3) p by simp
  then show ?case
    using rdns(1,2) bs(1,2) p by (intro exI [of _ "concat rdns @ bs"]) auto
qed

lemma fold_name_add:
  "fold (name_add oidCountry) vs n = n\<lparr>Country := Country n @ vs\<rparr>"
  "fold (name_add oidProvince) vs n = n\<lparr>Province := Province n @ vs\<rparr>"
  "fold (name_add oidLocality) vs n = n\<lparr>Locality := Locality n @ vs\<rparr>"
  "fold (name_add oidOrganization) vs n = n\<lparr>Organization := Organization n @ vs\<rparr>"
  "fold (name_add oidOrganizationalUnit) vs n = n\<lparr>OrganizationalUnit := OrganizationalUnit n @ vs\<rparr>"
  by (induction vs arbitrary: n) (simp_all add: name_add_def name_oids)

lemma fold_name_parts: "fold (\<lambda>(i, vs). fold (name_add i) vs) (name_parts n) zero_Name = n"
  by (simp add: name_parts_def fold_name_add zero_Name_def)
    (simp add: name_add_def name_oids)

lemma ToRDNSequence_parse:
  assumes "name_size n \<le> 2 ^ 30"
  shows "\<exists>der. ToRDNSequence n = Inr der \<and> ParseName der = Inr n \<and> length der \<le> name_size n + 10"
proof -
  have "list_all (\<lambda>(i, vs). oid_ok i \<and> length i = 4) (name_parts n)"
    by (simp add: name_parts_def name_oids oid_ok_def)
  then obtain bs where bs: "marshal_parts (name_parts n) = Inr bs" "length bs \<le> name_size n"
    "parse_rdns zero_Name bs = Inr n"
    using marshal_parts_parse [of "name_parts n"] assms fold_name_parts [of n]
    by (auto simp: name_size_def)
  have l: "length bs < 2 ^ 63" using bs(2) assms by simp
  have "length (marshalSequence bs) \<le> name_size n + 10"
    using bs(2) length_marshalLength [OF l] by (simp add: marshalSequence_def)
  then show ?thesis
    using bs(1,3) parseSequence_marshalSequence [OF l, of "[]"]
    by (simp add: ToRDNSequence_def ParseName_def)
qed

subsection \<open>The RFC 4514 string form\<close>

definition needsEscape :: "char \<Rightarrow> bool" where
  "needsEscape c = (c \<in> {CHR '','', CHR ''+'', CHR 0x22, CHR 0x5C, CHR ''<'', CHR ''>'', CHR '';''})"

fun escape_loop :: "bool \<Rightarrow> string \<Rightarrow> string" where
  "escape_loop first [] = []"
| "escape_loop first (c # v) =
     (if needsEscape c then [CHR 0x5C, c]
      else if (c = CHR ''#'' \<or> c = CHR '' '') \<and> first \<or> c = CHR '' '' \<and> v = []
      then [CHR 0x5C, c]
      else [c]) @ escape_loop False v"

definition escapeAttributeValue :: "string \<Rightarrow> string" where
  "escapeAttributeValue v = escape_loop True v"

definition dn_component :: "string \<Rightarrow> string \<Rightarrow> string" where
  "dn_component key v = key @ ''='' @ escapeAttributeValue v"

definition name_components :: "Name \<Rightarrow> string list" where
  "name_components n =
     (if CommonName n \<noteq> [] then [dn_component ''CN'' (CommonName n)] else [])
     @ map (dn_component ''OU'') (OrganizationalUnit n)
     @ map (dn_component ''O'') (Organization n)
     @ map (dn_component ''L'') (Locality n)
     @ map (dn_component ''ST'') (Province n)
     @ map (dn_component ''C'') (Country n)"

definition name_String :: "Name \<Rightarrow> string" where
  "name_String n = str_join '','' (name_components n)"

text \<open>
  \<open>splitUnescaped\<close>: \<open>seen\<close> is what has been read, last character first (the inner loop counts
  its leading backslashes), and \<open>cur\<close> is \<open>s[start:i]\<close>.
\<close>

fun split_loop :: "char \<Rightarrow> string \<Rightarrow> string \<Rightarrow> string \<Rightarrow> string list" where
  "split_loop sep seen cur [] = [cur]"
| "split_loop sep seen cur (c # cs) =
     (if c \<noteq> sep then split_loop sep (c # seen) (cur @ [c]) cs
      else if even (length (takeWhile (\<lambda>x. x = CHR 0x5C) seen))
      then cur # split_loop sep (c # seen) [] cs
      else split_loop sep (c # seen) (cur @ [c]) cs)"

definition splitUnescaped :: "string \<Rightarrow> char \<Rightarrow> string list" where
  "splitUnescaped s sep = split_loop sep [] [] s"

definition isHex :: "char \<Rightarrow> bool" where
  "isHex c = (CHR ''0'' \<le> c \<and> c \<le> CHR ''9'' \<or> CHR ''a'' \<le> c \<and> c \<le> CHR ''f''
     \<or> CHR ''A'' \<le> c \<and> c \<le> CHR ''F'')"

definition hexVal :: "char \<Rightarrow> nat" where
  "hexVal c =
     (if CHR ''0'' \<le> c \<and> c \<le> CHR ''9'' then of_char c - 48
      else if CHR ''a'' \<le> c \<and> c \<le> CHR ''f'' then of_char c - 97 + 10
      else of_char c - 65 + 10)"

definition escapable :: "char \<Rightarrow> bool" where
  "escapable e = (e \<in> {CHR '','', CHR ''+'', CHR 0x22, CHR 0x5C, CHR ''<'', CHR ''>'', CHR '';'',
     CHR '' '', CHR ''#'', CHR ''=''})"

function unescapeAttributeValue :: "string \<Rightarrow> string res" where
  "unescapeAttributeValue v =
     (case v of
        [] \<Rightarrow> Inr []
      | c # cs \<Rightarrow>
          if c \<noteq> CHR 0x5C then rbind (unescapeAttributeValue cs) (\<lambda>t. Inr (c # t))
          else
            (case cs of
               [] \<Rightarrow> Inl (Err [] ''pqx509: trailing escape in DN component'')
             | e # es \<Rightarrow>
                 if escapable e then rbind (unescapeAttributeValue es) (\<lambda>t. Inr (e # t))
                 else
                   (case es of
                      h # hs \<Rightarrow>
                        if isHex e \<and> isHex h
                        then rbind (unescapeAttributeValue hs)
                               (\<lambda>t. Inr (char_of (hexVal e * 16 + hexVal h) # t))
                        else Inl (Err [] ''pqx509: invalid escape in DN component'')
                    | [] \<Rightarrow> Inl (Err [] ''pqx509: invalid escape in DN component''))))"
  by pat_completeness auto
termination by (relation "measure length") auto

declare unescapeAttributeValue.simps [simp del]

definition dn_attribute :: "string \<Rightarrow> string \<Rightarrow> Name \<Rightarrow> Name res" where
  "dn_attribute key v n =
     (if upper_equals key ''CN'' then Inr (n\<lparr>CommonName := v\<rparr>)
      else if upper_equals key ''OU''
      then Inr (n\<lparr>OrganizationalUnit := OrganizationalUnit n @ [v]\<rparr>)
      else if upper_equals key ''O'' then Inr (n\<lparr>Organization := Organization n @ [v]\<rparr>)
      else if upper_equals key ''L'' then Inr (n\<lparr>Locality := Locality n @ [v]\<rparr>)
      else if upper_equals key ''ST'' then Inr (n\<lparr>Province := Province n @ [v]\<rparr>)
      else if upper_equals key ''C'' then Inr (n\<lparr>Country := Country n @ [v]\<rparr>)
      else Inl (Err [] ''pqx509: unsupported DN attribute''))"

fun parse_components :: "Name \<Rightarrow> string list \<Rightarrow> Name res" where
  "parse_components n [] = Inr n"
| "parse_components n (part # parts) =
     (let (key, rawValue, ok) = str_cut CHR ''='' part in
      if \<not> ok \<or> trim_space key = [] then Inl (Err [] ''pqx509: malformed DN component'')
      else if 1 < length (splitUnescaped rawValue CHR ''+'')
      then Inl (Err [] ''pqx509: multi-valued RDNs are not supported'')
      else if rawValue \<noteq> [] \<and> hd rawValue = CHR ''#''
      then Inl (Err [] ''pqx509: hex-encoded attribute values are not supported'')
      else
        rbind (unescapeAttributeValue rawValue) (\<lambda>v.
          if v = [] then Inl (Err [] ''pqx509: malformed DN component'')
          else rbind (dn_attribute (trim_space key) v n) (\<lambda>n'. parse_components n' parts)))"

definition ParseNameString :: "string \<Rightarrow> Name res" where
  "ParseNameString s =
     (if trim_space s = [] then Inl (Err [] ''pqx509: empty distinguished name'')
      else parse_components zero_Name (splitUnescaped s CHR '',''))"

subsection \<open>Splitting and unescaping what was escaped\<close>

text \<open>A string is transparent when the splitter passes it without cutting it.\<close>

abbreviation slashes :: "string \<Rightarrow> nat" where
  "slashes seen \<equiv> length (takeWhile (\<lambda>x. x = CHR 0x5C) seen)"

definition transparent :: "char \<Rightarrow> string \<Rightarrow> bool" where
  "transparent sep p =
     (\<forall>seen. even (slashes seen) \<longrightarrow>
        even (slashes (rev p @ seen)) \<and>
        (\<forall>cur rest. split_loop sep seen cur (p @ rest) = split_loop sep (rev p @ seen) (cur @ p) rest))"

lemma transparentD:
  assumes "transparent sep p" "even (slashes seen)"
  shows "split_loop sep seen cur (p @ rest) = split_loop sep (rev p @ seen) (cur @ p) rest"
    and "even (slashes (rev p @ seen))"
  using assms by (simp_all add: transparent_def)

lemma transparent_Nil: "transparent sep []"
  by (simp add: transparent_def)

lemma transparent_append: "transparent sep p \<Longrightarrow> transparent sep q \<Longrightarrow> transparent sep (p @ q)"
  by (simp add: transparent_def)

lemma transparent_plain: "c \<noteq> sep \<Longrightarrow> c \<noteq> CHR 0x5C \<Longrightarrow> transparent sep [c]"
  by (simp add: transparent_def)

lemma transparent_escaped: "sep \<noteq> CHR 0x5C \<Longrightarrow> transparent sep [CHR 0x5C, c]"
  by (simp add: transparent_def)

lemma transparent_escape_loop:
  assumes "needsEscape sep" "sep \<noteq> CHR 0x5C"
  shows "transparent sep (escape_loop first v)"
proof (induction v arbitrary: first)
  case Nil
  then show ?case by (simp add: transparent_Nil)
next
  case (Cons c v)
  have "transparent sep [c]" if "\<not> needsEscape c"
    using that assms by (intro transparent_plain) (auto simp: needsEscape_def)
  then show ?case
    using transparent_append [OF transparent_escaped [OF assms(2), of c] Cons [of False]]
      transparent_append [OF _ Cons [of False], of "[c]"]
    by auto
qed

lemma split_join:
  assumes "list_all (transparent sep) ps" "ps \<noteq> []" "sep \<noteq> CHR 0x5C" "even (slashes seen)"
  shows "split_loop sep seen [] (str_join [sep] ps) = ps"
  using assms
proof (induction ps arbitrary: seen rule: induct_list012)
  case (2 p)
  then show ?case using transparentD(1) [of sep p seen "[]" "[]"] by simp
next
  case (3 p q ps)
  then have p: "split_loop sep seen [] (p @ r) = split_loop sep (rev p @ seen) ([] @ p) r"
    "even (slashes (rev p @ seen))" for r
    using transparentD(1) [of sep p seen "[]"] transparentD(2) [of sep p seen] by auto
  have "split_loop sep (sep # rev p @ seen) [] (str_join [sep] (q # ps)) = q # ps"
    using 3 by simp
  with p 3(5) show ?case by simp
qed simp

lemma splitUnescaped_join:
  "list_all (transparent sep) ps \<Longrightarrow> ps \<noteq> [] \<Longrightarrow> sep \<noteq> CHR 0x5C \<Longrightarrow>
   splitUnescaped (str_join [sep] ps) sep = ps"
  by (simp add: splitUnescaped_def split_join)

lemma unescape_escape_loop: "unescapeAttributeValue (escape_loop first v) = Inr v"
proof (induction v arbitrary: first)
  case Nil
  then show ?case by (simp add: unescapeAttributeValue.simps)
next
  case (Cons c v)
  have e: "unescapeAttributeValue (CHR 0x5C # c # escape_loop False v) = Inr (c # v)"
    if "escapable c"
    using Cons [of False] that by (subst unescapeAttributeValue.simps) simp
  have p: "unescapeAttributeValue (c # escape_loop False v) = Inr (c # v)" if "c \<noteq> CHR 0x5C"
    using Cons [of False] that by (subst unescapeAttributeValue.simps) simp
  have "needsEscape c \<Longrightarrow> escapable c" "\<not> needsEscape c \<Longrightarrow> c \<noteq> CHR 0x5C"
    unfolding needsEscape_def escapable_def by blast+
  moreover have "c = CHR ''#'' \<or> c = CHR '' '' \<Longrightarrow> escapable c"
    unfolding escapable_def by blast
  moreover have "escape_loop first (c # v) = CHR 0x5C # c # escape_loop False v
      \<and> (needsEscape c \<or> c = CHR ''#'' \<or> c = CHR '' '')
    \<or> escape_loop first (c # v) = c # escape_loop False v \<and> \<not> needsEscape c"
    by simp
  ultimately consider "escape_loop first (c # v) = CHR 0x5C # c # escape_loop False v" "escapable c"
    | "escape_loop first (c # v) = c # escape_loop False v" "c \<noteq> CHR 0x5C"
    by blast
  then show ?case using e p by cases simp_all
qed

lemma escape_loop_Nil_iff [simp]: "escape_loop first v = [] \<longleftrightarrow> v = []"
  by (cases v) auto

lemma hd_escape: "v \<noteq> [] \<Longrightarrow> hd (escapeAttributeValue v) \<noteq> CHR ''#''"
  by (cases v) (auto simp: escapeAttributeValue_def needsEscape_def)

subsection \<open>String round trip\<close>

definition name_values :: "Name \<Rightarrow> string list" where
  "name_values n = (if CommonName n \<noteq> [] then [CommonName n] else []) @ OrganizationalUnit n
     @ Organization n @ Locality n @ Province n @ Country n"

lemma dn_keys:
  assumes "k \<in> {''CN'', ''OU'', ''O'', ''L'', ''ST'', ''C''}"
  shows "trim_space k = k \<and> CHR ''='' \<notin> set k \<and> k \<noteq> [] \<and> \<not> space_head (hd k)
    \<and> list_all (\<lambda>c. c \<noteq> CHR '','' \<and> c \<noteq> CHR 0x5C) k"
proof -
  have k: "k \<noteq> [] \<and> hd k \<in> set ''COLS'' \<and> last k \<in> set ''NUOLTC'' \<and> CHR ''='' \<notin> set k
    \<and> list_all (\<lambda>c. c \<noteq> CHR '','' \<and> c \<noteq> CHR 0x5C) k"
    using assms by (elim insertE emptyE) simp_all
  have "\<forall>c \<in> set ''COLS''. \<not> space_head c" "\<forall>c \<in> set ''NUOLTC''. \<not> space_tail c"
    by (simp_all add: space_head_def space_tail_def space_runes_def)
  with k have "\<not> space_head (hd k)" "\<not> space_tail (last k)" by blast+
  with k show ?thesis using trim_space_id by blast
qed

lemma dn_attribute_simps:
  "dn_attribute ''CN'' v n = Inr (n\<lparr>CommonName := v\<rparr>)"
  "dn_attribute ''OU'' v n = Inr (n\<lparr>OrganizationalUnit := OrganizationalUnit n @ [v]\<rparr>)"
  "dn_attribute ''O'' v n = Inr (n\<lparr>Organization := Organization n @ [v]\<rparr>)"
  "dn_attribute ''L'' v n = Inr (n\<lparr>Locality := Locality n @ [v]\<rparr>)"
  "dn_attribute ''ST'' v n = Inr (n\<lparr>Province := Province n @ [v]\<rparr>)"
  "dn_attribute ''C'' v n = Inr (n\<lparr>Country := Country n @ [v]\<rparr>)"
proof -
  have "list_all (\<lambda>k. list_all (\<lambda>k'. upper_equals k k' \<longleftrightarrow> k = k')
      [''CN'', ''OU'', ''O'', ''L'', ''ST'', ''C'']) [''CN'', ''OU'', ''O'', ''L'', ''ST'', ''C'']"
    by code_simp
  then show "dn_attribute ''CN'' v n = Inr (n\<lparr>CommonName := v\<rparr>)"
    "dn_attribute ''OU'' v n = Inr (n\<lparr>OrganizationalUnit := OrganizationalUnit n @ [v]\<rparr>)"
    "dn_attribute ''O'' v n = Inr (n\<lparr>Organization := Organization n @ [v]\<rparr>)"
    "dn_attribute ''L'' v n = Inr (n\<lparr>Locality := Locality n @ [v]\<rparr>)"
    "dn_attribute ''ST'' v n = Inr (n\<lparr>Province := Province n @ [v]\<rparr>)"
    "dn_attribute ''C'' v n = Inr (n\<lparr>Country := Country n @ [v]\<rparr>)"
    by (simp_all add: dn_attribute_def)
qed

lemma transparent_plain_string:
  "list_all (\<lambda>c. c \<noteq> sep \<and> c \<noteq> CHR 0x5C) k \<Longrightarrow> transparent sep k"
proof (induction k)
  case Nil
  then show ?case by (simp add: transparent_Nil)
next
  case (Cons c k)
  then show ?case
    using transparent_append [OF transparent_plain [of c sep], of k] by simp
qed

lemma transparent_component:
  assumes "k \<in> {''CN'', ''OU'', ''O'', ''L'', ''ST'', ''C''}"
  shows "transparent CHR '','' (dn_component k v)"
proof -
  have "transparent CHR '','' (k @ ''='')"
    using dn_keys [OF assms] by (intro transparent_plain_string) simp
  moreover have "transparent CHR '','' (escape_loop True v)"
    by (rule transparent_escape_loop) (simp_all add: needsEscape_def)
  ultimately show ?thesis
    using transparent_append by (fastforce simp: dn_component_def escapeAttributeValue_def)
qed

lemma parse_component:
  assumes "k \<in> {''CN'', ''OU'', ''O'', ''L'', ''ST'', ''C''}" "v \<noteq> []"
  shows "parse_components n (dn_component k v # ps) =
    rbind (dn_attribute k v n) (\<lambda>n'. parse_components n' ps)"
proof -
  let ?e = "escapeAttributeValue v"
  have cut: "str_cut CHR ''='' (dn_component k v) = (k, ?e, True)"
    using dn_keys [OF assms(1)] by (simp add: dn_component_def str_cut_append)
  have "transparent CHR ''+'' ?e"
    unfolding escapeAttributeValue_def
    by (rule transparent_escape_loop) (simp_all add: needsEscape_def)
  then have "splitUnescaped (str_join [CHR ''+''] [?e]) CHR ''+'' = [?e]"
    by (intro splitUnescaped_join) simp_all
  then have one: "splitUnescaped ?e CHR ''+'' = [?e]" by simp
  have "unescapeAttributeValue ?e = Inr v"
    by (simp add: escapeAttributeValue_def unescape_escape_loop)
  then show ?thesis
    using cut one hd_escape [OF assms(2)] dn_keys [OF assms(1)] assms(2) by simp
qed

lemma parse_components_field:
  assumes "k \<in> {''CN'', ''OU'', ''O'', ''L'', ''ST'', ''C''}" "[] \<notin> set vs"
    and "\<And>v n. dn_attribute k v n = Inr (upd v n)"
  shows "parse_components n (map (dn_component k) vs @ ps) = parse_components (fold upd vs n) ps"
  using assms(2) by (induction vs arbitrary: n)
    (auto simp: parse_component [OF assms(1)] assms(3) simp del: parse_components.simps)

lemma fold_fields:
  "fold (\<lambda>v n. n\<lparr>OrganizationalUnit := OrganizationalUnit n @ [v]\<rparr>) vs n =
     n\<lparr>OrganizationalUnit := OrganizationalUnit n @ vs\<rparr>"
  "fold (\<lambda>v n. n\<lparr>Organization := Organization n @ [v]\<rparr>) vs n =
     n\<lparr>Organization := Organization n @ vs\<rparr>"
  "fold (\<lambda>v n. n\<lparr>Locality := Locality n @ [v]\<rparr>) vs n = n\<lparr>Locality := Locality n @ vs\<rparr>"
  "fold (\<lambda>v n. n\<lparr>Province := Province n @ [v]\<rparr>) vs n = n\<lparr>Province := Province n @ vs\<rparr>"
  "fold (\<lambda>v n. n\<lparr>Country := Country n @ [v]\<rparr>) vs n = n\<lparr>Country := Country n @ vs\<rparr>"
  by (induction vs arbitrary: n) simp_all

lemma parse_name_components:
  assumes "[] \<notin> set (name_values n)"
  shows "parse_components zero_Name (name_components n) = Inr n"
proof -
  have ne: "[] \<notin> set (OrganizationalUnit n)" "[] \<notin> set (Organization n)" "[] \<notin> set (Locality n)"
    "[] \<notin> set (Province n)" "[] \<notin> set (Country n)"
    using assms by (auto simp: name_values_def)
  note steps = parse_components_field [OF _ ne(1) dn_attribute_simps(2)]
    parse_components_field [OF _ ne(2) dn_attribute_simps(3)]
    parse_components_field [OF _ ne(3) dn_attribute_simps(4)]
    parse_components_field [OF _ ne(4) dn_attribute_simps(5)]
    parse_components_field [OF _ ne(5) dn_attribute_simps(6), where ps = "[]"]
  have lists: "parse_components m (map (dn_component ''OU'') (OrganizationalUnit n)
      @ map (dn_component ''O'') (Organization n) @ map (dn_component ''L'') (Locality n)
      @ map (dn_component ''ST'') (Province n) @ map (dn_component ''C'') (Country n)) =
    Inr (m\<lparr>OrganizationalUnit := OrganizationalUnit m @ OrganizationalUnit n,
      Organization := Organization m @ Organization n, Locality := Locality m @ Locality n,
      Province := Province m @ Province n, Country := Country m @ Country n\<rparr>)" for m
    using steps by (simp add: fold_fields)
  show ?thesis
  proof (cases "CommonName n = []")
    case True
    then show ?thesis using lists [of zero_Name] by (simp add: name_components_def zero_Name_def)
  next
    case False
    then show ?thesis
      using lists [of "zero_Name\<lparr>CommonName := CommonName n\<rparr>"] parse_component [of "''CN''"]
      by (simp add: name_components_def zero_Name_def dn_attribute_simps del: parse_components.simps)
  qed
qed

lemma name_components_shape:
  assumes "c \<in> set (name_components n)"
  shows "\<exists>k v. c = dn_component k v \<and> k \<in> {''CN'', ''OU'', ''O'', ''L'', ''ST'', ''C''}"
  using assms by (auto simp: name_components_def split: if_splits)

lemma name_components_Nil: "name_components n = [] \<longleftrightarrow> name_values n = []"
  by (simp add: name_components_def name_values_def)

lemma trim_name_String:
  assumes "name_values n \<noteq> []"
  shows "trim_space (name_String n) \<noteq> []"
proof -
  obtain c cs where c: "name_components n = c # cs"
    using assms name_components_Nil by (cases "name_components n") auto
  then obtain k v where k: "c = dn_component k v" "k \<in> {''CN'', ''OU'', ''O'', ''L'', ''ST'', ''C''}"
    using name_components_shape [of c n] by auto
  have kk: "k \<noteq> []" "\<not> space_head (hd k)" using dn_keys [OF k(2)] by auto
  then obtain x xs where x: "k = x # xs" by (cases k) auto
  have "\<exists>s. name_String n = x # s"
    using c k(1) x by (cases cs) (auto simp: name_String_def dn_component_def)
  then show ?thesis using trim_space_keep [of x] kk(2) x by auto
qed

lemma split_name_String:
  assumes "name_values n \<noteq> []"
  shows "splitUnescaped (name_String n) CHR '','' = name_components n"
proof -
  have "list_all (transparent CHR '','') (name_components n)"
    using name_components_shape [of _ n] transparent_component by (fastforce simp: list_all_iff)
  then show ?thesis
    unfolding name_String_def using assms
    by (intro splitUnescaped_join) (simp_all add: name_components_Nil)
qed

lemma parse_empty_component:
  assumes "k \<in> {''CN'', ''OU'', ''O'', ''L'', ''ST'', ''C''}"
  shows "parse_components n (dn_component k [] # ps) = Inl (Err [] ''pqx509: malformed DN component'')"
proof -
  have "str_cut CHR ''='' (dn_component k []) = (k, [], True)"
    using dn_keys [OF assms] by (simp add: dn_component_def str_cut_append escapeAttributeValue_def)
  then show ?thesis
    using dn_keys [OF assms]
    by (simp add: splitUnescaped_def unescapeAttributeValue.simps)
qed

lemma parse_components_empty_value:
  assumes "list_all (\<lambda>(k, v). k \<in> {''CN'', ''OU'', ''O'', ''L'', ''ST'', ''C''}) kvs"
    and "\<exists>k. (k, []) \<in> set kvs"
  shows "\<exists>e. parse_components n (map (\<lambda>(k, v). dn_component k v) kvs) = Inl e"
  using assms
proof (induction kvs arbitrary: n)
  case (Cons kv kvs)
  obtain k v where kv: "kv = (k, v)" by force
  then have k: "k \<in> {''CN'', ''OU'', ''O'', ''L'', ''ST'', ''C''}" using Cons.prems(1) by simp
  show ?case
  proof (cases "v = []")
    case True
    then show ?thesis using parse_empty_component [OF k] kv by (simp del: parse_components.simps)
  next
    case False
    then have "\<exists>k. (k, []) \<in> set kvs" using Cons.prems(2) kv by auto
    moreover obtain n' where "dn_attribute k v n = Inr n'"
      using k dn_attribute_simps [of v n] by blast
    ultimately show ?thesis
      using Cons parse_component [OF k False, of n] kv by (simp del: parse_components.simps)
  qed
qed simp

lemma parse_name_components_empty_value:
  assumes "[] \<in> set (name_values n)"
  shows "\<exists>e. parse_components zero_Name (name_components n) = Inl e"
proof -
  define kvs where "kvs = (if CommonName n \<noteq> [] then [(''CN'', CommonName n)] else [])
     @ map (Pair ''OU'') (OrganizationalUnit n) @ map (Pair ''O'') (Organization n)
     @ map (Pair ''L'') (Locality n) @ map (Pair ''ST'') (Province n) @ map (Pair ''C'') (Country n)"
  have "name_components n = map (\<lambda>(k, v). dn_component k v) kvs"
    by (simp add: name_components_def kvs_def)
  moreover have "list_all (\<lambda>(k, v). k \<in> {''CN'', ''OU'', ''O'', ''L'', ''ST'', ''C''}) kvs"
    by (auto simp: kvs_def list_all_iff)
  moreover have "\<exists>k. (k, []) \<in> set kvs"
    using assms by (auto simp: name_values_def kvs_def split: if_splits)
  ultimately show ?thesis using parse_components_empty_value by metis
qed

subsection \<open>Properties\<close>

text \<open>C36. DER round trip of names: every name whose attribute values are not absurdly long (the
  sum of their lengths, plus 50 per value, is at most \<open>2 ^ 30\<close>) is encoded without error by
  \<open>ToRDNSequence\<close>, and \<open>ParseName\<close> reads the same name back: all six attribute types, their
  order within a type, and any octets in the values.\<close>

theorem ParseName_ToRDNSequence:
  assumes "name_size n \<le> 2 ^ 30"
  shows "\<exists>der. ToRDNSequence n = Inr der \<and> ParseName der = Inr n"
  using ToRDNSequence_parse [OF assms] by blast

theorem ParseName_ToRDNSequence_witness:
  "\<exists>der. ToRDNSequence (zero_Name\<lparr>Country := [''ES''], CommonName := ''a,b''\<rparr>) = Inr der
     \<and> ParseName der = Inr (zero_Name\<lparr>Country := [''ES''], CommonName := ''a,b''\<rparr>)"
  by (rule ParseName_ToRDNSequence) (simp add: name_size_def name_parts_def zero_Name_def)

text \<open>C37. String round trip of names, and its exact domain: \<open>ParseNameString(n.String())\<close>
  gives \<open>n\<close> back if and only if \<open>n\<close> has at least one attribute and no attribute value is the
  empty string. Escaping is therefore complete (no value, whatever characters it holds, changes
  the result), and the only names that are not read back are the empty one and those
  with an empty value.\<close>

theorem ParseNameString_String_iff:
  "ParseNameString (name_String n) = Inr n \<longleftrightarrow>
     name_values n \<noteq> [] \<and> [] \<notin> set (name_values n)"
proof -
  have "ParseNameString (name_String n) \<noteq> Inr n" if "name_values n = []"
  proof -
    have "trim_space (name_String n) = []"
      using that by (simp add: name_String_def flip: name_components_Nil)
        (simp add: trim_space_def trim_left.simps trim_right.simps find_None_iff space_runes_def)
    then show ?thesis by (simp add: ParseNameString_def)
  qed
  moreover have "ParseNameString (name_String n) \<noteq> Inr n"
    if "name_values n \<noteq> []" "[] \<in> set (name_values n)"
    using parse_name_components_empty_value [OF that(2)] split_name_String [OF that(1)]
      trim_name_String [OF that(1)]
    by (auto simp: ParseNameString_def)
  moreover have "ParseNameString (name_String n) = Inr n"
    if "name_values n \<noteq> []" "[] \<notin> set (name_values n)"
    using parse_name_components [OF that(2)] split_name_String [OF that(1)]
      trim_name_String [OF that(1)]
    by (simp add: ParseNameString_def)
  ultimately show ?thesis by blast
qed

text \<open>C38. A crash of the parser: an RDN whose length field is eight bytes \<open>0xff\<close> makes
  \<open>ParseName\<close> panic, because \<open>parseDERLength\<close> accumulates the length in a signed 64-bit
  \<open>int\<close>, the negative value passes the check \<open>len(rest) < l\<close>, and it is then a slice bound.
  Every \<open>junk\<close> may follow.\<close>

theorem ParseName_panics:
  assumes "length junk < 2 ^ 31"
  shows "\<exists>m. ParseName (marshalSequence ([0x31, 0x88] @ replicate 8 0xff @ junk)) = Inl (Panic m)"
proof -
  let ?rdn = "[0x31, 0x88] @ replicate 8 0xff @ junk :: bytes"
  have "der_length_loop 0 (replicate 8 0xff) = - 1"
    by code_simp
  then have "parseDERLength (0x88 # replicate 8 0xff @ junk) = Inr (- 1, junk)"
    by (simp add: parseDERLength_def)
  then have "parseSet ?rdn = Inl (Panic ''slice bounds out of range'')"
    by (simp add: parseSet_def slice_at_def)
  then have "parse_rdns zero_Name ?rdn = Inl (Panic ''slice bounds out of range'')"
    by (subst parse_rdns.simps) simp
  moreover have "parseSequence (marshalSequence ?rdn) = Inr (?rdn, [])"
    using parseSequence_marshalSequence [of ?rdn "[]"] assms by simp
  ultimately show ?thesis by (simp add: ParseName_def)
qed

theorem ParseName_panics_witness:
  "\<exists>m. ParseName (marshalSequence ([0x31, 0x88] @ replicate 8 0xff @ [])) = Inl (Panic m)"
  by (rule ParseName_panics) simp

end
