(* ===== verification/Times.thy ===== *)
theory Times
  imports Asn1_Types
begin

section \<open>Times (internal/pqx509/time.go)\<close>

text \<open>
  A \<open>time.Time\<close> is an instant: the nanoseconds since the beginning of year 1 UTC, so that the
  zero time is \<open>0\<close>. The calendar is the proleptic Gregorian one of Go's package \<open>time\<close>, computed
  the way that package computes it. \<open>marshalTime\<close> and \<open>parseTime\<close> go through the UTCTime and
  GeneralizedTime readers and writers of \<open>encoding/asn1\<close>, which are modelled with the
  forms that they accept (optional seconds in UTCTime, fractions in GeneralizedTime, zone offsets).
\<close>

type_synonym instant = int

definition second :: int where "second = 1000000000"
definition day_seconds :: int where "day_seconds = 86400"

subsection \<open>Calendar\<close>

definition isLeap :: "int \<Rightarrow> bool" where
  "isLeap y = (y mod 4 = 0 \<and> (y mod 100 \<noteq> 0 \<or> y mod 400 = 0))"

definition days_before_year :: "int \<Rightarrow> int" where
  "days_before_year y = 365 * (y - 1) + (y - 1) div 4 - (y - 1) div 100 + (y - 1) div 400"

definition month_lengths :: "int \<Rightarrow> int list" where
  "month_lengths y = [31, if isLeap y then 29 else 28, 31, 30, 31, 30, 31, 31, 30, 31, 30, 31]"

text \<open>The year and the day within it of a day number, by 400-, 100- and 4-year cycles.\<close>

definition year_yday :: "int \<Rightarrow> int \<times> int" where
  "year_yday d =
     (let a = d div 146097; d1 = d - 146097 * a;
          b = d1 div 36524 - d1 div 36524 div 4; d2 = d1 - 36524 * b;
          c = d2 div 1461; d3 = d2 - 1461 * c;
          e = d3 div 365 - d3 div 365 div 4 in
      (400 * a + 100 * b + 4 * c + e + 1, d3 - 365 * e))"

fun month_day :: "int \<Rightarrow> int list \<Rightarrow> int \<Rightarrow> int \<times> int" where
  "month_day m [] d = (m, d + 1)"
| "month_day m (l # ls) d = (if d < l then (m, d + 1) else month_day (m + 1) ls (d - l))"

record civil =
  c_year :: int
  c_month :: int
  c_day :: int
  c_hour :: int
  c_min :: int
  c_sec :: int

definition civil_of :: "instant \<Rightarrow> civil" where
  "civil_of t =
     (let s = t div second; d = s div day_seconds; r = s mod day_seconds;
          (y, yday) = year_yday d; (m, md) = month_day 1 (month_lengths y) yday in
      \<lparr>c_year = y, c_month = m, c_day = md, c_hour = r div 3600, c_min = r div 60 mod 60,
       c_sec = r mod 60\<rparr>)"

definition time_Year :: "instant \<Rightarrow> int" where
  "time_Year t = c_year (civil_of t)"

definition instant_of :: "civil \<Rightarrow> instant" where
  "instant_of c =
     second * (day_seconds * (days_before_year (c_year c)
         + sum_list (take (nat (c_month c - 1)) (month_lengths (c_year c))) + c_day c - 1)
       + c_hour c * 3600 + c_min c * 60 + c_sec c)"

definition civil_ok :: "civil \<Rightarrow> bool" where
  "civil_ok c =
     (1 \<le> c_month c \<and> c_month c \<le> 12 \<and> 1 \<le> c_day c
      \<and> c_day c \<le> month_lengths (c_year c) ! nat (c_month c - 1)
      \<and> 0 \<le> c_hour c \<and> c_hour c < 24 \<and> 0 \<le> c_min c \<and> c_min c < 60
      \<and> 0 \<le> c_sec c \<and> c_sec c < 60)"

definition time_Truncate :: "instant \<Rightarrow> instant" where
  "time_Truncate t = t - t mod second"

subsection \<open>UTCTime and GeneralizedTime\<close>

definition two_digits :: "int \<Rightarrow> bytes" where
  "two_digits v = [word_of_int (48 + v div 10 mod 10), word_of_int (48 + v mod 10)]"

definition four_digits :: "int \<Rightarrow> bytes" where
  "four_digits v = [word_of_int (48 + v div 1000 mod 10), word_of_int (48 + v div 100 mod 10),
     word_of_int (48 + v div 10 mod 10), word_of_int (48 + v mod 10)]"

definition time_common :: "civil \<Rightarrow> bytes" where
  "time_common c = two_digits (c_month c) @ two_digits (c_day c) @ two_digits (c_hour c)
     @ two_digits (c_min c) @ two_digits (c_sec c) @ [0x5A]"

definition outside_utc_range :: "instant \<Rightarrow> bool" where
  "outside_utc_range t = (time_Year t < 1950 \<or> 2050 \<le> time_Year t)"

text \<open>\<open>asn1.MarshalWithParams(t, "utc")\<close> and \<open>(t, "generalized")\<close>.\<close>

definition marshal_generalized :: "instant \<Rightarrow> bytes res" where
  "marshal_generalized t =
     (if time_Year t < 0 \<or> 9999 < time_Year t
      then Inl (Err [] ''cannot represent time as GeneralizedTime'')
      else Inr (tlv 0 False 24 (four_digits (time_Year t) @ time_common (civil_of t))))"

definition marshal_utc :: "instant \<Rightarrow> bytes res" where
  "marshal_utc t =
     (if outside_utc_range t then marshal_generalized t
      else Inr (tlv 0 False 23
        (two_digits (if time_Year t < 2000 then time_Year t - 1900 else time_Year t - 2000)
         @ time_common (civil_of t))))"

definition is_digit :: "byte \<Rightarrow> bool" where
  "is_digit b = (48 \<le> uint b \<and> uint b \<le> 57)"

definition take_digits :: "nat \<Rightarrow> bytes \<Rightarrow> (int \<times> bytes) res" where
  "take_digits n bs =
     (if length bs < n \<or> \<not> list_all is_digit (take n bs) then Inl (Err [] ''cannot parse time'')
      else Inr (foldl (\<lambda>a b. a * 10 + (uint b - 48)) 0 (take n bs), drop n bs))"

definition parse_zone :: "bytes \<Rightarrow> int res" where
  "parse_zone bs =
     (case bs of
        [] \<Rightarrow> Inl (Err [] ''cannot parse time zone'')
      | b # r \<Rightarrow>
          if b = 0x5A then (if r = [] then Inr 0 else Inl (Err [] ''extra text in time''))
          else if b = 0x2B \<or> b = 0x2D then
            rbind (take_digits 2 r) (\<lambda>(hh, r1).
            rbind (take_digits 2 r1) (\<lambda>(mm, r2).
              if r2 \<noteq> [] then Inl (Err [] ''extra text in time'')
              else if 24 < hh \<or> 59 < mm \<or> hh = 0 \<and> mm = 0
              then Inl (Err [] ''time did not serialize back to the original value'')
              else Inr ((if b = 0x2D then - 1 else 1) * (hh * 3600 + mm * 60))))
          else Inl (Err [] ''cannot parse time zone''))"

definition check_civil :: "civil \<Rightarrow> instant res" where
  "check_civil c = (if civil_ok c then Inr (instant_of c) else Inl (Err [] ''time out of range''))"

definition utc_year :: "int \<Rightarrow> int" where
  "utc_year yy = (if 69 \<le> yy then 1900 + yy else 2000 + yy)"

text \<open>\<open>ret.AddDate(-100, 0, 0)\<close> on a two-digit year read as 2050 or later.\<close>

definition utc_instant :: "civil \<Rightarrow> instant res" where
  "utc_instant c =
     rbind (check_civil c) (\<lambda>t.
       if 2050 \<le> c_year c then check_civil (c\<lparr>c_year := c_year c - 100\<rparr>) else Inr t)"

definition parse_utc_time :: "bytes \<Rightarrow> instant res" where
  "parse_utc_time bs =
     rbind (take_digits 2 bs) (\<lambda>(yy, r0).
     rbind (take_digits 2 r0) (\<lambda>(mo, r1).
     rbind (take_digits 2 r1) (\<lambda>(d, r2).
     rbind (take_digits 2 r2) (\<lambda>(h, r3).
     rbind (take_digits 2 r3) (\<lambda>(mi, r4).
     rbind (if r4 \<noteq> [] \<and> is_digit (hd r4) then take_digits 2 r4 else Inr (0, r4)) (\<lambda>(s, r5).
     rbind (parse_zone r5) (\<lambda>off.
     rbind (utc_instant \<lparr>c_year = utc_year yy, c_month = mo, c_day = d, c_hour = h,
                          c_min = mi, c_sec = s\<rparr>) (\<lambda>t.
       Inr (t - second * off)))))))))"

text \<open>A fraction of at most nine digits that does not end in zero.\<close>

definition parse_fraction :: "bytes \<Rightarrow> (int \<times> bytes) res" where
  "parse_fraction bs =
     (case bs of
        b # r \<Rightarrow>
          if b = 0x2E
          then
            (let ds = takeWhile is_digit r in
             if ds = [] \<or> 9 < length ds \<or> last ds = 0x30
             then Inl (Err [] ''time did not serialize back to the original value'')
             else rbind (take_digits (length ds) r) (\<lambda>(v, r').
               Inr (v * 10 ^ (9 - length ds), r')))
          else Inr (0, bs)
      | [] \<Rightarrow> Inr (0, []))"

definition parse_generalized_time :: "bytes \<Rightarrow> instant res" where
  "parse_generalized_time bs =
     rbind (take_digits 4 bs) (\<lambda>(year, r0).
     rbind (take_digits 2 r0) (\<lambda>(mo, r1).
     rbind (take_digits 2 r1) (\<lambda>(d, r2).
     rbind (take_digits 2 r2) (\<lambda>(h, r3).
     rbind (take_digits 2 r3) (\<lambda>(mi, r4).
     rbind (take_digits 2 r4) (\<lambda>(s, r5).
     rbind (parse_fraction r5) (\<lambda>(ns, r6).
     rbind (parse_zone r6) (\<lambda>off.
     rbind (check_civil \<lparr>c_year = year, c_month = mo, c_day = d, c_hour = h, c_min = mi, c_sec = s\<rparr>) (\<lambda>t.
       Inr (t + ns - second * off))))))))))"

text \<open>\<open>asn1.Unmarshal\<close> into a \<open>time.Time\<close> takes either tag.\<close>

definition parse_time_field :: "bytes \<Rightarrow> (instant \<times> bytes) res" where
  "parse_time_field bs =
     (case parse_header bs of
        Inr (t, r) \<Rightarrow>
          if h_class t = 0 \<and> h_tag t = 24
          then parse_field no_params (Univ 24 False) (\<lambda>t inner full. parse_generalized_time inner) 0 bs
          else parse_field no_params (Univ 23 False) (\<lambda>t inner full. parse_utc_time inner) 0 bs
      | Inl e \<Rightarrow> Inl e)"

subsection \<open>time.go\<close>

definition marshalTime :: "instant \<Rightarrow> raw_value res" where
  "marshalTime t =
     (let u = time_Truncate t in
      rbind (rmap_err (wrap_errs [] ''pqx509: marshaling time'')
         (if time_Year u < 2050 then marshal_utc u else marshal_generalized u)) (\<lambda>der.
      rbind (rmap_err (wrap_errs [] ''pqx509: re-reading marshaled time'')
         (parse_raw no_params der)) (\<lambda>(rv, _). Inr rv)))"

definition parseTime :: "raw_value \<Rightarrow> instant res" where
  "parseTime rv =
     (if rv_tag rv \<noteq> 23 \<and> rv_tag rv \<noteq> 24
      then Inl (Err [ErrMalformedDER] ''time has a wrong tag'')
      else
        rbind (rmap_err (wrap_errs [ErrMalformedDER] ''time'') (parse_time_field (rv_full rv)))
          (\<lambda>(t, rest).
            if rest \<noteq> [] then Inl (Err [ErrTrailingData] ''bytes after time'') else Inr t))"

subsection \<open>The calendar is consistent\<close>

lemma div_split:
  fixes n :: int
  assumes "n = k * q + r" "0 \<le> r" "r < k"
  shows "n div k = q" "n mod k = r"
  using assms by (simp_all add: mult.commute)

lemma capped_quotient:
  fixes d k :: int
  assumes "0 \<le> d" "d \<le> 4 * k" "0 < k"
  defines "q \<equiv> d div k - d div k div 4"
  shows "0 \<le> q" "q \<le> 3" "0 \<le> d - k * q" "d - k * q < k \<or> q = 3 \<and> d = 4 * k"
proof -
  have "0 \<le> d div k" "d div k \<le> 4"
    using assms zdiv_mono1 [of d "4 * k" k] by (auto simp: pos_imp_zdiv_nonneg_iff)
  moreover have "d div k = 4 \<or> d div k \<le> 3"
    using \<open>d div k \<le> 4\<close> by linarith
  ultimately have "d div k = 4 \<and> q = 3 \<or> 0 \<le> d div k \<and> d div k \<le> 3 \<and> q = d div k"
    by (auto simp: q_def div_pos_pos_trivial)
  moreover have m: "k * (d div k) \<le> d" "d < k * (d div k) + k"
    using assms(3) mult_div_mod_eq [of k d] pos_mod_bound [of k d] pos_mod_sign [of k d] by linarith+
  ultimately consider "q = 3" "4 * k \<le> d" | "0 \<le> q" "q \<le> 3" "k * q \<le> d" "d < k * q + k"
    by (elim disjE conjE) (simp_all only: mult.commute)
  then show "0 \<le> q" "q \<le> 3" "0 \<le> d - k * q" "d - k * q < k \<or> q = 3 \<and> d = 4 * k"
    using assms(2,3) by (cases; simp)+
qed

lemma year_yday:
  assumes "year_yday d = (y, yd)"
  shows "days_before_year y + yd = d" "0 \<le> yd" "yd < (if isLeap y then 366 else 365)"
proof -
  define a where "a = d div 146097"
  define d1 where "d1 = d - 146097 * a"
  define b where "b = d1 div 36524 - d1 div 36524 div 4"
  define d2 where "d2 = d1 - 36524 * b"
  define c where "c = d2 div 1461"
  define d3 where "d3 = d2 - 1461 * c"
  define e where "e = d3 div 365 - d3 div 365 div 4"
  have y: "y = 400 * a + 100 * b + 4 * c + e + 1" and yd: "yd = d3 - 365 * e"
    using assms unfolding year_yday_def Let_def a_def [symmetric] d1_def [symmetric] b_def [symmetric]
      d2_def [symmetric] c_def [symmetric] d3_def [symmetric] e_def [symmetric] by simp_all
  have "0 \<le> d1 \<and> d1 < 146097"
    unfolding d1_def a_def by (simp add: minus_mult_div_eq_mod)
  then have b: "0 \<le> b" "b \<le> 3" "0 \<le> d2" "d2 < 36524 \<or> b = 3 \<and> d2 = 36524"
    using capped_quotient [of d1 36524] by (auto simp: b_def d2_def)
  then have "0 \<le> d2" "d2 \<le> 36524" by auto
  then have c: "0 \<le> c" "c \<le> 24" by (auto simp: c_def)
  have d3: "d3 = d2 mod 1461" by (simp add: d3_def c_def minus_mult_div_eq_mod)
  then have "0 \<le> d3" "d3 \<le> 4 * 365" by simp_all
  then have e: "0 \<le> e" "e \<le> 3" "0 \<le> yd" "yd < 365 \<or> e = 3 \<and> d3 = 1460"
    using capped_quotient [of d3 365] by (auto simp: e_def yd)
  have q4: "(y - 1) div 4 = 100 * a + 25 * b + c" and m4: "(y - 1) mod 4 = e"
    using div_split [of "y - 1" 4 "100 * a + 25 * b + c" e] e by (simp_all add: y)
  have q100: "(y - 1) div 100 = 4 * a + b" and m100: "(y - 1) mod 100 = 4 * c + e"
    using div_split [of "y - 1" 100 "4 * a + b" "4 * c + e"] c e by (simp_all add: y)
  have q400: "(y - 1) div 400 = a"
    using div_split [of "y - 1" 400 a "100 * b + 4 * c + e"] b c e by (simp_all add: y)
  show "days_before_year y + yd = d"
    by (simp add: days_before_year_def q4 q100 q400) (simp add: y yd d3_def d2_def d1_def)
  show "0 \<le> yd" by (rule e(3))
  show "yd < (if isLeap y then 366 else 365)"
  proof (cases "yd < 365")
    case False
    then have l: "e = 3" "d3 = 1460" using e(4) by auto
    have "isLeap y"
    proof (cases "c = 24")
      case True
      then have "d2 = 36524" using l(2) d3_def by simp
      then have "b = 3" using b(4) by auto
      then have "y = 400 * (a + 1)" using True l y by simp
      then show ?thesis by (simp add: isLeap_def)
    next
      case False
      then have "y = 100 * (4 * a + b) + 4 * (c + 1)" "0 \<le> 4 * (c + 1)" "4 * (c + 1) < 100"
        using c l y by simp_all
      then have "y mod 100 = 4 * (c + 1)" by (rule div_split(2))
      then have "y mod 100 \<noteq> 0" using c(1) by simp
      moreover have "y mod 4 = 0"
        using div_split(2) [of y 4 "100 * a + 25 * b + c + 1" 0] l y by simp
      ultimately show ?thesis by (simp add: isLeap_def)
    qed
    then show ?thesis using l yd by simp
  qed simp
qed

lemma month_day:
  assumes "0 \<le> d" "d < sum_list ls" "month_day m ls d = (m', md)"
  shows "m \<le> m' \<and> m' < m + int (length ls) \<and> 1 \<le> md \<and> md \<le> ls ! nat (m' - m)
    \<and> sum_list (take (nat (m' - m)) ls) + md - 1 = d"
  using assms
proof (induction m ls d rule: month_day.induct)
  case (1 m d)
  then show ?case by simp
next
  case (2 m l ls d)
  show ?case
  proof (cases "d < l")
    case True
    then show ?thesis using 2 by auto
  next
    case False
    then have IH: "m + 1 \<le> m' \<and> m' < m + 1 + int (length ls) \<and> 1 \<le> md
        \<and> md \<le> ls ! nat (m' - (m + 1)) \<and> sum_list (take (nat (m' - (m + 1))) ls) + md - 1 = d - l"
      using 2 by (intro "2.IH") auto
    then have n: "nat (m' - m) = Suc (nat (m' - (m + 1)))" by linarith
    show ?thesis using IH unfolding n by auto
  qed
qed

lemma civil_of:
  "civil_ok (civil_of t)" "instant_of (civil_of t) = time_Truncate t"
proof -
  let ?s = "t div second"
  let ?d = "?s div day_seconds" and ?r = "?s mod day_seconds"
  obtain y yd where y: "year_yday ?d = (y, yd)" by force
  obtain m md where m: "month_day 1 (month_lengths y) yd = (m, md)" by force
  have c: "civil_of t = \<lparr>c_year = y, c_month = m, c_day = md, c_hour = ?r div 3600,
      c_min = ?r div 60 mod 60, c_sec = ?r mod 60\<rparr>"
    by (simp add: civil_of_def Let_def y m)
  have "yd < sum_list (month_lengths y)"
    using year_yday(3) [OF y] by (simp add: month_lengths_def split: if_splits)
  from month_day [OF year_yday(2) [OF y] this m]
  have md: "1 \<le> m" "m \<le> 12" "1 \<le> md" "md \<le> month_lengths y ! nat (m - 1)"
    "sum_list (take (nat (m - 1)) (month_lengths y)) + md - 1 = yd"
    by (auto simp: month_lengths_def)
  have r: "0 \<le> ?r" "?r < 86400" by (simp_all add: day_seconds_def)
  have h: "0 \<le> ?r div 3600" "?r div 3600 < 24"
    using r zdiv_mono1 [of ?r 86399 3600] by (simp_all add: pos_imp_zdiv_nonneg_iff)
  show "civil_ok (civil_of t)"
    using md h by (simp add: civil_ok_def c)
  have "?r div 3600 = ?r div 60 div 60" by (simp add: zdiv_zmult2_eq [symmetric])
  then have "?r div 3600 * 3600 + ?r div 60 mod 60 * 60 + ?r mod 60 = ?r"
    using div_mult_mod_eq [of ?r 60] div_mult_mod_eq [of "?r div 60" 60] by linarith
  moreover have "days_before_year y + sum_list (take (nat (m - 1)) (month_lengths y)) + md - 1 = ?d"
    using year_yday(1) [OF y] md(5) by linarith
  moreover have "instant_of (civil_of t) =
      second * (day_seconds * (days_before_year y + sum_list (take (nat (m - 1)) (month_lengths y)) + md - 1)
        + (?r div 3600 * 3600 + ?r div 60 mod 60 * 60 + ?r mod 60))"
    by (simp add: instant_of_def c)
  ultimately have "instant_of (civil_of t) = second * (day_seconds * ?d + ?r)" by simp
  also have "\<dots> = second * ?s" by simp
  finally show "instant_of (civil_of t) = time_Truncate t"
    by (simp add: time_Truncate_def minus_mod_eq_mult_div)
qed

subsection \<open>Reading back what was written\<close>

lemma uint_digit: "0 \<le> x \<Longrightarrow> x < 10 \<Longrightarrow> uint (word_of_int (48 + x) :: byte) = 48 + x"
  by (simp add: uint_byte_of_int del: of_int_add)

lemma is_digit_char: "0 \<le> x \<Longrightarrow> x < 10 \<Longrightarrow> is_digit (word_of_int (48 + x))"
  by (simp add: is_digit_def uint_digit del: of_int_add)

lemma take_digit_list:
  assumes "\<forall>x \<in> set ds. 0 \<le> x \<and> x < 10"
  shows "take_digits (length ds) (map (\<lambda>x. word_of_int (48 + x)) ds @ r) =
    Inr (foldl (\<lambda>a x. a * 10 + x) 0 ds, r)"
proof -
  have "foldl (\<lambda>a b. a * 10 + (uint b - 48)) z (map (\<lambda>x. word_of_int (48 + x) :: byte) ds) =
      foldl (\<lambda>a x. a * 10 + x) z ds" for z
    using assms by (induction ds arbitrary: z) (simp_all add: uint_digit del: of_int_add)
  then show ?thesis
    using assms by (simp add: take_digits_def list_all_iff is_digit_char del: of_int_add)
qed

lemma take_two_digits:
  assumes "0 \<le> v" "v < 100"
  shows "take_digits 2 (two_digits v @ r) = Inr (v, r)"
proof -
  have q: "v div 10 < 10" "0 \<le> v div 10" using assms zdiv_mono1 [of v 99 10] by simp_all
  then have "v div 10 mod 10 * 10 + v mod 10 = v" by simp
  with q show ?thesis
    using take_digit_list [of "[v div 10 mod 10, v mod 10]" r]
    by (simp add: two_digits_def numeral_2_eq_2 del: of_int_add)
qed

lemma four_digit_value:
  fixes v :: int
  assumes "0 \<le> v" "v < 10000"
  shows "((v div 1000 mod 10 * 10 + v div 100 mod 10) * 10 + v div 10 mod 10) * 10 + v mod 10 = v"
proof -
  have "v div 1000 < 10" using assms zdiv_mono1 [of v 9999 1000] by simp
  then have "v div 1000 mod 10 = v div 1000" using assms by (simp add: pos_imp_zdiv_nonneg_iff)
  moreover have "v div 100 = v div 10 div 10" "v div 1000 = v div 100 div 10"
    by (simp_all add: zdiv_zmult2_eq [symmetric])
  ultimately show ?thesis
    using div_mult_mod_eq [of v 10] div_mult_mod_eq [of "v div 10" 10]
      div_mult_mod_eq [of "v div 100" 10] by (simp only:)
qed

lemma take_four_digits:
  assumes "0 \<le> v" "v < 10000"
  shows "take_digits 4 (four_digits v @ r) = Inr (v, r)"
proof -
  have "take_digits 4 (four_digits v @ r) = Inr (((v div 1000 mod 10 * 10 + v div 100 mod 10) * 10
      + v div 10 mod 10) * 10 + v mod 10, r)"
    using take_digit_list [of "[v div 1000 mod 10, v div 100 mod 10, v div 10 mod 10, v mod 10]" r]
    by (simp add: four_digits_def eval_nat_numeral del: of_int_add)
  then show ?thesis by (simp only: four_digit_value [OF assms])
qed

lemma two_digits_hd:
  "two_digits v \<noteq> []" "is_digit (hd (two_digits v @ r))" "is_digit (hd (two_digits v))"
  by (simp_all add: two_digits_def is_digit_char del: of_int_add)

lemma civil_bounds:
  assumes "civil_ok c"
  shows "0 \<le> c_month c \<and> c_month c < 100" "0 \<le> c_day c \<and> c_day c < 100"
    "0 \<le> c_hour c \<and> c_hour c < 100" "0 \<le> c_min c \<and> c_min c < 100" "0 \<le> c_sec c \<and> c_sec c < 100"
proof -
  have "list_all (\<lambda>l. l \<le> 31) (month_lengths (c_year c))"
    by (simp add: month_lengths_def)
  moreover have "nat (c_month c - 1) < length (month_lengths (c_year c))"
    using assms by (simp add: civil_ok_def month_lengths_def nat_less_iff)
  ultimately have "month_lengths (c_year c) ! nat (c_month c - 1) \<le> 31"
    by (simp add: list_all_length)
  then show "0 \<le> c_month c \<and> c_month c < 100" "0 \<le> c_day c \<and> c_day c < 100"
    "0 \<le> c_hour c \<and> c_hour c < 100" "0 \<le> c_min c \<and> c_min c < 100" "0 \<le> c_sec c \<and> c_sec c < 100"
    using assms by (auto simp: civil_ok_def)
qed

lemma civil_eta [simp]:
  "\<lparr>c_year = c_year c, c_month = c_month c, c_day = c_day c, c_hour = c_hour c,
     c_min = c_min c, c_sec = c_sec c\<rparr> = c"
  by (cases c) simp

lemma parse_zone_Z [simp]: "parse_zone [0x5A] = Inr 0"
  by (simp add: parse_zone_def)

lemma parse_generalized:
  assumes "civil_ok c" "0 \<le> c_year c" "c_year c \<le> 9999"
  shows "parse_generalized_time (four_digits (c_year c) @ time_common c) = Inr (instant_of c)"
  using assms civil_bounds [OF assms(1)]
  by (simp add: parse_generalized_time_def time_common_def take_four_digits take_two_digits
      parse_fraction_def check_civil_def)

lemma utc_instant_shifted:
  assumes "civil_ok c" "1950 \<le> c_year c" "c_year c < 2050"
  shows "utc_instant (c\<lparr>c_year := if c_year c < 1969 then c_year c + 100 else c_year c\<rparr>) =
    Inr (instant_of c)"
proof (cases "c_year c < 1969")
  case True
  have "c_year c mod 100 = c_year c - 1900"
    using True assms(2) div_split(2) [of "c_year c" 100 19 "c_year c - 1900"] by simp
  moreover have "(c_year c + 100) mod 4 = c_year c mod 4"
    using mod_mult_self1 [of "c_year c" 25 4] by simp
  ultimately have "isLeap (c_year c + 100) = isLeap (c_year c)"
    using assms(2) True by (simp add: isLeap_def)
  then have "civil_ok (c\<lparr>c_year := c_year c + 100\<rparr>)"
    using assms(1) by (simp add: civil_ok_def month_lengths_def)
  then show ?thesis using True assms by (simp add: utc_instant_def check_civil_def)
next
  case False
  then show ?thesis using assms by (simp add: utc_instant_def check_civil_def)
qed

lemma civil_update_year:
  "\<lparr>c_year = y, c_month = c_month c, c_day = c_day c, c_hour = c_hour c, c_min = c_min c,
     c_sec = c_sec c\<rparr> = c\<lparr>c_year := y\<rparr>"
  by (cases c) simp

lemma parse_utc_digits:
  assumes "civil_ok c" "0 \<le> yy" "yy < 100"
  shows "parse_utc_time (two_digits yy @ time_common c) = utc_instant (c\<lparr>c_year := utc_year yy\<rparr>)"
proof -
  have "rbind (utc_instant d) (\<lambda>t. Inr t) = utc_instant d" for d
    by (cases "utc_instant d") simp_all
  then show ?thesis
    using assms(2,3) civil_bounds [OF assms(1)]
    by (simp add: parse_utc_time_def time_common_def take_two_digits two_digits_hd
        civil_update_year)
qed

lemma parse_utc:
  assumes "civil_ok c" "1950 \<le> c_year c" "c_year c < 2050"
  shows "parse_utc_time (two_digits (if c_year c < 2000 then c_year c - 1900 else c_year c - 2000)
    @ time_common c) = Inr (instant_of c)"
proof -
  let ?yy = "if c_year c < 2000 then c_year c - 1900 else c_year c - 2000"
  have "0 \<le> ?yy" "?yy < 100" using assms by auto
  moreover have "utc_year ?yy = (if c_year c < 1969 then c_year c + 100 else c_year c)"
    using assms by (auto simp: utc_year_def)
  ultimately show ?thesis
    using parse_utc_digits [OF assms(1)] utc_instant_shifted [OF assms] by simp
qed

lemma length_time_common [simp]: "length (time_common c) = 11"
  by (simp add: time_common_def two_digits_def)

lemma length_digits [simp]: "length (two_digits v) = 2" "length (four_digits v) = 4"
  by (simp_all add: two_digits_def four_digits_def)

lemma parse_time_field_generalized:
  assumes "civil_ok c" "0 \<le> c_year c" "c_year c \<le> 9999"
  shows "parse_time_field (tlv 0 False 24 (four_digits (c_year c) @ time_common c)) = Inr (instant_of c, [])"
  using parse_field_plain [of 24 "four_digits (c_year c) @ time_common c" no_params False
      "\<lambda>t inner full. parse_generalized_time inner" 0 "[]"]
    parse_header_tlv [of 0 24 "four_digits (c_year c) @ time_common c" False "[]"]
    parse_generalized [OF assms]
  by (simp add: parse_time_field_def params_defs)

lemma parse_time_field_utc:
  assumes "civil_ok c" "1950 \<le> c_year c" "c_year c < 2050"
  shows "parse_time_field (tlv 0 False 23
      (two_digits (if c_year c < 2000 then c_year c - 1900 else c_year c - 2000) @ time_common c)) =
    Inr (instant_of c, [])"
proof -
  let ?b = "two_digits (if c_year c < 2000 then c_year c - 1900 else c_year c - 2000) @ time_common c"
  have "length ?b < 2 ^ 31" by (simp only: length_append length_digits length_time_common) simp
  then show ?thesis
    using parse_field_plain [of 23 ?b no_params False "\<lambda>t inner full. parse_utc_time inner" 0 "[]"]
      parse_header_tlv [of 0 23 ?b False "[]"]
      parse_utc [OF assms]
    by (simp add: parse_time_field_def params_defs del: length_append)
qed

lemma time_Truncate_idem [simp]: "time_Truncate (time_Truncate t) = time_Truncate t"
  by (simp add: time_Truncate_def second_def)

subsection \<open>The round trip\<close>

lemma time_Year_Truncate:
  "c_year (civil_of (time_Truncate t)) = time_Year (time_Truncate t)"
  "instant_of (civil_of (time_Truncate t)) = time_Truncate t"
  using civil_of(2) [of "time_Truncate t"] by (simp_all add: time_Year_def)

lemma marshal_generalized_parse:
  assumes "0 \<le> time_Year u" "time_Year u \<le> 9999" "u = time_Truncate t"
  shows "\<exists>body. marshal_generalized u = Inr (tlv 0 False 24 body) \<and> length body < 2 ^ 31
    \<and> parse_time_field (tlv 0 False 24 body) = Inr (u, [])"
  using parse_time_field_generalized [of "civil_of u"] civil_of(1) [of u] assms time_Year_Truncate [of t]
  by (auto simp: marshal_generalized_def)

lemma marshal_utc_parse:
  assumes "1950 \<le> time_Year u" "time_Year u < 2050" "u = time_Truncate t"
  shows "\<exists>body. marshal_utc u = Inr (tlv 0 False 23 body) \<and> length body < 2 ^ 31
    \<and> parse_time_field (tlv 0 False 23 body) = Inr (u, [])"
proof -
  let ?b = "two_digits (if time_Year u < 2000 then time_Year u - 1900 else time_Year u - 2000)
      @ time_common (civil_of u)"
  have "marshal_utc u = Inr (tlv 0 False 23 ?b)"
    using assms by (simp add: outside_utc_range_def marshal_utc_def)
  moreover have "length ?b < 2 ^ 31" by (simp only: length_append length_digits length_time_common) simp
  moreover have "c_year (civil_of u) = time_Year u" "instant_of (civil_of u) = u"
    using time_Year_Truncate [of t, folded assms(3)] by blast+
  then have "parse_time_field (tlv 0 False 23 ?b) = Inr (u, [])"
    using parse_time_field_utc [OF civil_of(1), of u] assms(1,2) by (simp only: simp_thms)
  ultimately show ?thesis by blast
qed

definition time_tag :: "instant \<Rightarrow> nat" where
  "time_tag t = (if 1950 \<le> time_Year (time_Truncate t) \<and> time_Year (time_Truncate t) < 2050 then 23 else 24)"

lemma marshalTime_written:
  assumes "(if time_Year (time_Truncate t) < 2050 then marshal_utc (time_Truncate t)
      else marshal_generalized (time_Truncate t)) = Inr (tlv 0 False tag body)"
    and "tag = 23 \<or> tag = 24" "length body < 2 ^ 31"
    and "parse_time_field (tlv 0 False tag body) = Inr (time_Truncate t, [])"
  shows "marshalTime t = Inr (raw_of 0 False tag body)
    \<and> parseTime (raw_of 0 False tag body) = Inr (time_Truncate t)"
proof -
  have "parse_raw no_params (tlv 0 False tag body) = Inr (raw_of 0 False tag body, [])"
    using parse_raw_tlv [of 0 tag body no_params False "[]"] assms(2,3) by (auto simp: params_defs)
  then show ?thesis
    using assms(2,4) unfolding marshalTime_def Let_def assms(1) parseTime_def by simp
qed

lemma marshalTime_parse:
  assumes "0 \<le> time_Year (time_Truncate t)" "time_Year (time_Truncate t) \<le> 9999"
  shows "\<exists>body. marshalTime t = Inr (raw_of 0 False (time_tag t) body) \<and> length body < 2 ^ 31
    \<and> parseTime (raw_of 0 False (time_tag t) body) = Inr (time_Truncate t)"
proof -
  let ?u = "time_Truncate t"
  show ?thesis
  proof (cases "1950 \<le> time_Year ?u \<and> time_Year ?u < 2050")
    case True
    obtain body where "marshal_utc ?u = Inr (tlv 0 False 23 body)" "length body < 2 ^ 31"
      "parse_time_field (tlv 0 False 23 body) = Inr (?u, [])"
      using marshal_utc_parse [of ?u t] True by blast
    then show ?thesis
      using marshalTime_written [of t 23 body] True by (auto simp: time_tag_def)
  next
    case False
    obtain body where b: "marshal_generalized ?u = Inr (tlv 0 False 24 body)" "length body < 2 ^ 31"
      "parse_time_field (tlv 0 False 24 body) = Inr (?u, [])"
      using marshal_generalized_parse [of ?u t] assms by blast
    moreover have "(if time_Year ?u < 2050 then marshal_utc ?u else marshal_generalized ?u) =
        marshal_generalized ?u"
      using False by (auto simp: marshal_utc_def outside_utc_range_def)
    ultimately show ?thesis
      using marshalTime_written [of t 24 body] False by (auto simp: time_tag_def)
  qed
qed

lemma marshalTime_error:
  assumes "\<not> (0 \<le> time_Year (time_Truncate t) \<and> time_Year (time_Truncate t) \<le> 9999)"
  shows "\<exists>e. marshalTime t = Inl e"
proof -
  let ?u = "time_Truncate t"
  have "marshal_generalized ?u = Inl (Err [] ''cannot represent time as GeneralizedTime'')"
    using assms by (auto simp: marshal_generalized_def)
  moreover have "marshal_utc ?u = marshal_generalized ?u" if "time_Year ?u < 2050"
    using assms that by (auto simp: marshal_utc_def outside_utc_range_def)
  ultimately show ?thesis by (simp add: marshalTime_def Let_def)
qed

lemma marshalTime_Inr:
  assumes "marshalTime t = Inr rv"
  shows "raw_ok rv \<and> parseTime rv = Inr (time_Truncate t)"
proof -
  have "0 \<le> time_Year (time_Truncate t) \<and> time_Year (time_Truncate t) \<le> 9999"
    using marshalTime_error [of t] assms by fastforce
  then obtain body where "rv = raw_of 0 False (time_tag t) body" "parseTime rv = Inr (time_Truncate t)"
    using marshalTime_parse [of t] assms by auto
  moreover have "time_tag t < 31" by (simp add: time_tag_def)
  ultimately show ?thesis by (simp add: raw_ok_raw_of)
qed

subsection \<open>Properties\<close>

text \<open>Validity times survive: every instant in the years 0 to 9999 is encoded (as UTCTime from
  1950 to 2049, as GeneralizedTime otherwise) and \<open>parseTime\<close> gives it back, truncated to the
  second; outside those years \<open>marshalTime\<close> is an error.\<close>

theorem parseTime_marshalTime:
  "if 0 \<le> time_Year (time_Truncate t) \<and> time_Year (time_Truncate t) \<le> 9999
   then \<exists>rv. marshalTime t = Inr rv \<and> parseTime rv = Inr (time_Truncate t)
     \<and> rv_tag rv = (if 1950 \<le> time_Year (time_Truncate t) \<and> time_Year (time_Truncate t) < 2050
                    then 23 else 24)
   else \<exists>e. marshalTime t = Inl e"
  using marshalTime_parse [of t] marshalTime_error [of t] by (auto simp: time_tag_def)

end
