(* ===== verification/Extensions.thy ===== *)
theory Extensions
  imports Asn1_Types
begin

section \<open>Extension values (internal/pqx509/extensions.go)\<close>

text \<open>
  The value of each extension that pqtrust issues, with what \<open>asn1.Marshal\<close> writes and what the
  parser reads, and the names of key usages. \<open>der_value\<close> is the contract between
  the two directions that \<open>CreateCertificate\<close>/\<open>ParseCertificate\<close> and the CRL functions
  rely on: what was marshalled is parsed to (a view of) the same value. Every extension value
  interprets it.
\<close>

definition oidExtSubjectKeyID :: oid where "oidExtSubjectKeyID = [2, 5, 29, 14]"
definition oidExtKeyUsage :: oid where "oidExtKeyUsage = [2, 5, 29, 15]"
definition oidExtSubjectAltName :: oid where "oidExtSubjectAltName = [2, 5, 29, 17]"
definition oidExtBasicConstraints :: oid where "oidExtBasicConstraints = [2, 5, 29, 19]"
definition oidExtCRLNumber :: oid where "oidExtCRLNumber = [2, 5, 29, 20]"
definition oidExtCRLReason :: oid where "oidExtCRLReason = [2, 5, 29, 21]"
definition oidExtAuthorityKeyID :: oid where "oidExtAuthorityKeyID = [2, 5, 29, 35]"
definition oidExtExtendedKeyUsage :: oid where "oidExtExtendedKeyUsage = [2, 5, 29, 37]"

lemmas ext_oids = oidExtSubjectKeyID_def oidExtKeyUsage_def oidExtSubjectAltName_def
  oidExtBasicConstraints_def oidExtCRLNumber_def oidExtCRLReason_def oidExtAuthorityKeyID_def
  oidExtExtendedKeyUsage_def

definition isSupportedExtension :: "oid \<Rightarrow> bool" where
  "isSupportedExtension i =
     list_ex (\<lambda>known. known = i)
       [oidExtSubjectKeyID, oidExtKeyUsage, oidExtSubjectAltName, oidExtBasicConstraints,
        oidExtCRLNumber, oidExtCRLReason, oidExtAuthorityKeyID, oidExtExtendedKeyUsage]"

text \<open>\<open>asn1.Unmarshal\<close> of a whole value: malformed and trailing octets are errors.\<close>

definition unmarshal_all :: "(bytes \<Rightarrow> ('a \<times> bytes) res) \<Rightarrow> string \<Rightarrow> bytes \<Rightarrow> 'a res" where
  "unmarshal_all dec what der =
     rbind (rmap_err (wrap_errs [ErrMalformedDER] what) (dec der)) (\<lambda>(v, rest).
       if rest \<noteq> [] then Inl (Err [ErrTrailingData] what) else Inr v)"

locale der_value =
  fixes marshal :: "'a \<Rightarrow> bytes res"
    and parse :: "bytes \<Rightarrow> 'b res"
    and ok :: "'a \<Rightarrow> bool"
    and view :: "'a \<Rightarrow> 'b"
  assumes parse_marshal: "ok x \<Longrightarrow> marshal x = Inr der \<Longrightarrow> length der < 2 ^ 31 \<Longrightarrow> parse der = Inr (view x)"
begin

lemma view_determined:
  assumes "ok x" "ok y" "marshal x = Inr der" "marshal y = Inr der" "length der < 2 ^ 31"
  shows "view x = view y"
  using parse_marshal [of x der] parse_marshal [of y der] assms by simp

lemma parse_never_fails:
  assumes "ok x" "marshal x = Inr der" "length der < 2 ^ 31"
  shows "parse der \<noteq> Inl e"
  using parse_marshal [OF assms] by simp

end

subsection \<open>Key usage\<close>

type_synonym KeyUsage = "16 word"

definition KeyUsageDigitalSignature :: KeyUsage where "KeyUsageDigitalSignature = push_bit 0 1"
definition KeyUsageKeyCertSign :: KeyUsage where "KeyUsageKeyCertSign = push_bit 5 1"
definition KeyUsageCRLSign :: KeyUsage where "KeyUsageCRLSign = push_bit 6 1"

definition keyUsageNames :: "(KeyUsage \<times> string) list" where
  "keyUsageNames =
     [(KeyUsageDigitalSignature, ''digitalSignature''), (KeyUsageKeyCertSign, ''keyCertSign''),
      (KeyUsageCRLSign, ''cRLSign'')]"

definition KeyUsage_Strings :: "KeyUsage \<Rightarrow> string list" where
  "KeyUsage_Strings ku = map snd (filter (\<lambda>(k, n). ku AND k \<noteq> 0) keyUsageNames)"

fun parse_key_usages :: "KeyUsage \<Rightarrow> string list \<Rightarrow> KeyUsage res" where
  "parse_key_usages ku [] = Inr ku"
| "parse_key_usages ku (n # ns) =
     (case find (\<lambda>(k, name). name = n) keyUsageNames of
        Some (k, name) \<Rightarrow> parse_key_usages (ku OR k) ns
      | None \<Rightarrow> Inl (Err [] ''pqx509: unsupported key usage''))"

definition ParseKeyUsages :: "string list \<Rightarrow> KeyUsage res" where
  "ParseKeyUsages names = parse_key_usages 0 names"

definition ku_step :: "KeyUsage \<Rightarrow> nat \<Rightarrow> bytes \<times> int \<Rightarrow> bytes \<times> int" where
  "ku_step ku b st =
     (case st of (out, highest) \<Rightarrow>
        if ku AND push_bit b 1 \<noteq> 0
        then (out[b div 8 := out ! (b div 8) OR drop_bit (b mod 8) 0x80], int b)
        else (out, highest))"

definition marshalKeyUsage :: "KeyUsage \<Rightarrow> bytes res" where
  "marshalKeyUsage ku =
     (let (out, highest) = fold (ku_step ku) [0..<16] ([0, 0], - 1) in
      if highest < 0 then Inl (Err [] ''pqx509: key usage must not be empty'')
      else Inr (marshal_bits \<lparr>bs_bytes = take (nat highest div 8 + 1) out,
                              bs_bits = nat highest + 1\<rparr>))"

definition parseKeyUsage :: "bytes \<Rightarrow> KeyUsage res" where
  "parseKeyUsage der =
     rbind (unmarshal_all parse_bits ''key usage'' der) (\<lambda>bs.
       Inr (fold (\<lambda>b ku. if bit_at bs b then ku OR push_bit b 1 else ku)
              [0..<min 16 (bs_bits bs)] 0))"

subsection \<open>Extended key usage\<close>

type_synonym ExtKeyUsage = int

definition ExtKeyUsageServerAuth :: ExtKeyUsage where "ExtKeyUsageServerAuth = 1"
definition ExtKeyUsageClientAuth :: ExtKeyUsage where "ExtKeyUsageClientAuth = 2"

definition extKeyUsages :: "(ExtKeyUsage \<times> string \<times> oid) list" where
  "extKeyUsages =
     [(ExtKeyUsageServerAuth, ''serverAuth'', [1, 3, 6, 1, 5, 5, 7, 3, 1]),
      (ExtKeyUsageClientAuth, ''clientAuth'', [1, 3, 6, 1, 5, 5, 7, 3, 2])]"

definition ExtKeyUsage_String :: "ExtKeyUsage \<Rightarrow> string" where
  "ExtKeyUsage_String e =
     (case find (\<lambda>(k, n, i). k = e) extKeyUsages of
        Some (k, n, i) \<Rightarrow> n
      | None \<Rightarrow> ''ExtKeyUsage('' @ decimal e @ '')'')"

definition ParseExtKeyUsages :: "string list \<Rightarrow> ExtKeyUsage list res" where
  "ParseExtKeyUsages names =
     rmap (\<lambda>name. case find (\<lambda>(k, n, i). n = name) extKeyUsages of
        Some (k, n, i) \<Rightarrow> Inr k
      | None \<Rightarrow> Inl (Err [] ''pqx509: unsupported extended key usage'')) names"

definition marshal_oid_list :: "oid list \<Rightarrow> bytes res" where
  "marshal_oid_list is = rbind (rmap marshal_oid is) (\<lambda>bss. Inr (tlv 0 True 16 (concat bss)))"

definition marshalExtKeyUsage :: "ExtKeyUsage list \<Rightarrow> bytes res" where
  "marshalExtKeyUsage ekus =
     rbind (rmap (\<lambda>e. case find (\<lambda>(k, n, i). k = e) extKeyUsages of
        Some (k, n, i) \<Rightarrow> Inr i
      | None \<Rightarrow> Inl (Err [] ''pqx509: unsupported extended key usage'')) ekus) (\<lambda>oids.
     rmap_err (wrap_errs [] ''pqx509: marshaling extended key usage'') (marshal_oid_list oids))"

definition parseExtKeyUsage :: "bytes \<Rightarrow> ExtKeyUsage list res" where
  "parseExtKeyUsage der =
     rbind (unmarshal_all (parse_slice no_params (Univ 6 False) parse_object_id)
        ''extended key usage'' der) (\<lambda>oids.
       Inr (concat (map (\<lambda>x. map fst (filter (\<lambda>(k, n, i). i = x) extKeyUsages)) oids)))"

subsection \<open>Basic constraints\<close>

record BasicConstraints =
  IsCA :: bool
  MaxPathLen :: int
  MaxPathLenSet :: bool

definition zero_BasicConstraints :: BasicConstraints where
  "zero_BasicConstraints = \<lparr>IsCA = False, MaxPathLen = 0, MaxPathLenSet = False\<rparr>"

record basicConstraintsDER =
  bcd_IsCA :: bool
  bcd_MaxPathLen :: int

definition marshal_basicConstraintsDER :: "basicConstraintsDER \<Rightarrow> bytes" where
  "marshal_basicConstraintsDER v =
     tlv 0 True 16
       ((if bcd_IsCA v then tlv 0 False 1 (bool_bytes True) else [])
        @ (if bcd_MaxPathLen v = - 1 then [] else tlv 0 False 2 (int_bytes (bcd_MaxPathLen v))))"

definition marshalBasicConstraints :: "BasicConstraints \<Rightarrow> bytes res" where
  "marshalBasicConstraints bc =
     (if IsCA bc \<and> MaxPathLenSet bc
      then
        (if MaxPathLen bc < 0 then Inl (Err [] ''pqx509: negative pathLenConstraint'')
         else Inr (marshal_basicConstraintsDER
                     \<lparr>bcd_IsCA = IsCA bc, bcd_MaxPathLen = MaxPathLen bc\<rparr>))
      else Inr (marshal_basicConstraintsDER \<lparr>bcd_IsCA = IsCA bc, bcd_MaxPathLen = - 1\<rparr>))"

definition basicConstraintsDER_fields :: "bytes \<Rightarrow> basicConstraintsDER res" where
  "basicConstraintsDER_fields inner =
     rbind (parse_boolean optional_params inner) (\<lambda>(c, r).
     rbind (parse_int optional_params (- 1) r) (\<lambda>(m, _).
       Inr \<lparr>bcd_IsCA = c, bcd_MaxPathLen = m\<rparr>))"

definition parseBasicConstraints :: "bytes \<Rightarrow> BasicConstraints res" where
  "parseBasicConstraints der =
     rbind (unmarshal_all (parse_struct no_params basicConstraintsDER_fields
          \<lparr>bcd_IsCA = False, bcd_MaxPathLen = - 1\<rparr>) ''basic constraints'' der) (\<lambda>v.
       if 0 \<le> bcd_MaxPathLen v
       then
         (if \<not> bcd_IsCA v
          then Inl (Err [ErrMalformedDER] ''pathLenConstraint present on a non-CA certificate'')
          else Inr \<lparr>IsCA = bcd_IsCA v, MaxPathLen = bcd_MaxPathLen v, MaxPathLenSet = True\<rparr>)
       else Inr \<lparr>IsCA = bcd_IsCA v, MaxPathLen = 0, MaxPathLenSet = False\<rparr>)"

subsection \<open>Key identifiers\<close>

text \<open>The AuthorityKeyIdentifier field is \<open>optional,tag:0\<close>, so a nil slice is left out.\<close>

definition akid_params :: field_params where
  "akid_params = \<lparr>p_optional = True, p_explicit = False, p_tag = Some 0, p_set = False\<rparr>"

definition marshalKeyID :: "bytes \<Rightarrow> bytes res" where
  "marshalKeyID kid = Inr (marshal_octets kid)"

definition parseSubjectKeyID :: "bytes \<Rightarrow> bytes res" where
  "parseSubjectKeyID der = unmarshal_all (parse_octets no_params) ''subject key identifier'' der"

definition marshalAuthorityKeyID :: "bytes \<Rightarrow> bytes res" where
  "marshalAuthorityKeyID kid =
     Inr (tlv 0 True 16 (if kid = [] then [] else make_field akid_params 4 False kid))"

definition parseAuthorityKeyID :: "bytes \<Rightarrow> bytes res" where
  "parseAuthorityKeyID der =
     unmarshal_all (parse_struct no_params
        (\<lambda>inner. rbind (parse_octets akid_params inner) (\<lambda>(v, _). Inr v)) [])
       ''authority key identifier'' der"

subsection \<open>Subject alternative names\<close>

type_synonym ip = bytes

record SANs =
  DNSNames :: "string list"
  EmailAddresses :: "string list"
  IPAddresses :: "ip list"

definition zero_SANs :: SANs where
  "zero_SANs = \<lparr>DNSNames = [], EmailAddresses = [], IPAddresses = []\<rparr>"

definition SANs_Empty :: "SANs \<Rightarrow> bool" where
  "SANs_Empty s = (DNSNames s = [] \<and> EmailAddresses s = [] \<and> IPAddresses s = [])"

text \<open>\<open>net.IP.To4\<close>.\<close>

definition To4 :: "ip \<Rightarrow> ip option" where
  "To4 b =
     (if length b = 4 then Some b
      else if length b = 16 \<and> take 10 b = replicate 10 0 \<and> b ! 10 = 0xff \<and> b ! 11 = 0xff
      then Some (drop 12 b)
      else None)"

definition san_ip :: "ip \<Rightarrow> bytes" where
  "san_ip b = (case To4 b of Some v4 \<Rightarrow> v4 | None \<Rightarrow> b)"

definition marshalSANs :: "SANs \<Rightarrow> bytes res" where
  "marshalSANs s =
     (let names = map (\<lambda>v. \<lparr>rv_class = 2, rv_tag = 2, rv_compound = False, rv_bytes = bytes_of v,
                            rv_full = []\<rparr>) (DNSNames s)
            @ map (\<lambda>v. \<lparr>rv_class = 2, rv_tag = 1, rv_compound = False, rv_bytes = bytes_of v,
                        rv_full = []\<rparr>) (EmailAddresses s)
            @ map (\<lambda>b. \<lparr>rv_class = 2, rv_tag = 7, rv_compound = False, rv_bytes = san_ip b,
                        rv_full = []\<rparr>) (IPAddresses s) in
      if names = [] then Inl (Err [] ''pqx509: subjectAltName must not be empty'')
      else Inr (tlv 0 True 16 (concat (map marshal_raw names))))"

fun collect_sans :: "SANs \<Rightarrow> raw_value list \<Rightarrow> SANs res" where
  "collect_sans s [] = Inr s"
| "collect_sans s (n # ns) =
     (if rv_tag n = 2 then collect_sans (s\<lparr>DNSNames := DNSNames s @ [string_of (rv_bytes n)]\<rparr>) ns
      else if rv_tag n = 1
      then collect_sans (s\<lparr>EmailAddresses := EmailAddresses s @ [string_of (rv_bytes n)]\<rparr>) ns
      else if rv_tag n = 7
      then
        (if length (rv_bytes n) \<noteq> 4 \<and> length (rv_bytes n) \<noteq> 16
         then Inl (Err [ErrMalformedDER] ''IP address SAN has a wrong size'')
         else collect_sans (s\<lparr>IPAddresses := IPAddresses s @ [rv_bytes n]\<rparr>) ns)
      else Inl (Err [ErrMalformedDER] ''unsupported GeneralName tag''))"

definition parseSANs :: "bytes \<Rightarrow> SANs res" where
  "parseSANs der =
     rbind (unmarshal_all (parse_slice no_params AnyType (parse_raw no_params))
        ''subject alternative names'' der) (\<lambda>names. collect_sans zero_SANs names)"

subsection \<open>CRL extensions\<close>

definition marshalCRLReason :: "int \<Rightarrow> bytes res" where
  "marshalCRLReason reason = Inr (tlv 0 False 10 (int_bytes reason))"

definition parseCRLReason :: "bytes \<Rightarrow> int res" where
  "parseCRLReason der = unmarshal_all parse_enumerated ''CRL reason'' der"

definition marshalCRLNumber :: "int \<Rightarrow> bytes res" where
  "marshalCRLNumber n = marshal_int n"

definition parse_crl_number :: "bytes \<Rightarrow> int res" where
  "parse_crl_number der = unmarshal_all parse_big ''CRL number'' der"

subsection \<open>Key usage bits\<close>

lemma top_bit: "bit (0x80 :: byte) m \<longleftrightarrow> m = 7"
  using bit_exp_iff [where ?'a = "8 word", of 7 m] by auto

lemma mask_bit: "b < 16 \<Longrightarrow> (ku AND push_bit b 1 \<noteq> (0 :: KeyUsage)) = bit ku b"
  using and_exp_eq_0_iff_not_bit [of ku b] by (simp add: push_bit_eq_mult)

lemma ku_loop:
  assumes "n \<le> 16" "fold (ku_step ku) [0..<n] ([0, 0], - 1) = (out, h)"
  shows "length out = 2 \<and> - 1 \<le> h \<and> h < int n
    \<and> (\<forall>i < 2. \<forall>j < 8. bit (out ! i) j \<longleftrightarrow> 8 * i + (7 - j) < n \<and> bit ku (8 * i + (7 - j)))
    \<and> (\<forall>b < n. bit ku b \<longrightarrow> int b \<le> h) \<and> (0 \<le> h \<longrightarrow> bit ku (nat h))"
  using assms
proof (induction n arbitrary: out h)
  case 0
  then show ?case by (auto simp: less_Suc_eq numeral_2_eq_2)
next
  case (Suc n)
  obtain out' h' where prev: "fold (ku_step ku) [0..<n] ([0, 0], - 1) = (out', h')" by force
  then have IH: "length out' = 2" "- 1 \<le> h'" "h' < int n"
    "\<And>i j. i < 2 \<Longrightarrow> j < 8 \<Longrightarrow>
       bit (out' ! i) j \<longleftrightarrow> 8 * i + (7 - j) < n \<and> bit ku (8 * i + (7 - j))"
    "\<forall>b < n. bit ku b \<longrightarrow> int b \<le> h'" "0 \<le> h' \<longrightarrow> bit ku (nat h')"
    using Suc.IH [OF _ prev] Suc.prems(1) by auto
  have step: "(out, h) = ku_step ku n (out', h')"
    using Suc.prems(2) prev by simp
  show ?case
  proof (cases "bit ku n")
    case False
    then have o: "out = out'" "h = h'"
      using step mask_bit [of n ku] Suc.prems(1) by (auto simp: ku_step_def)
    have "bit (out' ! i) j \<longleftrightarrow> 8 * i + (7 - j) < Suc n \<and> bit ku (8 * i + (7 - j))"
      if "i < 2" "j < 8" for i j
      using IH(4) [OF that] False by (auto simp: less_Suc_eq)
    then show ?thesis using IH False o by (auto simp: less_Suc_eq)
  next
    case True
    then have o: "out = out'[n div 8 := out' ! (n div 8) OR drop_bit (n mod 8) 0x80]" "h = int n"
      using step mask_bit [of n ku] Suc.prems(1) by (auto simp: ku_step_def)
    have bits: "bit (out ! i) j \<longleftrightarrow> 8 * i + (7 - j) < Suc n \<and> bit ku (8 * i + (7 - j))"
      if ij: "i < 2" "j < 8" for i j
    proof -
      have hit: "n mod 8 + j = 7 \<and> i = n div 8 \<longleftrightarrow> 8 * i + (7 - j) = n"
      proof
        assume "n mod 8 + j = 7 \<and> i = n div 8"
        then have "7 - j = n mod 8" "i = n div 8" by auto
        then show "8 * i + (7 - j) = n" by simp
      next
        assume n: "8 * i + (7 - j) = n"
        then have "n div 8 = i" "n mod 8 = 7 - j" by auto
        then show "n mod 8 + j = 7 \<and> i = n div 8" using ij by auto
      qed
      have "bit (drop_bit (n mod 8) (0x80 :: byte)) j \<longleftrightarrow> n mod 8 + j = 7"
        using top_bit [of "n mod 8 + j"] by (simp only: bit_drop_bit_eq comp_def)
      moreover have "n div 8 < length out'" using IH(1) Suc.prems(1) by simp
      ultimately have "bit (out ! i) j \<longleftrightarrow> bit (out' ! i) j \<or> i = n div 8 \<and> n mod 8 + j = 7"
        by (simp only: o nth_list_update) (auto simp only: bit_or_iff split: if_split)
      then show ?thesis using IH(4) [OF ij] hit True by (auto simp: less_Suc_eq)
    qed
    then show ?thesis using IH(1) True by (auto simp: o less_Suc_eq)
  qed
qed

lemma or_loop:
  assumes "n \<le> 16"
  shows "bit (fold (\<lambda>b ku. if P b then ku OR push_bit b 1 else ku) [0..<n] (0 :: KeyUsage)) m
    \<longleftrightarrow> m < n \<and> P m"
  using assms
proof (induction n)
  case (Suc n)
  have "bit (push_bit n 1 :: KeyUsage) m \<longleftrightarrow> m = n"
    using Suc.prems bit_exp_iff [where ?'a = "16 word", of n m] by (auto simp: push_bit_eq_mult)
  then show ?case using Suc by (auto simp: bit_or_iff less_Suc_eq)
qed simp

lemma parse_bit_string_padded:
  assumes "r \<noteq> []" "p < 8" "\<And>j. j < p \<Longrightarrow> \<not> bit (last r) j"
  shows "parse_bit_string (word_of_nat p # r) = Inr \<lparr>bs_bytes = r, bs_bits = length r * 8 - p\<rparr>"
proof -
  have u: "unat (word_of_nat p :: byte) = p" using assms(2) by (simp add: unat_of_nat)
  have "last r AND (push_bit p 1 - 1) = 0"
  proof (rule bit_eqI)
    fix j
    show "bit (last r AND (push_bit p 1 - 1)) j = bit (0 :: byte) j"
      using assms(3) [of j] mask_eq_exp_minus_1 [of p, where ?'a = "8 word", symmetric]
      by (auto simp: bit_and_iff push_bit_eq_mult bit_mask_iff)
  qed
  then show ?thesis using assms(1,2) u by (simp add: parse_bit_string_def)
qed

lemma marshalKeyUsage_parse:
  assumes "ku \<noteq> 0"
  shows "\<exists>der. marshalKeyUsage ku = Inr der \<and> length der \<le> 20 \<and> parseKeyUsage der = Inr ku"
proof -
  obtain out h where st: "fold (ku_step ku) [0..<16] ([0, 0], - 1) = (out, h)" by force
  from ku_loop [OF order.refl st] have L: "length out = 2" "- 1 \<le> h" "h < 16"
    and B: "\<And>i j. i < 2 \<Longrightarrow> j < 8 \<Longrightarrow> bit (out ! i) j \<longleftrightarrow> 8 * i + (7 - j) < 16 \<and> bit ku (8 * i + (7 - j))"
    and H: "\<forall>b < 16. bit ku b \<longrightarrow> int b \<le> h" by auto
  obtain b where "bit ku b" "b < 16"
    using assms bit_eq_iff [of ku 0] bit_imp_le_length [of ku] by auto
  then have h0: "0 \<le> h" using H by force
  define k where "k = nat h"
  have k: "h = int k" "k < 16" using h0 L(3) by (simp_all add: k_def)
  define n where "n = k div 8 + 1"
  define p where "p = (8 - (k + 1) mod 8) mod 8"
  have "k mod 8 < 8" by simp
  then have p: "p = 7 - k mod 8" by (auto simp: p_def mod_Suc)
  have n: "n \<le> 2" "length (take n out) = n" using k(2) L(1) by (auto simp: n_def)
  let ?bs = "\<lparr>bs_bytes = take n out, bs_bits = k + 1\<rparr>"
  have der: "marshalKeyUsage ku = Inr (marshal_bits ?bs)"
    using st k h0 by (simp add: marshalKeyUsage_def n_def)
  have nn: "take n out \<noteq> []" using n by (auto simp: n_def)
  have last: "last (take n out) = out ! (k div 8)"
    using n nn by (simp add: last_conv_nth n_def)
  have "\<not> bit (last (take n out)) j" if "j < p" for j
  proof -
    have "k mod 8 < 7 - j" "j < 8" using that p by auto
    then have "k < 8 * (k div 8) + (7 - j)" "j < 8"
      using mult_div_mod_eq [of 8 k] by linarith+
    then show ?thesis
      using B [of "k div 8" j] H k last by force
  qed
  moreover have "length (take n out) * 8 - p = k + 1"
    using n(2) p mult_div_mod_eq [of 8 k] by (simp add: n_def)
  moreover have "p < 8" using p by simp
  ultimately have "parse_bit_string (bit_string_bytes ?bs) = Inr ?bs"
    using parse_bit_string_padded [OF nn, of p] by (simp add: bit_string_bytes_def p_def)
  moreover have len: "length (bit_string_bytes ?bs) \<le> 3" using n by simp
  ultimately have "parse_bits (marshal_bits ?bs @ []) = Inr (?bs, [])"
    unfolding marshal_bits_def parse_bits_def
    by (subst parse_field_plain) (simp_all add: params_defs)
  moreover have "fold (\<lambda>b ku. if bit_at ?bs b then ku OR push_bit b 1 else ku) [0..<min 16 (k + 1)] (0 :: KeyUsage) = ku"
  proof (rule bit_eqI)
    fix m assume "possible_bit TYPE(16 word) m"
    then have m: "m < 16" by simp
    have "bit_at ?bs m = bit ku m" if lt: "m < k + 1"
    proof -
      have "m div 8 \<le> k div 8" using lt by (intro div_le_mono) simp
      then have i: "m div 8 < n" "m div 8 < 2" using n(1) by (simp_all add: n_def)
      have "8 * (m div 8) + (7 - (7 - m mod 8)) = m" by simp
      then have "bit (out ! (m div 8)) (7 - m mod 8) = bit ku m"
        using B [OF i(2), of "7 - m mod 8"] m by simp
      then show ?thesis using lt i(1) by (simp add: bit_at_def)
    qed
    moreover have "bit ku m \<Longrightarrow> m < k + 1" using H m k by force
    ultimately show "bit (fold (\<lambda>b ku. if bit_at ?bs b then ku OR push_bit b 1 else ku)
        [0..<min 16 (k + 1)] (0 :: KeyUsage)) m = bit ku m"
      using or_loop [of "min 16 (k + 1)" "bit_at ?bs" m] m by auto
  qed
  ultimately have "parseKeyUsage (marshal_bits ?bs) = Inr ku"
    by (simp add: parseKeyUsage_def unmarshal_all_def)
  moreover have "length (marshal_bits ?bs) \<le> 20"
    using length_tlv_le [of 3 "bit_string_bytes ?bs" 0 False] len by (simp add: marshal_bits_def)
  ultimately show ?thesis using der by blast
qed

interpretation key_usage_value: der_value marshalKeyUsage parseKeyUsage "\<lambda>ku. ku \<noteq> 0" "\<lambda>ku. ku"
  using marshalKeyUsage_parse by unfold_locales (metis sum.inject(2))

subsection \<open>The other extension values\<close>

lemma unmarshal_all_Inr [simp]: "dec der = Inr (v, []) \<Longrightarrow> unmarshal_all dec what der = Inr v"
  by (simp add: unmarshal_all_def)

text \<open>Extended key usages.\<close>

definition eku_ok :: "ExtKeyUsage list \<Rightarrow> bool" where
  "eku_ok ekus = list_all (\<lambda>e. e = ExtKeyUsageServerAuth \<or> e = ExtKeyUsageClientAuth) ekus"

definition eku_oid :: "ExtKeyUsage \<Rightarrow> oid" where
  "eku_oid e = (if e = ExtKeyUsageServerAuth then [1, 3, 6, 1, 5, 5, 7, 3, 1]
                else [1, 3, 6, 1, 5, 5, 7, 3, 2])"

lemma eku_oids:
  "eku_ok ekus \<Longrightarrow> rmap (\<lambda>e. case find (\<lambda>(k, n, i). k = e) extKeyUsages of
        Some (k, n, i) \<Rightarrow> Inr i
      | None \<Rightarrow> Inl (Err [] ''pqx509: unsupported extended key usage'')) ekus
    = Inr (map eku_oid ekus)"
  by (induction ekus)
    (auto simp: eku_ok_def eku_oid_def extKeyUsages_def ExtKeyUsageServerAuth_def ExtKeyUsageClientAuth_def)

lemma eku_lookup:
  "e = ExtKeyUsageServerAuth \<or> e = ExtKeyUsageClientAuth \<Longrightarrow>
   map fst (filter (\<lambda>(k, n, i). i = eku_oid e) extKeyUsages) = [e]"
proof -
  have "list_all (\<lambda>e. map fst (filter (\<lambda>(k, n, i). i = eku_oid e) extKeyUsages) = [e])
      [ExtKeyUsageServerAuth, ExtKeyUsageClientAuth]"
    by code_simp
  then show "e = ExtKeyUsageServerAuth \<or> e = ExtKeyUsageClientAuth \<Longrightarrow>
      map fst (filter (\<lambda>(k, n, i). i = eku_oid e) extKeyUsages) = [e]"
    by auto
qed

lemma eku_back:
  "eku_ok ekus \<Longrightarrow>
   concat (map (\<lambda>x. map fst (filter (\<lambda>(k, n, i). i = x) extKeyUsages)) (map eku_oid ekus)) = ekus"
  by (induction ekus) (simp_all add: eku_ok_def eku_lookup)

interpretation ext_key_usage_value: der_value marshalExtKeyUsage parseExtKeyUsage eku_ok "\<lambda>e. e"
proof
  fix ekus der
  assume e: "eku_ok ekus" "marshalExtKeyUsage ekus = Inr der" "length der < 2 ^ 31"
  then obtain bss where b: "rmap marshal_oid (map eku_oid ekus) = Inr bss"
    "der = tlv 0 True 16 (concat bss)"
    by (auto simp: marshalExtKeyUsage_def marshal_oid_list_def eku_oids go_inv)
  have l: "length (concat bss) < 2 ^ 31" using e(3) b(2) tlv_body_bound by blast
  have "oid_ok (eku_oid e)" for e by (simp add: eku_oid_def oid_ok_def)
  then have "list_all oid_ok (map eku_oid ekus)" by (simp add: list_all_iff)
  then have "parse_sequence_of (Univ 6 False) parse_object_id (concat bss) = Inr (map eku_oid ekus)"
    using oid_codec.parse_sequence_of_enc [OF b(1) _ l] by blast
  then have "parse_slice no_params (Univ 6 False) parse_object_id (der @ []) = Inr (map eku_oid ekus, [])"
    unfolding b(2) by (subst parse_slice_tlv [OF l]) simp
  then show "parseExtKeyUsage der = Inr ekus"
    using eku_back [OF e(1)] by (simp add: parseExtKeyUsage_def comp_def)
qed

text \<open>Basic constraints: a path length is only kept on a CA.\<close>

definition bc_ok :: "BasicConstraints \<Rightarrow> bool" where
  "bc_ok bc = (MaxPathLen bc < 2 ^ 63)"

definition bc_view :: "BasicConstraints \<Rightarrow> BasicConstraints" where
  "bc_view bc = (if IsCA bc \<and> MaxPathLenSet bc then bc
     else \<lparr>IsCA = IsCA bc, MaxPathLen = 0, MaxPathLenSet = False\<rparr>)"

lemma parse_boolean_skip_int:
  "length b < 2 ^ 31 \<Longrightarrow>
   parse_boolean optional_params (tlv 0 False 2 b @ rest) = Inr (False, tlv 0 False 2 b @ rest)"
  by (simp add: parse_boolean_def parse_field_skip field_defs)

lemma parse_int_optional:
  assumes "int64_ok m" "length (int_bytes m) < 2 ^ 31"
  shows "parse_int optional_params d (tlv 0 False 2 (int_bytes m)) = Inr (m, [])"
  using assms parse_field_plain [of 2 "int_bytes m" optional_params False
      "\<lambda>t inner full. parse_int64 inner" d "[]"]
  by (simp add: parse_int_def params_defs int64_ok_def parse_int64_int_bytes)

lemma basicConstraintsDER_parse:
  assumes "length (marshal_basicConstraintsDER v) < 2 ^ 31"
    and "int64_ok (bcd_MaxPathLen v)"
  shows "parse_struct no_params basicConstraintsDER_fields d (marshal_basicConstraintsDER v) = Inr (v, [])"
proof -
  let ?c = "if bcd_IsCA v then tlv 0 False 1 (bool_bytes True) else []"
  let ?m = "if bcd_MaxPathLen v = - 1 then [] else tlv 0 False 2 (int_bytes (bcd_MaxPathLen v))"
  have l: "length (?c @ ?m) < 2 ^ 31"
    using assms(1) tlv_body_bound unfolding marshal_basicConstraintsDER_def by blast
  then have lm: "bcd_MaxPathLen v \<noteq> - 1 \<Longrightarrow> length (int_bytes (bcd_MaxPathLen v)) < 2 ^ 31"
    using length_tlv_body [of "int_bytes (bcd_MaxPathLen v)" 0 False 2] by simp
  have "parse_boolean optional_params [] = Inr (False, [])"
    by (simp add: parse_boolean_def params_defs)
  then have "parse_boolean optional_params (?c @ ?m) = Inr (bcd_IsCA v, ?m)"
    using parse_boolean_true [of ?m] parse_boolean_skip_int [of "int_bytes (bcd_MaxPathLen v)" "[]"] lm
    by auto
  moreover have "parse_int optional_params (- 1) ?m = Inr (bcd_MaxPathLen v, [])"
    using parse_int_optional [OF assms(2) lm] by (auto simp: parse_int_def params_defs)
  ultimately have "basicConstraintsDER_fields (?c @ ?m) = Inr v"
    unfolding basicConstraintsDER_fields_def by simp
  then show ?thesis
    using parse_struct_tlv [OF l, of basicConstraintsDER_fields d "[]"]
    unfolding marshal_basicConstraintsDER_def by simp
qed

interpretation basic_constraints_value:
  der_value marshalBasicConstraints parseBasicConstraints bc_ok bc_view
proof
  fix bc der
  assume b: "bc_ok bc" "marshalBasicConstraints bc = Inr der" "length der < 2 ^ 31"
  then show "parseBasicConstraints der = Inr (bc_view bc)"
    using basicConstraintsDER_parse
    by (auto simp: marshalBasicConstraints_def parseBasicConstraints_def bc_ok_def bc_view_def int64_ok_def
        split: if_splits)
qed

text \<open>Key identifiers.\<close>

interpretation subject_key_id_value: der_value marshalKeyID parseSubjectKeyID "\<lambda>k. True" "\<lambda>k. k"
proof
  fix k der
  assume k: "marshalKeyID k = Inr der" "length der < 2 ^ 31"
  then have "length k < 2 ^ 31" by (auto simp: marshalKeyID_def marshal_octets_def dest: tlv_body_bound)
  then show "parseSubjectKeyID der = Inr k"
    using k(1) parse_octets_marshal [of k "[]"] by (auto simp: marshalKeyID_def parseSubjectKeyID_def)
qed

interpretation authority_key_id_value:
  der_value marshalAuthorityKeyID parseAuthorityKeyID "\<lambda>k. True" "\<lambda>k. k"
proof
  fix k der
  assume k: "marshalAuthorityKeyID k = Inr der" "length der < 2 ^ 31"
  let ?b = "if k = [] then [] else tlv 2 False 0 k"
  have der: "der = tlv 0 True 16 ?b"
    using k(1) by (auto simp: marshalAuthorityKeyID_def make_field_def akid_params_def)
  then have l: "length ?b < 2 ^ 31" using k(2) tlv_body_bound by blast
  have "k \<noteq> [] \<Longrightarrow> length k < 2 ^ 31" using l length_tlv_body [of k 2 False 0] by simp
  then have "parse_octets akid_params ?b = Inr (k, [])"
    using parse_field_implicit [of 0 k akid_params 4 False "\<lambda>t inner full. Inr inner" "[]" "[]"]
    by (auto simp: parse_octets_def akid_params_def)
  then show "parseAuthorityKeyID der = Inr k"
    using parse_struct_tlv [OF l, of "\<lambda>inner. rbind (parse_octets akid_params inner) (\<lambda>(v, _). Inr v)" "[]" "[]"]
    by (simp add: parseAuthorityKeyID_def der)
qed

text \<open>Subject alternative names: addresses are kept in their short form.\<close>

definition san_ok :: "SANs \<Rightarrow> bool" where
  "san_ok s = list_all (\<lambda>b. length b = 4 \<or> length b = 16) (IPAddresses s)"

definition san_view :: "SANs \<Rightarrow> SANs" where
  "san_view s = s\<lparr>IPAddresses := map san_ip (IPAddresses s)\<rparr>"

definition san_raws :: "SANs \<Rightarrow> raw_value list" where
  "san_raws s = map (\<lambda>v. raw_of 2 False 2 (bytes_of v)) (DNSNames s)
     @ map (\<lambda>v. raw_of 2 False 1 (bytes_of v)) (EmailAddresses s)
     @ map (\<lambda>b. raw_of 2 False 7 (san_ip b)) (IPAddresses s)"

lemma san_ip_length: "length b = 4 \<or> length b = 16 \<Longrightarrow> length (san_ip b) = 4 \<or> length (san_ip b) = 16"
  by (auto simp: san_ip_def To4_def split: option.splits if_splits)

lemma collect_sans_append:
  "collect_sans s (xs @ ys) = rbind (collect_sans s xs) (\<lambda>s'. collect_sans s' ys)"
  by (induction s xs rule: collect_sans.induct) simp_all

lemma collect_dns:
  "collect_sans s (map (\<lambda>v. raw_of 2 False 2 (bytes_of v)) vs) = Inr (s\<lparr>DNSNames := DNSNames s @ vs\<rparr>)"
  by (induction vs arbitrary: s) simp_all

lemma collect_email:
  "collect_sans s (map (\<lambda>v. raw_of 2 False (Suc 0) (bytes_of v)) vs) =
    Inr (s\<lparr>EmailAddresses := EmailAddresses s @ vs\<rparr>)"
  by (induction vs arbitrary: s) simp_all

lemma collect_ips:
  "list_all (\<lambda>b. length b = 4 \<or> length b = 16) ips \<Longrightarrow>
   collect_sans s (map (\<lambda>b. raw_of 2 False 7 (san_ip b)) ips) =
     Inr (s\<lparr>IPAddresses := IPAddresses s @ map san_ip ips\<rparr>)"
proof (induction ips arbitrary: s)
  case (Cons b ips)
  have "length (san_ip b) = 4 \<or> length (san_ip b) = 16"
    using Cons.prems by (intro san_ip_length) simp
  then show ?case using Cons by auto
qed simp

lemma collect_san_raws: "san_ok s \<Longrightarrow> collect_sans zero_SANs (san_raws s) = Inr (san_view s)"
  unfolding san_raws_def One_nat_def
  by (simp add: collect_sans_append collect_dns collect_email collect_ips san_ok_def zero_SANs_def
      san_view_def)

lemma marshalSANs_raws:
  "marshalSANs s =
     (if SANs_Empty s then Inl (Err [] ''pqx509: subjectAltName must not be empty'')
      else Inr (tlv 0 True 16 (concat (map marshal_raw (san_raws s)))))"
  by (auto simp: marshalSANs_def SANs_Empty_def san_raws_def Let_def comp_def marshal_raw_def)

interpretation san_value: der_value marshalSANs parseSANs san_ok san_view
proof
  fix s der
  assume s: "san_ok s" "marshalSANs s = Inr der" "length der < 2 ^ 31"
  let ?bss = "map marshal_raw (san_raws s)"
  have der: "der = tlv 0 True 16 (concat ?bss)"
    using s(2) by (simp add: marshalSANs_raws split: if_splits)
  then have l: "length (concat ?bss) < 2 ^ 31" using s(3) tlv_body_bound by blast
  have "list_all raw_ok (san_raws s)"
    by (auto simp: san_raws_def list_all_iff intro: raw_ok_raw_of)
  then have "parse_sequence_of AnyType (parse_raw no_params) (concat ?bss) = Inr (san_raws s)"
    using raw_codec.parse_sequence_of_enc [OF rmap_total _ l] by blast
  then have "parse_slice no_params AnyType (parse_raw no_params) (der @ []) = Inr (san_raws s, [])"
    unfolding der by (subst parse_slice_tlv [OF l]) simp
  then show "parseSANs der = Inr (san_view s)"
    using collect_san_raws [OF s(1)] by (simp add: parseSANs_def)
qed

text \<open>CRL reason and number.\<close>

definition int32_ok :: "int \<Rightarrow> bool" where
  "int32_ok i = (- (2 ^ 31) \<le> i \<and> i < 2 ^ 31)"

interpretation crl_reason_value: der_value marshalCRLReason parseCRLReason int32_ok "\<lambda>i. i"
proof
  fix i der
  assume i: "int32_ok i" "marshalCRLReason i = Inr der" "length der < 2 ^ 31"
  then have der: "der = tlv 0 False 10 (int_bytes i)" by (simp add: marshalCRLReason_def)
  then have "length (int_bytes i) < 2 ^ 31" using i(3) tlv_body_bound by blast
  then show "parseCRLReason der = Inr i"
    using i(1) parse_field_plain [of 10 "int_bytes i" no_params False "\<lambda>t inner full. parse_int32 inner" 0 "[]"]
    by (simp add: parseCRLReason_def parse_enumerated_def der params_defs int32_ok_def parse_int32_int_bytes)
qed

interpretation crl_number_value: der_value marshalCRLNumber parse_crl_number "\<lambda>i. True" "\<lambda>i. i"
proof
  fix n der
  assume "marshalCRLNumber n = Inr der" "length der < 2 ^ 31"
  then have "parse_big der = Inr (n, [])"
    using big_codec.dec_enc_all [of n der] by (simp add: marshalCRLNumber_def)
  then show "parse_crl_number der = Inr n" by (simp add: parse_crl_number_def)
qed

subsection \<open>Names of key usages\<close>

lemma keyUsage_names_back:
  "ParseKeyUsages (KeyUsage_Strings ku) =
     Inr (ku AND (KeyUsageDigitalSignature OR KeyUsageKeyCertSign OR KeyUsageCRLSign))"
proof -
  have b: "ku AND push_bit b 1 = (if bit ku b then push_bit b 1 else 0)" if "b < 16" for b
  proof (rule bit_eqI)
    fix n
    show "bit (ku AND push_bit b 1) n = bit (if bit ku b then push_bit b 1 else 0 :: KeyUsage) n"
      using bit_exp_iff [where ?'a = "16 word", of b n] by (auto simp: bit_and_iff push_bit_eq_mult)
  qed
  show ?thesis
    unfolding ParseKeyUsages_def KeyUsage_Strings_def keyUsageNames_def KeyUsageDigitalSignature_def
      KeyUsageKeyCertSign_def KeyUsageCRLSign_def bit.conj_disj_distrib
    using b [of 0] b [of 5] b [of 6]
    by (simp add: keyUsageNames_def KeyUsageDigitalSignature_def KeyUsageKeyCertSign_def KeyUsageCRLSign_def)
qed

subsection \<open>Properties\<close>

text \<open>Key usage bit strings: for every non-empty 16-bit mask \<open>marshalKeyUsage\<close> writes a BIT
  STRING that \<open>parseKeyUsage\<close> (and the padding check of \<open>encoding/asn1\<close>) accepts and maps to the
  same mask, and the empty mask is an error.\<close>

theorem parseKeyUsage_marshalKeyUsage:
  "if ku = 0 then \<exists>e. marshalKeyUsage ku = Inl e
   else \<exists>der. marshalKeyUsage ku = Inr der \<and> parseKeyUsage der = Inr ku"
proof -
  have "fold (ku_step 0) [0..<16] ([0, 0], - 1) = ([0, 0], - 1)"
    by (simp add: upt_rec ku_step_def)
  then show ?thesis using marshalKeyUsage_parse [of ku] by (auto simp: marshalKeyUsage_def)
qed

text \<open>Basic constraints: whatever \<open>marshalBasicConstraints\<close> encodes is read back by
  \<open>parseBasicConstraints\<close>, except that a path length limit on a certificate that is not a CA is
  dropped; and a negative limit on a CA is refused.\<close>

theorem parseBasicConstraints_marshal:
  assumes "MaxPathLen bc < 2 ^ 63"
  shows "if IsCA bc \<and> MaxPathLenSet bc \<and> MaxPathLen bc < 0
    then \<exists>e. marshalBasicConstraints bc = Inl e
    else \<exists>der. marshalBasicConstraints bc = Inr der \<and>
      parseBasicConstraints der = Inr (if IsCA bc \<and> MaxPathLenSet bc then bc
        else \<lparr>IsCA = IsCA bc, MaxPathLen = 0, MaxPathLenSet = False\<rparr>)"
proof (cases "IsCA bc \<and> MaxPathLenSet bc \<and> MaxPathLen bc < 0")
  case True
  then show ?thesis by (simp add: marshalBasicConstraints_def)
next
  case False
  define v where "v = \<lparr>bcd_IsCA = IsCA bc,
    bcd_MaxPathLen = (if IsCA bc \<and> MaxPathLenSet bc then MaxPathLen bc else - 1)\<rparr>"
  have v: "marshalBasicConstraints bc = Inr (marshal_basicConstraintsDER v)"
    "int64_ok (bcd_MaxPathLen v)"
    using assms False by (auto simp: marshalBasicConstraints_def int64_ok_def v_def)
  have "length (int_bytes (bcd_MaxPathLen v)) \<le> 8"
    using v(2) length_int_bytes [of 7 "bcd_MaxPathLen v"] by (simp add: int64_ok_def)
  then have "length (tlv 0 False 2 (int_bytes (bcd_MaxPathLen v))) \<le> 14"
    using length_tlv_le [of 2 "int_bytes (bcd_MaxPathLen v)" 0 False] by simp
  moreover have "length (tlv 0 False (Suc 0) (bool_bytes True)) \<le> 7"
    using length_tlv_le [of "Suc 0" "bool_bytes True" 0 False] by (simp add: bool_bytes_def)
  ultimately have "length (marshal_basicConstraintsDER v) < 2 ^ 31"
    using length_tlv_le [of 16 "(if bcd_IsCA v then tlv 0 False 1 (bool_bytes True) else [])
        @ (if bcd_MaxPathLen v = - 1 then [] else tlv 0 False 2 (int_bytes (bcd_MaxPathLen v)))" 0 True]
    by (auto simp: marshal_basicConstraintsDER_def split: if_splits)
  then show ?thesis
    using basic_constraints_value.parse_marshal [OF _ v(1)] assms v(1) False
    by (simp add: bc_ok_def bc_view_def)
qed

theorem parseBasicConstraints_marshal_witness:
  "\<exists>der. marshalBasicConstraints \<lparr>IsCA = True, MaxPathLen = 3, MaxPathLenSet = True\<rparr> = Inr der
     \<and> parseBasicConstraints der = Inr \<lparr>IsCA = True, MaxPathLen = 3, MaxPathLenSet = True\<rparr>"
  using parseBasicConstraints_marshal [of "\<lparr>IsCA = True, MaxPathLen = 3, MaxPathLenSet = True\<rparr>"] by simp

text \<open>Subject alternative names: what \<open>marshalSANs\<close> encodes (at least one name; addresses of 4
  or 16 octets) is read back by \<open>parseSANs\<close> with every DNS name, email address and IP
  address in order; an IPv4 address in its 16-octet form comes back as 4 octets.\<close>

theorem parseSANs_marshalSANs:
  assumes "\<forall>b \<in> set (IPAddresses s). length b = 4 \<or> length b = 16"
    and "marshalSANs s = Inr der" and "length der < 2 ^ 31"
  shows "parseSANs der = Inr (s\<lparr>IPAddresses := map san_ip (IPAddresses s)\<rparr>)"
  using assms san_value.parse_marshal [of s der] by (simp add: san_ok_def san_view_def list_all_iff)

theorem parseSANs_marshalSANs_witness:
  "parseSANs (tlv 0 True 16 (concat (map marshal_raw (san_raws
      \<lparr>DNSNames = [''a.example''], EmailAddresses = [], IPAddresses = [[127, 0, 0, 1]]\<rparr>)))) =
    Inr \<lparr>DNSNames = [''a.example''], EmailAddresses = [], IPAddresses = [[127, 0, 0, 1]]\<rparr>"
proof -
  let ?s = "\<lparr>DNSNames = [''a.example''], EmailAddresses = [], IPAddresses = [[127, 0, 0, 1]]\<rparr>"
  let ?der = "tlv 0 True 16 (concat (map marshal_raw (san_raws ?s)))"
  have "length ?der < 2 ^ 31"
    by (simp add: san_raws_def tlv_def header_bytes_def marshalLength_def san_ip_def To4_def)
  moreover have "marshalSANs ?s = Inr ?der"
    by (simp add: marshalSANs_raws SANs_Empty_def)
  ultimately have "parseSANs ?der = Inr (?s\<lparr>IPAddresses := map san_ip (IPAddresses ?s)\<rparr>)"
    by (intro parseSANs_marshalSANs) simp_all
  then show ?thesis by (simp add: san_ip_def To4_def)
qed

end
