(* ===== verification/Certificate.thy ===== *)
theory Certificate
  imports Signed Names Times Extensions
begin

section \<open>Certificates (internal/pqx509/certificate.go)\<close>

text \<open>
  \<open>Certificate\<close>, \<open>GenerateSerialNumber\<close>, \<open>CreateCertificate\<close>, \<open>buildExtensions\<close> and
  \<open>ParseCertificate\<close>. \<open>SerialNumber\<close> is an option, \<open>None\<close> being a nil pointer; the
  comparison \<open>parent == template\<close> of pointers is a constructor of the parent argument. A nil
  byte slice and an empty one are not distinguished (the code tests \<open>len(...) == 0\<close>).
\<close>

subsection \<open>Types\<close>

type_synonym Extension = extension

record validity =
  v_notBefore :: raw_value
  v_notAfter :: raw_value

record tbsCertificate =
  tc_version :: int
  tc_serial :: int
  tc_sigalg :: algorithmIdentifier
  tc_issuer :: raw_value
  tc_validity :: validity
  tc_subject :: raw_value
  tc_key :: subjectPublicKeyInfo
  tc_exts :: "extension list"

record Certificate =
  crt_Raw :: bytes
  crt_RawTBS :: bytes
  crt_Version :: int
  crt_Serial :: "int option"
  crt_SigAlg :: algorithm
  crt_Signature :: bytes
  crt_Issuer :: Name
  crt_RawIssuer :: bytes
  crt_Subject :: Name
  crt_RawSubject :: bytes
  crt_NotBefore :: instant
  crt_NotAfter :: instant
  crt_PublicKey :: PublicKey
  crt_BasicConstraints :: BasicConstraints
  crt_BCValid :: bool
  crt_KeyUsage :: KeyUsage
  crt_ExtKeyUsage :: "ExtKeyUsage list"
  crt_SubjectKeyID :: bytes
  crt_AuthorityKeyID :: bytes
  crt_SANs :: SANs
  crt_Unhandled :: "Extension list"

definition zero_Certificate :: Certificate where
  "zero_Certificate =
     \<lparr>crt_Raw = [], crt_RawTBS = [], crt_Version = 0, crt_Serial = None, crt_SigAlg = 0,
      crt_Signature = [], crt_Issuer = zero_Name, crt_RawIssuer = [], crt_Subject = zero_Name,
      crt_RawSubject = [], crt_NotBefore = 0, crt_NotAfter = 0,
      crt_PublicKey = \<lparr>pub_alg = 0, pub_bytes = []\<rparr>,
      crt_BasicConstraints = zero_BasicConstraints, crt_BCValid = False, crt_KeyUsage = 0,
      crt_ExtKeyUsage = [], crt_SubjectKeyID = [], crt_AuthorityKeyID = [], crt_SANs = zero_SANs,
      crt_Unhandled = []\<rparr>"

datatype parent = NilParent | TemplateItself | Parent Certificate

definition IsSelfSigned :: "Certificate \<Rightarrow> bool" where
  "IsSelfSigned c = (0 < length (crt_RawIssuer c) \<and> crt_RawIssuer c = crt_RawSubject c)"

subsection \<open>Serial numbers\<close>

text \<open>\<open>rand.Int\<close> of crypto/rand: bytes are read, cut to the bit length of \<open>limit - 1\<close>, and drawn
  again until the value is below \<open>limit\<close>.\<close>

fun bit_length :: "nat \<Rightarrow> nat" where
  "bit_length n = (if n = 0 then 0 else Suc (bit_length (n div 2)))"

declare bit_length.simps [simp del]

definition be_value :: "bytes \<Rightarrow> nat" where
  "be_value bs = foldl (\<lambda>a b. a * 256 + unat b) 0 bs"

function rand_Int :: "nat \<Rightarrow> bytes \<Rightarrow> (nat \<times> bytes) res" where
  "rand_Int limit r =
     (let bits = bit_length (limit - 1); k = (bits + 7) div 8 in
      if k = 0 then Inr (0, r)
      else if length r < k then Inl (Err [] ''unexpected EOF'')
      else
        (let n = be_value (take k r) mod 2 ^ bits in
         if n < limit then Inr (n, drop k r) else rand_Int limit (drop k r)))"
  by pat_completeness auto
termination
proof (relation "measure (\<lambda>(m, r). length r)", goal_cases)
  case (2 limit r bits k n)
  then have "0 < k" "k \<le> length r" by simp_all
  then show ?case by simp
qed simp

declare rand_Int.simps [simp del]

fun serial_loop :: "nat \<Rightarrow> bytes \<Rightarrow> (int \<times> bytes) res" where
  "serial_loop 0 r = Inl (Err [] ''pqx509: could not generate a nonzero serial number'')"
| "serial_loop (Suc i) r =
     rbind (rmap_err (wrap_errs [] ''pqx509: generating serial number'') (rand_Int (2 ^ 127) r))
       (\<lambda>(n, r'). if 0 < n then Inr (int n, r') else serial_loop i r')"

definition GenerateSerialNumber :: "bytes \<Rightarrow> (int \<times> bytes) res" where
  "GenerateSerialNumber r = serial_loop 8 r"

subsection \<open>TBSCertificate\<close>

definition marshal_version :: "int \<Rightarrow> bytes" where
  "marshal_version v =
     (if v = 0 then [] else make_field (explicit_tag 0) 2 False (int_bytes v))"

definition marshal_extensions :: "nat \<Rightarrow> extension list \<Rightarrow> bytes res" where
  "marshal_extensions tag exts =
     (if exts = [] then Inr []
      else rbind (rmap marshal_extension exts) (\<lambda>bss.
        Inr (make_field (explicit_tag tag) 16 True (concat bss))))"

definition marshal_tbsCertificate :: "tbsCertificate \<Rightarrow> bytes res" where
  "marshal_tbsCertificate t =
     rbind (marshal_int (tc_serial t)) (\<lambda>serial.
     rbind (marshal_algorithmIdentifier (tc_sigalg t)) (\<lambda>alg.
     rbind (marshal_spki (tc_key t)) (\<lambda>key.
     rbind (marshal_extensions 3 (tc_exts t)) (\<lambda>exts.
       Inr (tlv 0 True 16
         (marshal_version (tc_version t) @ serial @ alg @ marshal_raw (tc_issuer t)
          @ tlv 0 True 16 (marshal_raw (v_notBefore (tc_validity t))
                           @ marshal_raw (v_notAfter (tc_validity t)))
          @ marshal_raw (tc_subject t) @ key @ exts))))))"

definition validity_fields :: "bytes \<Rightarrow> validity res" where
  "validity_fields inner =
     rbind (parse_raw no_params inner) (\<lambda>(nb, r).
     rbind (parse_raw no_params r) (\<lambda>(na, _).
       Inr \<lparr>v_notBefore = nb, v_notAfter = na\<rparr>))"

definition parse_validity :: "bytes \<Rightarrow> (validity \<times> bytes) res" where
  "parse_validity = parse_struct no_params validity_fields
     \<lparr>v_notBefore = zero_raw, v_notAfter = zero_raw\<rparr>"

definition parse_extensions :: "nat \<Rightarrow> bytes \<Rightarrow> (extension list \<times> bytes) res" where
  "parse_extensions tag = parse_slice (explicit_tag tag) (Univ 16 True) parse_extension"

definition tbsCertificate_fields :: "bytes \<Rightarrow> tbsCertificate res" where
  "tbsCertificate_fields inner =
     rbind (parse_int (explicit_tag 0) 0 inner) (\<lambda>(v, r0).
     rbind (parse_big r0) (\<lambda>(serial, r1).
     rbind (parse_algorithmIdentifier r1) (\<lambda>(alg, r2).
     rbind (parse_raw no_params r2) (\<lambda>(issuer, r3).
     rbind (parse_validity r3) (\<lambda>(valid, r4).
     rbind (parse_raw no_params r4) (\<lambda>(subject, r5).
     rbind (parse_spki r5) (\<lambda>(key, r6).
     rbind (parse_extensions 3 r6) (\<lambda>(exts, _).
       Inr \<lparr>tc_version = v, tc_serial = serial, tc_sigalg = alg, tc_issuer = issuer,
            tc_validity = valid, tc_subject = subject, tc_key = key, tc_exts = exts\<rparr>))))))))"

definition zero_spki :: subjectPublicKeyInfo where
  "zero_spki = \<lparr>spki_algorithm = algorithm_identifier [], spki_key = \<lparr>bs_bytes = [], bs_bits = 0\<rparr>\<rparr>"

definition parse_tbsCertificate :: "bytes \<Rightarrow> (tbsCertificate \<times> bytes) res" where
  "parse_tbsCertificate = parse_struct no_params tbsCertificate_fields
     \<lparr>tc_version = 0, tc_serial = 0, tc_sigalg = algorithm_identifier [], tc_issuer = zero_raw,
      tc_validity = \<lparr>v_notBefore = zero_raw, v_notAfter = zero_raw\<rparr>, tc_subject = zero_raw,
      tc_key = zero_spki, tc_exts = []\<rparr>"

subsection \<open>Creation\<close>

definition ext_of :: "oid \<Rightarrow> bool \<Rightarrow> bytes \<Rightarrow> extension" where
  "ext_of i crit v = \<lparr>ext_id = i, ext_critical = crit, ext_value = v\<rparr>"

definition buildExtensions ::
  "Certificate \<Rightarrow> PublicKey \<Rightarrow> Signer \<Rightarrow> bool \<Rightarrow> extension list res" where
  "buildExtensions template pub signer subjectEmpty =
     rbind (if crt_BCValid template
            then rbind (marshalBasicConstraints (crt_BasicConstraints template)) (\<lambda>v.
                   Inr [ext_of oidExtBasicConstraints True v])
            else Inr []) (\<lambda>e1.
     rbind (if crt_KeyUsage template \<noteq> 0
            then rbind (marshalKeyUsage (crt_KeyUsage template)) (\<lambda>v.
                   Inr [ext_of oidExtKeyUsage True v])
            else Inr []) (\<lambda>e2.
     rbind (if 0 < length (crt_ExtKeyUsage template)
            then rbind (marshalExtKeyUsage (crt_ExtKeyUsage template)) (\<lambda>v.
                   Inr [ext_of oidExtExtendedKeyUsage False v])
            else Inr []) (\<lambda>e3.
     rbind (if length (crt_SubjectKeyID template) = 0 then KeyIdentifier pub
            else Inr (crt_SubjectKeyID template)) (\<lambda>skid.
     rbind (marshalKeyID skid) (\<lambda>skidDER.
     rbind (if length (crt_AuthorityKeyID template) = 0 then KeyIdentifier (sg_pub signer)
            else Inr (crt_AuthorityKeyID template)) (\<lambda>akid.
     rbind (marshalAuthorityKeyID akid) (\<lambda>akidDER.
     rbind (if \<not> SANs_Empty (crt_SANs template)
            then rbind (marshalSANs (crt_SANs template)) (\<lambda>v.
                   Inr [ext_of oidExtSubjectAltName subjectEmpty v])
            else Inr []) (\<lambda>e4.
       Inr (e1 @ e2 @ e3 @ [ext_of oidExtSubjectKeyID False skidDER]
            @ [ext_of oidExtAuthorityKeyID False akidDER] @ e4 @ crt_Unhandled template)))))))))"

definition subject_der :: "Certificate \<Rightarrow> bytes res" where
  "subject_der c =
     (if length (crt_RawSubject c) = 0 then ToRDNSequence (crt_Subject c)
      else Inr (crt_RawSubject c))"

definition issuer_der :: "parent \<Rightarrow> bytes \<Rightarrow> bytes res" where
  "issuer_der parent subjectDER =
     (case parent of Parent p \<Rightarrow> subject_der p | _ \<Rightarrow> Inr subjectDER)"

definition sign_tbs :: "Signer \<Rightarrow> algorithm \<Rightarrow> string \<Rightarrow> bytes \<Rightarrow> bytes res" where
  "sign_tbs signer alg what tbsDER =
     rbind (rmap_err (wrap_errs [] what) (sg_sign signer tbsDER)) (\<lambda>sig.
     rmap_err (wrap_errs [] what)
       (marshal_signed \<lparr>sd_tbs = raw_full tbsDER, sd_alg = algorithm_identifier (alg_OID alg),
                        sd_sig = octet_bits sig\<rparr>))"

definition CreateCertificate ::
  "Certificate option \<Rightarrow> parent \<Rightarrow> PublicKey \<Rightarrow> Signer option \<Rightarrow> bytes res" where
  "CreateCertificate template_p parent pub signer_p =
     (case (template_p, signer_p) of
        (Some template, Some signer) \<Rightarrow>
          if parent = NilParent
          then Inl (Err [] ''pqx509: template, parent and signer are required'')
          else
            (case crt_Serial template of
               None \<Rightarrow> Inl (Err [] ''pqx509: template.SerialNumber must be set'')
             | Some serial \<Rightarrow>
                 if serial \<le> 0 then Inl (Err [] ''pqx509: serial number must be positive'')
                 else if \<not> crt_NotBefore template < crt_NotAfter template
                 then Inl (Err [] ''pqx509: NotAfter must be after NotBefore'')
                 else if crt_SigAlg template \<noteq> sg_alg signer
                 then Inl (Err [] ''pqx509: template signature algorithm does not match'')
                 else
                   rbind (subject_der template) (\<lambda>subjectDER.
                   let subjectEmpty = (subjectDER = [0x30, 0x00]) in
                   if subjectEmpty \<and> SANs_Empty (crt_SANs template)
                   then Inl (Err [] ''pqx509: a certificate with an empty subject must carry subjectAltName'')
                   else
                     rbind (issuer_der parent subjectDER) (\<lambda>issuerDER.
                     rbind (MarshalPKIXPublicKey pub) (\<lambda>spki.
                     rbind (rmap_err (wrap_errs [] ''pqx509: re-reading SPKI'') (parse_spki spki))
                       (\<lambda>(spkiStruct, _).
                     rbind (marshalTime (crt_NotBefore template)) (\<lambda>notBefore.
                     rbind (marshalTime (crt_NotAfter template)) (\<lambda>notAfter.
                     rbind (buildExtensions template pub signer subjectEmpty) (\<lambda>exts.
                     rbind (rmap_err (wrap_errs [] ''pqx509: marshaling TBSCertificate'')
                       (marshal_tbsCertificate
                         \<lparr>tc_version = 2, tc_serial = serial,
                          tc_sigalg = algorithm_identifier (alg_OID (crt_SigAlg template)),
                          tc_issuer = raw_full issuerDER,
                          tc_validity = \<lparr>v_notBefore = notBefore, v_notAfter = notAfter\<rparr>,
                          tc_subject = raw_full subjectDER, tc_key = spkiStruct, tc_exts = exts\<rparr>))
                       (\<lambda>tbsDER.
                         sign_tbs signer (crt_SigAlg template) ''pqx509: signing certificate'' tbsDER)))))))))
      | _ \<Rightarrow> Inl (Err [] ''pqx509: template, parent and signer are required''))"

subsection \<open>Parsing\<close>

fun parse_cert_exts :: "Certificate \<Rightarrow> oid list \<Rightarrow> extension list \<Rightarrow> Certificate res" where
  "parse_cert_exts cert seen [] = Inr cert"
| "parse_cert_exts cert seen (e # es) =
     (if ext_id e \<in> set seen then Inl (Err [ErrMalformedDER] ''duplicate extension'')
      else
        rbind
          (if ext_id e = oidExtBasicConstraints
           then rbind (parseBasicConstraints (ext_value e)) (\<lambda>bc.
                  Inr (cert\<lparr>crt_BasicConstraints := bc, crt_BCValid := True\<rparr>))
           else if ext_id e = oidExtKeyUsage
           then rbind (parseKeyUsage (ext_value e)) (\<lambda>ku. Inr (cert\<lparr>crt_KeyUsage := ku\<rparr>))
           else if ext_id e = oidExtExtendedKeyUsage
           then rbind (parseExtKeyUsage (ext_value e)) (\<lambda>x. Inr (cert\<lparr>crt_ExtKeyUsage := x\<rparr>))
           else if ext_id e = oidExtSubjectKeyID
           then rbind (parseSubjectKeyID (ext_value e)) (\<lambda>k. Inr (cert\<lparr>crt_SubjectKeyID := k\<rparr>))
           else if ext_id e = oidExtAuthorityKeyID
           then rbind (parseAuthorityKeyID (ext_value e)) (\<lambda>k. Inr (cert\<lparr>crt_AuthorityKeyID := k\<rparr>))
           else if ext_id e = oidExtSubjectAltName
           then rbind (parseSANs (ext_value e)) (\<lambda>s. Inr (cert\<lparr>crt_SANs := s\<rparr>))
           else if ext_critical e then Inl (Err [ErrUnsupportedCriticalExtension] ''extension'')
           else Inr (cert\<lparr>crt_Unhandled := crt_Unhandled cert @ [e]\<rparr>))
          (\<lambda>cert'. parse_cert_exts cert' (ext_id e # seen) es))"

definition ParseCertificate :: "bytes \<Rightarrow> Certificate res" where
  "ParseCertificate der =
     rbind (unmarshal_all parse_signed ''certificate'' der) (\<lambda>outer.
     rbind (unmarshal_all parse_tbsCertificate ''TBSCertificate'' (rv_full (sd_tbs outer))) (\<lambda>tbs.
     rbind (algorithmFromOID (aid_algorithm (sd_alg outer))) (\<lambda>sigAlg.
       if rv_full (aid_parameters (sd_alg outer)) \<noteq> []
       then Inl (Err [ErrMalformedDER] ''signature AlgorithmIdentifier must omit parameters'')
       else if aid_algorithm (tc_sigalg tbs) \<noteq> aid_algorithm (sd_alg outer)
       then Inl (Err [ErrMalformedDER] ''inner and outer signature algorithms differ'')
       else if rv_full (aid_parameters (tc_sigalg tbs)) \<noteq> []
       then Inl (Err [ErrMalformedDER] ''TBSCertificate AlgorithmIdentifier must omit parameters'')
       else if bs_bits (sd_sig outer) mod 8 \<noteq> 0
       then Inl (Err [ErrMalformedDER] ''signature BIT STRING has unused bits'')
       else if length (bs_bytes (sd_sig outer)) \<noteq> SignatureSize sigAlg
       then Inl (Err [ErrMalformedDER] ''signature size'')
       else if tc_serial tbs \<le> 0
       then Inl (Err [ErrMalformedDER] ''serial number must be positive'')
       else
         rbind (ParseName (rv_full (tc_issuer tbs))) (\<lambda>issuer.
         rbind (ParseName (rv_full (tc_subject tbs))) (\<lambda>subject.
         rbind (parseTime (v_notBefore (tc_validity tbs))) (\<lambda>notBefore.
         rbind (parseTime (v_notAfter (tc_validity tbs))) (\<lambda>notAfter.
         rbind (publicKeyFromSPKI (tc_key tbs)) (\<lambda>pub.
           (let cert = zero_Certificate
                 \<lparr>crt_Raw := der, crt_RawTBS := rv_full (sd_tbs outer),
                  crt_Version := wrap64 (tc_version tbs + 1), crt_Serial := Some (tc_serial tbs),
                  crt_SigAlg := sigAlg, crt_Signature := bs_bytes (sd_sig outer),
                  crt_Issuer := issuer, crt_RawIssuer := rv_full (tc_issuer tbs),
                  crt_Subject := subject, crt_RawSubject := rv_full (tc_subject tbs),
                  crt_NotBefore := notBefore, crt_NotAfter := notAfter, crt_PublicKey := pub\<rparr> in
            if crt_Version cert \<noteq> 3 then Inl (Err [ErrMalformedDER] ''certificate version'')
            else parse_cert_exts cert [] (tc_exts tbs))))))))))"

subsection \<open>The TBSCertificate codec\<close>

definition validity_ok :: "validity \<Rightarrow> bool" where
  "validity_ok v = (raw_ok (v_notBefore v) \<and> raw_ok (v_notAfter v))"

definition tbs_ok :: "tbsCertificate \<Rightarrow> bool" where
  "tbs_ok t = (tc_version t \<noteq> 0 \<and> int64_ok (tc_version t) \<and> algorithmIdentifier_ok (tc_sigalg t)
     \<and> raw_ok (tc_issuer t) \<and> validity_ok (tc_validity t) \<and> raw_ok (tc_subject t)
     \<and> spki_ok (tc_key t) \<and> list_all extension_ok (tc_exts t))"

definition marshal_validity :: "validity \<Rightarrow> bytes res" where
  "marshal_validity v = Inr (tlv 0 True 16 (marshal_raw (v_notBefore v) @ marshal_raw (v_notAfter v)))"

interpretation validity_codec: asn1_codec marshal_validity parse_validity validity_ok
proof
  fix v bs rest
  assume v: "validity_ok v" "marshal_validity v = Inr bs" "length bs < 2 ^ 31"
  let ?b = "marshal_raw (v_notBefore v) @ marshal_raw (v_notAfter v)"
  have bs: "bs = tlv 0 True 16 ?b" using v(2) by (simp add: marshal_validity_def)
  have l: "length ?b < 2 ^ 31" using v(3) bs tlv_body_bound by blast
  have "parse_raw no_params ?b = Inr (v_notBefore v, marshal_raw (v_notAfter v))"
    using v(1) l by (intro raw_codec.dec_enc) (simp_all add: validity_ok_def)
  moreover have "parse_raw no_params (marshal_raw (v_notAfter v)) = Inr (v_notAfter v, [])"
    using v(1) l by (intro raw_codec.dec_enc_all) (simp_all add: validity_ok_def)
  ultimately have "validity_fields ?b = Inr v" by (simp add: validity_fields_def)
  then show "parse_validity (bs @ rest) = Inr (v, rest)"
    by (simp add: parse_validity_def bs parse_struct_tlv [OF l])
qed

lemma parse_extensions_marshal:
  assumes "marshal_extensions n exts = Inr bs" "list_all extension_ok exts" "length bs < 2 ^ 31" "n < 31"
  shows "parse_extensions n (bs @ []) = Inr (exts, [])"
proof (cases "exts = []")
  case True
  then show ?thesis
    using assms(1) by (simp add: marshal_extensions_def parse_extensions_def parse_slice_def params_defs)
next
  case False
  then obtain bss where bss: "rmap marshal_extension exts = Inr bss"
    "bs = tlv 2 True n (tlv 0 True 16 (concat bss))"
    using assms(1) by (auto simp: marshal_extensions_def go_inv make_field_def explicit_tag_def)
  have l: "length (tlv 0 True 16 (concat bss)) < 2 ^ 31"
    using assms(3) bss(2) tlv_body_bound by blast
  then have "length (concat bss) < 2 ^ 31" using tlv_body_bound by blast
  then have "parse_sequence_of (Univ 16 True) parse_extension (concat bss) = Inr exts"
    using extension_codec.parse_sequence_of_enc [OF bss(1) assms(2)] by blast
  moreover have ps: "(if p_set (explicit_tag n) then 17 else 16) = (16 :: nat)"
    by (simp add: explicit_tag_def)
  ultimately show ?thesis
    unfolding bss(2) parse_extensions_def parse_slice_def ps
    using l assms(4) by (subst parse_field_explicit) (simp_all add: explicit_tag_def)
qed

lemma parse_version:
  assumes "v \<noteq> 0" "int64_ok v" "length (marshal_version v) < 2 ^ 31"
  shows "parse_int (explicit_tag 0) 0 (marshal_version v @ rest) = Inr (v, rest)"
proof -
  have mv: "marshal_version v = tlv 2 True 0 (tlv 0 False 2 (int_bytes v))"
    using assms(1) by (simp add: marshal_version_def make_field_def explicit_tag_def)
  then have "length (tlv 0 False 2 (int_bytes v)) < 2 ^ 31"
    using assms(3) tlv_body_bound by metis
  then show ?thesis
    unfolding mv parse_int_def
    using assms(2) by (subst parse_field_explicit)
      (simp_all add: explicit_tag_def int64_ok_def parse_int64_int_bytes)
qed

interpretation tbs_codec: asn1_codec marshal_tbsCertificate parse_tbsCertificate tbs_ok
proof
  fix t bs rest
  assume t: "tbs_ok t" "marshal_tbsCertificate t = Inr bs" "length bs < 2 ^ 31"
  obtain serial alg key exts where parts: "marshal_int (tc_serial t) = Inr serial"
    "marshal_algorithmIdentifier (tc_sigalg t) = Inr alg" "marshal_spki (tc_key t) = Inr key"
    "marshal_extensions 3 (tc_exts t) = Inr exts"
    using t(2) by (auto simp: marshal_tbsCertificate_def go_inv)
  obtain vl where vl: "marshal_validity (tc_validity t) = Inr vl"
    by (simp add: marshal_validity_def)
  let ?v = "marshal_version (tc_version t)" and ?i = "marshal_raw (tc_issuer t)"
    and ?s = "marshal_raw (tc_subject t)"
  let ?b = "?v @ serial @ alg @ ?i @ vl @ ?s @ key @ exts"
  have bs: "bs = tlv 0 True 16 ?b"
    using t(2) parts vl by (simp add: marshal_tbsCertificate_def marshal_validity_def)
  have l: "length ?b < 2 ^ 31" using t(3) bs tlv_body_bound by blast
  have ok: "algorithmIdentifier_ok (tc_sigalg t)" "raw_ok (tc_issuer t)" "validity_ok (tc_validity t)"
    "raw_ok (tc_subject t)" "spki_ok (tc_key t)" "list_all extension_ok (tc_exts t)"
    "tc_version t \<noteq> 0" "int64_ok (tc_version t)"
    using t(1) by (simp_all add: tbs_ok_def)
  have "parse_int (explicit_tag 0) 0 ?b = Inr (tc_version t, serial @ alg @ ?i @ vl @ ?s @ key @ exts)"
    using parse_version ok(7,8) l by simp
  moreover have "parse_big (serial @ alg @ ?i @ vl @ ?s @ key @ exts) =
      Inr (tc_serial t, alg @ ?i @ vl @ ?s @ key @ exts)"
    using big_codec.dec_enc [OF _ parts(1)] l by simp
  moreover have "parse_algorithmIdentifier (alg @ ?i @ vl @ ?s @ key @ exts) =
      Inr (tc_sigalg t, ?i @ vl @ ?s @ key @ exts)"
    using algorithmIdentifier_codec.dec_enc [OF ok(1) parts(2)] l by simp
  moreover have "parse_raw no_params (?i @ vl @ ?s @ key @ exts) = Inr (tc_issuer t, vl @ ?s @ key @ exts)"
    using raw_codec.dec_enc [OF ok(2) refl] l by simp
  moreover have "parse_validity (vl @ ?s @ key @ exts) = Inr (tc_validity t, ?s @ key @ exts)"
    using validity_codec.dec_enc [OF ok(3) vl] l by simp
  moreover have "parse_raw no_params (?s @ key @ exts) = Inr (tc_subject t, key @ exts)"
    using raw_codec.dec_enc [OF ok(4) refl] l by simp
  moreover have "parse_spki (key @ exts) = Inr (tc_key t, exts)"
    using spki_codec.dec_enc [OF ok(5) parts(3)] l by simp
  moreover have "parse_extensions 3 exts = Inr (tc_exts t, [])"
    using parse_extensions_marshal [OF parts(4) ok(6)] l by simp
  ultimately have "tbsCertificate_fields ?b = Inr t"
    by (simp add: tbsCertificate_fields_def)
  then show "parse_tbsCertificate (bs @ rest) = Inr (t, rest)"
    by (simp add: parse_tbsCertificate_def bs parse_struct_tlv [OF l])
qed

subsection \<open>Extensions of a created certificate\<close>

lemma ext_of_sel [simp]:
  "ext_id (ext_of i c v) = i" "ext_critical (ext_of i c v) = c" "ext_value (ext_of i c v) = v"
  by (simp_all add: ext_of_def)

lemma parse_ext_steps:
  "oidExtBasicConstraints \<notin> set seen \<Longrightarrow> parseBasicConstraints v = Inr bc \<Longrightarrow>
     parse_cert_exts cert seen (ext_of oidExtBasicConstraints c v # es) =
     parse_cert_exts (cert\<lparr>crt_BasicConstraints := bc, crt_BCValid := True\<rparr>)
       (oidExtBasicConstraints # seen) es"
  "oidExtKeyUsage \<notin> set seen \<Longrightarrow> parseKeyUsage v = Inr ku \<Longrightarrow>
     parse_cert_exts cert seen (ext_of oidExtKeyUsage c v # es) =
     parse_cert_exts (cert\<lparr>crt_KeyUsage := ku\<rparr>) (oidExtKeyUsage # seen) es"
  "oidExtExtendedKeyUsage \<notin> set seen \<Longrightarrow> parseExtKeyUsage v = Inr x \<Longrightarrow>
     parse_cert_exts cert seen (ext_of oidExtExtendedKeyUsage c v # es) =
     parse_cert_exts (cert\<lparr>crt_ExtKeyUsage := x\<rparr>) (oidExtExtendedKeyUsage # seen) es"
  "oidExtSubjectKeyID \<notin> set seen \<Longrightarrow> parseSubjectKeyID v = Inr k \<Longrightarrow>
     parse_cert_exts cert seen (ext_of oidExtSubjectKeyID c v # es) =
     parse_cert_exts (cert\<lparr>crt_SubjectKeyID := k\<rparr>) (oidExtSubjectKeyID # seen) es"
  "oidExtAuthorityKeyID \<notin> set seen \<Longrightarrow> parseAuthorityKeyID v = Inr k \<Longrightarrow>
     parse_cert_exts cert seen (ext_of oidExtAuthorityKeyID c v # es) =
     parse_cert_exts (cert\<lparr>crt_AuthorityKeyID := k\<rparr>) (oidExtAuthorityKeyID # seen) es"
  "oidExtSubjectAltName \<notin> set seen \<Longrightarrow> parseSANs v = Inr s \<Longrightarrow>
     parse_cert_exts cert seen (ext_of oidExtSubjectAltName c v # es) =
     parse_cert_exts (cert\<lparr>crt_SANs := s\<rparr>) (oidExtSubjectAltName # seen) es"
  by (simp_all add: ext_oids)

definition handled_oids :: "oid list" where
  "handled_oids = [oidExtBasicConstraints, oidExtKeyUsage, oidExtExtendedKeyUsage,
     oidExtSubjectKeyID, oidExtAuthorityKeyID, oidExtSubjectAltName]"

definition unhandled_ok :: "Extension list \<Rightarrow> bool" where
  "unhandled_ok es = (distinct (map ext_id es)
     \<and> list_all (\<lambda>e. \<not> ext_critical e \<and> ext_id e \<notin> set handled_oids \<and> extension_ok e) es)"

lemma parse_unhandled:
  assumes "unhandled_ok es" "set seen \<inter> ext_id ` set es = {}"
  shows "parse_cert_exts cert seen es = Inr (cert\<lparr>crt_Unhandled := crt_Unhandled cert @ es\<rparr>)"
  using assms
proof (induction es arbitrary: cert seen)
  case (Cons e es)
  have "ext_id e \<notin> set handled_oids" "\<not> ext_critical e" "unhandled_ok es" "ext_id e \<notin> set seen"
    "ext_id e \<notin> ext_id ` set es"
    using Cons.prems by (auto simp: unhandled_ok_def)
  then have "parse_cert_exts cert seen (e # es) =
      parse_cert_exts (cert\<lparr>crt_Unhandled := crt_Unhandled cert @ [e]\<rparr>) (ext_id e # seen) es"
    by (simp add: handled_oids_def)
  then show ?case
    using Cons.IH [of "ext_id e # seen"] Cons.prems(2) \<open>unhandled_ok es\<close> \<open>ext_id e \<notin> ext_id ` set es\<close>
    by auto
qed simp

lemma marshalExtKeyUsage_ok: "marshalExtKeyUsage ekus = Inr der \<Longrightarrow> eku_ok ekus"
proof -
  have "rmap (\<lambda>e. case find (\<lambda>(k, n, i). k = e) extKeyUsages of
        Some (k, n, i) \<Rightarrow> Inr i
      | None \<Rightarrow> Inl (Err [] ''pqx509: unsupported extended key usage'')) ekus = Inr oids \<Longrightarrow> eku_ok ekus"
    for oids
    by (induction ekus arbitrary: oids)
      (auto simp: go_inv eku_ok_def extKeyUsages_def split: if_splits)
  then show "marshalExtKeyUsage ekus = Inr der \<Longrightarrow> eku_ok ekus"
    by (auto simp: marshalExtKeyUsage_def go_inv)
qed

lemma ext_value_le: "marshal_extension e = Inr bs \<Longrightarrow> length (ext_value e) \<le> length bs"
proof -
  assume "marshal_extension e = Inr bs"
  then obtain i c where "bs = tlv 0 True 16 (i @ c @ tlv 0 False 4 (ext_value e))"
    by (auto simp: marshal_extension_def go_inv marshal_octets_def)
  then show ?thesis
    using length_tlv_body [of "i @ c @ tlv 0 False 4 (ext_value e)" 0 True 16]
      length_tlv_body [of "ext_value e" 0 False 4] by simp
qed

lemma ext_values_bound:
  assumes "marshal_extensions n exts = Inr bs" "length bs < m" "e \<in> set exts"
  shows "length (ext_value e) < m"
proof -
  obtain bss where bss: "rmap marshal_extension exts = Inr bss"
    "bs = tlv 2 True n (tlv 0 True 16 (concat bss))"
    using assms(1,3) by (auto simp: marshal_extensions_def go_inv make_field_def explicit_tag_def
        split: if_splits)
  obtain b where b: "b \<in> set bss" "marshal_extension e = Inr b"
    using bss(1) assms(3) unfolding rmap_Inr_iff
    by (auto simp: list_all2_conv_all_nth in_set_conv_nth) (metis nth_mem)
  have "length b \<le> length (concat bss)"
    using b(1) by (auto simp: length_concat intro!: member_le_sum_list)
  also have "\<dots> \<le> length bs"
    using length_tlv_body [of "concat bss" 0 True 16]
      length_tlv_body [of "tlv 0 True 16 (concat bss)" 2 True n] unfolding bss(2) by linarith
  finally show ?thesis using ext_value_le [OF b(2)] assms(2) by linarith
qed

text \<open>What a template has to satisfy beyond what \<open>CreateCertificate\<close> checks.\<close>

definition template_ok :: "Certificate \<Rightarrow> bool" where
  "template_ok t = (MaxPathLen (crt_BasicConstraints t) < 2 ^ 63 \<and> san_ok (crt_SANs t)
     \<and> unhandled_ok (crt_Unhandled t))"

text \<open>The extension fields of the certificate that a template describes.\<close>

definition issued_exts :: "Certificate \<Rightarrow> bytes \<Rightarrow> bytes \<Rightarrow> Certificate \<Rightarrow> Certificate" where
  "issued_exts t skid akid cert =
     cert\<lparr>crt_BasicConstraints :=
            (if crt_BCValid t then bc_view (crt_BasicConstraints t) else zero_BasicConstraints),
          crt_BCValid := crt_BCValid t, crt_KeyUsage := crt_KeyUsage t,
          crt_ExtKeyUsage := crt_ExtKeyUsage t, crt_SubjectKeyID := skid,
          crt_AuthorityKeyID := akid,
          crt_SANs := (if SANs_Empty (crt_SANs t) then zero_SANs else san_view (crt_SANs t)),
          crt_Unhandled := crt_Unhandled t\<rparr>"

definition effective_skid :: "Certificate \<Rightarrow> PublicKey \<Rightarrow> bytes" where
  "effective_skid t pub =
     (if crt_SubjectKeyID t = [] then take 20 (sha256 (pub_bytes pub)) else crt_SubjectKeyID t)"

definition effective_akid :: "Certificate \<Rightarrow> PublicKey \<Rightarrow> bytes" where
  "effective_akid t spub =
     (if crt_AuthorityKeyID t = [] then take 20 (sha256 (pub_bytes spub)) else crt_AuthorityKeyID t)"

lemma handled_distinct:
  "distinct handled_oids" "list_all oid_ok handled_oids"
  by (simp_all add: handled_oids_def ext_oids oid_ok_def)

lemma std_ext_ok:
  "i \<in> set handled_oids \<Longrightarrow> extension_ok (ext_of i c v)"
  using handled_distinct(2) by (auto simp: list_all_iff extension_ok_def)

lemma buildExtensions_segments:
  assumes "buildExtensions t pub signer e = Inr exts"
  obtains e1 e2 e3 skid akid skidDER akidDER e4
  where "exts = e1 @ e2 @ e3 @ [ext_of oidExtSubjectKeyID False skidDER]
      @ [ext_of oidExtAuthorityKeyID False akidDER] @ e4 @ crt_Unhandled t"
    and "if crt_BCValid t then \<exists>v. marshalBasicConstraints (crt_BasicConstraints t) = Inr v
        \<and> e1 = [ext_of oidExtBasicConstraints True v] else e1 = []"
    and "if crt_KeyUsage t \<noteq> 0 then \<exists>v. marshalKeyUsage (crt_KeyUsage t) = Inr v
        \<and> e2 = [ext_of oidExtKeyUsage True v] else e2 = []"
    and "if crt_ExtKeyUsage t \<noteq> [] then \<exists>v. marshalExtKeyUsage (crt_ExtKeyUsage t) = Inr v
        \<and> e3 = [ext_of oidExtExtendedKeyUsage False v] else e3 = []"
    and "skid = effective_skid t pub" "marshalKeyID skid = Inr skidDER"
    and "akid = effective_akid t (sg_pub signer)" "marshalAuthorityKeyID akid = Inr akidDER"
    and "if \<not> SANs_Empty (crt_SANs t) then \<exists>v. marshalSANs (crt_SANs t) = Inr v
        \<and> e4 = [ext_of oidExtSubjectAltName e v] else e4 = []"
proof -
  obtain e1 e2 e3 skid akid skidDER akidDER e4 where s:
    "(if crt_BCValid t then rbind (marshalBasicConstraints (crt_BasicConstraints t)) (\<lambda>v.
        Inr [ext_of oidExtBasicConstraints True v]) else Inr []) = Inr e1"
    "(if crt_KeyUsage t \<noteq> 0 then rbind (marshalKeyUsage (crt_KeyUsage t)) (\<lambda>v.
        Inr [ext_of oidExtKeyUsage True v]) else Inr []) = Inr e2"
    "(if 0 < length (crt_ExtKeyUsage t) then rbind (marshalExtKeyUsage (crt_ExtKeyUsage t)) (\<lambda>v.
        Inr [ext_of oidExtExtendedKeyUsage False v]) else Inr []) = Inr e3"
    "(if length (crt_SubjectKeyID t) = 0 then KeyIdentifier pub else Inr (crt_SubjectKeyID t)) = Inr skid"
    "marshalKeyID skid = Inr skidDER"
    "(if length (crt_AuthorityKeyID t) = 0 then KeyIdentifier (sg_pub signer)
        else Inr (crt_AuthorityKeyID t)) = Inr akid"
    "marshalAuthorityKeyID akid = Inr akidDER"
    "(if \<not> SANs_Empty (crt_SANs t) then rbind (marshalSANs (crt_SANs t)) (\<lambda>v.
        Inr [ext_of oidExtSubjectAltName e v]) else Inr []) = Inr e4"
    "exts = e1 @ e2 @ e3 @ [ext_of oidExtSubjectKeyID False skidDER]
      @ [ext_of oidExtAuthorityKeyID False akidDER] @ e4 @ crt_Unhandled t"
    using assms unfolding buildExtensions_def rbind_Inr_iff by blast
  have "skid = effective_skid t pub"
    using s(4) by (auto simp: effective_skid_def KeyIdentifier_def split: if_splits)
  moreover have "akid = effective_akid t (sg_pub signer)"
    using s(6) by (auto simp: effective_akid_def KeyIdentifier_def split: if_splits)
  moreover have "if crt_BCValid t then \<exists>v. marshalBasicConstraints (crt_BasicConstraints t) = Inr v
        \<and> e1 = [ext_of oidExtBasicConstraints True v] else e1 = []"
    using s(1) by (auto simp: go_inv split: if_splits)
  moreover have "if crt_KeyUsage t \<noteq> 0 then \<exists>v. marshalKeyUsage (crt_KeyUsage t) = Inr v
        \<and> e2 = [ext_of oidExtKeyUsage True v] else e2 = []"
    using s(2) by (auto simp: go_inv split: if_splits)
  moreover have "if crt_ExtKeyUsage t \<noteq> [] then \<exists>v. marshalExtKeyUsage (crt_ExtKeyUsage t) = Inr v
        \<and> e3 = [ext_of oidExtExtendedKeyUsage False v] else e3 = []"
    using s(3) by (auto simp: go_inv split: if_splits)
  moreover have "if \<not> SANs_Empty (crt_SANs t) then \<exists>v. marshalSANs (crt_SANs t) = Inr v
        \<and> e4 = [ext_of oidExtSubjectAltName e v] else e4 = []"
    using s(8) by (auto simp: go_inv split: if_splits)
  ultimately show ?thesis using that s(5,7,9) by blast
qed

lemma crt_same:
  "crt_BasicConstraints c = b \<Longrightarrow> crt_BCValid c = v \<Longrightarrow>
     c\<lparr>crt_BasicConstraints := b, crt_BCValid := v\<rparr> = c"
  "crt_KeyUsage c = ku \<Longrightarrow> c\<lparr>crt_KeyUsage := ku\<rparr> = c"
  "crt_ExtKeyUsage c = x \<Longrightarrow> c\<lparr>crt_ExtKeyUsage := x\<rparr> = c"
  "crt_SANs c = s \<Longrightarrow> c\<lparr>crt_SANs := s\<rparr> = c"
  by (cases c; simp)+

text \<open>An optional segment of the extension list: absent, or one extension with value \<open>v\<close>.\<close>

lemma parse_segment_bc:
  assumes "if P then \<exists>v. marshalBasicConstraints b = Inr v \<and> e1 = [ext_of oidExtBasicConstraints True v]
      else e1 = []"
    and "bc_ok b" "\<And>x. x \<in> set e1 \<Longrightarrow> length (ext_value x) < 2 ^ 31"
    and "crt_BasicConstraints c = zero_BasicConstraints" "crt_BCValid c = False"
    and "oidExtBasicConstraints \<notin> set seen"
  shows "parse_cert_exts c seen (e1 @ es) =
      parse_cert_exts (c\<lparr>crt_BasicConstraints := (if P then bc_view b else zero_BasicConstraints),
        crt_BCValid := P\<rparr>) (rev (map ext_id e1) @ seen) es"
proof (cases P)
  case True
  then obtain v where v: "marshalBasicConstraints b = Inr v" "e1 = [ext_of oidExtBasicConstraints True v]"
    using assms(1) by auto
  then have "parseBasicConstraints v = Inr (bc_view b)"
    using basic_constraints_value.parse_marshal [OF assms(2) v(1)] assms(3) by simp
  then show ?thesis using True v assms(6) by (simp add: parse_ext_steps del: parse_cert_exts.simps)
next
  case False
  then have "e1 = []" using assms(1) by simp
  with False show ?thesis by (simp only: if_False crt_same(1) [OF assms(4,5)]) simp
qed

lemma parse_segment_ku:
  assumes "if ku \<noteq> 0 then \<exists>v. marshalKeyUsage ku = Inr v \<and> e2 = [ext_of oidExtKeyUsage True v]
      else e2 = []"
    and "\<And>x. x \<in> set e2 \<Longrightarrow> length (ext_value x) < 2 ^ 31"
    and "crt_KeyUsage c = 0" "oidExtKeyUsage \<notin> set seen"
  shows "parse_cert_exts c seen (e2 @ es) =
      parse_cert_exts (c\<lparr>crt_KeyUsage := ku\<rparr>) (rev (map ext_id e2) @ seen) es"
proof (cases "ku = 0")
  case False
  then obtain v where v: "marshalKeyUsage ku = Inr v" "e2 = [ext_of oidExtKeyUsage True v]"
    using assms(1) by auto
  then have "parseKeyUsage v = Inr ku"
    using key_usage_value.parse_marshal [OF False v(1)] assms(2) by simp
  then show ?thesis using v assms(4) by (simp add: parse_ext_steps del: parse_cert_exts.simps)
next
  case True
  then have "e2 = []" using assms(1) by simp
  with True show ?thesis by (simp only: crt_same(2) [OF assms(3)]) simp
qed

lemma parse_segment_eku:
  assumes "if x \<noteq> [] then \<exists>v. marshalExtKeyUsage x = Inr v \<and> e3 = [ext_of oidExtExtendedKeyUsage False v]
      else e3 = []"
    and "\<And>x. x \<in> set e3 \<Longrightarrow> length (ext_value x) < 2 ^ 31"
    and "crt_ExtKeyUsage c = []" "oidExtExtendedKeyUsage \<notin> set seen"
  shows "parse_cert_exts c seen (e3 @ es) =
      parse_cert_exts (c\<lparr>crt_ExtKeyUsage := x\<rparr>) (rev (map ext_id e3) @ seen) es"
proof (cases "x = []")
  case False
  then obtain v where v: "marshalExtKeyUsage x = Inr v" "e3 = [ext_of oidExtExtendedKeyUsage False v]"
    using assms(1) by auto
  then have "parseExtKeyUsage v = Inr x"
    using ext_key_usage_value.parse_marshal [OF marshalExtKeyUsage_ok v(1)] assms(2) by simp
  then show ?thesis using v assms(4) by (simp add: parse_ext_steps del: parse_cert_exts.simps)
next
  case True
  then have "e3 = []" using assms(1) by simp
  with True show ?thesis by (simp only: crt_same(3) [OF assms(3)]) simp
qed

lemma parse_segment_san:
  assumes "if \<not> SANs_Empty s then \<exists>v. marshalSANs s = Inr v \<and> e4 = [ext_of oidExtSubjectAltName e v]
      else e4 = []"
    and "san_ok s" "\<And>x. x \<in> set e4 \<Longrightarrow> length (ext_value x) < 2 ^ 31"
    and "crt_SANs c = zero_SANs" "oidExtSubjectAltName \<notin> set seen"
  shows "parse_cert_exts c seen (e4 @ es) =
      parse_cert_exts (c\<lparr>crt_SANs := (if SANs_Empty s then zero_SANs else san_view s)\<rparr>)
        (rev (map ext_id e4) @ seen) es"
proof (cases "SANs_Empty s")
  case False
  then obtain v where v: "marshalSANs s = Inr v" "e4 = [ext_of oidExtSubjectAltName e v]"
    using assms(1) by auto
  then have "parseSANs v = Inr (san_view s)"
    using san_value.parse_marshal [OF assms(2) v(1)] assms(3) by simp
  then show ?thesis using False v assms(5) by (simp add: parse_ext_steps del: parse_cert_exts.simps)
next
  case True
  then have "e4 = []" using assms(1) by simp
  with True show ?thesis by (simp only: if_True crt_same(4) [OF assms(4)]) simp
qed

lemma segment_ids:
  "if P then \<exists>v. m = Inr v \<and> es = [ext_of i c v] else es = [] \<Longrightarrow> set (map ext_id es) \<subseteq> {i}"
  by (auto split: if_splits)

lemma parse_built_extensions:
  assumes b: "buildExtensions t pub signer e = Inr exts"
    and t: "template_ok t"
    and l: "\<And>x. x \<in> set exts \<Longrightarrow> length (ext_value x) < 2 ^ 31"
    and z: "crt_BasicConstraints cert = zero_BasicConstraints" "crt_BCValid cert = False"
      "crt_KeyUsage cert = 0" "crt_ExtKeyUsage cert = []" "crt_SANs cert = zero_SANs"
      "crt_Unhandled cert = []"
  shows "parse_cert_exts cert [] exts =
      Inr (issued_exts t (effective_skid t pub) (effective_akid t (sg_pub signer)) cert)"
    and "list_all extension_ok exts"
proof -
  from buildExtensions_segments [OF b] obtain e1 e2 e3 skid akid skidDER akidDER e4
    where s: "exts = e1 @ e2 @ e3 @ [ext_of oidExtSubjectKeyID False skidDER]
      @ [ext_of oidExtAuthorityKeyID False akidDER] @ e4 @ crt_Unhandled t"
    and s1: "if crt_BCValid t then \<exists>v. marshalBasicConstraints (crt_BasicConstraints t) = Inr v
        \<and> e1 = [ext_of oidExtBasicConstraints True v] else e1 = []"
    and s2: "if crt_KeyUsage t \<noteq> 0 then \<exists>v. marshalKeyUsage (crt_KeyUsage t) = Inr v
        \<and> e2 = [ext_of oidExtKeyUsage True v] else e2 = []"
    and s3: "if crt_ExtKeyUsage t \<noteq> [] then \<exists>v. marshalExtKeyUsage (crt_ExtKeyUsage t) = Inr v
        \<and> e3 = [ext_of oidExtExtendedKeyUsage False v] else e3 = []"
    and k: "skid = effective_skid t pub" "marshalKeyID skid = Inr skidDER"
      "akid = effective_akid t (sg_pub signer)" "marshalAuthorityKeyID akid = Inr akidDER"
    and s4: "if \<not> SANs_Empty (crt_SANs t) then \<exists>v. marshalSANs (crt_SANs t) = Inr v
        \<and> e4 = [ext_of oidExtSubjectAltName e v] else e4 = []" .
  have t': "bc_ok (crt_BasicConstraints t)" "san_ok (crt_SANs t)" "unhandled_ok (crt_Unhandled t)"
    using t by (simp_all add: template_ok_def bc_ok_def)
  have ids: "set (map ext_id e1) \<subseteq> {oidExtBasicConstraints}" "set (map ext_id e2) \<subseteq> {oidExtKeyUsage}"
    "set (map ext_id e3) \<subseteq> {oidExtExtendedKeyUsage}" "set (map ext_id e4) \<subseteq> {oidExtSubjectAltName}"
    using segment_ids [OF s1] segment_ids [OF s2] segment_ids [OF s3] segment_ids [OF s4] by blast+
  have d: "distinct [oidExtBasicConstraints, oidExtKeyUsage, oidExtExtendedKeyUsage,
      oidExtSubjectKeyID, oidExtAuthorityKeyID, oidExtSubjectAltName]"
    using handled_distinct(1) by (simp add: handled_oids_def)
  show "list_all extension_ok exts"
    using s s1 s2 s3 s4 t'(3) std_ext_ok
    by (auto simp: handled_oids_def unhandled_ok_def list_all_iff split: if_splits)
  have lk: "length skidDER < 2 ^ 31" "length akidDER < 2 ^ 31"
    using l [of "ext_of oidExtSubjectKeyID False skidDER"]
      l [of "ext_of oidExtAuthorityKeyID False akidDER"] s by simp_all
  have kids: "parseSubjectKeyID skidDER = Inr skid" "parseAuthorityKeyID akidDER = Inr akid"
    using subject_key_id_value.parse_marshal [OF _ k(2) lk(1)]
      authority_key_id_value.parse_marshal [OF _ k(4) lk(2)] by simp_all
  let ?c1 = "cert\<lparr>crt_BasicConstraints := (if crt_BCValid t then bc_view (crt_BasicConstraints t)
      else zero_BasicConstraints), crt_BCValid := crt_BCValid t\<rparr>"
  let ?c3 = "?c1\<lparr>crt_KeyUsage := crt_KeyUsage t, crt_ExtKeyUsage := crt_ExtKeyUsage t\<rparr>"
  let ?c5 = "?c3\<lparr>crt_SubjectKeyID := skid, crt_AuthorityKeyID := akid\<rparr>"
  let ?r1 = "rev (map ext_id e1)"
  let ?r2 = "rev (map ext_id e2) @ ?r1"
  let ?r3 = "rev (map ext_id e3) @ ?r2"
  let ?r5 = "oidExtAuthorityKeyID # oidExtSubjectKeyID # ?r3"
  let ?t5 = "e4 @ crt_Unhandled t"
  let ?t3 = "ext_of oidExtSubjectKeyID False skidDER # ext_of oidExtAuthorityKeyID False akidDER # ?t5"
  have "parse_cert_exts cert [] exts = parse_cert_exts ?c1 ?r1 (e2 @ e3 @ ?t3)"
    using parse_segment_bc [OF s1 t'(1), of cert "[]" "e2 @ e3 @ ?t3"] l z s by simp
  also have "\<dots> = parse_cert_exts (?c1\<lparr>crt_KeyUsage := crt_KeyUsage t\<rparr>) ?r2 (e3 @ ?t3)"
    using ids d l z s by (intro parse_segment_ku [OF s2]) auto
  also have "\<dots> = parse_cert_exts ?c3 ?r3 ?t3"
    using ids d l z s by (intro parse_segment_eku [OF s3]) auto
  also have "\<dots> = parse_cert_exts (?c3\<lparr>crt_SubjectKeyID := skid\<rparr>) (oidExtSubjectKeyID # ?r3)
      (ext_of oidExtAuthorityKeyID False akidDER # ?t5)"
    using ids d by (intro parse_ext_steps(4) kids) auto
  also have "\<dots> = parse_cert_exts ?c5 ?r5 ?t5"
    using ids d by (intro parse_ext_steps(5) kids) auto
  also have "\<dots> = parse_cert_exts (?c5\<lparr>crt_SANs := (if SANs_Empty (crt_SANs t) then zero_SANs
      else san_view (crt_SANs t))\<rparr>) (rev (map ext_id e4) @ ?r5) (crt_Unhandled t)"
    using ids d l z s by (intro parse_segment_san [OF s4 t'(2)]) auto
  also have "\<dots> = Inr (issued_exts t skid akid cert)"
  proof (subst parse_unhandled [OF t'(3)])
    show "set (rev (map ext_id e4) @ ?r5) \<inter> ext_id ` set (crt_Unhandled t) = {}"
      using ids t'(3) by (auto simp: unhandled_ok_def list_all_iff handled_oids_def)
  qed (simp add: issued_exts_def z)
  finally show "parse_cert_exts cert [] exts =
      Inr (issued_exts t (effective_skid t pub) (effective_akid t (sg_pub signer)) cert)"
    by (simp add: k(1,3))
qed

subsection \<open>Parsing what was created\<close>

text \<open>
  The subject of a certificate is usable as a name when it is given by its fields and is not
  absurdly long, or by raw octets that are a SEQUENCE and parse to the fields.
\<close>

definition subject_ok :: "Certificate \<Rightarrow> bool" where
  "subject_ok c =
     (if crt_RawSubject c = [] then name_size (crt_Subject c) \<le> 2 ^ 30
      else (\<exists>body. crt_RawSubject c = tlv 0 True 16 body)
           \<and> ParseName (crt_RawSubject c) = Inr (crt_Subject c))"

lemma subject_der_ok:
  assumes "subject_ok c" "subject_der c = Inr der"
  shows "(\<exists>body. der = tlv 0 True 16 body) \<and> ParseName der = Inr (crt_Subject c)"
proof (cases "crt_RawSubject c = []")
  case True
  then show ?thesis
    using assms ToRDNSequence_parse [of "crt_Subject c"]
    by (auto simp: subject_ok_def subject_der_def ToRDNSequence_def go_inv tlv_marshalSequence)
next
  case False
  then show ?thesis using assms by (simp add: subject_ok_def subject_der_def)
qed

definition issuer_cert :: "parent \<Rightarrow> Certificate \<Rightarrow> Certificate" where
  "issuer_cert parent template = (case parent of Parent p \<Rightarrow> p | _ \<Rightarrow> template)"

lemma CreateCertificate_Inr:
  assumes "CreateCertificate (Some t) parent pub (Some signer) = Inr der"
  obtains serial subjectDER issuerDER spki spkiStruct r notBefore notAfter exts tbsDER sig
  where "crt_Serial t = Some serial" "0 < serial" "crt_NotBefore t < crt_NotAfter t"
    "crt_SigAlg t = sg_alg signer" "subject_der t = Inr subjectDER"
    "issuer_der parent subjectDER = Inr issuerDER" "MarshalPKIXPublicKey pub = Inr spki"
    "parse_spki spki = Inr (spkiStruct, r)" "marshalTime (crt_NotBefore t) = Inr notBefore"
    "marshalTime (crt_NotAfter t) = Inr notAfter"
    "buildExtensions t pub signer (subjectDER = [0x30, 0x00]) = Inr exts"
    "marshal_tbsCertificate
       \<lparr>tc_version = 2, tc_serial = serial,
        tc_sigalg = algorithm_identifier (alg_OID (crt_SigAlg t)), tc_issuer = raw_full issuerDER,
        tc_validity = \<lparr>v_notBefore = notBefore, v_notAfter = notAfter\<rparr>,
        tc_subject = raw_full subjectDER, tc_key = spkiStruct, tc_exts = exts\<rparr> = Inr tbsDER"
    "sg_sign signer tbsDER = Inr sig"
    "marshal_signed \<lparr>sd_tbs = raw_full tbsDER,
        sd_alg = algorithm_identifier (alg_OID (crt_SigAlg t)), sd_sig = octet_bits sig\<rparr> = Inr der"
  using assms
  by (auto simp: CreateCertificate_def sign_tbs_def Let_def go_inv split: option.splits if_splits)

lemma marshal_tbs_raw:
  assumes "i = tlv 0 True 16 bi" "s = tlv 0 True 16 bs"
  shows "marshal_tbsCertificate (t\<lparr>tc_issuer := raw_full i, tc_subject := raw_full s\<rparr>) =
    marshal_tbsCertificate (t\<lparr>tc_issuer := raw_of 0 True 16 bi, tc_subject := raw_of 0 True 16 bs\<rparr>)"
  by (simp add: marshal_tbsCertificate_def assms)

lemma MarshalPKIX_parse_spki:
  assumes "MarshalPKIXPublicKey pub = Inr der"
  shows "pub_ok pub" "parse_spki der = Inr (spki_of pub, [])"
proof -
  show p: "pub_ok pub"
    using assms by (auto simp: MarshalPKIXPublicKey_def pub_ok_def split: if_splits)
  then have m: "marshal_spki (spki_of pub) = Inr der"
    using assms by (simp add: MarshalPKIX_spki go_inv)
  then show "parse_spki der = Inr (spki_of pub, [])"
    using spki_codec.dec_enc_all [OF spki_of_ok [OF p] m] length_spki_of [OF p m] by simp
qed

text \<open>The certificate that a template, its issuer, a key and a signer describe.\<close>

definition issued ::
  "Certificate \<Rightarrow> Certificate \<Rightarrow> PublicKey \<Rightarrow> Signer \<Rightarrow> bytes \<Rightarrow> bytes \<Rightarrow> bytes \<Rightarrow> bytes \<Rightarrow> bytes \<Rightarrow> Certificate" where
  "issued t i pub signer der tbsDER sig issuerDER subjectDER =
     issued_exts t (effective_skid t pub) (effective_akid t (sg_pub signer))
       (zero_Certificate
         \<lparr>crt_Raw := der, crt_RawTBS := tbsDER, crt_Version := 3, crt_Serial := crt_Serial t,
          crt_SigAlg := sg_alg signer, crt_Signature := sig,
          crt_Issuer := crt_Subject i, crt_RawIssuer := issuerDER,
          crt_Subject := crt_Subject t, crt_RawSubject := subjectDER,
          crt_NotBefore := time_Truncate (crt_NotBefore t),
          crt_NotAfter := time_Truncate (crt_NotAfter t), crt_PublicKey := pub\<rparr>)"

lemma CreateCertificate_parse:
  assumes c: "CreateCertificate (Some t) parent pub (Some signer) = Inr der"
    and l: "length der < 2 ^ 31" and s: "signer_ok C signer" and t: "template_ok t"
    and n: "subject_ok t" "subject_ok (issuer_cert parent t)"
  shows "\<exists>tbsDER sig issuerDER subjectDER.
    ParseCertificate der = Inr (issued t (issuer_cert parent t) pub signer der tbsDER sig issuerDER subjectDER)
    \<and> subject_der t = Inr subjectDER \<and> subject_der (issuer_cert parent t) = Inr issuerDER
    \<and> sg_sign signer tbsDER = Inr sig \<and> Verify C (sg_pub signer) tbsDER sig = Inr ()"
proof -
  from CreateCertificate_Inr [OF c] obtain serial subjectDER issuerDER spki spkiStruct r notBefore
    notAfter exts tbsDER sig where
    ser: "crt_Serial t = Some serial" "0 < serial" and alg: "crt_SigAlg t = sg_alg signer"
    and sd: "subject_der t = Inr subjectDER" and idr: "issuer_der parent subjectDER = Inr issuerDER"
    and pk: "MarshalPKIXPublicKey pub = Inr spki" "parse_spki spki = Inr (spkiStruct, r)"
    and nb: "marshalTime (crt_NotBefore t) = Inr notBefore"
    and na: "marshalTime (crt_NotAfter t) = Inr notAfter"
    and ex: "buildExtensions t pub signer (subjectDER = [0x30, 0x00]) = Inr exts"
    and tbs: "marshal_tbsCertificate
       \<lparr>tc_version = 2, tc_serial = serial,
        tc_sigalg = algorithm_identifier (alg_OID (crt_SigAlg t)), tc_issuer = raw_full issuerDER,
        tc_validity = \<lparr>v_notBefore = notBefore, v_notAfter = notAfter\<rparr>,
        tc_subject = raw_full subjectDER, tc_key = spkiStruct, tc_exts = exts\<rparr> = Inr tbsDER"
    and sg: "sg_sign signer tbsDER = Inr sig"
    and ms: "marshal_signed \<lparr>sd_tbs = raw_full tbsDER,
        sd_alg = algorithm_identifier (alg_OID (crt_SigAlg t)), sd_sig = octet_bits sig\<rparr> = Inr der"
    by metis
  have valid: "alg_Valid (sg_alg signer)" using s by (auto simp: signer_ok_def pub_ok_def)
  obtain bs where bs: "subjectDER = tlv 0 True 16 bs" "ParseName subjectDER = Inr (crt_Subject t)"
    using subject_der_ok [OF n(1) sd] by blast
  have idr': "subject_der (issuer_cert parent t) = Inr issuerDER"
    using idr sd by (auto simp: issuer_der_def issuer_cert_def split: parent.splits)
  obtain bi where bi: "issuerDER = tlv 0 True 16 bi"
    "ParseName issuerDER = Inr (crt_Subject (issuer_cert parent t))"
    using subject_der_ok [OF n(2) idr'] by blast
  have key: "spkiStruct = spki_of pub" "pub_ok pub"
    using MarshalPKIX_parse_spki [OF pk(1)] pk(2) by simp_all
  define T where "T = \<lparr>tc_version = 2, tc_serial = serial,
      tc_sigalg = algorithm_identifier (alg_OID (sg_alg signer)), tc_issuer = raw_of 0 True 16 bi,
      tc_validity = \<lparr>v_notBefore = notBefore, v_notAfter = notAfter\<rparr>,
      tc_subject = raw_of 0 True 16 bs, tc_key = spki_of pub, tc_exts = exts\<rparr>"
  have mT: "marshal_tbsCertificate T = Inr tbsDER"
    using tbs marshal_tbs_raw [OF bi(1) bs(1), of T] by (simp add: T_def key alg)
  obtain body where body: "tbsDER = tlv 0 True 16 body"
    using mT by (auto simp: marshal_tbsCertificate_def go_inv)
  note signed = parse_marshal_signed [of body "sg_alg signer" sig der]
  have outer: "parse_signed der = Inr (\<lparr>sd_tbs = raw_of 0 True 16 body,
      sd_alg = algorithm_identifier (alg_OID (sg_alg signer)), sd_sig = octet_bits sig\<rparr>, [])"
    and lt: "length tbsDER < 2 ^ 31"
    using signed ms alg valid l body by simp_all
  have el: "length (ext_value x) < 2 ^ 31" if "x \<in> set exts" for x
  proof -
    obtain eb where "marshal_extensions 3 exts = Inr eb" "length eb \<le> length tbsDER"
      using mT length_tlv_body [of _ 0 True 16] unfolding T_def
      by (auto simp: marshal_tbsCertificate_def go_inv) (smt (verit) add_leE length_append)
    then show ?thesis using ext_values_bound [OF _ _ that] lt by simp
  qed
  note tm = marshalTime_Inr [OF nb] marshalTime_Inr [OF na]
  have "tbs_ok T"
    using parse_built_extensions(2) [OF ex t el, of zero_Certificate] tm key valid
    by (simp add: tbs_ok_def T_def validity_ok_def raw_ok_raw_of spki_of_ok algorithm_identifier_ok
        int64_ok_def zero_Certificate_def)
  then have inner: "parse_tbsCertificate tbsDER = Inr (T, [])"
    using tbs_codec.dec_enc_all [OF _ mT lt] by blast
  have sv: "length sig = SignatureSize (sg_alg signer)" "Verify C (sg_pub signer) tbsDER sig = Inr ()"
    using s sg unfolding signer_ok_def by (metis sum.inject(2))+
  let ?cert = "zero_Certificate
         \<lparr>crt_Raw := der, crt_RawTBS := tbsDER, crt_Version := 3, crt_Serial := crt_Serial t,
          crt_SigAlg := sg_alg signer, crt_Signature := sig,
          crt_Issuer := crt_Subject (issuer_cert parent t), crt_RawIssuer := issuerDER,
          crt_Subject := crt_Subject t, crt_RawSubject := subjectDER,
          crt_NotBefore := time_Truncate (crt_NotBefore t),
          crt_NotAfter := time_Truncate (crt_NotAfter t), crt_PublicKey := pub\<rparr>"
  have "parse_cert_exts ?cert [] exts = Inr (issued t (issuer_cert parent t) pub signer der tbsDER sig
      issuerDER subjectDER)"
    unfolding issued_def
    by (intro parse_built_extensions(1) [OF ex t el]) (simp_all add: zero_Certificate_def)
  then have "ParseCertificate der = Inr (issued t (issuer_cert parent t) pub signer der tbsDER sig
      issuerDER subjectDER)"
    using outer inner bs bi tm key sv(1) ser algorithmFromOID_alg_OID [OF valid] body
    by (simp add: ParseCertificate_def T_def algorithm_identifier_def zero_raw_def octet_bits_def
        wrap64_id)
  then show ?thesis using sd idr' sg sv(2) by blast
qed

end
