(* ===== verification/Issuance.thy ===== *)
theory Issuance
  imports Certificate
begin

section \<open>Facts about created and parsed certificates\<close>

text \<open>
  The bounds of \<open>GenerateSerialNumber\<close>, what every parsed certificate satisfies, a template that
  \<open>CreateCertificate\<close> accepts, and the properties of certificate.go.
\<close>

subsection \<open>Bounds of serial numbers\<close>

lemma bit_length_bound: "n < 2 ^ bit_length n"
proof (induction n rule: bit_length.induct)
  case (1 n)
  show ?case
  proof (cases "n = 0")
    case True
    then show ?thesis by simp
  next
    case False
    then have "n div 2 < 2 ^ bit_length (n div 2)" using 1 by blast
    then show ?thesis using False by (subst bit_length.simps) auto
  qed
qed

lemma bit_length_mask: "bit_length (2 ^ k - 1) = k"
proof (induction k)
  case 0
  then show ?case by (simp add: bit_length.simps)
next
  case (Suc k)
  have "(2 ^ Suc k - 1) div 2 = 2 ^ k - (1 :: nat)" by simp
  moreover have "2 ^ Suc k - 1 \<noteq> (0 :: nat)"
    using one_less_power [of "2 :: nat" "Suc k"] by simp
  ultimately show ?case using Suc by (subst bit_length.simps) simp
qed

lemma rand_Int_serial:
  "rand_Int (2 ^ 127) r =
     (if length r < 16 then Inl (Err [] ''unexpected EOF'')
      else Inr (be_value (take 16 r) mod 2 ^ 127, drop 16 r))"
  using bit_length_mask [of 127] by (subst rand_Int.simps) (simp add: Let_def)

text \<open>The draw number \<open>i\<close> of the entropy \<open>r\<close>.\<close>

definition serial_draw :: "bytes \<Rightarrow> nat \<Rightarrow> nat" where
  "serial_draw r i = be_value (take 16 (drop (16 * i) r)) mod 2 ^ 127"

lemma serial_draw_0: "be_value (take 16 r) mod 2 ^ 127 = serial_draw r 0"
  by (simp add: serial_draw_def)

lemma serial_draw_drop: "serial_draw (drop 16 r) i = serial_draw r (Suc i)"
  by (simp add: serial_draw_def add.commute)

lemma serial_loop_Suc:
  "serial_loop (Suc k) r =
     (if length r < 16 then Inl (Err [] ''pqx509: generating serial number'')
      else if 0 < serial_draw r 0 then Inr (int (serial_draw r 0), drop 16 r)
      else serial_loop k (drop 16 r))"
proof -
  have "rmap_err (wrap_errs [] m) (rand_Int (2 ^ 127) r) =
      (if length r < 16 then Inl (Err [] m) else Inr (serial_draw r 0, drop 16 r))" for m
    by (simp only: rand_Int_serial serial_draw_0) simp
  then show ?thesis by (simp only: serial_loop.simps) simp
qed

declare serial_loop.simps(2) [simp del]

lemma serial_loop_Inr:
  assumes "serial_loop k r = Inr (n, r')"
  shows "\<exists>i < k. n = int (serial_draw r i) \<and> 0 < n \<and> (\<forall>j < i. serial_draw r j = 0)
    \<and> r' = drop (16 * Suc i) r \<and> 16 * Suc i \<le> length r"
  using assms
proof (induction k arbitrary: r)
  case 0
  then show ?case by simp
next
  case (Suc k)
  have len: "16 \<le> length r"
    using Suc.prems by (simp add: serial_loop_Suc split: if_splits)
  show ?case
  proof (cases "0 < serial_draw r 0")
    case True
    then show ?thesis using Suc.prems len
      by (intro exI [of _ 0]) (simp add: serial_loop_Suc)
  next
    case False
    then have "serial_loop k (drop 16 r) = Inr (n, r')"
      using Suc.prems len by (simp add: serial_loop_Suc)
    from Suc.IH [OF this] obtain i where i: "i < k" "n = int (serial_draw r (Suc i))" "0 < n"
      "\<forall>j < i. serial_draw r (Suc j) = 0" "r' = drop (16 * Suc i) (drop 16 r)"
      "16 * Suc i \<le> length (drop 16 r)"
      by (auto simp: serial_draw_drop)
    have "\<forall>j < Suc i. serial_draw r j = 0"
      using i(4) False by (auto simp: less_Suc_eq_0_disj)
    then show ?thesis using i len by (intro exI [of _ "Suc i"]) (auto simp: add.commute)
  qed
qed

lemma serial_loop_total:
  assumes "16 * k \<le> length r" "i < k" "0 < serial_draw r i"
  shows "\<exists>n r'. serial_loop k r = Inr (n, r')"
  using assms
proof (induction k arbitrary: r i)
  case 0
  then show ?case by simp
next
  case (Suc k)
  show ?case
  proof (cases "0 < serial_draw r 0")
    case True
    then show ?thesis using Suc.prems by (simp add: serial_loop_Suc)
  next
    case False
    then obtain j where "i = Suc j" using Suc.prems(3) by (cases i) auto
    then have "\<exists>n r'. serial_loop k (drop 16 r) = Inr (n, r')"
      using Suc.prems by (intro Suc.IH [of "drop 16 r" j]) (auto simp: serial_draw_drop)
    then show ?thesis using False Suc.prems by (simp add: serial_loop_Suc)
  qed
qed

subsection \<open>What the parser accepts\<close>

text \<open>What the loop over the extensions leaves alone.\<close>

definition same_fields :: "Certificate \<Rightarrow> Certificate \<Rightarrow> bool" where
  "same_fields c c' =
     (crt_Raw c = crt_Raw c' \<and> crt_RawTBS c = crt_RawTBS c' \<and> crt_Version c = crt_Version c'
      \<and> crt_Serial c = crt_Serial c' \<and> crt_SigAlg c = crt_SigAlg c'
      \<and> crt_Signature c = crt_Signature c' \<and> crt_PublicKey c = crt_PublicKey c'
      \<and> crt_RawIssuer c = crt_RawIssuer c' \<and> crt_RawSubject c = crt_RawSubject c'
      \<and> crt_Issuer c = crt_Issuer c' \<and> crt_Subject c = crt_Subject c'
      \<and> crt_NotBefore c = crt_NotBefore c' \<and> crt_NotAfter c = crt_NotAfter c')"

lemma parse_cert_exts_step:
  assumes "parse_cert_exts cert seen (e # es) = Inr c"
  obtains cert' where "parse_cert_exts cert' (ext_id e # seen) es = Inr c" "ext_id e \<notin> set seen"
    "same_fields cert' cert"
    "crt_Unhandled cert' = crt_Unhandled cert @ (if ext_id e \<in> set handled_oids then [] else [e])"
    "ext_critical e \<longrightarrow> ext_id e \<in> set handled_oids"
  using assms
  by (auto simp: go_inv handled_oids_def same_fields_def ext_oids split: if_splits)

lemma parse_cert_exts_Inr:
  assumes "parse_cert_exts cert seen exts = Inr c"
  shows "same_fields c cert \<and> distinct (map ext_id exts) \<and> set (map ext_id exts) \<inter> set seen = {}
    \<and> crt_Unhandled c = crt_Unhandled cert @ filter (\<lambda>e. ext_id e \<notin> set handled_oids) exts
    \<and> (\<forall>e \<in> set exts. ext_critical e \<longrightarrow> ext_id e \<in> set handled_oids)"
  using assms
proof (induction exts arbitrary: cert seen)
  case Nil
  then show ?case by (simp add: same_fields_def)
next
  case (Cons e es)
  from parse_cert_exts_step [OF Cons.prems] obtain cert'
    where c': "parse_cert_exts cert' (ext_id e # seen) es = Inr c" "ext_id e \<notin> set seen"
    and u: "same_fields cert' cert"
    "crt_Unhandled cert' = crt_Unhandled cert @ (if ext_id e \<in> set handled_oids then [] else [e])"
    "ext_critical e \<longrightarrow> ext_id e \<in> set handled_oids" .
  from Cons.IH [OF c'(1)] c'(2) u show ?case by (auto simp: same_fields_def)
qed

lemma ParseCertificate_Inr:
  assumes p: "ParseCertificate der = Inr c"
  obtains outer tbs cert where
    "parse_signed der = Inr (outer, [])"
    "parse_tbsCertificate (rv_full (sd_tbs outer)) = Inr (tbs, [])"
    "parse_cert_exts cert [] (tc_exts tbs) = Inr c"
    "algorithmFromOID (aid_algorithm (sd_alg outer)) = Inr (crt_SigAlg cert)"
    "aid_algorithm (tc_sigalg tbs) = aid_algorithm (sd_alg outer)"
    "length (bs_bytes (sd_sig outer)) = SignatureSize (crt_SigAlg cert)"
    "0 < tc_serial tbs" "publicKeyFromSPKI (tc_key tbs) = Inr (crt_PublicKey cert)"
    "crt_Raw cert = der" "crt_RawTBS cert = rv_full (sd_tbs outer)" "crt_Version cert = 3"
    "crt_Serial cert = Some (tc_serial tbs)" "crt_Signature cert = bs_bytes (sd_sig outer)"
    "crt_RawIssuer cert = rv_full (tc_issuer tbs)" "crt_RawSubject cert = rv_full (tc_subject tbs)"
    "ParseName (rv_full (tc_issuer tbs)) = Inr (crt_Issuer cert)"
    "ParseName (rv_full (tc_subject tbs)) = Inr (crt_Subject cert)"
    "crt_Unhandled cert = []" "crt_BCValid cert = False"
  using p
  by (clarsimp simp: ParseCertificate_def unmarshal_all_def Let_def go_inv zero_Certificate_def
      split: if_splits)

subsection \<open>When a certificate is created\<close>

text \<open>
  Sufficient conditions for \<open>CreateCertificate\<close> to succeed, with a bound on the length of its
  output below the \<open>2 ^ 31\<close> octets that \<open>encoding/asn1\<close> reads.
\<close>

lemma marshal_extension_total:
  assumes "oid_ok (ext_id e)" "length (ext_id e) \<le> 20" "length (ext_value e) < 2 ^ 29"
  shows "\<exists>bs. marshal_extension e = Inr bs \<and> length bs \<le> length (ext_value e) + 200"
proof -
  obtain i where i: "oid_bytes (ext_id e) = Inr i" using oid_ok_bytes [OF assms(1)] by blast
  have li: "length i \<le> 100" using length_oid_bytes [OF assms(1) i] assms(2) by simp
  let ?c = "if ext_critical e then tlv 0 False 1 (bool_bytes True) else []"
  let ?body = "tlv 0 False 6 i @ ?c @ tlv 0 False 4 (ext_value e)"
  have "length ?c \<le> 10"
    using length_tlv_le [of 1 "bool_bytes True" 0 False] by (simp add: bool_bytes_def)
  then have "length ?body \<le> length (ext_value e) + 150"
    using li length_tlv_le [of 6 i 0 False] length_tlv_le [of 4 "ext_value e" 0 False] assms(3) by simp
  moreover have "marshal_extension e = Inr (tlv 0 True 16 ?body)"
    using i by (simp add: marshal_extension_def marshal_oid_def marshal_octets_def)
  ultimately show ?thesis
    using length_tlv_le [of 16 ?body 0 True] assms(3) by simp
qed

lemma length_marshalTime:
  assumes "marshalTime t = Inr rv"
  shows "length (marshal_raw rv) \<le> 21"
proof -
  let ?u = "time_Truncate t"
  have y: "0 \<le> time_Year ?u \<and> time_Year ?u \<le> 9999"
    using marshalTime_error [of t] assms by fastforce
  have ex: "tlv 0 False g b = tlv 0 False g b \<and> (g = 23 \<or> g = 24) \<and> length b \<le> 15
      \<Longrightarrow> \<exists>tag body. tlv 0 False g b = tlv 0 False tag body \<and> (tag = 23 \<or> tag = 24) \<and> length body \<le> 15"
    for g b by blast
  have "\<exists>tag body. (if time_Year ?u < 2050 then marshal_utc ?u else marshal_generalized ?u)
      = Inr (tlv 0 False tag body) \<and> (tag = 23 \<or> tag = 24) \<and> length body \<le> 15"
    using y by (auto simp: marshal_utc_def marshal_generalized_def intro!: ex)
  then obtain tag body where b: "(if time_Year ?u < 2050 then marshal_utc ?u else marshal_generalized ?u)
      = Inr (tlv 0 False tag body)" "tag = 23 \<or> tag = 24" "length body \<le> 15" by blast
  have "parse_raw no_params (tlv 0 False tag body) = Inr (raw_of 0 False tag body, [])"
    using parse_raw_tlv [of 0 tag body no_params False "[]"] b(2,3) by (auto simp: params_defs)
  then have "rv = raw_of 0 False tag body" using assms b(1) by (simp add: marshalTime_def Let_def)
  then show ?thesis using length_tlv_le [of tag body 0 False] b(2,3) by (auto simp: marshal_raw_def)
qed

definition exts_size :: "extension list \<Rightarrow> nat" where
  "exts_size exts = sum_list (map (\<lambda>e. length (ext_value e) + 200) exts)"

lemma rmap_marshal_extension_total:
  assumes "\<forall>e \<in> set exts. oid_ok (ext_id e) \<and> length (ext_id e) \<le> 20" "exts_size exts < 2 ^ 28"
  shows "\<exists>bss. rmap marshal_extension exts = Inr bss \<and> length (concat bss) \<le> exts_size exts"
  using assms
proof (induction exts)
  case Nil
  then show ?case by (simp add: exts_size_def)
next
  case (Cons e es)
  then obtain bss where "rmap marshal_extension es = Inr bss" "length (concat bss) \<le> exts_size es"
    by (auto simp: exts_size_def)
  moreover obtain bs where "marshal_extension e = Inr bs" "length bs \<le> length (ext_value e) + 200"
    using marshal_extension_total [of e] Cons.prems by (auto simp: exts_size_def)
  ultimately show ?case by (simp add: exts_size_def)
qed

lemma marshal_extensions_total:
  assumes "\<forall>e \<in> set exts. oid_ok (ext_id e) \<and> length (ext_id e) \<le> 20" "exts_size exts < 2 ^ 28"
  shows "\<exists>eb. marshal_extensions 3 exts = Inr eb \<and> length eb \<le> exts_size exts + 20"
proof (cases "exts = []")
  case True
  then show ?thesis by (simp add: marshal_extensions_def exts_size_def)
next
  case False
  obtain bss where bss: "rmap marshal_extension exts = Inr bss" "length (concat bss) \<le> exts_size exts"
    using rmap_marshal_extension_total [OF assms] by blast
  then have "length (tlv 0 True 16 (concat bss)) \<le> exts_size exts + 6"
    using length_tlv_le [of 16 "concat bss" 0 True] assms(2) by simp
  then have "length (tlv 2 True 3 (tlv 0 True 16 (concat bss))) \<le> exts_size exts + 20"
    using length_tlv_le [of 3 "tlv 0 True 16 (concat bss)" 2 True] assms(2) by simp
  then show ?thesis
    using False bss(1) by (simp add: marshal_extensions_def make_field_def params_defs)
qed

lemma CreateCertificate_succeeds:
  assumes serial: "crt_Serial t = Some n" "0 < n" "n < 2 ^ 127"
    and times: "crt_NotBefore t < crt_NotAfter t" "marshalTime (crt_NotBefore t) = Inr nb"
      "marshalTime (crt_NotAfter t) = Inr na"
    and sg: "crt_SigAlg t = sg_alg signer" "signer_ok C signer" and pub: "pub_ok pub"
    and sub: "subject_der t = Inr sub" "length sub \<le> 2 ^ 24" "sub \<noteq> []"
      "sub = [0x30, 0x00] \<longrightarrow> \<not> SANs_Empty (crt_SANs t)"
    and iss: "parent \<noteq> NilParent" "issuer_der parent sub = Inr iss" "length iss \<le> 2 ^ 24" "iss \<noteq> []"
    and exts: "buildExtensions t pub signer (sub = [0x30, 0x00]) = Inr exts"
      "\<forall>e \<in> set exts. oid_ok (ext_id e) \<and> length (ext_id e) \<le> 20" "exts_size exts < 2 ^ 28"
  shows "\<exists>der. CreateCertificate (Some t) parent pub (Some signer) = Inr der \<and> length der < 2 ^ 31"
proof -
  have valid: "alg_Valid (sg_alg signer)" using sg(2) by (auto simp: signer_ok_def pub_ok_def)
  obtain spki where spki: "MarshalPKIXPublicKey pub = Inr spki"
    using MarshalPKIX_total [OF pub] by blast
  then have key: "marshal_spki (spki_of pub) = Inr spki" "length spki \<le> 2700"
    using length_spki_of [OF pub] pub by (simp_all add: MarshalPKIX_spki go_inv)
  obtain a where a: "marshal_algorithmIdentifier (algorithm_identifier (alg_OID (sg_alg signer))) = Inr a"
    "length a \<le> 60"
    using marshal_algorithm_identifier [OF valid] length_algorithm_identifier [OF valid] by auto
  obtain eb where eb: "marshal_extensions 3 exts = Inr eb" "length eb < 2 ^ 28 + 20"
    using marshal_extensions_total [OF exts(2,3)] exts(3) by fastforce
  let ?T = "\<lparr>tc_version = 2, tc_serial = n,
      tc_sigalg = algorithm_identifier (alg_OID (sg_alg signer)), tc_issuer = raw_full iss,
      tc_validity = \<lparr>v_notBefore = nb, v_notAfter = na\<rparr>, tc_subject = raw_full sub,
      tc_key = spki_of pub, tc_exts = exts\<rparr>"
  have v: "length (marshal_version 2) < 20" by code_simp
  have "length (int_bytes n) \<le> 16" using length_int_bytes [of 15 n] serial by simp
  then have s: "length (tlv 0 False 2 (int_bytes n)) \<le> 30"
    using length_tlv_le [of 2 "int_bytes n" 0 False] by simp
  have "length (marshal_raw nb @ marshal_raw na) < 80"
    using length_marshalTime [OF times(2)] length_marshalTime [OF times(3)] by simp
  then have vl: "length (tlv 0 True 16 (marshal_raw nb @ marshal_raw na)) < 90"
    using length_tlv_le [of 16 "marshal_raw nb @ marshal_raw na" 0 True] by simp
  let ?body = "marshal_version 2 @ tlv 0 False 2 (int_bytes n) @ a @ iss
      @ tlv 0 True 16 (marshal_raw nb @ marshal_raw na) @ sub @ spki @ eb"
  have "marshal_tbsCertificate ?T = Inr (tlv 0 True 16 ?body)"
    using sub(3) iss(4) a(1) key(1) eb(1) by (simp add: marshal_tbsCertificate_def marshal_int_def)
  moreover have "length (tlv 0 True 16 ?body) < 2 ^ 30"
    using length_tlv_le [of 16 ?body 0 True] v s vl sub(2) iss(3) a(2) key(2) eb(2) by simp
  ultimately obtain tbs where tbs: "marshal_tbsCertificate ?T = Inr tbs" "length tbs < 2 ^ 30" "tbs \<noteq> []"
    by (metis tlv_neq_Nil)
  obtain sig where sig: "sg_sign signer tbs = Inr sig" "length sig = SignatureSize (sg_alg signer)"
    using sg(2) by (auto simp: signer_ok_def)
  have "length sig < 2 ^ 20" using sig(2) size_bounds(2) [of "sg_alg signer"] by simp
  then obtain der where "marshal_signed \<lparr>sd_tbs = raw_full tbs,
      sd_alg = algorithm_identifier (alg_OID (sg_alg signer)), sd_sig = octet_bits sig\<rparr> = Inr der"
    "length der < 2 ^ 31"
    using marshal_signed_total [OF valid tbs(2) _ tbs(3)] by blast
  moreover have "parse_spki spki = Inr (spki_of pub, [])"
    using MarshalPKIX_parse_spki [OF spki] by blast
  ultimately show ?thesis
    using serial times sg(1) sub iss spki exts(1) tbs(1) sig(1)
    by (auto simp: CreateCertificate_def sign_tbs_def Let_def)
qed

subsection \<open>An example template\<close>

definition toy_template :: Certificate where
  "toy_template = zero_Certificate
     \<lparr>crt_Serial := Some 5, crt_SigAlg := SLHDSA_SHA2_128s,
      crt_Subject := zero_Name\<lparr>CommonName := ''CA''\<rparr>, crt_NotAfter := 1000 * second,
      crt_BCValid := True, crt_BasicConstraints := \<lparr>IsCA = True, MaxPathLen = 1, MaxPathLenSet = True\<rparr>,
      crt_KeyUsage := 0x60, crt_SubjectKeyID := [1], crt_AuthorityKeyID := [1],
      crt_SANs := \<lparr>DNSNames = [''a''], EmailAddresses = [], IPAddresses = []\<rparr>\<rparr>"





lemma toy_template_sel:
  "crt_Serial toy_template = Some 5" "crt_SigAlg toy_template = SLHDSA_SHA2_128s"
  "crt_NotBefore toy_template = 0" "crt_NotAfter toy_template = 1000 * second"
  "subject_der toy_template = ToRDNSequence (zero_Name\<lparr>CommonName := ''CA''\<rparr>)"
  "SANs_Empty (crt_SANs toy_template) = False"
  by (simp_all add: toy_template_def zero_Certificate_def subject_der_def SANs_Empty_def)

definition toy_exts :: "extension list" where
  "toy_exts =
     [ext_of oidExtBasicConstraints True (marshal_basicConstraintsDER \<lparr>bcd_IsCA = True, bcd_MaxPathLen = 1\<rparr>),
      ext_of oidExtKeyUsage True [3, 2, 1, 6],
      ext_of oidExtSubjectKeyID False (marshal_octets [1]),
      ext_of oidExtAuthorityKeyID False (tlv 0 True 16 (make_field akid_params 4 False [1])),
      ext_of oidExtSubjectAltName False (tlv 0 True 16 (marshal_raw
        \<lparr>rv_class = 2, rv_tag = 2, rv_compound = False, rv_bytes = bytes_of ''a'', rv_full = []\<rparr>))]"

lemma toy_parts:
  "\<exists>b. ToRDNSequence (zero_Name\<lparr>CommonName := ''CA''\<rparr>) = Inr b \<and> length b < 40 \<and> 3 < length b"
  "\<exists>r. marshalTime 0 = Inr r \<and> length (marshal_raw r) < 40"
  "\<exists>r. marshalTime (1000 * second) = Inr r \<and> length (marshal_raw r) < 40"
proof -
  have "case ToRDNSequence (zero_Name\<lparr>CommonName := ''CA''\<rparr>) of
      Inr b \<Rightarrow> length b < 40 \<and> 3 < length b | Inl e \<Rightarrow> False" by code_simp
  then show "\<exists>b. ToRDNSequence (zero_Name\<lparr>CommonName := ''CA''\<rparr>) = Inr b \<and> length b < 40 \<and> 3 < length b"
    by (simp split: sum.splits)
  have "case marshalTime 0 of Inr r \<Rightarrow> length (marshal_raw r) < 40 | Inl e \<Rightarrow> False" by code_simp
  then show "\<exists>r. marshalTime 0 = Inr r \<and> length (marshal_raw r) < 40"
    by (simp split: sum.splits)
  have "case marshalTime (1000 * second) of Inr r \<Rightarrow> length (marshal_raw r) < 40 | Inl e \<Rightarrow> False"
    by code_simp
  then show "\<exists>r. marshalTime (1000 * second) = Inr r \<and> length (marshal_raw r) < 40"
    by (simp split: sum.splits)
qed

lemma toy_build: "buildExtensions toy_template toy_key toy_signer False = Inr toy_exts"
proof -
  have "marshalKeyUsage 0x60 = Inr [3, 2, 1, 6]" by code_simp
  then show ?thesis
    by (simp add: buildExtensions_def toy_template_def zero_Certificate_def toy_exts_def
        marshalBasicConstraints_def SANs_Empty_def marshalSANs_def marshalKeyID_def
        marshalAuthorityKeyID_def)
qed

lemma toy_created:
  "\<exists>der. CreateCertificate (Some toy_template) TemplateItself toy_key (Some toy_signer) = Inr der
     \<and> length der < 2 ^ 31"
proof -
  obtain sub where s: "ToRDNSequence (zero_Name\<lparr>CommonName := ''CA''\<rparr>) = Inr sub"
    "length sub < 40" "3 < length sub"
    using toy_parts(1) by blast
  then have sub: "sub \<noteq> [0x30, 0x00]" "sub \<noteq> []" by auto
  obtain nb na where t: "marshalTime 0 = Inr nb" "marshalTime (1000 * second) = Inr na"
    using toy_parts(2,3) by blast
  show ?thesis
  proof (rule CreateCertificate_succeeds [of _ 5 nb na toy_signer toy_circl])
    show "buildExtensions toy_template toy_key toy_signer (sub = [0x30, 0x00]) = Inr toy_exts"
      using sub by (simp add: toy_build)
    show "\<forall>e \<in> set toy_exts. oid_ok (ext_id e) \<and> length (ext_id e) \<le> 20"
      by (simp add: toy_exts_def ext_of_def ext_oids oid_ok_def)
    have "exts_size toy_exts \<le> 2000" by code_simp
    then show "exts_size toy_exts < 2 ^ 28" by simp
    show "pub_ok toy_key" by (simp add: pub_ok_def)
    show "signer_ok toy_circl toy_signer" by (rule toy_signer_ok)
    show "marshalTime (crt_NotBefore toy_template) = Inr nb" using t(1) by (simp only: toy_template_sel)
    show "marshalTime (crt_NotAfter toy_template) = Inr na" using t(2) by (simp only: toy_template_sel)
    show "crt_NotBefore toy_template < crt_NotAfter toy_template" by (simp add: toy_template_sel second_def)
    show "crt_Serial toy_template = Some 5" "crt_SigAlg toy_template = sg_alg toy_signer"
      by (simp_all add: toy_template_sel)
    show "subject_der toy_template = Inr sub" using s(1) by (simp only: toy_template_sel)
    show "issuer_der TemplateItself sub = Inr sub" by (simp add: issuer_der_def)
    show "sub = [0x30, 0x00] \<longrightarrow> \<not> SANs_Empty (crt_SANs toy_template)" using sub by simp
  qed (use s(2) sub in simp_all)
qed

lemma toy_template_ok: "template_ok toy_template" "subject_ok toy_template"
  by (simp_all add: template_ok_def toy_template_def zero_Certificate_def unhandled_ok_def san_ok_def
      subject_ok_def zero_Name_def name_size_def name_parts_def)

subsection \<open>Properties\<close>

text \<open>C6. What \<open>CreateCertificate\<close> signs, \<open>ParseCertificate\<close> reads back: the parsed certificate has
  the template's serial number, subject, validity (to the second), constraints, usages, alternative
  names and extra extensions, the issuer's subject as its issuer, the given key, key identifiers
  that are the template's or else computed from the keys, and the signer's algorithm; and its
  signature verifies over the octets it keeps as \<open>RawTBS\<close> under the signer's key.\<close>

theorem ParseCertificate_CreateCertificate:
  assumes "CreateCertificate (Some t) parent pub (Some signer) = Inr der"
    and "length der < 2 ^ 31" and "signer_ok C signer" and "template_ok t"
    and "subject_ok t" and "subject_ok (issuer_cert parent t)"
  shows "\<exists>tbsDER sig issuerDER subjectDER.
    ParseCertificate der = Inr (issued t (issuer_cert parent t) pub signer der tbsDER sig issuerDER subjectDER)
    \<and> subject_der t = Inr subjectDER \<and> subject_der (issuer_cert parent t) = Inr issuerDER
    \<and> Verify C (sg_pub signer) tbsDER sig = Inr ()"
  using CreateCertificate_parse [OF assms] by blast

theorem ParseCertificate_CreateCertificate_witness:
  "\<exists>der tbsDER sig issuerDER subjectDER.
    ParseCertificate der = Inr (issued toy_template toy_template toy_key toy_signer der tbsDER sig issuerDER subjectDER)
    \<and> Verify toy_circl toy_key tbsDER sig = Inr ()"
proof -
  obtain der where der: "CreateCertificate (Some toy_template) TemplateItself toy_key (Some toy_signer) = Inr der"
    "length der < 2 ^ 31" using toy_created by blast
  have "issuer_cert TemplateItself toy_template = toy_template" by (simp add: issuer_cert_def)
  then show ?thesis
    using ParseCertificate_CreateCertificate [OF der toy_signer_ok toy_template_ok] toy_template_ok(2)
    by simp blast
qed

text \<open>C30. Every certificate that \<open>ParseCertificate\<close> returns is well formed: version 3, a positive
  serial number, a registered signature algorithm and a signature of its size, a subject key of a
  registered algorithm and its size, no duplicate among the extensions of the to-be-signed part, and
  no critical extension that was left unprocessed: what \<open>UnhandledExtensions\<close> holds is not critical and is none of the
  extensions the package knows.\<close>

theorem ParseCertificate_well_formed:
  assumes "ParseCertificate der = Inr c"
  shows "crt_Raw c = der \<and> crt_Version c = 3 \<and> (\<exists>n. crt_Serial c = Some n \<and> 0 < n)
    \<and> alg_Valid (crt_SigAlg c) \<and> length (crt_Signature c) = SignatureSize (crt_SigAlg c)
    \<and> pub_ok (crt_PublicKey c)
    \<and> ParseName (crt_RawIssuer c) = Inr (crt_Issuer c)
    \<and> ParseName (crt_RawSubject c) = Inr (crt_Subject c)
    \<and> distinct (map ext_id (crt_Unhandled c))
    \<and> (\<forall>e \<in> set (crt_Unhandled c). \<not> ext_critical e \<and> ext_id e \<notin> set handled_oids)
    \<and> (\<exists>tbs. parse_tbsCertificate (crt_RawTBS c) = Inr (tbs, []) \<and> distinct (map ext_id (tc_exts tbs))
         \<and> crt_Unhandled c = filter (\<lambda>e. ext_id e \<notin> set handled_oids) (tc_exts tbs)
         \<and> (\<forall>e \<in> set (tc_exts tbs). ext_critical e \<longrightarrow> ext_id e \<in> set handled_oids))"
proof -
  from ParseCertificate_Inr [OF assms] obtain outer tbs cert where
    "parse_signed der = Inr (outer, [])"
    and t: "parse_tbsCertificate (rv_full (sd_tbs outer)) = Inr (tbs, [])" and
    x: "parse_cert_exts cert [] (tc_exts tbs) = Inr c" and
    f: "algorithmFromOID (aid_algorithm (sd_alg outer)) = Inr (crt_SigAlg cert)"
    "aid_algorithm (tc_sigalg tbs) = aid_algorithm (sd_alg outer)"
    "length (bs_bytes (sd_sig outer)) = SignatureSize (crt_SigAlg cert)"
    "0 < tc_serial tbs" and k: "publicKeyFromSPKI (tc_key tbs) = Inr (crt_PublicKey cert)" and
    g: "crt_Raw cert = der" "crt_RawTBS cert = rv_full (sd_tbs outer)" "crt_Version cert = 3"
    "crt_Serial cert = Some (tc_serial tbs)" "crt_Signature cert = bs_bytes (sd_sig outer)"
    "crt_RawIssuer cert = rv_full (tc_issuer tbs)" "crt_RawSubject cert = rv_full (tc_subject tbs)"
    "ParseName (rv_full (tc_issuer tbs)) = Inr (crt_Issuer cert)"
    "ParseName (rv_full (tc_subject tbs)) = Inr (crt_Subject cert)" and
    u: "crt_Unhandled cert = []" "crt_BCValid cert = False" .
  note e = parse_cert_exts_Inr [OF x, unfolded u(1)]
  then have uh: "crt_Unhandled c = filter (\<lambda>e. ext_id e \<notin> set handled_oids) (tc_exts tbs)"
    and d: "distinct (map ext_id (tc_exts tbs))" and sf: "same_fields c cert"
    and cr: "\<forall>e \<in> set (tc_exts tbs). ext_critical e \<longrightarrow> ext_id e \<in> set handled_oids"
    by simp_all
  have "distinct (map ext_id (crt_Unhandled c))"
    unfolding uh by (rule distinct_map_filter [OF d])
  moreover have "\<forall>e \<in> set (crt_Unhandled c). \<not> ext_critical e \<and> ext_id e \<notin> set handled_oids"
    unfolding uh using cr by simp blast
  ultimately have fields: "crt_Raw c = der \<and> crt_Version c = 3 \<and> (\<exists>n. crt_Serial c = Some n \<and> 0 < n)
    \<and> alg_Valid (crt_SigAlg c) \<and> length (crt_Signature c) = SignatureSize (crt_SigAlg c)
    \<and> pub_ok (crt_PublicKey c)
    \<and> ParseName (crt_RawIssuer c) = Inr (crt_Issuer c)
    \<and> ParseName (crt_RawSubject c) = Inr (crt_Subject c)
    \<and> distinct (map ext_id (crt_Unhandled c))
    \<and> (\<forall>e \<in> set (crt_Unhandled c). \<not> ext_critical e \<and> ext_id e \<notin> set handled_oids)"
    using sf f g algorithmFromOID_Inr [OF f(1)] publicKeyFromSPKI_ok [OF k]
    by (simp add: same_fields_def)
  have "crt_RawTBS c = rv_full (sd_tbs outer)" using sf g(2) by (simp add: same_fields_def)
  then have "parse_tbsCertificate (crt_RawTBS c) = Inr (tbs, [])" using t by simp
  then show ?thesis
    using fields d uh cr by (elim conjE, intro conjI exI [of _ tbs]) assumption+
qed

theorem ParseCertificate_well_formed_witness:
  "\<exists>der c. ParseCertificate der = Inr c \<and> crt_Raw c = der \<and> crt_Version c = 3"
proof -
  obtain der where der: "CreateCertificate (Some toy_template) TemplateItself toy_key (Some toy_signer) = Inr der"
    "length der < 2 ^ 31" using toy_created by blast
  obtain c where "ParseCertificate der = Inr c"
    using CreateCertificate_parse [OF der toy_signer_ok toy_template_ok] toy_template_ok(2)
    by (auto simp: issuer_cert_def)
  then show ?thesis using ParseCertificate_well_formed [of der c] by blast
qed

text \<open>C39. \<open>GenerateSerialNumber\<close> returns a positive number below \<open>2 ^ 127\<close>, which DER writes in
  at most 16 octets, and never reads more than eight blocks of 16 bytes; given that much entropy
  it fails exactly when all the eight draws are zero.\<close>

theorem GenerateSerialNumber_bounds:
  "(\<forall>n r'. GenerateSerialNumber r = Inr (n, r') \<longrightarrow>
      0 < n \<and> n < 2 ^ 127 \<and> length (int_bytes n) \<le> 16 \<and> length r - length r' \<le> 128)
   \<and> (128 \<le> length r \<longrightarrow>
      (\<exists>n r'. GenerateSerialNumber r = Inr (n, r')) \<longleftrightarrow> (\<exists>i < 8. 0 < serial_draw r i))"
proof -
  have b: "0 < n \<and> n < 2 ^ 127 \<and> length r - length r' \<le> 128 \<and> (\<exists>i < 8. 0 < serial_draw r i)"
    if "GenerateSerialNumber r = Inr (n, r')" for n r'
  proof -
    have "serial_loop 8 r = Inr (n, r')" using that by (simp add: GenerateSerialNumber_def)
    from serial_loop_Inr [OF this] obtain i where i: "i < 8" "n = int (serial_draw r i)" "0 < n"
      "r' = drop (16 * Suc i) r" by blast
    have "serial_draw r i < 2 ^ 127" by (simp add: serial_draw_def)
    then have "n < 2 ^ 127" using i(2) by (simp add: of_nat_less_iff)
    then show ?thesis using i by auto
  qed
  have l: "length (int_bytes n) \<le> 16" if "0 < n" "n < 2 ^ 127" for n
    using length_int_bytes [of 15 n] that by simp
  show ?thesis
    using b l serial_loop_total [of 8 r] unfolding GenerateSerialNumber_def by fastforce
qed

theorem GenerateSerialNumber_bounds_witness:
  "\<exists>n r'. GenerateSerialNumber (replicate 128 1) = Inr (n, r') \<and> 0 < n \<and> n < 2 ^ 127"
proof -
  have "replicate 16 (1 :: byte) = [1, 1, 1, 1, 1, 1, 1, 1, 1, 1, 1, 1, 1, 1, 1, 1]"
    by (simp add: eval_nat_numeral)
  then have "be_value (replicate 16 1) mod 2 ^ 127 = 1334440654591915542993625911497130241"
    by (simp add: be_value_def)
  then have "0 < serial_draw (replicate 128 1) 0" by (simp add: serial_draw_def)
  then show ?thesis
    using GenerateSerialNumber_bounds [of "replicate 128 1"] by auto
qed

end
