(* ===== verification/Verify_Path.thy ===== *)
theory Verify_Path
  imports Issuance
begin

section \<open>Path validation (internal/pqx509/verify.go)\<close>

text \<open>
  \<open>Certificate.VerifySignatureFrom\<close>, \<open>checkValidity\<close>, \<open>checkLink\<close>, \<open>contains\<close> and
  \<open>Certificate.Verify\<close>. The closure \<open>walk\<close> with the two variables that it captures is a function
  on the pair of the chains found so far and the first error noted. Two pointers to the same
  certificate have the same \<open>Raw\<close>, so \<open>contains\<close> is the comparison of \<open>Raw\<close>. The lists of
  roots and intermediates hold no nil pointer, \<open>time.Now\<close> is the argument \<open>clock\<close> and
  \<open>CheckRevocation\<close> is \<open>None\<close> when it is nil.
\<close>

subsection \<open>Checks on one link\<close>

definition maxChainDepth :: nat where "maxChainDepth = 6"

record VerifyOptions =
  Roots :: "Certificate list"
  Intermediates :: "Certificate list"
  CurrentTime :: instant
  CheckRevocation :: "(Certificate \<Rightarrow> Certificate \<Rightarrow> unit res) option"

definition cert_VerifySignatureFrom ::
  "('pk, 'sk) circl \<Rightarrow> Certificate \<Rightarrow> Certificate option \<Rightarrow> unit res" where
  "cert_VerifySignatureFrom C c parent_p =
     (case parent_p of
        None \<Rightarrow> Inl (Err [] ''pqx509: parent is required'')
      | Some parent \<Rightarrow>
          if crt_SigAlg c \<noteq> pub_alg (crt_PublicKey parent)
          then Inl (Err [ErrBadSignature] ''certificate algorithm differs from the issuer key'')
          else Verify C (crt_PublicKey parent) (crt_RawTBS c) (crt_Signature c))"

definition checkValidity :: "Certificate \<Rightarrow> instant \<Rightarrow> unit res" where
  "checkValidity c now =
     (if now < crt_NotBefore c then Inl (Err [ErrNotYetValid] ''valid from'')
      else if crt_NotAfter c < now then Inl (Err [ErrExpired] ''expired at'')
      else Inr ())"

definition checkLink ::
  "('pk, 'sk) circl \<Rightarrow> Certificate \<Rightarrow> Certificate \<Rightarrow> Certificate list \<Rightarrow> instant \<Rightarrow> VerifyOptions
     \<Rightarrow> unit res" where
  "checkLink C child issuer candidate now opts =
     rbind (checkValidity issuer now) (\<lambda>_.
       if \<not> crt_BCValid issuer \<or> \<not> IsCA (crt_BasicConstraints issuer)
       then Inl (Err [ErrNotACA] ''issuer'')
       else if crt_KeyUsage issuer \<noteq> 0 \<and> crt_KeyUsage issuer AND KeyUsageKeyCertSign = 0
       then Inl (Err [ErrKeyUsageNotPermitted] ''lacks keyCertSign'')
       else if MaxPathLenSet (crt_BasicConstraints issuer)
         \<and> MaxPathLen (crt_BasicConstraints issuer) < int (length candidate) - 2
       then Inl (Err [ErrPathLenExceeded] ''too many intermediate CAs'')
       else
         rbind (cert_VerifySignatureFrom C child (Some issuer)) (\<lambda>_.
           case CheckRevocation opts of
             None \<Rightarrow> Inr ()
           | Some check \<Rightarrow>
               (case check child issuer of
                  Inl e \<Rightarrow> if errors_is e ErrRevoked then Inl e
                           else Inl (wrap_errs [] ''pqx509: revocation check failed'' e)
                | Inr u \<Rightarrow> Inr ())))"

definition contains :: "Certificate list \<Rightarrow> Certificate \<Rightarrow> bool" where
  "contains chain c = (\<exists>x \<in> set chain. crt_Raw x = crt_Raw c)"

subsection \<open>The search\<close>

type_synonym search = "Certificate list list \<times> error option"

definition note_err :: "error \<Rightarrow> search \<Rightarrow> search" where
  "note_err e st = (fst st, if snd st = None then Some e else snd st)"

definition try_root ::
  "('pk, 'sk) circl \<Rightarrow> VerifyOptions \<Rightarrow> instant \<Rightarrow> Certificate list \<Rightarrow> Certificate \<Rightarrow> search \<Rightarrow> search" where
  "try_root C opts now chain root st =
     (if crt_RawIssuer (last chain) \<noteq> crt_RawSubject root then st
      else
        (case checkLink C (last chain) root (chain @ [root]) now opts of
           Inl e \<Rightarrow> note_err e st
         | Inr u \<Rightarrow> (fst st @ [chain @ [root]], snd st)))"

function walk ::
  "('pk, 'sk) circl \<Rightarrow> VerifyOptions \<Rightarrow> instant \<Rightarrow> Certificate list \<Rightarrow> search \<Rightarrow> search"
and walk_inters ::
  "('pk, 'sk) circl \<Rightarrow> VerifyOptions \<Rightarrow> instant \<Rightarrow> Certificate list \<Rightarrow> Certificate list \<Rightarrow> search \<Rightarrow> search"
where
  "walk C opts now chain st =
     (let st' = fold (try_root C opts now chain) (Roots opts) st in
      if maxChainDepth \<le> length chain then st'
      else walk_inters C opts now chain (Intermediates opts) st')"
| "walk_inters C opts now chain [] st = st"
| "walk_inters C opts now chain (i # is) st =
     (if crt_RawIssuer (last chain) \<noteq> crt_RawSubject i \<or> contains chain i
      then walk_inters C opts now chain is st
      else
        (case checkLink C (last chain) i (chain @ [i]) now opts of
           Inl e \<Rightarrow> walk_inters C opts now chain is (note_err e st)
         | Inr u \<Rightarrow> walk_inters C opts now chain is (walk C opts now (chain @ [i]) st)))"
  by pat_completeness auto
termination
  by (relation "measures
      [\<lambda>x. case x of Inl (C, opts, now, chain, st) \<Rightarrow> maxChainDepth - length chain
         | Inr (C, opts, now, chain, is, st) \<Rightarrow> maxChainDepth - length chain,
       \<lambda>x. case x of Inl (C, opts, now, chain, st) \<Rightarrow>
             if maxChainDepth \<le> length chain then 0 else Suc (length (Intermediates opts))
         | Inr (C, opts, now, chain, is, st) \<Rightarrow> length is]") auto

declare walk.simps [simp del]

definition cert_Verify ::
  "('pk, 'sk) circl \<Rightarrow> instant \<Rightarrow> Certificate \<Rightarrow> VerifyOptions \<Rightarrow> Certificate list list res" where
  "cert_Verify C clock c opts =
     (let now = (if CurrentTime opts = 0 then clock else CurrentTime opts) in
      rbind (checkValidity c now) (\<lambda>_.
        let (chains, firstErr) = walk C opts now [c] ([], None) in
        if chains = []
        then
          (case firstErr of
             Some e \<Rightarrow> Inl e
           | None \<Rightarrow> Inl (Err [ErrUnknownAuthority] ''no chain to a trusted root''))
        else Inr chains))"

subsection \<open>What a trusted chain is\<close>

text \<open>
  The specification, without reference to the search: \<open>issuer_ok\<close> lists what RFC 5280 asks of an
  issuer that has \<open>depth\<close> certificates between itself and the leaf, \<open>partial_path\<close> is a chain of
  the leaf and intermediates, \<open>trusted_chain\<close> adds the root.
\<close>

definition valid_at :: "Certificate \<Rightarrow> instant \<Rightarrow> bool" where
  "valid_at c now = (crt_NotBefore c \<le> now \<and> now \<le> crt_NotAfter c)"

definition issuer_ok ::
  "('pk, 'sk) circl \<Rightarrow> VerifyOptions \<Rightarrow> instant \<Rightarrow> nat \<Rightarrow> Certificate \<Rightarrow> Certificate \<Rightarrow> bool" where
  "issuer_ok C opts now depth child issuer =
     (valid_at issuer now
      \<and> crt_BCValid issuer \<and> IsCA (crt_BasicConstraints issuer)
      \<and> (crt_KeyUsage issuer = 0 \<or> crt_KeyUsage issuer AND KeyUsageKeyCertSign \<noteq> 0)
      \<and> (MaxPathLenSet (crt_BasicConstraints issuer) \<longrightarrow>
           int depth \<le> MaxPathLen (crt_BasicConstraints issuer))
      \<and> crt_SigAlg child = pub_alg (crt_PublicKey issuer)
      \<and> Verify C (crt_PublicKey issuer) (crt_RawTBS child) (crt_Signature child) = Inr ()
      \<and> (case CheckRevocation opts of None \<Rightarrow> True | Some check \<Rightarrow> check child issuer = Inr ()))"

definition linked ::
  "('pk, 'sk) circl \<Rightarrow> VerifyOptions \<Rightarrow> instant \<Rightarrow> nat \<Rightarrow> Certificate \<Rightarrow> Certificate \<Rightarrow> bool" where
  "linked C opts now depth child issuer =
     (crt_RawIssuer child = crt_RawSubject issuer \<and> issuer_ok C opts now depth child issuer)"

definition partial_path ::
  "('pk, 'sk) circl \<Rightarrow> VerifyOptions \<Rightarrow> instant \<Rightarrow> Certificate \<Rightarrow> Certificate list \<Rightarrow> bool" where
  "partial_path C opts now c p =
     (p \<noteq> [] \<and> hd p = c \<and> length p \<le> 6 \<and> set (tl p) \<subseteq> set (Intermediates opts)
      \<and> distinct (map crt_Raw p)
      \<and> (\<forall>i. Suc i < length p \<longrightarrow> linked C opts now i (p ! i) (p ! Suc i)))"

definition trusted_chain ::
  "('pk, 'sk) circl \<Rightarrow> VerifyOptions \<Rightarrow> instant \<Rightarrow> Certificate \<Rightarrow> Certificate list \<Rightarrow> bool" where
  "trusted_chain C opts now c ch =
     (ch \<noteq> [] \<and> partial_path C opts now c (butlast ch) \<and> last ch \<in> set (Roots opts)
      \<and> linked C opts now (length ch - 2) (last (butlast ch)) (last ch))"

lemma checkValidity_Inr [simp]: "checkValidity c now = Inr () \<longleftrightarrow> valid_at c now"
  by (auto simp: checkValidity_def valid_at_def)

lemma checkLink_Inr:
  assumes "chain \<noteq> []"
  shows "checkLink C child issuer (chain @ [issuer]) now opts = Inr () \<longleftrightarrow>
     issuer_ok C opts now (length chain - 1) child issuer"
  using assms
  by (cases "length chain")
    (auto simp: checkLink_def issuer_ok_def cert_VerifySignatureFrom_def go_inv
      split: option.splits sum.splits if_splits)

lemma partial_path_snoc:
  assumes "p \<noteq> []"
  shows "partial_path C opts now c (p @ [x]) \<longleftrightarrow>
     partial_path C opts now c p \<and> length p < 6 \<and> x \<in> set (Intermediates opts)
     \<and> \<not> contains p x \<and> linked C opts now (length p - 1) (last p) x"
proof -
  have links: "(\<forall>i. Suc i < length (p @ [x]) \<longrightarrow> linked C opts now i ((p @ [x]) ! i) ((p @ [x]) ! Suc i))
    \<longleftrightarrow> (\<forall>i. Suc i < length p \<longrightarrow> linked C opts now i (p ! i) (p ! Suc i))
      \<and> linked C opts now (length p - 1) (last p) x" (is "?l \<longleftrightarrow> ?r")
  proof
    assume l: ?l
    have "linked C opts now i (p ! i) (p ! Suc i)" if "Suc i < length p" for i
      using l that by (metis Suc_lessD less_SucI nth_append length_append_singleton)
    moreover have "linked C opts now (length p - 1) (last p) x"
      using l [rule_format, of "length p - 1"] assms by (simp add: nth_append last_conv_nth)
    ultimately show ?r by blast
  next
    assume r: ?r
    show ?l
    proof (intro allI impI)
      fix i
      assume i: "Suc i < length (p @ [x])"
      show "linked C opts now i ((p @ [x]) ! i) ((p @ [x]) ! Suc i)"
      proof (cases "Suc i < length p")
        case True
        then show ?thesis using r by (simp add: nth_append)
      next
        case False
        then have "i = length p - 1" "Suc i = length p" using i assms by auto
        then show ?thesis using r assms by (simp add: nth_append last_conv_nth)
      qed
    qed
  qed
  have "crt_Raw x \<notin> crt_Raw ` set p \<longleftrightarrow> \<not> contains p x"
    by (simp add: contains_def image_iff eq_commute [of "crt_Raw x"])
  then show ?thesis
    using assms links by (auto simp: partial_path_def)
qed

lemma trusted_chain_snoc [simp]:
  "p \<noteq> [] \<Longrightarrow> trusted_chain C opts now c (p @ [r]) \<longleftrightarrow>
     partial_path C opts now c p \<and> r \<in> set (Roots opts) \<and> linked C opts now (length p - 1) (last p) r"
  by (auto simp: trusted_chain_def)


subsection \<open>The search finds exactly the trusted chains\<close>

lemma try_roots:
  assumes "partial_path C opts now c chain" "set rs \<subseteq> set (Roots opts)"
  shows "set (fst (fold (try_root C opts now chain) rs st)) =
    set (fst st) \<union> {chain @ [r] | r. r \<in> set rs \<and> linked C opts now (length chain - 1) (last chain) r}"
  using assms(2)
proof (induction rs arbitrary: st)
  case Nil
  then show ?case by simp
next
  case (Cons r rs)
  have ne: "chain \<noteq> []" using assms(1) by (simp add: partial_path_def)
  have "set (fst (try_root C opts now chain r st)) = set (fst st) \<union>
      (if linked C opts now (length chain - 1) (last chain) r then {chain @ [r]} else {})"
    using checkLink_Inr [OF ne, of C "last chain" r now opts]
    by (auto simp: try_root_def linked_def note_err_def split: sum.splits)
  then show ?case using Cons by auto
qed

lemma partial_path_prefix:
  "partial_path C opts now c (p @ xs) \<Longrightarrow> p \<noteq> [] \<Longrightarrow> partial_path C opts now c p"
proof (induction xs rule: rev_induct)
  case (snoc x xs)
  then show ?case
    using partial_path_snoc [of "p @ xs" C opts now c x] by simp
qed simp

text \<open>The trusted chains that extend a path.\<close>

definition extending ::
  "('pk, 'sk) circl \<Rightarrow> VerifyOptions \<Rightarrow> instant \<Rightarrow> Certificate \<Rightarrow> Certificate list \<Rightarrow> Certificate list set" where
  "extending C opts now c p = {ch. trusted_chain C opts now c ch \<and> (\<exists>xs r. ch = p @ xs @ [r])}"

lemma extending_step:
  "extending C opts now c p =
     {p @ [r] | r. trusted_chain C opts now c (p @ [r])} \<union> (\<Union>i. extending C opts now c (p @ [i]))"
proof -
  have "(\<exists>xs r. ch = p @ xs @ [r]) \<longleftrightarrow> (\<exists>r. ch = p @ [r]) \<or> (\<exists>i xs r. ch = (p @ [i]) @ xs @ [r])"
    (is "?l \<longleftrightarrow> ?r") for ch
  proof
    assume ?l
    then obtain xs r where "ch = p @ xs @ [r]" by blast
    then show ?r by (cases xs) auto
  next
    assume ?r
    then show ?l by auto
  qed
  note ext = this
  show ?thesis
  proof (rule set_eqI)
    fix ch
    show "ch \<in> extending C opts now c p \<longleftrightarrow>
      ch \<in> {p @ [r] | r. trusted_chain C opts now c (p @ [r])} \<union> (\<Union>i. extending C opts now c (p @ [i]))"
      using ext [of ch] by (auto simp: extending_def)
  qed
qed

lemma extending_partial:
  assumes "ch \<in> extending C opts now c p" "p \<noteq> []"
  shows "partial_path C opts now c p"
proof -
  obtain xs r where "trusted_chain C opts now c ((p @ xs) @ [r])"
    using assms(1) by (auto simp: extending_def)
  then have "partial_path C opts now c (p @ xs)"
    using assms(2) by (simp del: append_assoc)
  then show ?thesis using partial_path_prefix assms(2) by blast
qed

lemma extending_refused:
  assumes "p \<noteq> []" "\<not> (length p < 6 \<and> i \<in> set (Intermediates opts) \<and> \<not> contains p i
    \<and> linked C opts now (length p - 1) (last p) i)"
  shows "extending C opts now c (p @ [i]) = {}"
  using extending_partial [of _ C opts now c "p @ [i]"] assms
  by (auto simp: partial_path_snoc)

lemma walk_finds:
  "partial_path C opts now c chain \<Longrightarrow>
     set (fst (walk C opts now chain st)) = set (fst st) \<union> extending C opts now c chain"
  "\<lbrakk>partial_path C opts now c chain; length chain < 6; set is \<subseteq> set (Intermediates opts)\<rbrakk> \<Longrightarrow>
     set (fst (walk_inters C opts now chain is st)) =
       set (fst st) \<union> (\<Union>i \<in> set is. extending C opts now c (chain @ [i]))"
proof (induction C opts now chain st and C opts now chain "is" st rule: walk_walk_inters.induct)
  case (1 C opts now chain st)
  let ?st = "fold (try_root C opts now chain) (Roots opts) st"
  have ne: "chain \<noteq> []" using "1.prems" by (simp add: partial_path_def)
  have roots: "set (fst ?st) = set (fst st) \<union> {chain @ [r] | r. trusted_chain C opts now c (chain @ [r])}"
    using try_roots [OF "1.prems" order_refl] "1.prems" ne by simp
  show ?case
  proof (cases "maxChainDepth \<le> length chain")
    case True
    then have "extending C opts now c (chain @ [i]) = {}" for i
      by (intro extending_refused [OF ne]) (simp add: maxChainDepth_def)
    then show ?thesis
      using True roots extending_step [of C opts now c chain]
      by (subst walk.simps) (simp add: Let_def)
  next
    case False
    then have "set (fst (walk_inters C opts now chain (Intermediates opts) ?st)) =
        set (fst ?st) \<union> (\<Union>i \<in> set (Intermediates opts). extending C opts now c (chain @ [i]))"
      using "1.IH" [OF refl] "1.prems" by (simp add: maxChainDepth_def)
    moreover have "(\<Union>i. extending C opts now c (chain @ [i])) =
        (\<Union>i \<in> set (Intermediates opts). extending C opts now c (chain @ [i]))"
      using extending_refused [OF ne, of _ opts C now c] by blast
    ultimately show ?thesis
      using False roots extending_step [of C opts now c chain]
      by (subst walk.simps) (simp add: Let_def Un_assoc)
  qed
next
  case (2 C opts now chain st)
  then show ?case by simp
next
  case (3 C opts now chain i "is" st)
  have ne: "chain \<noteq> []" using "3.prems" by (simp add: partial_path_def)
  show ?case
  proof (cases "crt_RawIssuer (last chain) \<noteq> crt_RawSubject i \<or> contains chain i")
    case True
    then have "extending C opts now c (chain @ [i]) = {}"
      by (intro extending_refused [OF ne]) (auto simp: linked_def)
    then show ?thesis using True "3.IH"(1) "3.prems" by simp
  next
    case False
    show ?thesis
    proof (cases "checkLink C (last chain) i (chain @ [i]) now opts")
      case (Inl e)
      then have "extending C opts now c (chain @ [i]) = {}"
        using checkLink_Inr [OF ne, of C "last chain" i now opts]
        by (intro extending_refused [OF ne]) (auto simp: linked_def)
      then show ?thesis using False Inl "3.IH"(2) "3.prems" by (simp add: note_err_def)
    next
      case (Inr u)
      then have "partial_path C opts now c (chain @ [i])"
        using checkLink_Inr [OF ne, of C "last chain" i now opts] False "3.prems" ne
        by (simp add: partial_path_snoc linked_def)
      then have "set (fst (walk C opts now (chain @ [i]) st)) =
          set (fst st) \<union> extending C opts now c (chain @ [i])"
        using "3.IH"(3) [OF False Inr] by simp
      then show ?thesis using False Inr "3.IH"(4) [OF False Inr] "3.prems" by (simp add: Un_assoc)
    qed
  qed
qed


subsection \<open>Where errors come from\<close>

text \<open>A link between a path and a candidate issuer of the right name that a check refuses.\<close>

definition refused_link ::
  "('pk, 'sk) circl \<Rightarrow> VerifyOptions \<Rightarrow> instant \<Rightarrow> Certificate \<Rightarrow> error \<Rightarrow> bool" where
  "refused_link C opts now c e =
     (\<exists>p i. partial_path C opts now c p \<and> i \<in> set (Roots opts) \<union> set (Intermediates opts)
        \<and> crt_RawIssuer (last p) = crt_RawSubject i
        \<and> checkLink C (last p) i (p @ [i]) now opts = Inl e)"

lemma try_roots_error:
  assumes "partial_path C opts now c chain" "set rs \<subseteq> set (Roots opts)"
    and "snd (fold (try_root C opts now chain) rs st) = Some e"
  shows "snd st = Some e \<or> refused_link C opts now c e"
  using assms(2,3)
proof (induction rs arbitrary: st)
  case Nil
  then show ?case by simp
next
  case (Cons r rs)
  then have "snd (try_root C opts now chain r st) = Some e \<or> refused_link C opts now c e"
    by simp
  then show ?case
    using Cons.prems(1) assms(1)
    by (auto simp: try_root_def note_err_def refused_link_def split: if_splits sum.splits)
qed

lemma walk_error:
  "partial_path C opts now c chain \<Longrightarrow> snd (walk C opts now chain st) = Some e \<Longrightarrow>
     snd st = Some e \<or> refused_link C opts now c e"
  "\<lbrakk>partial_path C opts now c chain; length chain < 6; set is \<subseteq> set (Intermediates opts);
     snd (walk_inters C opts now chain is st) = Some e\<rbrakk> \<Longrightarrow>
     snd st = Some e \<or> refused_link C opts now c e"
proof (induction C opts now chain st and C opts now chain "is" st rule: walk_walk_inters.induct)
  case (1 C opts now chain st)
  let ?st = "fold (try_root C opts now chain) (Roots opts) st"
  have "snd ?st = Some e \<or> refused_link C opts now c e"
  proof (cases "maxChainDepth \<le> length chain")
    case True
    then show ?thesis using "1.prems"(2) by (subst (asm) walk.simps) (simp add: Let_def)
  next
    case False
    then have "snd (walk_inters C opts now chain (Intermediates opts) ?st) = Some e"
      using "1.prems"(2) by (subst (asm) walk.simps) (simp add: Let_def)
    then show ?thesis
      using "1.IH" [OF refl False "1.prems"(1)] False by (simp add: maxChainDepth_def)
  qed
  then show ?case using try_roots_error [OF "1.prems"(1) order_refl] by blast
next
  case (2 C opts now chain st)
  then show ?case by simp
next
  case (3 C opts now chain i "is" st)
  have ne: "chain \<noteq> []" using "3.prems" by (simp add: partial_path_def)
  show ?case
  proof (cases "crt_RawIssuer (last chain) \<noteq> crt_RawSubject i \<or> contains chain i")
    case True
    then show ?thesis using "3.IH"(1) "3.prems" by simp
  next
    case False
    show ?thesis
    proof (cases "checkLink C (last chain) i (chain @ [i]) now opts")
      case (Inl e')
      then have "refused_link C opts now c e'"
        using False "3.prems" by (auto simp: refused_link_def)
      moreover have "snd (note_err e' st) = Some e \<or> refused_link C opts now c e"
        using "3.IH"(2) [OF False Inl] "3.prems" False Inl by simp
      ultimately show ?thesis by (auto simp: note_err_def split: if_splits)
    next
      case (Inr u)
      then have p: "partial_path C opts now c (chain @ [i])"
        using checkLink_Inr [OF ne, of C "last chain" i now opts] False "3.prems" ne
        by (simp add: partial_path_snoc linked_def)
      have "snd (walk C opts now (chain @ [i]) st) = Some e \<or> refused_link C opts now c e"
        using "3.IH"(4) [OF False Inr] "3.prems" False Inr by simp
      then show ?thesis using "3.IH"(3) [OF False Inr p] by blast
    qed
  qed
qed

lemma walk_inters_mismatch:
  "(\<And>i. i \<in> set is \<Longrightarrow> crt_RawIssuer (last chain) \<noteq> crt_RawSubject i) \<Longrightarrow>
     walk_inters C opts now chain is st = st"
  by (induction "is" arbitrary: st) simp_all

lemma try_roots_mismatch:
  "(\<And>r. r \<in> set rs \<Longrightarrow> crt_RawIssuer (last chain) \<noteq> crt_RawSubject r) \<Longrightarrow>
     fold (try_root C opts now chain) rs st = st"
  by (induction rs arbitrary: st) (simp_all add: try_root_def)

lemma partial_path_leaf [simp]: "partial_path C opts now c [c]"
  by (simp add: partial_path_def)

definition verify_time :: "instant \<Rightarrow> VerifyOptions \<Rightarrow> instant" where
  "verify_time clock opts = (if CurrentTime opts = 0 then clock else CurrentTime opts)"

lemma cert_Verify_at:
  "cert_Verify C clock c opts =
     (if valid_at c (verify_time clock opts)
      then
        (case walk C opts (verify_time clock opts) [c] ([], None) of
           ([], None) \<Rightarrow> Inl (Err [ErrUnknownAuthority] ''no chain to a trusted root'')
         | ([], Some e) \<Rightarrow> Inl e
         | (chs, _) \<Rightarrow> Inr chs)
      else Inl (Err [if verify_time clock opts < crt_NotBefore c then ErrNotYetValid else ErrExpired]
        (if verify_time clock opts < crt_NotBefore c then ''valid from'' else ''expired at'')))"
  by (auto simp: cert_Verify_def verify_time_def checkValidity_def valid_at_def Let_def
      split: prod.splits option.splits list.splits)

lemma Verify_chains:
  "if valid_at c (verify_time clock opts) \<and> (\<exists>ch. trusted_chain C opts (verify_time clock opts) c ch)
   then \<exists>chains. cert_Verify C clock c opts = Inr chains
          \<and> set chains = {ch. trusted_chain C opts (verify_time clock opts) c ch}
   else \<exists>e. cert_Verify C clock c opts = Inl e"
proof -
  let ?now = "verify_time clock opts"
  obtain chains err where w: "walk C opts ?now [c] ([], None) = (chains, err)" by force
  have "extending C opts ?now c [c] = {ch. trusted_chain C opts ?now c ch}"
  proof -
    have "\<exists>xs r. ch = [c] @ xs @ [r]" if "trusted_chain C opts ?now c ch" for ch
      using that by (cases ch rule: rev_cases)
        (auto simp: trusted_chain_def partial_path_def neq_Nil_conv)
    then show ?thesis by (auto simp: extending_def)
  qed
  then have "set chains = {ch. trusted_chain C opts ?now c ch}"
    using walk_finds(1) [OF partial_path_leaf, of C opts ?now c "([], None)"] w by simp
  then show ?thesis
    using w by (cases chains; cases err) (auto simp: cert_Verify_at)
qed

subsection \<open>Properties\<close>

text \<open>C2. \<open>Certificate.Verify\<close> is sound and complete: at the time it checks (the current time when
  the option is zero) it returns exactly the trusted chains of the leaf, when the leaf is within
  its validity and there is one, and an error otherwise. A trusted chain starts with the leaf,
  ends with a root, has intermediates in between, at most six certificates before the root and no
  certificate twice among them, and each certificate of it is issued by the next: names match, and
  the issuer is valid, a CA, allowed to sign certificates, within its path length, not refused by
  the revocation check, and its key verifies the signature.\<close>

theorem cert_Verify_trusted_chains:
  "if valid_at c (verify_time clock opts) \<and> (\<exists>ch. trusted_chain C opts (verify_time clock opts) c ch)
   then \<exists>chains. cert_Verify C clock c opts = Inr chains
          \<and> set chains = {ch. trusted_chain C opts (verify_time clock opts) c ch}
   else \<exists>e. cert_Verify C clock c opts = Inl e"
  by (rule Verify_chains)

text \<open>Every error of \<open>Certificate.Verify\<close> has a cause: the leaf is outside its validity, or a
  check refused a link of a path to an issuer that bears the right name (the error is that
  check's), or there is no chain (\<open>ErrUnknownAuthority\<close>); and a leaf within its validity whose
  issuer name is the subject of no root and no intermediate fails with \<open>ErrUnknownAuthority\<close>.\<close>

theorem cert_Verify_errors:
  "(\<forall>e. cert_Verify C clock c opts = Inl e \<longrightarrow>
      (if valid_at c (verify_time clock opts)
       then errors_is e ErrUnknownAuthority \<or> refused_link C opts (verify_time clock opts) c e
       else errors_is e ErrNotYetValid \<or> errors_is e ErrExpired))
   \<and> (valid_at c (verify_time clock opts)
      \<and> (\<forall>i \<in> set (Roots opts) \<union> set (Intermediates opts). crt_RawSubject i \<noteq> crt_RawIssuer c) \<longrightarrow>
      (\<exists>e. cert_Verify C clock c opts = Inl e \<and> errors_is e ErrUnknownAuthority))"
proof (intro conjI allI impI)
  let ?now = "verify_time clock opts"
  fix e
  assume e: "cert_Verify C clock c opts = Inl e"
  show "if valid_at c ?now then errors_is e ErrUnknownAuthority \<or> refused_link C opts ?now c e
      else errors_is e ErrNotYetValid \<or> errors_is e ErrExpired"
    using e walk_error(1) [OF partial_path_leaf, of C opts ?now c "([], None)" e]
    by (auto simp: cert_Verify_at split: prod.splits list.splits option.splits if_splits)
next
  let ?now = "verify_time clock opts"
  assume a: "valid_at c ?now
    \<and> (\<forall>i \<in> set (Roots opts) \<union> set (Intermediates opts). crt_RawSubject i \<noteq> crt_RawIssuer c)"
  then have "walk C opts ?now [c] ([], None) = ([], None)"
    by (subst walk.simps) (simp add: try_roots_mismatch walk_inters_mismatch Let_def eq_commute)
  then show "\<exists>e. cert_Verify C clock c opts = Inl e \<and> errors_is e ErrUnknownAuthority"
    using a by (simp add: cert_Verify_at)
qed

theorem cert_Verify_errors_witness:
  "\<exists>e. cert_Verify toy_circl 5 toy_template
      \<lparr>Roots = [], Intermediates = [], CurrentTime = 0, CheckRevocation = None\<rparr> = Inl e
    \<and> errors_is e ErrUnknownAuthority"
  using cert_Verify_errors [of toy_circl 5 toy_template
      "\<lparr>Roots = [], Intermediates = [], CurrentTime = 0, CheckRevocation = None\<rparr>"]
  by (simp add: valid_at_def verify_time_def toy_template_sel second_def)

end
