(* ===== verification/Crl.thy ===== *)
theory Crl
  imports Issuance
begin

section \<open>Certificate revocation lists (internal/pqx509/crl.go)\<close>

text \<open>
  \<open>CreateRevocationList\<close>, \<open>ParseRevocationList\<close>, \<open>VerifySignatureFrom\<close> and \<open>IsRevoked\<close>,
  with \<open>revokedCertificateDER\<close> and \<open>tbsCertList\<close> of asn1types.go. A nil \<open>*big.Int\<close> is
  \<open>None\<close>, a nil issuer or signer too; the zero \<open>time.Time\<close> of an absent \<open>NextUpdate\<close> is \<open>0\<close>.
\<close>

subsection \<open>Types\<close>

record RevocationEntry =
  re_Serial :: "int option"
  re_Time :: instant
  re_Reason :: int

record RevocationList =
  rl_Raw :: bytes
  rl_RawTBS :: bytes
  rl_Issuer :: Name
  rl_RawIssuer :: bytes
  rl_SigAlg :: algorithm
  rl_Signature :: bytes
  rl_ThisUpdate :: instant
  rl_NextUpdate :: instant
  rl_Number :: "int option"
  rl_AuthorityKeyID :: bytes
  rl_Entries :: "RevocationEntry list"

record revokedCertificateDER =
  rc_serial :: int
  rc_date :: raw_value
  rc_exts :: "extension list"

record tbsCertList =
  tl_version :: int
  tl_sigalg :: algorithmIdentifier
  tl_issuer :: raw_value
  tl_this :: raw_value
  tl_next :: raw_value
  tl_revoked :: "revokedCertificateDER list"
  tl_exts :: "extension list"

subsection \<open>The ASN.1 structures\<close>

definition marshal_optional_extensions :: "extension list \<Rightarrow> bytes res" where
  "marshal_optional_extensions exts =
     (if exts = [] then Inr []
      else rbind (rmap marshal_extension exts) (\<lambda>bss. Inr (tlv 0 True 16 (concat bss))))"

definition marshal_revoked :: "revokedCertificateDER \<Rightarrow> bytes res" where
  "marshal_revoked r =
     rbind (marshal_int (rc_serial r)) (\<lambda>serial.
     rbind (marshal_optional_extensions (rc_exts r)) (\<lambda>exts.
       Inr (tlv 0 True 16 (serial @ marshal_raw (rc_date r) @ exts))))"

definition revoked_fields :: "bytes \<Rightarrow> revokedCertificateDER res" where
  "revoked_fields inner =
     rbind (parse_big inner) (\<lambda>(serial, r).
     rbind (parse_raw no_params r) (\<lambda>(date, r1).
     rbind (parse_slice optional_params (Univ 16 True) parse_extension r1) (\<lambda>(exts, _).
       Inr \<lparr>rc_serial = serial, rc_date = date, rc_exts = exts\<rparr>)))"

definition parse_revoked :: "bytes \<Rightarrow> (revokedCertificateDER \<times> bytes) res" where
  "parse_revoked = parse_struct no_params revoked_fields \<lparr>rc_serial = 0, rc_date = zero_raw, rc_exts = []\<rparr>"

definition marshal_revoked_list :: "revokedCertificateDER list \<Rightarrow> bytes res" where
  "marshal_revoked_list rs =
     (if rs = [] then Inr []
      else rbind (rmap marshal_revoked rs) (\<lambda>bss. Inr (tlv 0 True 16 (concat bss))))"

definition marshal_tbsCertList :: "tbsCertList \<Rightarrow> bytes res" where
  "marshal_tbsCertList t =
     rbind (marshal_int (tl_version t)) (\<lambda>version.
     rbind (marshal_algorithmIdentifier (tl_sigalg t)) (\<lambda>alg.
     rbind (marshal_revoked_list (tl_revoked t)) (\<lambda>revoked.
     rbind (marshal_extensions 0 (tl_exts t)) (\<lambda>exts.
       Inr (tlv 0 True 16
         (version @ alg @ marshal_raw (tl_issuer t) @ marshal_raw (tl_this t)
          @ (if tl_next t = zero_raw then [] else marshal_raw (tl_next t)) @ revoked @ exts))))))"

definition tbsCertList_fields :: "bytes \<Rightarrow> tbsCertList res" where
  "tbsCertList_fields inner =
     rbind (parse_int no_params 0 inner) (\<lambda>(v, r0).
     rbind (parse_algorithmIdentifier r0) (\<lambda>(alg, r1).
     rbind (parse_raw no_params r1) (\<lambda>(issuer, r2).
     rbind (parse_raw no_params r2) (\<lambda>(this, r3).
     rbind (parse_raw optional_params r3) (\<lambda>(next, r4).
     rbind (parse_slice optional_params (Univ 16 True) parse_revoked r4) (\<lambda>(revoked, r5).
     rbind (parse_extensions 0 r5) (\<lambda>(exts, _).
       Inr \<lparr>tl_version = v, tl_sigalg = alg, tl_issuer = issuer, tl_this = this, tl_next = next,
            tl_revoked = revoked, tl_exts = exts\<rparr>)))))))"

definition parse_tbsCertList :: "bytes \<Rightarrow> (tbsCertList \<times> bytes) res" where
  "parse_tbsCertList = parse_struct no_params tbsCertList_fields
     \<lparr>tl_version = 0, tl_sigalg = algorithm_identifier [], tl_issuer = zero_raw, tl_this = zero_raw,
      tl_next = zero_raw, tl_revoked = [], tl_exts = []\<rparr>"

subsection \<open>Creation\<close>

definition revoked_entry :: "RevocationEntry \<Rightarrow> revokedCertificateDER res" where
  "revoked_entry e =
     (case re_Serial e of
        None \<Rightarrow> Inl (Err [] ''pqx509: revocation entry serial number must be positive'')
      | Some serial \<Rightarrow>
          if serial \<le> 0
          then Inl (Err [] ''pqx509: revocation entry serial number must be positive'')
          else
            rbind (marshalTime (re_Time e)) (\<lambda>when.
              if re_Reason e \<noteq> 0
              then rbind (marshalCRLReason (re_Reason e)) (\<lambda>v.
                     Inr \<lparr>rc_serial = serial, rc_date = when,
                          rc_exts = [ext_of oidExtCRLReason False v]\<rparr>)
              else Inr \<lparr>rc_serial = serial, rc_date = when, rc_exts = []\<rparr>))"

definition CreateRevocationList ::
  "Certificate option \<Rightarrow> Signer option \<Rightarrow> int option \<Rightarrow> RevocationEntry list \<Rightarrow> instant \<Rightarrow> instant
     \<Rightarrow> bytes res" where
  "CreateRevocationList issuer_p signer_p number_p entries thisUpdate nextUpdate =
     (case (issuer_p, signer_p) of
        (Some issuer, Some signer) \<Rightarrow>
          (case number_p of
             None \<Rightarrow> Inl (Err [] ''pqx509: CRL number must be a non-negative integer'')
           | Some number \<Rightarrow>
               if number < 0 then Inl (Err [] ''pqx509: CRL number must be a non-negative integer'')
               else if \<not> thisUpdate < nextUpdate
               then Inl (Err [] ''pqx509: nextUpdate must be after thisUpdate'')
               else if crt_KeyUsage issuer \<noteq> 0 \<and> crt_KeyUsage issuer AND KeyUsageCRLSign = 0
               then Inl (Err [ErrKeyUsageNotPermitted] ''lacks cRLSign'')
               else if sg_alg signer \<noteq> pub_alg (crt_PublicKey issuer)
               then Inl (Err [] ''pqx509: signer algorithm does not match the issuer key algorithm'')
               else
                 rbind (marshalTime thisUpdate) (\<lambda>thisDER.
                 rbind (marshalTime nextUpdate) (\<lambda>nextDER.
                 rbind (rmap revoked_entry entries) (\<lambda>revoked.
                 rbind (KeyIdentifier (crt_PublicKey issuer)) (\<lambda>akid.
                 rbind (marshalAuthorityKeyID akid) (\<lambda>akidDER.
                 rbind (marshalCRLNumber number) (\<lambda>numberDER.
                 rbind (subject_der issuer) (\<lambda>issuerDER.
                 rbind (rmap_err (wrap_errs [] ''pqx509: marshaling TBSCertList'')
                   (marshal_tbsCertList
                     \<lparr>tl_version = 1, tl_sigalg = algorithm_identifier (alg_OID (sg_alg signer)),
                      tl_issuer = raw_full issuerDER, tl_this = thisDER, tl_next = nextDER,
                      tl_revoked = revoked,
                      tl_exts = [ext_of oidExtAuthorityKeyID False akidDER,
                                 ext_of oidExtCRLNumber False numberDER]\<rparr>)) (\<lambda>tbsDER.
                   sign_tbs signer (sg_alg signer) ''pqx509: signing CRL'' tbsDER)))))))))
      | _ \<Rightarrow> Inl (Err [] ''pqx509: issuer and signer are required''))"

subsection \<open>Parsing\<close>

fun parse_crl_exts :: "RevocationList \<Rightarrow> oid list \<Rightarrow> extension list \<Rightarrow> RevocationList res" where
  "parse_crl_exts l seen [] = Inr l"
| "parse_crl_exts l seen (e # es) =
     (if ext_id e \<in> set seen then Inl (Err [ErrMalformedDER] ''duplicate CRL extension'')
      else
        rbind
          (if ext_id e = oidExtAuthorityKeyID
           then rbind (parseAuthorityKeyID (ext_value e)) (\<lambda>k. Inr (l\<lparr>rl_AuthorityKeyID := k\<rparr>))
           else if ext_id e = oidExtCRLNumber
           then rbind (parse_crl_number (ext_value e)) (\<lambda>n. Inr (l\<lparr>rl_Number := Some n\<rparr>))
           else if ext_critical e then Inl (Err [ErrUnsupportedCriticalExtension] ''CRL extension'')
           else Inr l)
          (\<lambda>l'. parse_crl_exts l' (ext_id e # seen) es))"

fun parse_entry_exts :: "RevocationEntry \<Rightarrow> extension list \<Rightarrow> RevocationEntry res" where
  "parse_entry_exts entry [] = Inr entry"
| "parse_entry_exts entry (e # es) =
     (if ext_id e = oidExtCRLReason
      then rbind (parseCRLReason (ext_value e)) (\<lambda>r. parse_entry_exts (entry\<lparr>re_Reason := r\<rparr>) es)
      else if ext_critical e
      then Inl (Err [ErrUnsupportedCriticalExtension] ''CRL entry extension'')
      else parse_entry_exts entry es)"

definition parse_entry :: "revokedCertificateDER \<Rightarrow> RevocationEntry res" where
  "parse_entry rc =
     rbind (parseTime (rc_date rc)) (\<lambda>when.
       parse_entry_exts \<lparr>re_Serial = Some (rc_serial rc), re_Time = when, re_Reason = 0\<rparr> (rc_exts rc))"

definition ParseRevocationList :: "bytes \<Rightarrow> RevocationList res" where
  "ParseRevocationList der =
     rbind (unmarshal_all parse_signed ''CRL'' der) (\<lambda>outer.
     rbind (unmarshal_all parse_tbsCertList ''TBSCertList'' (rv_full (sd_tbs outer))) (\<lambda>tbs.
     rbind (algorithmFromOID (aid_algorithm (sd_alg outer))) (\<lambda>alg.
       if rv_full (aid_parameters (sd_alg outer)) \<noteq> []
       then Inl (Err [ErrMalformedDER] ''CRL signature AlgorithmIdentifier must omit parameters'')
       else if rv_full (aid_parameters (tl_sigalg tbs)) \<noteq> []
       then Inl (Err [ErrMalformedDER] ''TBSCertList AlgorithmIdentifier must omit parameters'')
       else if bs_bits (sd_sig outer) mod 8 \<noteq> 0
       then Inl (Err [ErrMalformedDER] ''CRL signature BIT STRING has unused bits'')
       else if length (bs_bytes (sd_sig outer)) \<noteq> SignatureSize alg
       then Inl (Err [ErrMalformedDER] ''CRL signature size'')
       else
         rbind (ParseName (rv_full (tl_issuer tbs))) (\<lambda>issuer.
         rbind (parseTime (tl_this tbs)) (\<lambda>thisUpdate.
         rbind (if 0 < length (rv_full (tl_next tbs)) then parseTime (tl_next tbs) else Inr 0)
           (\<lambda>nextUpdate.
           if tl_version tbs \<noteq> 1 \<and> 0 < length (tl_exts tbs)
           then Inl (Err [ErrMalformedDER] ''CRL version carries extensions'')
           else
             rbind (parse_crl_exts
               \<lparr>rl_Raw = der, rl_RawTBS = rv_full (sd_tbs outer), rl_Issuer = issuer,
                rl_RawIssuer = rv_full (tl_issuer tbs), rl_SigAlg = alg,
                rl_Signature = bs_bytes (sd_sig outer), rl_ThisUpdate = thisUpdate,
                rl_NextUpdate = nextUpdate, rl_Number = None, rl_AuthorityKeyID = [],
                rl_Entries = []\<rparr> [] (tl_exts tbs)) (\<lambda>l.
             rbind (rmap parse_entry (tl_revoked tbs)) (\<lambda>entries.
               Inr (l\<lparr>rl_Entries := entries\<rparr>)))))))))"

subsection \<open>Use\<close>

definition crl_VerifySignatureFrom ::
  "('pk, 'sk) circl \<Rightarrow> RevocationList \<Rightarrow> Certificate option \<Rightarrow> unit res" where
  "crl_VerifySignatureFrom C l issuer_p =
     (case issuer_p of
        None \<Rightarrow> Inl (Err [] ''pqx509: issuer is required'')
      | Some issuer \<Rightarrow>
          if rl_RawIssuer l \<noteq> crt_RawSubject issuer
          then Inl (Err [ErrUnknownAuthority] ''CRL issuer does not match certificate subject'')
          else if rl_SigAlg l \<noteq> pub_alg (crt_PublicKey issuer)
          then Inl (Err [ErrBadSignature] ''CRL algorithm differs from the issuer key'')
          else Verify C (crt_PublicKey issuer) (rl_RawTBS l) (rl_Signature l))"

definition zero_entry :: RevocationEntry where
  "zero_entry = \<lparr>re_Serial = None, re_Time = 0, re_Reason = 0\<rparr>"

fun find_revoked :: "RevocationEntry list \<Rightarrow> int option \<Rightarrow> RevocationEntry \<times> bool" where
  "find_revoked [] serial = (zero_entry, False)"
| "find_revoked (e # es) serial =
     (if re_Serial e \<noteq> None \<and> serial \<noteq> None \<and> re_Serial e = serial then (e, True)
      else find_revoked es serial)"

definition IsRevoked :: "RevocationList \<Rightarrow> int option \<Rightarrow> RevocationEntry \<times> bool" where
  "IsRevoked l serial = find_revoked (rl_Entries l) serial"


subsection \<open>Codecs\<close>

lemma parse_optional_slice:
  assumes "length body < 2 ^ 31"
  shows "parse_slice optional_params (Univ 16 True) dec (tlv 0 True 16 body @ rest) =
    rbind (parse_sequence_of (Univ 16 True) dec body) (\<lambda>v. Inr (v, rest))"
  using assms by (simp add: parse_slice_def parse_field_plain params_defs)

lemma parse_optional_slice_absent [simp]:
  "parse_slice optional_params (Univ 16 True) dec [] = Inr ([], [])"
  by (simp add: parse_slice_def params_defs)

lemma parse_optional_slice_skip:
  assumes "length body < 2 ^ 31"
  shows "parse_slice optional_params (Univ 16 True) dec (tlv 2 True 0 body @ rest) =
    Inr ([], tlv 2 True 0 body @ rest)"
  using assms by (simp add: parse_slice_def parse_field_skip field_defs)

lemma parse_optional_extensions:
  assumes "marshal_optional_extensions exts = Inr bs" "list_all extension_ok exts" "length bs < 2 ^ 31"
  shows "parse_slice optional_params (Univ 16 True) parse_extension bs = Inr (exts, [])"
proof (cases "exts = []")
  case True
  then show ?thesis using assms(1) by (simp add: marshal_optional_extensions_def)
next
  case False
  then obtain bss where bss: "rmap marshal_extension exts = Inr bss" "bs = tlv 0 True 16 (concat bss)"
    using assms(1) by (auto simp: marshal_optional_extensions_def go_inv)
  then have l: "length (concat bss) < 2 ^ 31" using assms(3) tlv_body_bound by blast
  show ?thesis
    using parse_optional_slice [OF l, of parse_extension "[]"]
      extension_codec.parse_sequence_of_enc [OF bss(1) assms(2) l] bss(2) by simp
qed

definition revoked_ok :: "revokedCertificateDER \<Rightarrow> bool" where
  "revoked_ok r = (raw_ok (rc_date r) \<and> list_all extension_ok (rc_exts r))"

interpretation revoked_codec: asn1_element marshal_revoked parse_revoked revoked_ok "Univ 16 True"
proof
  fix r bs rest
  assume r: "revoked_ok r" "marshal_revoked r = Inr bs" "length bs < 2 ^ 31"
  let ?d = "marshal_raw (rc_date r)"
  obtain serial exts where parts: "marshal_int (rc_serial r) = Inr serial"
    "marshal_optional_extensions (rc_exts r) = Inr exts" "bs = tlv 0 True 16 (serial @ ?d @ exts)"
    using r(2) by (auto simp: marshal_revoked_def go_inv)
  then have l: "length (serial @ ?d @ exts) < 2 ^ 31" using r(3) tlv_body_bound by blast
  have "parse_big (serial @ ?d @ exts) = Inr (rc_serial r, ?d @ exts)"
    using big_codec.dec_enc [OF _ parts(1)] l by simp
  moreover have "parse_raw no_params (?d @ exts) = Inr (rc_date r, exts)"
    using raw_codec.dec_enc [OF _ refl, of "rc_date r" exts] r(1) l by (simp add: revoked_ok_def)
  moreover have "parse_slice optional_params (Univ 16 True) parse_extension exts = Inr (rc_exts r, [])"
    using parse_optional_extensions [OF parts(2)] r(1) l by (simp add: revoked_ok_def)
  ultimately have "revoked_fields (serial @ ?d @ exts) = Inr r"
    by (simp add: revoked_fields_def)
  then show "parse_revoked (bs @ rest) = Inr (r, rest)"
    by (simp add: parse_revoked_def parts(3) parse_struct_tlv [OF l])
next
  fix r bs
  assume "revoked_ok r" "marshal_revoked r = Inr bs"
  then show "\<exists>cls cons tag body. bs = tlv cls cons tag body \<and> cls < 4 \<and> tag < 31 \<and>
      (\<forall>len. \<not> element_mismatch (Univ 16 True)
        \<lparr>h_class = cls, h_compound = cons, h_tag = tag, h_len = len\<rparr>)"
    by (intro exI [of _ 0] exI [of _ True] exI [of _ 16])
      (auto simp: marshal_revoked_def go_inv element_mismatch_def)
qed

text \<open>The optional list of entries, when the explicitly tagged extensions follow.\<close>

lemma parse_revoked_list:
  assumes "marshal_revoked_list rs = Inr bs" "list_all revoked_ok rs" "length bs < 2 ^ 31"
    and "marshal_extensions 0 exts = Inr es" "length es < 2 ^ 31"
  shows "parse_slice optional_params (Univ 16 True) parse_revoked (bs @ es) = Inr (rs, es)"
proof (cases "rs = []")
  case True
  show ?thesis
  proof (cases "exts = []")
    case True
    then show ?thesis using \<open>rs = []\<close> assms by (simp add: marshal_extensions_def marshal_revoked_list_def)
  next
    case False
    then obtain body where es: "es = tlv 2 True 0 body"
      using assms(4) by (auto simp: marshal_extensions_def make_field_def explicit_tag_def go_inv)
    then have "length body < 2 ^ 31" using assms(5) tlv_body_bound by blast
    then show ?thesis
      using parse_optional_slice_skip [of body parse_revoked "[]"] es \<open>rs = []\<close> assms(1)
      by (simp add: marshal_revoked_list_def)
  qed
next
  case False
  then obtain bss where bss: "rmap marshal_revoked rs = Inr bss" "bs = tlv 0 True 16 (concat bss)"
    using assms(1) by (auto simp: marshal_revoked_list_def go_inv)
  then have l: "length (concat bss) < 2 ^ 31" using assms(3) tlv_body_bound by blast
  show ?thesis
    using parse_optional_slice [OF l, of parse_revoked es]
      revoked_codec.parse_sequence_of_enc [OF bss(1) assms(2) l] bss(2) by simp
qed

definition tbsCertList_ok :: "tbsCertList \<Rightarrow> bool" where
  "tbsCertList_ok t = (int64_ok (tl_version t) \<and> algorithmIdentifier_ok (tl_sigalg t)
     \<and> raw_ok (tl_issuer t) \<and> raw_ok (tl_this t) \<and> raw_ok (tl_next t)
     \<and> list_all revoked_ok (tl_revoked t) \<and> list_all extension_ok (tl_exts t))"

lemma parse_raw_optional:
  "raw_ok rv \<Longrightarrow> length (marshal_raw rv) < 2 ^ 31 \<Longrightarrow>
     parse_raw optional_params (marshal_raw rv @ rest) = Inr (rv, rest)"
proof -
  assume rv: "raw_ok rv" "length (marshal_raw rv) < 2 ^ 31"
  obtain cls cons tag body where r: "rv = raw_of cls cons tag body" "cls < 4" "tag < 31"
    using raw_okE [OF rv(1)] .
  then have "length body < 2 ^ 31" using rv(2) length_tlv_body [of body cls cons tag] by simp
  then show ?thesis
    using r parse_raw_tlv [of cls tag body optional_params cons rest] by (simp add: params_defs)
qed

lemma raw_ok_nonzero: "raw_ok rv \<Longrightarrow> rv \<noteq> zero_raw"
  by (auto elim!: raw_okE simp: zero_raw_def raw_of_def)

interpretation tbsCertList_codec: asn1_codec marshal_tbsCertList parse_tbsCertList tbsCertList_ok
proof
  fix t bs rest
  assume t: "tbsCertList_ok t" "marshal_tbsCertList t = Inr bs" "length bs < 2 ^ 31"
  let ?i = "marshal_raw (tl_issuer t)" and ?u = "marshal_raw (tl_this t)"
    and ?n = "marshal_raw (tl_next t)"
  have ok: "int64_ok (tl_version t)" "algorithmIdentifier_ok (tl_sigalg t)" "raw_ok (tl_issuer t)"
    "raw_ok (tl_this t)" "raw_ok (tl_next t)" "list_all revoked_ok (tl_revoked t)"
    "list_all extension_ok (tl_exts t)"
    using t(1) by (simp_all add: tbsCertList_ok_def)
  obtain v a r e where parts: "marshal_int (tl_version t) = Inr v"
    "marshal_algorithmIdentifier (tl_sigalg t) = Inr a" "marshal_revoked_list (tl_revoked t) = Inr r"
    "marshal_extensions 0 (tl_exts t) = Inr e"
    and bs: "bs = tlv 0 True 16 (v @ a @ ?i @ ?u @ ?n @ r @ e)"
    using t(2) raw_ok_nonzero [OF ok(5)] by (auto simp: marshal_tbsCertList_def go_inv)
  then have l: "length (v @ a @ ?i @ ?u @ ?n @ r @ e) < 2 ^ 31" using t(3) tlv_body_bound by blast
  have "parse_int no_params 0 (v @ a @ ?i @ ?u @ ?n @ r @ e) = Inr (tl_version t, a @ ?i @ ?u @ ?n @ r @ e)"
    using int_codec.dec_enc [OF ok(1) parts(1)] l by simp
  moreover have "parse_algorithmIdentifier (a @ ?i @ ?u @ ?n @ r @ e) =
      Inr (tl_sigalg t, ?i @ ?u @ ?n @ r @ e)"
    using algorithmIdentifier_codec.dec_enc [OF ok(2) parts(2)] l by simp
  moreover have "parse_raw no_params (?i @ ?u @ ?n @ r @ e) = Inr (tl_issuer t, ?u @ ?n @ r @ e)"
    using raw_codec.dec_enc [OF ok(3) refl] l by simp
  moreover have "parse_raw no_params (?u @ ?n @ r @ e) = Inr (tl_this t, ?n @ r @ e)"
    using raw_codec.dec_enc [OF ok(4) refl] l by simp
  moreover have "parse_raw optional_params (?n @ r @ e) = Inr (tl_next t, r @ e)"
    using parse_raw_optional [OF ok(5)] l by simp
  moreover have "parse_slice optional_params (Univ 16 True) parse_revoked (r @ e) = Inr (tl_revoked t, e)"
    using parse_revoked_list [OF parts(3) ok(6) _ parts(4)] l by simp
  moreover have "parse_extensions 0 e = Inr (tl_exts t, [])"
    using parse_extensions_marshal [OF parts(4) ok(7)] l by simp
  ultimately have "tbsCertList_fields (v @ a @ ?i @ ?u @ ?n @ r @ e) = Inr t"
    by (simp add: tbsCertList_fields_def)
  then show "parse_tbsCertList (bs @ rest) = Inr (t, rest)"
    by (simp add: parse_tbsCertList_def bs parse_struct_tlv [OF l])
qed


subsection \<open>Parsing what was created\<close>

definition entry_view :: "RevocationEntry \<Rightarrow> RevocationEntry" where
  "entry_view e = e\<lparr>re_Time := time_Truncate (re_Time e)\<rparr>"

lemma revoked_entry_parse:
  assumes "revoked_entry e = Inr rc" "int32_ok (re_Reason e)"
  shows "parse_entry rc = Inr (entry_view e)" "revoked_ok rc"
    "\<exists>n. re_Serial e = Some n \<and> 0 < n \<and> rc_serial rc = n"
proof -
  obtain n date where n: "re_Serial e = Some n" "0 < n" "marshalTime (re_Time e) = Inr date"
    and rc: "rc = \<lparr>rc_serial = n, rc_date = date,
      rc_exts = (if re_Reason e \<noteq> 0 then [ext_of oidExtCRLReason False (projr (marshalCRLReason (re_Reason e)))]
                 else [])\<rparr>"
    using assms(1) by (auto simp: revoked_entry_def go_inv split: option.splits if_splits)
  have r: "marshalCRLReason (re_Reason e) = Inr (tlv 0 False 10 (int_bytes (re_Reason e)))"
    by (simp add: marshalCRLReason_def)
  have "length (int_bytes (re_Reason e)) \<le> 5"
    using length_int_bytes [of 4 "re_Reason e"] assms(2) by (simp add: int32_ok_def)
  then have "length (tlv 0 False 10 (int_bytes (re_Reason e))) < 2 ^ 31"
    using length_tlv_le [of 10 "int_bytes (re_Reason e)" 0 False] by simp
  then have p: "parseCRLReason (projr (marshalCRLReason (re_Reason e))) = Inr (re_Reason e)"
    using crl_reason_value.parse_marshal [OF assms(2) r] r by simp
  show "parse_entry rc = Inr (entry_view e)"
    using p n marshalTime_Inr [OF n(3)] by (cases e) (simp add: rc parse_entry_def entry_view_def)
  show "revoked_ok rc"
    using marshalTime_Inr [OF n(3)] by (simp add: rc revoked_ok_def extension_ok_def ext_oids oid_ok_def)
  show "\<exists>n. re_Serial e = Some n \<and> 0 < n \<and> rc_serial rc = n"
    using n rc by simp
qed

lemma revoked_entries_parse:
  assumes "rmap revoked_entry es = Inr rcs" "list_all (\<lambda>e. int32_ok (re_Reason e)) es"
  shows "rmap parse_entry rcs = Inr (map entry_view es)" "list_all revoked_ok rcs"
  using assms
proof (induction es arbitrary: rcs)
  case Nil
  { case 1 then show ?case by simp next case 2 then show ?case by simp }
next
  case (Cons e es)
  { case 1
    then show ?case using Cons.IH(1) by (auto simp: go_inv revoked_entry_parse)
  next
    case 2
    then show ?case using Cons.IH(2) by (auto simp: go_inv revoked_entry_parse) }
qed

text \<open>The CRL that the arguments of \<open>CreateRevocationList\<close> describe.\<close>

definition issued_crl ::
  "Certificate \<Rightarrow> int \<Rightarrow> RevocationEntry list \<Rightarrow> instant \<Rightarrow> instant \<Rightarrow> bytes \<Rightarrow> bytes \<Rightarrow> bytes \<Rightarrow> bytes
     \<Rightarrow> RevocationList" where
  "issued_crl issuer number entries thisUpdate nextUpdate der tbsDER sig issuerDER =
     \<lparr>rl_Raw = der, rl_RawTBS = tbsDER, rl_Issuer = crt_Subject issuer, rl_RawIssuer = issuerDER,
      rl_SigAlg = pub_alg (crt_PublicKey issuer), rl_Signature = sig,
      rl_ThisUpdate = time_Truncate thisUpdate, rl_NextUpdate = time_Truncate nextUpdate,
      rl_Number = Some number,
      rl_AuthorityKeyID = take 20 (sha256 (pub_bytes (crt_PublicKey issuer))),
      rl_Entries = map entry_view entries\<rparr>"

lemma CreateRevocationList_Inr:
  assumes c: "CreateRevocationList (Some issuer) (Some signer) (Some number) entries thisUpdate nextUpdate = Inr der"
  obtains thisDER nextDER revoked akidDER numberDER issuerDER tbsDER sig
  where "0 \<le> number" "thisUpdate < nextUpdate"
    "crt_KeyUsage issuer = 0 \<or> crt_KeyUsage issuer AND KeyUsageCRLSign \<noteq> 0"
    "sg_alg signer = pub_alg (crt_PublicKey issuer)"
    "marshalTime thisUpdate = Inr thisDER" "marshalTime nextUpdate = Inr nextDER"
    "rmap revoked_entry entries = Inr revoked"
    "KeyIdentifier (crt_PublicKey issuer) = Inr (take 20 (sha256 (pub_bytes (crt_PublicKey issuer))))"
    "marshalAuthorityKeyID (take 20 (sha256 (pub_bytes (crt_PublicKey issuer)))) = Inr akidDER"
    "marshalCRLNumber number = Inr numberDER" "subject_der issuer = Inr issuerDER"
    "marshal_tbsCertList
       \<lparr>tl_version = 1, tl_sigalg = algorithm_identifier (alg_OID (sg_alg signer)),
        tl_issuer = raw_full issuerDER, tl_this = thisDER, tl_next = nextDER, tl_revoked = revoked,
        tl_exts = [ext_of oidExtAuthorityKeyID False akidDER, ext_of oidExtCRLNumber False numberDER]\<rparr>
       = Inr tbsDER"
    "sg_sign signer tbsDER = Inr sig"
    "marshal_signed \<lparr>sd_tbs = raw_full tbsDER,
        sd_alg = algorithm_identifier (alg_OID (sg_alg signer)), sd_sig = octet_bits sig\<rparr> = Inr der"
  using c
  by (auto simp: CreateRevocationList_def sign_tbs_def go_inv KeyIdentifier_def split: if_splits)

lemma CreateRevocationList_parse:
  assumes c: "CreateRevocationList (Some issuer) (Some signer) (Some number) entries thisUpdate nextUpdate = Inr der"
    and l: "length der < 2 ^ 31" and s: "signer_ok C signer" and i: "subject_ok issuer"
    and r: "list_all (\<lambda>e. int32_ok (re_Reason e)) entries"
  shows "\<exists>tbsDER sig issuerDER.
    ParseRevocationList der = Inr (issued_crl issuer number entries thisUpdate nextUpdate der tbsDER sig issuerDER)
    \<and> subject_der issuer = Inr issuerDER \<and> Verify C (sg_pub signer) tbsDER sig = Inr ()"
proof -
  let ?akid = "take 20 (sha256 (pub_bytes (crt_PublicKey issuer)))"
  from CreateRevocationList_Inr [OF c] obtain thisDER nextDER revoked akidDER numberDER issuerDER tbsDER sig
    where n: "0 \<le> number" "thisUpdate < nextUpdate"
    "crt_KeyUsage issuer = 0 \<or> crt_KeyUsage issuer AND KeyUsageCRLSign \<noteq> 0"
    and alg: "sg_alg signer = pub_alg (crt_PublicKey issuer)"
    and td: "marshalTime thisUpdate = Inr thisDER" and nd: "marshalTime nextUpdate = Inr nextDER"
    and rv: "rmap revoked_entry entries = Inr revoked"
    and ki: "KeyIdentifier (crt_PublicKey issuer) = Inr ?akid"
    and ad: "marshalAuthorityKeyID ?akid = Inr akidDER"
    and num: "marshalCRLNumber number = Inr numberDER" and sd: "subject_der issuer = Inr issuerDER"
    and tbs: "marshal_tbsCertList
       \<lparr>tl_version = 1, tl_sigalg = algorithm_identifier (alg_OID (sg_alg signer)),
        tl_issuer = raw_full issuerDER, tl_this = thisDER, tl_next = nextDER, tl_revoked = revoked,
        tl_exts = [ext_of oidExtAuthorityKeyID False akidDER, ext_of oidExtCRLNumber False numberDER]\<rparr>
       = Inr tbsDER"
    and sg: "sg_sign signer tbsDER = Inr sig"
    and ms: "marshal_signed \<lparr>sd_tbs = raw_full tbsDER,
        sd_alg = algorithm_identifier (alg_OID (sg_alg signer)), sd_sig = octet_bits sig\<rparr> = Inr der" .
  have valid: "alg_Valid (sg_alg signer)" using s by (auto simp: signer_ok_def pub_ok_def)
  obtain bi where bi: "issuerDER = tlv 0 True 16 bi" "ParseName issuerDER = Inr (crt_Subject issuer)"
    using subject_der_ok [OF i sd] by blast
  let ?exts = "[ext_of oidExtAuthorityKeyID False akidDER, ext_of oidExtCRLNumber False numberDER]"
  define T where "T = \<lparr>tl_version = 1, tl_sigalg = algorithm_identifier (alg_OID (sg_alg signer)),
      tl_issuer = raw_of 0 True 16 bi, tl_this = thisDER, tl_next = nextDER, tl_revoked = revoked,
      tl_exts = ?exts\<rparr>"
  have mT: "marshal_tbsCertList T = Inr tbsDER"
    using tbs bi(1) raw_ok_nonzero [of nextDER] marshalTime_Inr [OF nd]
    by (simp add: marshal_tbsCertList_def T_def)
  obtain body where body: "tbsDER = tlv 0 True 16 body"
    using mT by (auto simp: marshal_tbsCertList_def go_inv)
  have outer: "parse_signed der = Inr (\<lparr>sd_tbs = raw_of 0 True 16 body,
      sd_alg = algorithm_identifier (alg_OID (sg_alg signer)), sd_sig = octet_bits sig\<rparr>, [])"
    and lt: "length tbsDER < 2 ^ 31"
    using parse_marshal_signed [of body "sg_alg signer" sig der] ms valid l body by simp_all
  obtain eb where eb: "marshal_extensions 0 ?exts = Inr eb" "length eb \<le> length tbsDER"
    using mT length_tlv_body [of _ 0 True 16] unfolding T_def
    by (auto simp: marshal_tbsCertList_def go_inv) (smt (verit) add_leE length_append)
  have "length eb < 2 ^ 31" using eb(2) lt by simp
  then have el: "length akidDER < 2 ^ 31" "length numberDER < 2 ^ 31"
    using ext_values_bound [OF eb(1), of "2 ^ 31" "ext_of oidExtAuthorityKeyID False akidDER"]
      ext_values_bound [OF eb(1), of "2 ^ 31" "ext_of oidExtCRLNumber False numberDER"] by simp_all
  note tm = marshalTime_Inr [OF td] marshalTime_Inr [OF nd]
  note ent = revoked_entries_parse [OF rv r]
  have "tbsCertList_ok T"
    using tm ent(2) valid
    by (simp add: tbsCertList_ok_def T_def raw_ok_raw_of algorithm_identifier_ok int64_ok_def
        extension_ok_def ext_oids oid_ok_def)
  then have inner: "parse_tbsCertList tbsDER = Inr (T, [])"
    using tbsCertList_codec.dec_enc_all [OF _ mT lt] by blast
  have sv: "length sig = SignatureSize (sg_alg signer)" "Verify C (sg_pub signer) tbsDER sig = Inr ()"
    using s sg unfolding signer_ok_def by (metis sum.inject(2))+
  have "parseAuthorityKeyID akidDER = Inr ?akid" "parse_crl_number numberDER = Inr number"
    using authority_key_id_value.parse_marshal [OF _ ad el(1)]
      crl_number_value.parse_marshal [OF _ num el(2)] by simp_all
  then have "parse_crl_exts l [] ?exts = Inr (l\<lparr>rl_AuthorityKeyID := ?akid, rl_Number := Some number\<rparr>)" for l
    by (simp add: ext_oids)
  moreover have "rv_full nextDER \<noteq> []"
    using tm(2) raw_okE [of nextDER] by (metis raw_sel(1) tlv_neq_Nil)
  ultimately have "ParseRevocationList der =
      Inr (issued_crl issuer number entries thisUpdate nextUpdate der tbsDER sig issuerDER)"
    using outer inner bi tm sv(1) ent(1) algorithmFromOID_alg_OID [OF valid] body alg
    by (simp add: ParseRevocationList_def unmarshal_all_def T_def algorithm_identifier_def zero_raw_def
        octet_bits_def issued_crl_def del: parse_crl_exts.simps)
  then show ?thesis using sd sv(2) by blast
qed


subsection \<open>An example\<close>

definition toy_issuer :: Certificate where
  "toy_issuer = toy_template\<lparr>crt_PublicKey := toy_key\<rparr>"

lemma toy_issuer_sel:
  "crt_KeyUsage toy_issuer = 0x60" "crt_PublicKey toy_issuer = toy_key"
  "subject_der toy_issuer = ToRDNSequence (zero_Name\<lparr>CommonName := ''CA''\<rparr>)" "subject_ok toy_issuer"
  by (simp_all add: toy_issuer_def toy_template_def zero_Certificate_def subject_der_def subject_ok_def
      zero_Name_def name_size_def name_parts_def)

definition toy_entry :: RevocationEntry where
  "toy_entry = \<lparr>re_Serial = Some 7, re_Time = 0, re_Reason = 1\<rparr>"

lemma toy_revoked:
  "\<exists>rs bs. rmap revoked_entry [toy_entry] = Inr rs \<and> marshal_revoked_list rs = Inr bs \<and> length bs < 200"
proof -
  have "case rmap revoked_entry [toy_entry] of Inr rs \<Rightarrow>
      (case marshal_revoked_list rs of Inr bs \<Rightarrow> length bs < 200 | Inl e \<Rightarrow> False) | Inl e \<Rightarrow> False"
    by code_simp
  then show ?thesis by (simp split: sum.splits)
qed

lemma toy_crl_exts:
  assumes "length kid = 20"
  shows "\<exists>a n bs. marshalAuthorityKeyID kid = Inr a \<and> marshalCRLNumber 1 = Inr n
    \<and> marshal_extensions 0 [ext_of oidExtAuthorityKeyID False a, ext_of oidExtCRLNumber False n] = Inr bs
    \<and> length bs < 1000"
proof -
  let ?a = "tlv 0 True 16 (make_field akid_params 4 False kid)"
  have "length (make_field akid_params 4 False kid) \<le> 30"
    using length_tlv_le [of 0 kid 2 False] assms by (simp add: make_field_def akid_params_def)
  then have la: "length ?a \<le> 40"
    using length_tlv_le [of 16 "make_field akid_params 4 False kid" 0 True] by simp
  have ln: "length (tlv 0 False 2 (int_bytes 1)) \<le> 10" by code_simp
  obtain b1 where b1: "marshal_extension (ext_of oidExtAuthorityKeyID False ?a) = Inr b1" "length b1 \<le> 240"
    using marshal_extension_total [of "ext_of oidExtAuthorityKeyID False ?a"] la
    by (auto simp: ext_oids oid_ok_def)
  obtain b2 where b2: "marshal_extension (ext_of oidExtCRLNumber False (tlv 0 False 2 (int_bytes 1))) = Inr b2"
    "length b2 \<le> 210"
    using marshal_extension_total [of "ext_of oidExtCRLNumber False (tlv 0 False 2 (int_bytes 1))"] ln
    by (auto simp: ext_oids oid_ok_def)
  have l1: "length (tlv 0 True 16 (b1 @ b2)) \<le> 456"
    using length_tlv_le [of 16 "b1 @ b2" 0 True] b1(2) b2(2) by simp
  then have "length (make_field (explicit_tag 0) 16 True (b1 @ b2)) < 1000"
    using length_tlv_le [of 0 "tlv 0 True 16 (b1 @ b2)" 2 True]
    by (simp add: make_field_def explicit_tag_def)
  moreover have "kid \<noteq> []" using assms by auto
  ultimately show ?thesis
    using b1(1) b2(1)
    by (intro exI [of _ ?a] exI [of _ "tlv 0 False 2 (int_bytes 1)"]
        exI [of _ "make_field (explicit_tag 0) 16 True (b1 @ b2)"])
      (simp add: marshalAuthorityKeyID_def marshalCRLNumber_def marshal_int_def marshal_extensions_def)
qed

lemma toy_crl_created:
  "\<exists>der. CreateRevocationList (Some toy_issuer) (Some toy_signer) (Some 1) [toy_entry] 0 (1000 * second) = Inr der
     \<and> length der < 2 ^ 31"
proof -
  obtain sub where sub: "ToRDNSequence (zero_Name\<lparr>CommonName := ''CA''\<rparr>) = Inr sub"
    "length sub < 40" "3 < length sub"
    using toy_parts(1) by blast
  then have "sub \<noteq> []" by auto
  obtain nb where nb: "marshalTime 0 = Inr nb" "length (marshal_raw nb) < 40"
    using toy_parts(2) by blast
  obtain na where na: "marshalTime (1000 * second) = Inr na" "length (marshal_raw na) < 40"
    using toy_parts(3) by blast
  obtain rs rb where rs: "rmap revoked_entry [toy_entry] = Inr rs" "marshal_revoked_list rs = Inr rb"
    "length rb < 200" using toy_revoked by blast
  obtain kid where kid: "KeyIdentifier toy_key = Inr kid" by (simp add: KeyIdentifier_def)
  obtain a n eb where ex: "marshalAuthorityKeyID kid = Inr a" "marshalCRLNumber 1 = Inr n"
    "marshal_extensions 0 [ext_of oidExtAuthorityKeyID False a, ext_of oidExtCRLNumber False n] = Inr eb"
    "length eb < 1000"
    using toy_crl_exts [OF length_KeyIdentifier [OF kid]] by blast
  obtain ai where ai: "marshal_algorithmIdentifier (algorithm_identifier (alg_OID SLHDSA_SHA2_128s)) = Inr ai"
    "length ai \<le> 60"
    using marshal_algorithm_identifier [of SLHDSA_SHA2_128s]
      length_algorithm_identifier [of SLHDSA_SHA2_128s] by auto
  let ?T = "\<lparr>tl_version = 1, tl_sigalg = algorithm_identifier (alg_OID SLHDSA_SHA2_128s),
      tl_issuer = raw_full sub, tl_this = nb, tl_next = na, tl_revoked = rs,
      tl_exts = [ext_of oidExtAuthorityKeyID False a, ext_of oidExtCRLNumber False n]\<rparr>"
  have v: "length (tlv 0 False 2 (int_bytes 1)) < 20" by code_simp
  let ?body = "tlv 0 False 2 (int_bytes 1) @ ai @ sub @ marshal_raw nb @ marshal_raw na @ rb @ eb"
  have "na \<noteq> zero_raw" using marshalTime_Inr [OF na(1)] raw_ok_nonzero by blast
  then have "marshal_tbsCertList ?T = Inr (tlv 0 True 16 ?body)"
    using \<open>sub \<noteq> []\<close> ai(1) rs(2) ex(3) by (simp add: marshal_tbsCertList_def marshal_int_def)
  moreover have "length (tlv 0 True 16 ?body) < 2 ^ 30"
    using length_tlv_le [of 16 ?body 0 True] v sub(2) ai(2) nb(2) na(2) rs(3) ex(4) by simp
  ultimately obtain tbs where tbs: "marshal_tbsCertList ?T = Inr tbs" "length tbs < 2 ^ 30" "tbs \<noteq> []"
    by (metis tlv_neq_Nil)
  let ?sig = "toy_sig SLHDSA_SHA2_128s (replicate 32 1) tbs"
  obtain der where "marshal_signed \<lparr>sd_tbs = raw_full tbs, sd_alg = algorithm_identifier (alg_OID SLHDSA_SHA2_128s),
      sd_sig = octet_bits ?sig\<rparr> = Inr der" "length der < 2 ^ 31"
    using marshal_signed_total [of SLHDSA_SHA2_128s tbs ?sig] tbs by auto
  moreover have "(0x60 :: KeyUsage) AND KeyUsageCRLSign \<noteq> 0" by (simp add: KeyUsageCRLSign_def)
  moreover have "(0 :: instant) < 1000 * second" by (simp add: second_def)
  ultimately show ?thesis
    using sub(1) nb na rs(1) kid ex tbs(1)
    by (simp add: CreateRevocationList_def toy_issuer_sel sign_tbs_def del: rmap.simps)
qed

subsection \<open>Properties\<close>

text \<open>C27. What \<open>CreateRevocationList\<close> signs, \<open>ParseRevocationList\<close> reads back: the issuer, the two
  update times (to the second), the CRL number, the issuer's key identifier and every entry, in
  order, with its serial number, time and reason; and \<open>VerifySignatureFrom\<close> accepts it for a
  certificate that has the issuer's subject octets and the signer's key.\<close>

theorem ParseRevocationList_CreateRevocationList:
  assumes "CreateRevocationList (Some issuer) (Some signer) (Some number) entries thisUpdate nextUpdate = Inr der"
    and "length der < 2 ^ 31" and "signer_ok C signer" and "subject_ok issuer"
    and "list_all (\<lambda>e. int32_ok (re_Reason e)) entries"
  shows "\<exists>tbsDER sig issuerDER.
    ParseRevocationList der = Inr (issued_crl issuer number entries thisUpdate nextUpdate der tbsDER sig issuerDER)
    \<and> subject_der issuer = Inr issuerDER
    \<and> (\<forall>c. crl_VerifySignatureFrom C
          (issued_crl issuer number entries thisUpdate nextUpdate der tbsDER sig issuerDER)
          (Some (c\<lparr>crt_RawSubject := issuerDER, crt_PublicKey := sg_pub signer\<rparr>)) = Inr ())"
proof -
  from CreateRevocationList_parse [OF assms] obtain tbsDER sig issuerDER where
    "ParseRevocationList der = Inr (issued_crl issuer number entries thisUpdate nextUpdate der tbsDER sig issuerDER)"
    "subject_der issuer = Inr issuerDER" "Verify C (sg_pub signer) tbsDER sig = Inr ()" by blast
  moreover have "pub_alg (crt_PublicKey issuer) = pub_alg (sg_pub signer)"
    using CreateRevocationList_Inr [OF assms(1)] assms(3) by (metis signer_ok_def)
  ultimately show ?thesis
    by (auto simp: crl_VerifySignatureFrom_def issued_crl_def)
qed

theorem ParseRevocationList_CreateRevocationList_witness:
  "\<exists>der l. ParseRevocationList der = Inr l \<and> rl_Number l = Some 1
     \<and> rl_Entries l = [toy_entry] \<and> rl_ThisUpdate l = 0"
proof -
  obtain der where der: "CreateRevocationList (Some toy_issuer) (Some toy_signer) (Some 1) [toy_entry]
      0 (1000 * second) = Inr der" "length der < 2 ^ 31" using toy_crl_created by blast
  have "list_all (\<lambda>e. int32_ok (re_Reason e)) [toy_entry]"
    by (simp add: toy_entry_def int32_ok_def)
  from ParseRevocationList_CreateRevocationList [OF der toy_signer_ok toy_issuer_sel(4) this]
  obtain tbsDER sig issuerDER where "ParseRevocationList der =
      Inr (issued_crl toy_issuer 1 [toy_entry] 0 (1000 * second) der tbsDER sig issuerDER)" by blast
  moreover have "entry_view toy_entry = toy_entry"
    by (simp add: entry_view_def toy_entry_def time_Truncate_def)
  moreover have "time_Truncate 0 = 0" by (simp add: time_Truncate_def)
  ultimately show ?thesis by (intro exI conjI) (assumption, simp_all add: issued_crl_def)
qed

text \<open>\<open>IsRevoked\<close> is the specification of revocation by serial number: it answers true exactly
  for the serial numbers that some entry has, with the first such entry, and false with the zero
  entry otherwise (and for a nil serial number).\<close>

theorem IsRevoked_iff:
  "IsRevoked l serial =
     (if serial \<noteq> None \<and> serial \<in> re_Serial ` set (rl_Entries l)
      then (the (find (\<lambda>e. re_Serial e = serial) (rl_Entries l)), True)
      else (zero_entry, False))"
proof -
  have "find_revoked es serial =
     (if serial \<noteq> None \<and> serial \<in> re_Serial ` set es
      then (the (find (\<lambda>e. re_Serial e = serial) es), True) else (zero_entry, False))" for es
    by (induction es) auto
  then show ?thesis by (simp add: IsRevoked_def)
qed


subsection \<open>An absent nextUpdate\<close>

text \<open>
  \<open>tbsCertList.NextUpdate\<close> is an optional \<open>asn1.RawValue\<close>, which matches any value: when the
  field is absent, what follows it is taken for it.
\<close>

lemma marshal_nonempty_tail:
  assumes "rs \<noteq> [] \<or> exts \<noteq> []" "marshal_revoked_list rs = Inr r" "marshal_extensions 0 exts = Inr e"
  shows "\<exists>cls tag body rest. r @ e = tlv cls True tag body @ rest
    \<and> (cls = 0 \<and> tag = 16 \<or> cls = 2 \<and> tag = 0)"
proof (cases "rs = []")
  case True
  then have "exts \<noteq> []" using assms(1) by simp
  then obtain body where "e = tlv 2 True 0 body"
    using assms(3) by (auto simp: marshal_extensions_def make_field_def explicit_tag_def go_inv)
  then have "r @ e = tlv 2 True 0 body @ []"
    using True assms(2) by (simp add: marshal_revoked_list_def)
  then show ?thesis by blast
next
  case False
  then obtain body where "r = tlv 0 True 16 body"
    using assms(2) by (auto simp: marshal_revoked_list_def go_inv)
  then show ?thesis by blast
qed

lemma swallowed_next:
  assumes t: "tl_next t = zero_raw" "tl_revoked t \<noteq> [] \<or> tl_exts t \<noteq> []"
    and ok: "int64_ok (tl_version t)" "algorithmIdentifier_ok (tl_sigalg t)" "raw_ok (tl_issuer t)"
      "raw_ok (tl_this t)"
    and m: "marshal_tbsCertList t = Inr bs" "length bs < 2 ^ 31"
    and p: "parse_tbsCertList bs = Inr (u, rest)"
  shows "rv_full (tl_next u) \<noteq> [] \<and> parseTime (tl_next u) = Inl (Err [ErrMalformedDER] ''time has a wrong tag'')"
proof -
  let ?i = "marshal_raw (tl_issuer t)" and ?u = "marshal_raw (tl_this t)"
  obtain v a r e where parts: "marshal_int (tl_version t) = Inr v"
    "marshal_algorithmIdentifier (tl_sigalg t) = Inr a" "marshal_revoked_list (tl_revoked t) = Inr r"
    "marshal_extensions 0 (tl_exts t) = Inr e"
    and bs: "bs = tlv 0 True 16 (v @ a @ ?i @ ?u @ r @ e)"
    using m(1) t(1) by (auto simp: marshal_tbsCertList_def go_inv)
  obtain cls tag body more where tail: "r @ e = tlv cls True tag body @ more"
    "cls = 0 \<and> tag = 16 \<or> cls = 2 \<and> tag = 0"
    using marshal_nonempty_tail [OF t(2) parts(3,4)] by blast
  have l: "length (v @ a @ ?i @ ?u @ r @ e) < 2 ^ 31" using m(2) bs tlv_body_bound by blast
  have lb: "length body < 2 ^ 31"
    using l tail(1) length_tlv_body [of body cls True tag] by simp
  have "parse_int no_params 0 (v @ a @ ?i @ ?u @ r @ e) = Inr (tl_version t, a @ ?i @ ?u @ r @ e)"
    using int_codec.dec_enc [OF ok(1) parts(1)] l by simp
  moreover have "parse_algorithmIdentifier (a @ ?i @ ?u @ r @ e) = Inr (tl_sigalg t, ?i @ ?u @ r @ e)"
    using algorithmIdentifier_codec.dec_enc [OF ok(2) parts(2)] l by simp
  moreover have "parse_raw no_params (?i @ ?u @ r @ e) = Inr (tl_issuer t, ?u @ r @ e)"
    using raw_codec.dec_enc [OF ok(3) refl] l by simp
  moreover have "parse_raw no_params (?u @ r @ e) = Inr (tl_this t, r @ e)"
    using raw_codec.dec_enc [OF ok(4) refl] l by simp
  moreover have "parse_raw optional_params (r @ e) = Inr (raw_of cls True tag body, more)"
    using parse_raw_tlv [of cls tag body optional_params True more] tail lb
    by (auto simp: params_defs)
  ultimately have "tl_next u = raw_of cls True tag body"
    using p parse_struct_tlv [OF l, of tbsCertList_fields _ "[]"]
    by (auto simp: parse_tbsCertList_def bs tbsCertList_fields_def go_inv)
  then show ?thesis using tail(2) by (auto simp: parseTime_def)
qed

text \<open>\<open>ParseRevocationList\<close> accepts no CRL that omits \<open>nextUpdate\<close> and has entries or
  extensions, although the field is declared optional and the code has a branch for its absence:
  the list of entries (or the block of extensions) is read as the time.\<close>

theorem CRL_without_nextUpdate_rejected:
  assumes "tl_next t = zero_raw" and "tl_revoked t \<noteq> [] \<or> tl_exts t \<noteq> []"
    and "int64_ok (tl_version t)" and "algorithmIdentifier_ok (tl_sigalg t)"
    and "raw_ok (tl_issuer t)" and "raw_ok (tl_this t)"
    and "marshal_tbsCertList t = Inr tbsDER" and "length tbsDER < 2 ^ 31"
    and "parse_signed der = Inr (outer, [])" and "rv_full (sd_tbs outer) = tbsDER"
  shows "\<exists>e. ParseRevocationList der = Inl e"
proof (cases "ParseRevocationList der")
  case (Inr l)
  then obtain u where "parse_tbsCertList tbsDER = Inr (u, [])"
    "rv_full (tl_next u) \<noteq> [] \<longrightarrow> (\<exists>n. parseTime (tl_next u) = Inr n)"
    using assms(9,10)
    by (auto simp: ParseRevocationList_def unmarshal_all_def go_inv split: if_splits)
  then show ?thesis using swallowed_next [OF assms(1-8)] by fastforce
qed simp

theorem CRL_without_nextUpdate_rejected_witness:
  "\<exists>der e tbsDER t. marshal_tbsCertList t = Inr tbsDER \<and> tl_next t = zero_raw
     \<and> tl_revoked t = [\<lparr>rc_serial = 7, rc_date = raw_of 0 False 23 [], rc_exts = []\<rparr>]
     \<and> ParseRevocationList der = Inl e"
proof -
  let ?rs = "[\<lparr>rc_serial = 7, rc_date = raw_of 0 False 23 [], rc_exts = []\<rparr>]"
  let ?t = "\<lparr>tl_version = 1, tl_sigalg = algorithm_identifier (alg_OID SLHDSA_SHA2_128s),
      tl_issuer = raw_of 0 True 16 [], tl_this = raw_of 0 False 23 [], tl_next = zero_raw,
      tl_revoked = ?rs, tl_exts = []\<rparr>"
  have "case marshal_revoked_list ?rs of Inr b \<Rightarrow> length b < 40 | Inl e \<Rightarrow> False" by code_simp
  then obtain rb where rb: "marshal_revoked_list ?rs = Inr rb" "length rb < 40"
    by (simp split: sum.splits)
  obtain ai where ai: "marshal_algorithmIdentifier (algorithm_identifier (alg_OID SLHDSA_SHA2_128s)) = Inr ai"
    "length ai \<le> 60"
    using marshal_algorithm_identifier [of SLHDSA_SHA2_128s]
      length_algorithm_identifier [of SLHDSA_SHA2_128s] by auto
  have v: "length (tlv 0 False 2 (int_bytes 1)) < 20" by code_simp
  let ?body = "tlv 0 False 2 (int_bytes 1) @ ai @ tlv 0 True 16 [] @ tlv 0 False 23 [] @ rb"
  have m: "marshal_tbsCertList ?t = Inr (tlv 0 True 16 ?body)"
    using ai(1) rb(1) by (simp add: marshal_tbsCertList_def marshal_int_def marshal_extensions_def)
  have l: "length (tlv 0 True 16 ?body) < 2 ^ 30"
    using length_tlv_le [of 16 ?body 0 True] length_tlv_le [of 16 "[]" 0 True]
      length_tlv_le [of 23 "[]" 0 False] v ai(2) rb(2) by simp
  obtain der where der: "marshal_signed \<lparr>sd_tbs = raw_full (tlv 0 True 16 ?body),
      sd_alg = algorithm_identifier (alg_OID SLHDSA_SHA2_128s), sd_sig = octet_bits []\<rparr> = Inr der"
    "length der < 2 ^ 31"
    using marshal_signed_total [of SLHDSA_SHA2_128s "tlv 0 True 16 ?body" "[]"] l by auto
  note p = parse_marshal_signed(1) [OF der(1) _ der(2)]
  have "\<exists>e. ParseRevocationList der = Inl e"
    by (rule CRL_without_nextUpdate_rejected [OF _ _ _ _ _ _ m _ p])
      (use l algorithm_identifier_ok [of SLHDSA_SHA2_128s] in \<open>simp_all add: int64_ok_def raw_ok_raw_of\<close>)
  then obtain e where "ParseRevocationList der = Inl e" by blast
  then show ?thesis
    using m by (intro exI [of _ der] exI [of _ e] exI [of _ "tlv 0 True 16 ?body"] exI [of _ ?t]) simp
qed

end
