(* ===== verification/Csr.thy ===== *)
theory Csr
  imports Issuance
begin

section \<open>Certification requests (internal/pqx509/csr.go)\<close>

text \<open>
  \<open>CreateCertificateRequest\<close>, \<open>marshalCSRAttributes\<close>, \<open>ParseCertificateRequest\<close>,
  \<open>sansFromCSRAttributes\<close> and \<open>CheckSignature\<close>. The request info is written by hand in the
  code, with the marshalLength of name.go, and read by \<open>encoding/asn1\<close>.
\<close>

subsection \<open>Types\<close>

definition oidExtensionRequest :: oid where
  "oidExtensionRequest = [1, 2, 840, 113549, 1, 9, 14]"

record CertificateRequest =
  csr_Raw :: bytes
  csr_RawTBS :: bytes
  csr_Subject :: Name
  csr_PublicKey :: PublicKey
  csr_SigAlg :: algorithm
  csr_Signature :: bytes
  csr_DNSNames :: "string list"
  csr_IPAddresses :: "ip list"
  csr_EmailAddresses :: "string list"

record csrAttributeDER =
  at_type :: oid
  at_values :: "raw_value list"

record certificationRequestInfoDER =
  cri_version :: int
  cri_subject :: raw_value
  cri_key :: subjectPublicKeyInfo
  cri_attributes :: "csrAttributeDER list"

definition set_params :: field_params where
  "set_params = no_params\<lparr>p_set := True\<rparr>"

definition attribute_fields :: "bytes \<Rightarrow> csrAttributeDER res" where
  "attribute_fields inner =
     rbind (parse_object_id inner) (\<lambda>(i, r).
     rbind (parse_slice set_params AnyType (parse_raw no_params) r) (\<lambda>(vs, _).
       Inr \<lparr>at_type = i, at_values = vs\<rparr>))"

definition parse_attribute :: "bytes \<Rightarrow> (csrAttributeDER \<times> bytes) res" where
  "parse_attribute = parse_struct no_params attribute_fields \<lparr>at_type = [], at_values = []\<rparr>"

definition cri_fields :: "bytes \<Rightarrow> certificationRequestInfoDER res" where
  "cri_fields inner =
     rbind (parse_int no_params 0 inner) (\<lambda>(v, r0).
     rbind (parse_raw no_params r0) (\<lambda>(subject, r1).
     rbind (parse_spki r1) (\<lambda>(key, r2).
     rbind (parse_slice (implicit_tag 0) (Univ 16 True) parse_attribute r2) (\<lambda>(attrs, _).
       Inr \<lparr>cri_version = v, cri_subject = subject, cri_key = key, cri_attributes = attrs\<rparr>))))"

definition parse_cri :: "bytes \<Rightarrow> (certificationRequestInfoDER \<times> bytes) res" where
  "parse_cri = parse_struct no_params cri_fields
     \<lparr>cri_version = 0, cri_subject = zero_raw, cri_key = zero_spki, cri_attributes = []\<rparr>"

subsection \<open>Creation\<close>

text \<open>The SET of \<open>csrAttributeDER.Values\<close> that is written has one element, so the sorting of
  \<open>encoding/asn1\<close> has nothing to do.\<close>

definition marshal_extension_request :: "bytes \<Rightarrow> bytes res" where
  "marshal_extension_request extsDER =
     rbind (marshal_oid oidExtensionRequest) (\<lambda>i.
       Inr (tlv 0 True 16 (i @ make_field set_params 16 True (marshal_raw (raw_full extsDER)))))"

definition marshal_extension_list :: "extension list \<Rightarrow> bytes res" where
  "marshal_extension_list exts =
     rbind (rmap marshal_extension exts) (\<lambda>bss. Inr (tlv 0 True 16 (concat bss)))"

definition marshalCSRAttributes :: "SANs \<Rightarrow> bytes res" where
  "marshalCSRAttributes sans =
     rbind
       (if \<not> SANs_Empty sans
        then
          rbind (marshalSANs sans) (\<lambda>sanDER.
          rbind (rmap_err (wrap_errs [] ''pqx509: marshaling extensionRequest'')
            (marshal_extension_list [ext_of oidExtSubjectAltName False sanDER])) (\<lambda>extsDER.
          rmap_err (wrap_errs [] ''pqx509: marshaling extensionRequest attribute'')
            (marshal_extension_request extsDER)))
        else Inr [])
       (\<lambda>content. Inr ((0xA0 # marshalLength (length content)) @ content))"

definition CreateCertificateRequest ::
  "Name \<Rightarrow> PublicKey \<Rightarrow> Signer option \<Rightarrow> SANs \<Rightarrow> bytes res" where
  "CreateCertificateRequest subj pub signer_p sans =
     (case signer_p of
        None \<Rightarrow> Inl (Err [] ''pqx509: signer is required'')
      | Some signer \<Rightarrow>
          if pub_alg pub \<noteq> sg_alg signer \<or> pub_bytes pub \<noteq> pub_bytes (sg_pub signer)
          then Inl (Err [] ''pqx509: the CSR signer must hold the subject public key'')
          else
            rbind (ToRDNSequence subj) (\<lambda>subjectDER.
              if subjectDER = [0x30, 0x00] \<and> SANs_Empty sans
              then Inl (Err [] ''pqx509: a CSR with an empty subject must carry subjectAltName'')
              else
                rbind (MarshalPKIXPublicKey pub) (\<lambda>spkiDER.
                rbind (marshalCSRAttributes sans) (\<lambda>attrsDER.
                rbind (marshal_int 0) (\<lambda>zero.
                  let cri = marshalSequence (zero @ subjectDER @ spkiDER @ attrsDER) in
                  rbind (rmap_err (wrap_errs [] ''pqx509: signing CSR'') (sg_sign signer cri)) (\<lambda>sig.
                  rmap_err (wrap_errs [] ''pqx509: marshaling CSR'')
                    (marshal_signed
                      \<lparr>sd_tbs = raw_full cri, sd_alg = algorithm_identifier (alg_OID (pub_alg pub)),
                       sd_sig = octet_bits sig\<rparr>)))))))"

subsection \<open>Parsing\<close>

definition unmarshal_csr :: "(bytes \<Rightarrow> ('a \<times> bytes) res) \<Rightarrow> string \<Rightarrow> bytes \<Rightarrow> 'a res" where
  "unmarshal_csr dec what der =
     rbind (rmap_err (wrap_errs [ErrInvalidCSR] what) (dec der)) (\<lambda>(v, rest).
       if rest \<noteq> [] then Inl (Err [ErrTrailingData] what) else Inr v)"

fun csr_san_loop :: "SANs \<Rightarrow> bool \<Rightarrow> extension list \<Rightarrow> SANs res" where
  "csr_san_loop sans seen [] = Inr sans"
| "csr_san_loop sans seen (e # es) =
     (if ext_id e \<noteq> oidExtSubjectAltName then csr_san_loop sans seen es
      else if seen then Inl (Err [ErrInvalidCSR] ''duplicate subjectAltName in extensionRequest'')
      else rbind (parseSANs (ext_value e)) (\<lambda>s. csr_san_loop s True es))"

fun csr_attr_loop :: "SANs \<Rightarrow> bool \<Rightarrow> csrAttributeDER list \<Rightarrow> SANs res" where
  "csr_attr_loop sans seen [] = Inr sans"
| "csr_attr_loop sans seen (a # as) =
     (if at_type a \<noteq> oidExtensionRequest then csr_attr_loop sans seen as
      else if seen then Inl (Err [ErrInvalidCSR] ''multiple extensionRequest attributes'')
      else
        (case at_values a of
           [v] \<Rightarrow>
             rbind (unmarshal_csr (parse_slice no_params (Univ 16 True) parse_extension)
               ''extensionRequest'' (rv_full v)) (\<lambda>exts.
             rbind (csr_san_loop sans False exts) (\<lambda>s. csr_attr_loop s True as))
         | _ \<Rightarrow> Inl (Err [ErrInvalidCSR] ''extensionRequest must carry exactly one value'')))"

definition sansFromCSRAttributes :: "csrAttributeDER list \<Rightarrow> SANs res" where
  "sansFromCSRAttributes attrs = csr_attr_loop zero_SANs False attrs"

definition ParseCertificateRequest :: "bytes \<Rightarrow> CertificateRequest res" where
  "ParseCertificateRequest der =
     rbind (unmarshal_csr parse_signed ''CSR'' der) (\<lambda>outer.
     rbind (unmarshal_csr parse_cri ''CertificationRequestInfo'' (rv_full (sd_tbs outer))) (\<lambda>cri.
       if cri_version cri \<noteq> 0 then Inl (Err [ErrInvalidCSR] ''CSR version'')
       else
         rbind (ParseName (rv_full (cri_subject cri))) (\<lambda>subject.
         rbind (publicKeyFromSPKI (cri_key cri)) (\<lambda>pub.
         rbind (algorithmFromOID (aid_algorithm (sd_alg outer))) (\<lambda>sigAlg.
           if rv_full (aid_parameters (sd_alg outer)) \<noteq> []
           then Inl (Err [ErrInvalidCSR] ''CSR signature AlgorithmIdentifier must omit parameters'')
           else if sigAlg \<noteq> pub_alg pub
           then Inl (Err [ErrInvalidCSR] ''signature algorithm does not match the subject key'')
           else if bs_bits (sd_sig outer) mod 8 \<noteq> 0
           then Inl (Err [ErrInvalidCSR] ''CSR signature BIT STRING has unused bits'')
           else if length (bs_bytes (sd_sig outer)) \<noteq> SignatureSize sigAlg
           then Inl (Err [ErrInvalidCSR] ''signature size'')
           else
             rbind (sansFromCSRAttributes (cri_attributes cri)) (\<lambda>sans.
               Inr \<lparr>csr_Raw = der, csr_RawTBS = rv_full (sd_tbs outer), csr_Subject = subject,
                    csr_PublicKey = pub, csr_SigAlg = sigAlg,
                    csr_Signature = bs_bytes (sd_sig outer), csr_DNSNames = DNSNames sans,
                    csr_IPAddresses = IPAddresses sans,
                    csr_EmailAddresses = EmailAddresses sans\<rparr>))))))"

definition CheckSignature :: "('pk, 'sk) circl \<Rightarrow> CertificateRequest \<Rightarrow> unit res" where
  "CheckSignature C csr =
     rmap_err (wrap_errs [ErrCSRSignature] ''CSR signature'')
       (Verify C (csr_PublicKey csr) (csr_RawTBS csr) (csr_Signature csr))"


subsection \<open>The attributes round trip\<close>

lemma parse_sequence_single:
  assumes "cls < 4" "tag < 31" "length body < 2 ^ 31"
    and "\<not> element_mismatch u \<lparr>h_class = cls, h_compound = cons, h_tag = tag, h_len = length body\<rparr>"
    and "dec (tlv cls cons tag body) = Inr (x, [])"
  shows "parse_sequence_of u dec (tlv cls cons tag body) = Inr [x]"
proof -
  have "parse_header (tlv cls cons tag body @ []) =
      Inr (\<lparr>h_class = cls, h_compound = cons, h_tag = tag, h_len = length body\<rparr>, body @ [])"
    using assms(1-3) by (intro parse_header_tlv) simp_all
  then have "count_elements u (tlv cls cons tag body) = Inr 1"
    using assms(4) by (subst count_elements.simps) (simp add: count_elements.simps [of _ "[]"])
  then show ?thesis using assms(5) by (simp add: parse_sequence_of_def)
qed

lemma context_tlv: "tlv 2 True 0 content = (0xA0 # marshalLength (length content)) @ content"
  by (simp add: tlv_def header_bytes_def)

lemma parse_set_tlv:
  assumes "length body < 2 ^ 31"
  shows "parse_slice set_params AnyType dec (tlv 0 True 17 body @ rest) =
    rbind (parse_sequence_of AnyType dec body) (\<lambda>v. Inr (v, rest))"
proof -
  have m: "\<not> field_mismatch set_params (Univ 17 True)
      \<lparr>h_class = 0, h_compound = True, h_tag = 17, h_len = length body\<rparr>"
    by (simp add: field_mismatch_def set_params_def no_params_def)
  show ?thesis
    using assms m field_contents_tlv [of set_params "Univ 17 True" 0 True 17 body _ _
        "header_bytes 0 True 17 (length body)" rest]
    by (simp add: parse_slice_def parse_field_def parse_header_tlv set_params_def no_params_def)
      (simp add: tlv_def)
qed

lemma parse_attribute_request:
  assumes "marshal_extension_request (tlv 0 True 16 body) = Inr bs" "length bs < 2 ^ 31"
  shows "parse_attribute bs = Inr (\<lparr>at_type = oidExtensionRequest, at_values = [raw_of 0 True 16 body]\<rparr>, [])"
    and "\<exists>b. bs = tlv 0 True 16 b" and "length (tlv 0 True 16 body) < 2 ^ 31"
proof -
  obtain i where i: "marshal_oid oidExtensionRequest = Inr i"
    "bs = tlv 0 True 16 (i @ tlv 0 True 17 (tlv 0 True 16 body))"
    using assms(1) by (auto simp: marshal_extension_request_def go_inv make_field_def set_params_def
        no_params_def)
  then show "\<exists>b. bs = tlv 0 True 16 b" by blast
  have l: "length (i @ tlv 0 True 17 (tlv 0 True 16 body)) < 2 ^ 31"
    using assms(2) i(2) tlv_body_bound by blast
  then have l2: "length (tlv 0 True 16 body) < 2 ^ 31"
    using length_tlv_body [of "tlv 0 True 16 body" 0 True 17] by simp
  then show "length (tlv 0 True 16 body) < 2 ^ 31" .
  have l3: "length body < 2 ^ 31" using l2 tlv_body_bound by blast
  have "parse_object_id (i @ tlv 0 True 17 (tlv 0 True 16 body)) =
      Inr (oidExtensionRequest, tlv 0 True 17 (tlv 0 True 16 body))"
    using i(1) l by (intro oid_codec.dec_enc) (simp_all add: oidExtensionRequest_def oid_ok_def)
  moreover have "parse_sequence_of AnyType (parse_raw no_params) (tlv 0 True 16 body) =
      Inr [raw_of 0 True 16 body]"
    using parse_raw_tlv [of 0 16 body no_params True "[]"] l3
    by (intro parse_sequence_single) (simp_all add: params_defs element_mismatch_def)
  ultimately have "attribute_fields (i @ tlv 0 True 17 (tlv 0 True 16 body)) =
      Inr \<lparr>at_type = oidExtensionRequest, at_values = [raw_of 0 True 16 body]\<rparr>"
    using parse_set_tlv [OF l2, of "parse_raw no_params" "[]"] by (simp add: attribute_fields_def)
  then show "parse_attribute bs = Inr (\<lparr>at_type = oidExtensionRequest, at_values = [raw_of 0 True 16 body]\<rparr>, [])"
    using parse_struct_tlv [OF l, of attribute_fields _ "[]"] i(2) by (simp add: parse_attribute_def)
qed

lemma marshalCSRAttributes_parse:
  assumes m: "marshalCSRAttributes sans = Inr bs" and l: "length bs < 2 ^ 31" and ok: "san_ok sans"
  shows "\<exists>as. parse_slice (implicit_tag 0) (Univ 16 True) parse_attribute bs = Inr (as, [])
    \<and> sansFromCSRAttributes as = Inr (if SANs_Empty sans then zero_SANs else san_view sans)"
proof (cases "SANs_Empty sans")
  case True
  then have bs: "bs = tlv 2 True 0 []"
    using m by (simp add: marshalCSRAttributes_def context_tlv)
  have "parse_slice (implicit_tag 0) (Univ 16 True) parse_attribute (tlv 2 True 0 [] @ []) = Inr ([], [])"
    unfolding parse_slice_def
    by (subst parse_field_implicit [where n = 0])
      (simp_all add: implicit_tag_def no_params_def parse_sequence_of_def count_elements.simps)
  then show ?thesis using True bs by (simp add: sansFromCSRAttributes_def)
next
  case False
  obtain sanDER eb content where san: "marshalSANs sans = Inr sanDER"
    and eb: "marshal_extension (ext_of oidExtSubjectAltName False sanDER) = Inr eb"
    and c: "marshal_extension_request (tlv 0 True 16 eb) = Inr content"
    and bs: "bs = tlv 2 True 0 content"
    using m False by (auto simp: marshalCSRAttributes_def marshal_extension_list_def context_tlv go_inv)
  have lc: "length content < 2 ^ 31" using l bs tlv_body_bound by blast
  note req = parse_attribute_request [OF c lc]
  obtain b where b: "content = tlv 0 True 16 b" using req(2) by blast
  have "length b < 2 ^ 31" using lc b tlv_body_bound by blast
  then have "parse_sequence_of (Univ 16 True) parse_attribute content =
      Inr [\<lparr>at_type = oidExtensionRequest, at_values = [raw_of 0 True 16 eb]\<rparr>]"
    unfolding b using req(1) b by (intro parse_sequence_single) (simp_all add: element_mismatch_def)
  then have "parse_slice (implicit_tag 0) (Univ 16 True) parse_attribute (tlv 2 True 0 content @ []) =
      Inr ([\<lparr>at_type = oidExtensionRequest, at_values = [raw_of 0 True 16 eb]\<rparr>], [])"
    unfolding parse_slice_def using lc
    by (subst parse_field_implicit [where n = 0]) (simp_all add: implicit_tag_def no_params_def)
  moreover
  have leb: "length eb < 2 ^ 31" using req(3) tlv_body_bound by blast
  have ext: "parse_extension eb = Inr (ext_of oidExtSubjectAltName False sanDER, [])"
    using extension_codec.dec_enc_all [OF _ eb leb] by (simp add: extension_ok_def ext_oids oid_ok_def)
  obtain eb' where eb': "eb = tlv 0 True 16 eb'"
    using eb by (auto simp: marshal_extension_def go_inv)
  have "length eb' < 2 ^ 31" using leb eb' tlv_body_bound by blast
  then have "parse_sequence_of (Univ 16 True) parse_extension eb = Inr [ext_of oidExtSubjectAltName False sanDER]"
    unfolding eb' using ext eb' by (intro parse_sequence_single) (simp_all add: element_mismatch_def)
  then have "parse_slice no_params (Univ 16 True) parse_extension (tlv 0 True 16 eb @ []) =
      Inr ([ext_of oidExtSubjectAltName False sanDER], [])"
    using leb by (simp only: parse_slice_tlv) simp
  moreover have "parseSANs sanDER = Inr (san_view sans)"
    using san_value.parse_marshal [OF ok san] ext_value_le [OF eb] leb by simp
  ultimately show ?thesis
    using False bs by (simp add: sansFromCSRAttributes_def unmarshal_csr_def)
qed


subsection \<open>Parsing what was created\<close>

text \<open>The request that the arguments of \<open>CreateCertificateRequest\<close> describe.\<close>

definition issued_csr :: "Name \<Rightarrow> PublicKey \<Rightarrow> SANs \<Rightarrow> bytes \<Rightarrow> bytes \<Rightarrow> bytes \<Rightarrow> CertificateRequest" where
  "issued_csr subj pub sans der cri sig =
     \<lparr>csr_Raw = der, csr_RawTBS = cri, csr_Subject = subj, csr_PublicKey = pub,
      csr_SigAlg = pub_alg pub, csr_Signature = sig, csr_DNSNames = DNSNames sans,
      csr_IPAddresses = map san_ip (IPAddresses sans), csr_EmailAddresses = EmailAddresses sans\<rparr>"

lemma CreateCertificateRequest_Inr:
  assumes c: "CreateCertificateRequest subj pub (Some signer) sans = Inr der"
  obtains subjectDER spkiDER attrsDER zero cri sig where
    "pub_alg pub = sg_alg signer" "pub_bytes pub = pub_bytes (sg_pub signer)"
    "ToRDNSequence subj = Inr subjectDER" "MarshalPKIXPublicKey pub = Inr spkiDER"
    "marshalCSRAttributes sans = Inr attrsDER" "marshal_int 0 = Inr zero"
    "cri = tlv 0 True 16 (zero @ subjectDER @ spkiDER @ attrsDER)" "sg_sign signer cri = Inr sig"
    "marshal_signed \<lparr>sd_tbs = raw_full cri, sd_alg = algorithm_identifier (alg_OID (pub_alg pub)),
       sd_sig = octet_bits sig\<rparr> = Inr der"
  using c
  by (auto simp: CreateCertificateRequest_def tlv_marshalSequence Let_def go_inv split: if_splits)

lemma CreateCertificateRequest_parse:
  assumes c: "CreateCertificateRequest subj pub (Some signer) sans = Inr der"
    and l: "length der < 2 ^ 31" and s: "signer_ok C signer" and n: "name_size subj \<le> 2 ^ 30"
    and ok: "san_ok sans"
  shows "pub = sg_pub signer \<and> (\<exists>cri sig. ParseCertificateRequest der = Inr (issued_csr subj pub sans der cri sig)
    \<and> CheckSignature C (issued_csr subj pub sans der cri sig) = Inr ())"
proof -
  from CreateCertificateRequest_Inr [OF c] obtain subjectDER spkiDER attrsDER zero cri sig where
    alg: "pub_alg pub = sg_alg signer" and pb: "pub_bytes pub = pub_bytes (sg_pub signer)"
    and sd: "ToRDNSequence subj = Inr subjectDER" and pk: "MarshalPKIXPublicKey pub = Inr spkiDER"
    and at: "marshalCSRAttributes sans = Inr attrsDER" and z: "marshal_int 0 = Inr zero"
    and cri: "cri = tlv 0 True 16 (zero @ subjectDER @ spkiDER @ attrsDER)"
    and sg: "sg_sign signer cri = Inr sig"
    and ms: "marshal_signed \<lparr>sd_tbs = raw_full cri, sd_alg = algorithm_identifier (alg_OID (pub_alg pub)),
       sd_sig = octet_bits sig\<rparr> = Inr der" .
  have pub: "pub = sg_pub signer"
    using s alg pb by (cases pub; cases "sg_pub signer") (auto simp: signer_ok_def)
  have valid: "alg_Valid (pub_alg pub)" using s alg by (auto simp: signer_ok_def pub_ok_def)
  obtain bs where bs: "subjectDER = tlv 0 True 16 bs" "ParseName subjectDER = Inr subj"
    using subject_der_ok [of "zero_Certificate\<lparr>crt_Subject := subj\<rparr>" subjectDER] n sd
    by (auto simp: subject_ok_def subject_der_def zero_Certificate_def)
  have outer: "parse_signed der = Inr (\<lparr>sd_tbs = raw_of 0 True 16 (zero @ subjectDER @ spkiDER @ attrsDER),
      sd_alg = algorithm_identifier (alg_OID (pub_alg pub)), sd_sig = octet_bits sig\<rparr>, [])"
    and lc: "length cri < 2 ^ 31"
    using parse_marshal_signed [OF _ valid l] ms cri by simp_all
  have lb: "length (zero @ subjectDER @ spkiDER @ attrsDER) < 2 ^ 31"
    using lc cri tlv_body_bound by blast
  obtain as where attrs: "parse_slice (implicit_tag 0) (Univ 16 True) parse_attribute attrsDER = Inr (as, [])"
    "sansFromCSRAttributes as = Inr (if SANs_Empty sans then zero_SANs else san_view sans)"
    using marshalCSRAttributes_parse [OF at _ ok] lb by auto
  note key = MarshalPKIX_parse_spki [OF pk]
  have mspki: "marshal_spki (spki_of pub) = Inr spkiDER"
    using pk key(1) by (simp add: MarshalPKIX_spki go_inv)
  have "parse_int no_params 0 (zero @ subjectDER @ spkiDER @ attrsDER) =
      Inr (0, subjectDER @ spkiDER @ attrsDER)"
    using int_codec.dec_enc [OF _ z] lb by (simp add: int64_ok_def)
  moreover have "parse_raw no_params (subjectDER @ spkiDER @ attrsDER) =
      Inr (raw_of 0 True 16 bs, spkiDER @ attrsDER)"
    unfolding bs(1) using lb bs(1) length_tlv_body [of bs 0 True 16]
    by (intro parse_raw_tlv) (simp_all add: params_defs)
  moreover have "parse_spki (spkiDER @ attrsDER) = Inr (spki_of pub, attrsDER)"
    using spki_codec.dec_enc [OF spki_of_ok [OF key(1)] mspki] lb by simp
  ultimately have "cri_fields (zero @ subjectDER @ spkiDER @ attrsDER) =
      Inr \<lparr>cri_version = 0, cri_subject = raw_of 0 True 16 bs, cri_key = spki_of pub, cri_attributes = as\<rparr>"
    using attrs(1) by (simp add: cri_fields_def)
  then have inner: "parse_cri cri =
      Inr (\<lparr>cri_version = 0, cri_subject = raw_of 0 True 16 bs, cri_key = spki_of pub, cri_attributes = as\<rparr>, [])"
    using parse_struct_tlv [OF lb, of cri_fields _ "[]"] cri by (simp add: parse_cri_def)
  have sv: "length sig = SignatureSize (pub_alg pub)" "Verify C pub cri sig = Inr ()"
    using s sg alg pub unfolding signer_ok_def by (metis sum.inject(2))+
  have "ParseCertificateRequest der = Inr (issued_csr subj pub sans der cri sig)"
    using outer inner bs attrs(2) key(1) sv(1) algorithmFromOID_alg_OID [OF valid] cri
    by (auto simp: ParseCertificateRequest_def unmarshal_csr_def algorithm_identifier_def zero_raw_def
        octet_bits_def issued_csr_def san_view_def SANs_Empty_def zero_SANs_def)
  moreover have "CheckSignature C (issued_csr subj pub sans der cri sig) = Inr ()"
    using sv(2) by (simp add: CheckSignature_def issued_csr_def)
  ultimately show ?thesis using pub by blast
qed


subsection \<open>Which extensions of a request are honoured\<close>

definition san_exts :: "extension list \<Rightarrow> extension list" where
  "san_exts exts = filter (\<lambda>e. ext_id e = oidExtSubjectAltName) exts"

definition ext_requests :: "csrAttributeDER list \<Rightarrow> csrAttributeDER list" where
  "ext_requests as = filter (\<lambda>a. at_type a = oidExtensionRequest) as"

text \<open>What a list of requested extensions asks for, without the loop.\<close>

definition requested_by_exts :: "extension list \<Rightarrow> SANs \<Rightarrow> bool" where
  "requested_by_exts exts s =
     (case san_exts exts of
        [] \<Rightarrow> s = zero_SANs
      | [e] \<Rightarrow> parseSANs (ext_value e) = Inr s
      | _ \<Rightarrow> False)"

definition requested_by :: "csrAttributeDER list \<Rightarrow> SANs \<Rightarrow> bool" where
  "requested_by as s =
     (case ext_requests as of
        [] \<Rightarrow> s = zero_SANs
      | [a] \<Rightarrow> (\<exists>v exts. at_values a = [v]
          \<and> parse_slice no_params (Univ 16 True) parse_extension (rv_full v) = Inr (exts, [])
          \<and> requested_by_exts exts s)
      | _ \<Rightarrow> False)"

lemma unmarshal_csr_Inr [go_inv]: "unmarshal_csr dec what der = Inr v \<longleftrightarrow> dec der = Inr (v, [])"
  by (auto simp: unmarshal_csr_def go_inv split: if_splits)

lemma csr_san_loop_seen: "csr_san_loop s True exts = Inr s' \<longleftrightarrow> san_exts exts = [] \<and> s' = s"
  by (induction exts) (auto simp: san_exts_def)

lemma csr_san_loop_Inr:
  "csr_san_loop zero_SANs False exts = Inr s \<longleftrightarrow> requested_by_exts exts s"
proof (induction exts)
  case Nil
  then show ?case by (auto simp: requested_by_exts_def san_exts_def)
next
  case (Cons e exts)
  show ?case
  proof (cases "ext_id e = oidExtSubjectAltName")
    case False
    then show ?thesis using Cons by (simp add: requested_by_exts_def san_exts_def)
  next
    case True
    then have "csr_san_loop zero_SANs False (e # exts) = Inr s \<longleftrightarrow>
        parseSANs (ext_value e) = Inr s \<and> san_exts exts = []"
      by (auto simp: go_inv csr_san_loop_seen)
    moreover have "san_exts (e # exts) = e # san_exts exts" using True by (simp add: san_exts_def)
    ultimately show ?thesis by (cases "san_exts exts") (simp_all add: requested_by_exts_def)
  qed
qed

lemma csr_attr_loop_seen: "csr_attr_loop s True as = Inr s' \<longleftrightarrow> ext_requests as = [] \<and> s' = s"
  by (induction as) (auto simp: ext_requests_def)

lemma csr_attr_loop_Inr:
  "csr_attr_loop zero_SANs False as = Inr s \<longleftrightarrow> requested_by as s"
proof (induction as)
  case Nil
  then show ?case by (auto simp: requested_by_def ext_requests_def)
next
  case (Cons a as)
  show ?case
  proof (cases "at_type a = oidExtensionRequest")
    case False
    then show ?thesis using Cons by (simp add: requested_by_def ext_requests_def)
  next
    case True
    show ?thesis
    proof (cases "\<exists>v. at_values a = [v]")
      case False
      then have "csr_attr_loop zero_SANs False (a # as) \<noteq> Inr s"
        using True by (auto split: list.splits)
      moreover have "\<not> requested_by (a # as) s"
        using True False by (cases "ext_requests as") (auto simp: requested_by_def ext_requests_def)
      ultimately show ?thesis by blast
    next
      case single: True
      then obtain v where v: "at_values a = [v]" by blast
      have "csr_attr_loop zero_SANs False (a # as) = Inr s \<longleftrightarrow>
          (\<exists>exts. parse_slice no_params (Univ 16 True) parse_extension (rv_full v) = Inr (exts, [])
             \<and> requested_by_exts exts s) \<and> ext_requests as = []"
        using True v by (auto simp: go_inv csr_san_loop_Inr csr_attr_loop_seen)
      also have "\<dots> \<longleftrightarrow> requested_by (a # as) s"
        using True v by (cases "ext_requests as") (auto simp: requested_by_def ext_requests_def)
      finally show ?thesis .
    qed
  qed
qed

subsection \<open>An example\<close>

lemma marshalCSRAttributes_small:
  assumes "marshalSANs sans = Inr san" "length san \<le> 500" "\<not> SANs_Empty sans"
  shows "\<exists>bs. marshalCSRAttributes sans = Inr bs \<and> length bs < 2000"
proof -
  obtain eb where eb: "marshal_extension (ext_of oidExtSubjectAltName False san) = Inr eb" "length eb \<le> 700"
    using marshal_extension_total [of "ext_of oidExtSubjectAltName False san"] assms(2)
    by (auto simp: ext_oids oid_ok_def)
  have le: "length (tlv 0 True 16 eb) \<le> 706" using length_tlv_le [of 16 eb 0 True] eb(2) by simp
  have ok: "oid_ok oidExtensionRequest" by (simp add: oidExtensionRequest_def oid_ok_def)
  then obtain i where i: "oid_bytes oidExtensionRequest = Inr i" using oid_ok_bytes by blast
  then have li: "length i \<le> 35"
    using length_oid_bytes [OF ok i] by (simp add: oidExtensionRequest_def)
  let ?body = "tlv 0 False 6 i @ tlv 0 True 17 (tlv 0 True 16 eb)"
  have lb: "length ?body \<le> 800"
    using length_tlv_le [of 6 i 0 False] length_tlv_le [of 17 "tlv 0 True 16 eb" 0 True] li le by simp
  have "marshal_extension_request (tlv 0 True 16 eb) = Inr (tlv 0 True 16 ?body)"
    using i by (simp add: marshal_extension_request_def marshal_oid_def make_field_def set_params_def no_params_def)
  then have "marshalCSRAttributes sans = Inr (tlv 2 True 0 (tlv 0 True 16 ?body))"
    using eb(1) assms(1,3) by (simp add: marshalCSRAttributes_def marshal_extension_list_def context_tlv)
  moreover have lc: "length (tlv 0 True 16 ?body) \<le> 806"
    using length_tlv_le [of 16 ?body 0 True] lb by simp
  moreover have "length (tlv 2 True 0 (tlv 0 True 16 ?body)) < 2000"
    using length_tlv_le [of 0 "tlv 0 True 16 ?body" 2 True] lc by simp
  ultimately show ?thesis by blast
qed

lemma CreateCertificateRequest_total:
  assumes "signer_ok C signer" "ToRDNSequence subj = Inr sub" "3 < length sub" "length sub \<le> 500"
    and "marshalSANs sans = Inr san" "length san \<le> 500" "\<not> SANs_Empty sans"
  shows "\<exists>der. CreateCertificateRequest subj (sg_pub signer) (Some signer) sans = Inr der \<and> length der < 2 ^ 31"
proof -
  let ?alg = "sg_alg signer"
  obtain at where at: "marshalCSRAttributes sans = Inr at" "length at < 2000"
    using marshalCSRAttributes_small [OF assms(5-7)] by blast
  have p: "pub_ok (sg_pub signer)" and alg: "pub_alg (sg_pub signer) = ?alg"
    using assms(1) by (simp_all add: signer_ok_def)
  then have valid: "alg_Valid ?alg" by (simp add: pub_ok_def)
  obtain spki where spki: "MarshalPKIXPublicKey (sg_pub signer) = Inr spki"
    using MarshalPKIX_total [OF p] by blast
  then have key: "length spki \<le> 2700"
    using length_spki_of [OF p] p by (simp add: MarshalPKIX_spki go_inv)
  have z: "length (tlv 0 False 2 (int_bytes 0)) < 20" by code_simp
  let ?body = "tlv 0 False 2 (int_bytes 0) @ sub @ spki @ at"
  have lc: "length (tlv 0 True 16 ?body) < 2 ^ 30"
    using length_tlv_le [of 16 ?body 0 True] z assms(4) key at(2) by simp
  obtain sig where sig: "sg_sign signer (tlv 0 True 16 ?body) = Inr sig" "length sig = SignatureSize ?alg"
    using assms(1) unfolding signer_ok_def by blast
  then have "length sig < 2 ^ 20" using size_bounds(2) [of ?alg] by simp
  moreover have "tlv 0 True 16 ?body \<noteq> []" by (simp add: tlv_def)
  ultimately obtain der where "marshal_signed \<lparr>sd_tbs = raw_full (tlv 0 True 16 ?body),
      sd_alg = algorithm_identifier (alg_OID ?alg), sd_sig = octet_bits sig\<rparr> = Inr der" "length der < 2 ^ 31"
    using marshal_signed_total [OF valid lc] by blast
  moreover have "sub \<noteq> [0x30, 0x00]" using assms(3) by auto
  ultimately show ?thesis
    using assms(2) at(1) spki sig(1) alg
    by (simp add: CreateCertificateRequest_def marshal_int_def tlv_marshalSequence Let_def)
qed

lemma toy_csr_created:
  "\<exists>der. CreateCertificateRequest (zero_Name\<lparr>CommonName := ''CA''\<rparr>) toy_key (Some toy_signer)
      \<lparr>DNSNames = [''a''], EmailAddresses = [], IPAddresses = []\<rparr> = Inr der \<and> length der < 2 ^ 31"
proof -
  let ?sans = "\<lparr>DNSNames = [''a''], EmailAddresses = [], IPAddresses = []\<rparr>"
  obtain sub where sub: "ToRDNSequence (zero_Name\<lparr>CommonName := ''CA''\<rparr>) = Inr sub"
    "length sub < 40" "3 < length sub"
    using toy_parts(1) by blast
  have "marshalSANs ?sans = Inr (tlv 0 True 16 (tlv 2 False 2 (bytes_of ''a'')))"
    by (simp add: marshalSANs_raws san_raws_def SANs_Empty_def)
  moreover have "length (tlv 0 True 16 (tlv 2 False 2 (bytes_of ''a''))) < 40" by code_simp
  ultimately show ?thesis
    using CreateCertificateRequest_total [OF toy_signer_ok sub(1,3), of ?sans] sub(2)
    by (simp add: SANs_Empty_def)
qed

subsection \<open>Properties\<close>

text \<open>C28. What \<open>CreateCertificateRequest\<close> signs, \<open>ParseCertificateRequest\<close> reads back, with the
  subject, the public key and the alternative names that were asked for, and its self-signature
  verifies: a request is only ever written for the key that signs it.\<close>

theorem ParseCertificateRequest_Create:
  assumes "CreateCertificateRequest subj pub (Some signer) sans = Inr der"
    and "length der < 2 ^ 31" and "signer_ok C signer" and "name_size subj \<le> 2 ^ 30"
    and "san_ok sans"
  shows "pub = sg_pub signer \<and> (\<exists>cri sig.
    ParseCertificateRequest der = Inr (issued_csr subj pub sans der cri sig)
    \<and> CheckSignature C (issued_csr subj pub sans der cri sig) = Inr ())"
  using CreateCertificateRequest_parse [OF assms] .

theorem ParseCertificateRequest_Create_witness:
  "\<exists>der csr. ParseCertificateRequest der = Inr csr \<and> csr_PublicKey csr = toy_key
     \<and> csr_DNSNames csr = [''a''] \<and> CheckSignature toy_circl csr = Inr ()"
proof -
  let ?n = "zero_Name\<lparr>CommonName := ''CA''\<rparr>"
  let ?sans = "\<lparr>DNSNames = [''a''], EmailAddresses = [], IPAddresses = []\<rparr>"
  obtain der where der: "CreateCertificateRequest ?n toy_key (Some toy_signer) ?sans = Inr der"
    "length der < 2 ^ 31" using toy_csr_created by blast
  have "name_size ?n \<le> 2 ^ 30" "san_ok ?sans"
    by (simp_all add: name_size_def name_parts_def zero_Name_def san_ok_def)
  from ParseCertificateRequest_Create [OF der toy_signer_ok this]
  obtain cri sig where "ParseCertificateRequest der = Inr (issued_csr ?n toy_key ?sans der cri sig)"
    "CheckSignature toy_circl (issued_csr ?n toy_key ?sans der cri sig) = Inr ()" by blast
  then show ?thesis
    by (intro exI [of _ der] exI [of _ "issued_csr ?n toy_key ?sans der cri sig"])
      (simp add: issued_csr_def)
qed

text \<open>C31. \<open>sansFromCSRAttributes\<close> is the specification of which extensions of a request are
  honoured: it succeeds with some names exactly when there is no extensionRequest attribute, or
  one, with one value that is a list of extensions in which subjectAltName occurs at most once,
  and the names are the ones of that extension; two such attributes or two such extensions are
  refused, and every other attribute and extension is ignored.\<close>

theorem sansFromCSRAttributes_requested:
  "sansFromCSRAttributes as = Inr s \<longleftrightarrow> requested_by as s"
  unfolding sansFromCSRAttributes_def by (rule csr_attr_loop_Inr)

text \<open>C40. Every request that \<open>ParseCertificateRequest\<close> returns carries a well-formed key of the
  algorithm it is signed with and a signature of that algorithm's size, so that \<open>CheckSignature\<close>
  is the verification of these octets under that key: it succeeds exactly when that verification
  does, and an error of the verification is an \<open>ErrCSRSignature\<close> that keeps the sentinels of that
  error, \<open>ErrBadSignature\<close> for a wrong signature.\<close>

theorem ParseCertificateRequest_well_formed:
  assumes "ParseCertificateRequest der = Inr csr"
  shows "csr_Raw csr = der \<and> pub_ok (csr_PublicKey csr)
    \<and> csr_SigAlg csr = pub_alg (csr_PublicKey csr)
    \<and> length (csr_Signature csr) = SignatureSize (csr_SigAlg csr)
    \<and> (Verify C (csr_PublicKey csr) (csr_RawTBS csr) (csr_Signature csr) = Inl (Err [ErrBadSignature] m) \<longrightarrow>
         (\<exists>e. CheckSignature C csr = Inl e \<and> errors_is e ErrCSRSignature \<and> errors_is e ErrBadSignature))
    \<and> (CheckSignature C csr = Inr ()
         \<longleftrightarrow> Verify C (csr_PublicKey csr) (csr_RawTBS csr) (csr_Signature csr) = Inr ())
    \<and> (\<forall>sents m. Verify C (csr_PublicKey csr) (csr_RawTBS csr) (csr_Signature csr) = Inl (Err sents m) \<longrightarrow>
         (\<exists>e. CheckSignature C csr = Inl e \<and> errors_is e ErrCSRSignature \<and> (\<forall>s \<in> set sents. errors_is e s)))"
  using assms publicKeyFromSPKI_ok
  by (clarsimp simp: ParseCertificateRequest_def go_inv CheckSignature_def split: if_splits)

theorem ParseCertificateRequest_well_formed_witness:
  "\<exists>der csr. ParseCertificateRequest der = Inr csr \<and> length (csr_Signature csr) = 7856"
proof -
  let ?n = "zero_Name\<lparr>CommonName := ''CA''\<rparr>"
  let ?sans = "\<lparr>DNSNames = [''a''], EmailAddresses = [], IPAddresses = []\<rparr>"
  obtain der where der: "CreateCertificateRequest ?n toy_key (Some toy_signer) ?sans = Inr der"
    "length der < 2 ^ 31" using toy_csr_created by blast
  have "name_size ?n \<le> 2 ^ 30" "san_ok ?sans"
    by (simp_all add: name_size_def name_parts_def zero_Name_def san_ok_def)
  from CreateCertificateRequest_parse [OF der toy_signer_ok this]
  obtain csr where "ParseCertificateRequest der = Inr csr" "csr_SigAlg csr = SLHDSA_SHA2_128s"
    by (auto simp: issued_csr_def)
  then show ?thesis using ParseCertificateRequest_well_formed [of der csr] by auto
qed

end
