(* ===== verification/Pkcs8.thy ===== *)
theory Pkcs8
  imports Keys
begin

section \<open>PKCS#8 private keys (internal/pqx509/pkcs8.go)\<close>

text \<open>
  \<open>MarshalPKCS8PrivateKey\<close> and \<open>ParsePKCS8PrivateKey\<close> over \<open>oneAsymmetricKey\<close>: the
  round trip, and what an accepted key looks like.
\<close>

record oneAsymmetricKey =
  oak_version :: int
  oak_algorithm :: algorithmIdentifier
  oak_key :: bytes

definition marshal_oneAsymmetricKey :: "oneAsymmetricKey \<Rightarrow> bytes res" where
  "marshal_oneAsymmetricKey k =
     rbind (marshal_int (oak_version k)) (\<lambda>v.
     rbind (marshal_algorithmIdentifier (oak_algorithm k)) (\<lambda>a.
       Inr (tlv 0 True 16 (v @ a @ marshal_octets (oak_key k)))))"

definition oneAsymmetricKey_fields :: "bytes \<Rightarrow> oneAsymmetricKey res" where
  "oneAsymmetricKey_fields inner =
     rbind (parse_int no_params 0 inner) (\<lambda>(v, r).
     rbind (parse_algorithmIdentifier r) (\<lambda>(a, r1).
     rbind (parse_octets no_params r1) (\<lambda>(k, _).
       Inr \<lparr>oak_version = v, oak_algorithm = a, oak_key = k\<rparr>)))"

definition parse_oneAsymmetricKey :: "bytes \<Rightarrow> (oneAsymmetricKey \<times> bytes) res" where
  "parse_oneAsymmetricKey = parse_struct no_params oneAsymmetricKey_fields
     \<lparr>oak_version = 0, oak_algorithm = algorithm_identifier [], oak_key = []\<rparr>"

definition MarshalPKCS8PrivateKey :: "PrivateKey \<Rightarrow> bytes res" where
  "MarshalPKCS8PrivateKey priv =
     (if \<not> alg_Valid (priv_alg priv) then Inl (Err [ErrUnknownAlgorithm] ''MarshalPKCS8PrivateKey'')
      else if length (priv_seed priv) \<noteq> SeedSize (priv_alg priv)
      then Inl (Err [ErrInvalidKeySize] ''key material size'')
      else rmap_err (wrap_errs [] ''pqx509: marshaling PKCS#8 private key'')
        (marshal_oneAsymmetricKey
           \<lparr>oak_version = 0, oak_algorithm = algorithm_identifier (alg_OID (priv_alg priv)),
            oak_key = priv_seed priv\<rparr>))"

definition ParsePKCS8PrivateKey :: "bytes \<Rightarrow> PrivateKey res" where
  "ParsePKCS8PrivateKey der =
     rbind (rmap_err (wrap_errs [ErrMalformedDER] ''PKCS#8 private key'')
        (parse_oneAsymmetricKey der)) (\<lambda>(k, rest).
       if rest \<noteq> [] then Inl (Err [ErrTrailingData] ''bytes after PKCS#8 private key'')
       else if oak_version k \<noteq> 0 then Inl (Err [ErrMalformedDER] ''PKCS#8 version'')
       else rbind (algorithmFromOID (aid_algorithm (oak_algorithm k))) (\<lambda>alg.
         if rv_full (aid_parameters (oak_algorithm k)) \<noteq> []
         then Inl (Err [ErrMalformedDER] ''AlgorithmIdentifier must omit parameters'')
         else if length (oak_key k) \<noteq> SeedSize alg
         then Inl (Err [ErrInvalidKeySize] ''key material size'')
         else Inr \<lparr>priv_alg = alg, priv_seed = oak_key k\<rparr>))"

definition oneAsymmetricKey_ok :: "oneAsymmetricKey \<Rightarrow> bool" where
  "oneAsymmetricKey_ok k = (int64_ok (oak_version k) \<and> algorithmIdentifier_ok (oak_algorithm k))"

interpretation oneAsymmetricKey_codec:
  asn1_codec marshal_oneAsymmetricKey parse_oneAsymmetricKey oneAsymmetricKey_ok
proof
  fix k bs rest
  assume k: "oneAsymmetricKey_ok k" "marshal_oneAsymmetricKey k = Inr bs" "length bs < 2 ^ 31"
  obtain v a where v: "marshal_int (oak_version k) = Inr v"
    and a: "marshal_algorithmIdentifier (oak_algorithm k) = Inr a"
    and bs: "bs = tlv 0 True 16 (v @ a @ marshal_octets (oak_key k))"
    using k(2) by (auto simp: marshal_oneAsymmetricKey_def go_inv)
  have l: "length (v @ a @ marshal_octets (oak_key k)) < 2 ^ 31"
    using k(3) bs tlv_body_bound by blast
  then have l': "length v < 2 ^ 31" "length a < 2 ^ 31" "length (oak_key k) < 2 ^ 31"
    using length_tlv_body [of "oak_key k" 0 False 4] by (simp_all add: marshal_octets_def)
  have "parse_int no_params 0 (v @ a @ marshal_octets (oak_key k)) =
      Inr (oak_version k, a @ marshal_octets (oak_key k))"
    using k(1) v l'(1) by (intro int_codec.dec_enc) (simp_all add: oneAsymmetricKey_ok_def)
  moreover have "parse_algorithmIdentifier (a @ marshal_octets (oak_key k)) =
      Inr (oak_algorithm k, marshal_octets (oak_key k))"
    using k(1) a l'(2)
    by (intro algorithmIdentifier_codec.dec_enc) (simp_all add: oneAsymmetricKey_ok_def)
  moreover have "parse_octets no_params (marshal_octets (oak_key k)) = Inr (oak_key k, [])"
    using parse_octets_marshal [OF l'(3), of "[]"] by simp
  ultimately have "oneAsymmetricKey_fields (v @ a @ marshal_octets (oak_key k)) = Inr k"
    by (simp add: oneAsymmetricKey_fields_def)
  then show "parse_oneAsymmetricKey (bs @ rest) = Inr (k, rest)"
    by (simp add: parse_oneAsymmetricKey_def bs parse_struct_tlv [OF l])
qed

definition oak_of :: "PrivateKey \<Rightarrow> oneAsymmetricKey" where
  "oak_of k = \<lparr>oak_version = 0, oak_algorithm = algorithm_identifier (alg_OID (priv_alg k)),
               oak_key = priv_seed k\<rparr>"

lemma MarshalPKCS8_total:
  assumes "priv_ok k"
  shows "\<exists>bs. MarshalPKCS8PrivateKey k = Inr bs \<and> marshal_oneAsymmetricKey (oak_of k) = Inr bs"
  using assms marshal_algorithm_identifier [of "priv_alg k"]
  by (auto simp: MarshalPKCS8PrivateKey_def priv_ok_def marshal_oneAsymmetricKey_def marshal_int_def
      oak_of_def)

lemma length_MarshalPKCS8:
  assumes "marshal_oneAsymmetricKey (oak_of k) = Inr bs" "priv_ok k"
  shows "length bs \<le> 300"
proof -
  obtain a where a: "marshal_algorithmIdentifier (algorithm_identifier (alg_OID (priv_alg k))) = Inr a"
    "bs = tlv 0 True 16 (tlv 0 False 2 (int_bytes 0) @ a @ tlv 0 False 4 (priv_seed k))"
    using assms(1)
    by (auto simp: marshal_oneAsymmetricKey_def marshal_int_def oak_of_def go_inv marshal_octets_def)
  have "length (tlv 0 False 2 (int_bytes 0)) \<le> 7"
    using length_tlv_le [of 2 "int_bytes 0" 0 False] by (simp add: int_bytes_narrow)
  moreover have "length a \<le> 60"
    using a(1) assms(2) length_algorithm_identifier by (auto simp: priv_ok_def)
  moreover have "length (tlv 0 False 4 (priv_seed k)) \<le> 140"
    using length_tlv_le [of 4 "priv_seed k" 0 False] size_bounds(3) [of "priv_alg k"] assms(2)
    by (simp add: priv_ok_def)
  ultimately show ?thesis
    using length_tlv_le [of 16 "tlv 0 False 2 (int_bytes 0) @ a @ tlv 0 False 4 (priv_seed k)" 0 True]
    by (simp add: a(2))
qed

lemma PKCS8_roundtrip:
  assumes k: "priv_ok k"
  shows "\<exists>der. MarshalPKCS8PrivateKey k = Inr der \<and> ParsePKCS8PrivateKey der = Inr k"
proof -
  obtain der where der: "MarshalPKCS8PrivateKey k = Inr der" "marshal_oneAsymmetricKey (oak_of k) = Inr der"
    using MarshalPKCS8_total [OF k] by blast
  have "length der < 2 ^ 31" using length_MarshalPKCS8 [OF der(2) k] by simp
  moreover have "oneAsymmetricKey_ok (oak_of k)"
    using k by (simp add: oneAsymmetricKey_ok_def oak_of_def int64_ok_def algorithm_identifier_ok priv_ok_def)
  ultimately have "parse_oneAsymmetricKey der = Inr (oak_of k, [])"
    using oneAsymmetricKey_codec.dec_enc_all der(2) by blast
  then show ?thesis
    using der(1) k
    by (auto simp: ParsePKCS8PrivateKey_def oak_of_def priv_ok_def algorithm_identifier_def
        algorithmFromOID_alg_OID zero_raw_def)
qed

lemma PKCS8_accepts: "ParsePKCS8PrivateKey der = Inr k \<Longrightarrow> priv_ok k"
  by (auto simp: ParsePKCS8PrivateKey_def go_inv priv_ok_def algorithmFromOID_Inr split: if_splits)

subsection \<open>Properties\<close>

text \<open>Every private key of its algorithm's size is written as PKCS#8 DER and read back
  unchanged by \<open>ParsePKCS8PrivateKey\<close>; conversely whatever \<open>ParsePKCS8PrivateKey\<close> accepts has a
  registered algorithm and that algorithm's key material size.\<close>

theorem ParsePKCS8_MarshalPKCS8:
  "(priv_ok k \<longrightarrow> (\<exists>der. MarshalPKCS8PrivateKey k = Inr der \<and> ParsePKCS8PrivateKey der = Inr k))
   \<and> (\<forall>der. ParsePKCS8PrivateKey der = Inr k \<longrightarrow> priv_ok k)"
  using PKCS8_roundtrip PKCS8_accepts by blast

theorem ParsePKCS8_MarshalPKCS8_witness:
  "\<exists>der. MarshalPKCS8PrivateKey \<lparr>priv_alg = MLDSA65, priv_seed = replicate 32 1\<rparr> = Inr der
     \<and> ParsePKCS8PrivateKey der = Inr \<lparr>priv_alg = MLDSA65, priv_seed = replicate 32 1\<rparr>"
proof -
  have "priv_ok \<lparr>priv_alg = MLDSA65, priv_seed = replicate 32 1\<rparr>"
    by (simp add: priv_ok_def alg_Valid_def SeedSize_def alg_info_def algorithms_def algorithm_consts)
  then show ?thesis using ParsePKCS8_MarshalPKCS8 by blast
qed

end
