(* ===== verification/Pem.thy ===== *)
theory Pem
  imports Pkcs8
begin

section \<open>PEM blocks (internal/pqx509/pem.go)\<close>

text \<open>
  \<open>EncodeCertificatePEM\<close>, \<open>EncodeCRLPEM\<close>, \<open>DecodeCertificatePEM\<close>, \<open>EncodePrivateKeyPEM\<close> and
  \<open>DecodePrivateKeyPEM\<close>. The text format is the business of \<open>encoding/pem\<close>, whose two
  functions are the fields of the record \<open>pem_package\<close>; \<open>pem_ok\<close> states what its
  documentation says of the blocks this program writes: \<open>Decode\<close> finds the next block of its
  input and returns it with what follows it. The headers of a block are an association list.
\<close>

record pem_block =
  pem_Type :: string
  pem_Headers :: "(string \<times> string) list"
  pem_Bytes :: bytes

record pem_package =
  EncodeToMemory :: "pem_block \<Rightarrow> bytes"
  pem_Decode :: "bytes \<Rightarrow> (pem_block \<times> bytes) option"

definition pemTypeCertificate :: string where "pemTypeCertificate = ''CERTIFICATE''"
definition pemTypeCRL :: string where "pemTypeCRL = ''X509 CRL''"
definition pemTypePrivateKey :: string where "pemTypePrivateKey = ''PRIVATE KEY''"
definition pemTypeLegacyKey :: string where "pemTypeLegacyKey = ''PQTRUST ML-DSA PRIVATE KEY''"

lemmas pem_types = pemTypeCertificate_def pemTypeCRL_def pemTypePrivateKey_def pemTypeLegacyKey_def

definition EncodeCertificatePEM :: "pem_package \<Rightarrow> bytes \<Rightarrow> bytes" where
  "EncodeCertificatePEM P der =
     EncodeToMemory P \<lparr>pem_Type = pemTypeCertificate, pem_Headers = [], pem_Bytes = der\<rparr>"

definition EncodeCRLPEM :: "pem_package \<Rightarrow> bytes \<Rightarrow> bytes" where
  "EncodeCRLPEM P der =
     EncodeToMemory P \<lparr>pem_Type = pemTypeCRL, pem_Headers = [], pem_Bytes = der\<rparr>"

definition DecodeCertificatePEM :: "pem_package \<Rightarrow> bytes \<Rightarrow> bytes res" where
  "DecodeCertificatePEM P pemBytes =
     (case pem_Decode P pemBytes of
        None \<Rightarrow> Inl (Err [] ''pqx509: no PEM block found'')
      | Some (block, _) \<Rightarrow>
          if pem_Type block \<noteq> pemTypeCertificate then Inl (Err [] ''pqx509: PEM block type'')
          else Inr (pem_Bytes block))"

definition EncodePrivateKeyPEM :: "pem_package \<Rightarrow> PrivateKey \<Rightarrow> bytes res" where
  "EncodePrivateKeyPEM P priv =
     rbind (rmap_err (wrap_errs [] ''pqx509: encoding private key PEM'') (MarshalPKCS8PrivateKey priv))
       (\<lambda>der. Inr (EncodeToMemory P
          \<lparr>pem_Type = pemTypePrivateKey, pem_Headers = [], pem_Bytes = der\<rparr>))"

text \<open>A missing header is the empty string, as a lookup in a Go map of strings is.\<close>

definition header_value :: "pem_block \<Rightarrow> string \<Rightarrow> string" where
  "header_value block key = (case map_of (pem_Headers block) key of None \<Rightarrow> [] | Some v \<Rightarrow> v)"

definition DecodePrivateKeyPEM :: "pem_package \<Rightarrow> bytes \<Rightarrow> PrivateKey res" where
  "DecodePrivateKeyPEM P pemBytes =
     (case pem_Decode P pemBytes of
        None \<Rightarrow> Inl (Err [] ''pqx509: no PEM block found'')
      | Some (block, _) \<Rightarrow>
          if pem_Type block = pemTypePrivateKey
          then rmap_err (wrap_errs [] ''pqx509: private key PEM'') (ParsePKCS8PrivateKey (pem_Bytes block))
          else if pem_Type block = pemTypeLegacyKey
          then
            rbind (rmap_err (wrap_errs [] ''pqx509: legacy private key PEM algorithm header'')
               (ParseAlgorithm (header_value block ''Algorithm''))) (\<lambda>alg.
              if length (pem_Bytes block) \<noteq> SeedSize alg
              then Inl (Err [ErrInvalidKeySize] ''legacy key material size'')
              else Inr \<lparr>priv_alg = alg, priv_seed = pem_Bytes block\<rparr>)
          else Inl (Err [] ''pqx509: PEM block type''))"

subsection \<open>What the code relies on\<close>

text \<open>Blocks of the types of this program, with at most the header of the legacy format.\<close>

definition program_block :: "pem_block \<Rightarrow> bool" where
  "program_block b =
     (pem_Type b \<in> {pemTypeCertificate, pemTypeCRL, pemTypePrivateKey, pemTypeLegacyKey}
      \<and> (pem_Headers b = [] \<or> (\<exists>alg. alg_Valid alg \<and> pem_Headers b = [(''Algorithm'', alg_String alg)])))"

definition pem_ok :: "pem_package \<Rightarrow> bool" where
  "pem_ok P = (\<forall>b rest. program_block b \<longrightarrow> pem_Decode P (EncodeToMemory P b @ rest) = Some (b, rest))"

lemma pem_Decode_block:
  "pem_ok P \<Longrightarrow> program_block b \<Longrightarrow> pem_Decode P (EncodeToMemory P b @ rest) = Some (b, rest)"
  by (simp add: pem_ok_def)

lemma Decode_EncodeCertificatePEM:
  "pem_ok P \<Longrightarrow> DecodeCertificatePEM P (EncodeCertificatePEM P der @ rest) = Inr der"
  by (simp add: DecodeCertificatePEM_def EncodeCertificatePEM_def pem_Decode_block program_block_def)

subsection \<open>A concrete instance\<close>

text \<open>
  A block format with the same contract, for the concrete examples: every string is the list of
  its bytes, each preceded by 1, and a final 0.
\<close>

definition toy_put :: "bytes \<Rightarrow> bytes" where
  "toy_put bs = concat (map (\<lambda>b. [1, b]) bs) @ [0]"

fun toy_get :: "bytes \<Rightarrow> (bytes \<times> bytes) option" where
  "toy_get [] = None"
| "toy_get (m # r) =
     (if m = 0 then Some ([], r)
      else (case r of [] \<Rightarrow> None
            | b # r' \<Rightarrow> (case toy_get r' of None \<Rightarrow> None | Some (bs, s) \<Rightarrow> Some (b # bs, s))))"

definition toy_pem :: pem_package where
  "toy_pem =
     \<lparr>EncodeToMemory = (\<lambda>b. toy_put (bytes_of (pem_Type b))
        @ (case pem_Headers b of [] \<Rightarrow> [0] | (k, v) # _ \<Rightarrow> 1 # toy_put (bytes_of k) @ toy_put (bytes_of v))
        @ toy_put (pem_Bytes b)),
      pem_Decode = (\<lambda>s.
        case toy_get s of None \<Rightarrow> None
        | Some (ty, []) \<Rightarrow> None
        | Some (ty, h # r) \<Rightarrow>
            if h = 0
            then (case toy_get r of None \<Rightarrow> None
                  | Some (bs, r1) \<Rightarrow> Some (\<lparr>pem_Type = string_of ty, pem_Headers = [], pem_Bytes = bs\<rparr>, r1))
            else
              (case toy_get r of None \<Rightarrow> None
               | Some (k, r1) \<Rightarrow>
                   (case toy_get r1 of None \<Rightarrow> None
                    | Some (v, r2) \<Rightarrow>
                        (case toy_get r2 of None \<Rightarrow> None
                         | Some (bs, r3) \<Rightarrow>
                             Some (\<lparr>pem_Type = string_of ty,
                                    pem_Headers = [(string_of k, string_of v)], pem_Bytes = bs\<rparr>, r3)))))\<rparr>"

lemma toy_get_put [simp]: "toy_get (toy_put bs @ rest) = Some (bs, rest)"
  by (induction bs) (simp_all add: toy_put_def)

lemma toy_pem_ok: "pem_ok toy_pem"
proof -
  have "pem_Decode toy_pem (EncodeToMemory toy_pem b @ rest) = Some (b, rest)"
    if "length (pem_Headers b) \<le> 1" for b rest
  proof (cases "pem_Headers b")
    case Nil
    then show ?thesis by (cases b) (simp add: toy_pem_def)
  next
    case (Cons kv hs)
    then have "hs = []" using that by simp
    then show ?thesis using Cons by (cases b; cases kv) (simp add: toy_pem_def)
  qed
  then show ?thesis by (auto simp: pem_ok_def program_block_def)
qed

lemma ParseAlgorithm_alg_String: "alg_Valid a \<Longrightarrow> ParseAlgorithm (alg_String a) = Inr a"
  by (auto simp: ParseAlgorithm_Inr_iff alg_Valid_def alg_String_def equal_fold_refl)

lemma ParseAlgorithm_valid: "ParseAlgorithm s = Inr a \<Longrightarrow> alg_Valid a"
  by (auto simp: ParseAlgorithm_Inr_iff alg_Valid_def)

subsection \<open>Properties\<close>

text \<open>Private keys survive PEM: \<open>DecodePrivateKeyPEM\<close> gives back the key that
  \<open>EncodePrivateKeyPEM\<close> wrote, whatever follows the block, and reads the legacy block of every
  algorithm; whatever it accepts has a registered algorithm and key material of its size; and a
  certificate block is never taken for a key, nor a key block for a certificate.\<close>

theorem DecodePrivateKeyPEM_Encode:
  assumes "pem_ok P" and "priv_ok k"
  shows "(\<exists>text. EncodePrivateKeyPEM P k = Inr text
      \<and> DecodePrivateKeyPEM P (text @ rest) = Inr k
      \<and> (\<exists>e. DecodeCertificatePEM P (text @ rest) = Inl e))
    \<and> DecodePrivateKeyPEM P (EncodeToMemory P
        \<lparr>pem_Type = pemTypeLegacyKey, pem_Headers = [(''Algorithm'', alg_String (priv_alg k))],
         pem_Bytes = priv_seed k\<rparr> @ rest) = Inr k
    \<and> (\<forall>text k'. DecodePrivateKeyPEM P text = Inr k' \<longrightarrow> priv_ok k')
    \<and> (\<exists>e. DecodePrivateKeyPEM P (EncodeCertificatePEM P der @ rest) = Inl e)"
proof -
  obtain d where d: "MarshalPKCS8PrivateKey k = Inr d" "ParsePKCS8PrivateKey d = Inr k"
    using PKCS8_roundtrip [OF assms(2)] by blast
  have valid: "alg_Valid (priv_alg k)" and size: "length (priv_seed k) = SeedSize (priv_alg k)"
    using assms(2) by (simp_all add: priv_ok_def)
  have "ParseAlgorithm (alg_String (priv_alg k)) = Inr (priv_alg k)"
    using ParseAlgorithm_alg_String [OF valid] .
  then have legacy: "DecodePrivateKeyPEM P (EncodeToMemory P
        \<lparr>pem_Type = pemTypeLegacyKey, pem_Headers = [(''Algorithm'', alg_String (priv_alg k))],
         pem_Bytes = priv_seed k\<rparr> @ rest) = Inr k"
    using valid size
    by (subst DecodePrivateKeyPEM_def, subst pem_Decode_block [OF assms(1)])
      (auto simp: program_block_def header_value_def pem_types)
  let ?b = "\<lparr>pem_Type = pemTypePrivateKey, pem_Headers = [], pem_Bytes = d\<rparr>"
  have "pem_Decode P (EncodeToMemory P ?b @ rest) = Some (?b, rest)"
    by (rule pem_Decode_block [OF assms(1)]) (simp add: program_block_def)
  then have "DecodePrivateKeyPEM P (EncodeToMemory P ?b @ rest) = Inr k"
    "\<exists>e. DecodeCertificatePEM P (EncodeToMemory P ?b @ rest) = Inl e"
    using d(2) by (simp_all add: DecodePrivateKeyPEM_def DecodeCertificatePEM_def pem_types)
  moreover have "EncodePrivateKeyPEM P k = Inr (EncodeToMemory P ?b)"
    using d(1) by (simp add: EncodePrivateKeyPEM_def)
  moreover have "priv_ok k'" if "DecodePrivateKeyPEM P s = Inr k'" for s k'
    using that ParseAlgorithm_Inr_iff
    by (auto simp: DecodePrivateKeyPEM_def go_inv priv_ok_def alg_Valid_def
        dest!: PKCS8_accepts [unfolded priv_ok_def alg_Valid_def] split: option.splits if_splits)
  moreover have "\<exists>e. DecodePrivateKeyPEM P (EncodeCertificatePEM P der @ rest) = Inl e"
    using pem_Decode_block [OF assms(1), of "\<lparr>pem_Type = pemTypeCertificate, pem_Headers = [], pem_Bytes = der\<rparr>" rest]
    by (simp add: DecodePrivateKeyPEM_def EncodeCertificatePEM_def program_block_def pem_types)
  ultimately show ?thesis using legacy by blast
qed

theorem DecodePrivateKeyPEM_Encode_witness:
  "\<exists>text. DecodePrivateKeyPEM toy_pem text = Inr \<lparr>priv_alg = MLDSA65, priv_seed = replicate 32 1\<rparr>"
proof -
  have "priv_ok \<lparr>priv_alg = MLDSA65, priv_seed = replicate 32 1\<rparr>"
    by (simp add: priv_ok_def alg_Valid_def SeedSize_def alg_info_def algorithms_def algorithm_consts)
  from DecodePrivateKeyPEM_Encode [OF toy_pem_ok this] show ?thesis by blast
qed

end
