(* ===== verification/Keystore.thy ===== *)
theory Keystore
  imports Pem
begin

section \<open>Sealed keys (internal/keystore)\<close>

text \<open>
  seal.go: \<open>Seal\<close> and \<open>Unseal\<close>; keystore.go: \<open>NewKeyID\<close> and \<open>validateKeyID\<close>.
  \<open>argon2.IDKey\<close> (golang.org/x/crypto), AES-GCM (\<open>crypto/aes\<close>, \<open>crypto/cipher\<close>) and the JSON text of
  an envelope (\<open>encoding/json\<close>) are the fields of the record \<open>sealing\<close>, and \<open>seal_ok\<close> states
  their documented behaviour. \<open>rand.Reader\<close> is the list of the bytes it still has. Zeroing a
  slice that is not used again is not modelled.
\<close>

subsection \<open>The primitives\<close>

record envelope =
  env_Version :: int
  env_Alg :: string
  env_KDF :: string
  env_Time :: nat
  env_Memory :: nat
  env_Threads :: nat
  env_Salt :: bytes
  env_Nonce :: bytes
  env_Cipher :: bytes

record sealing =
  argon2_IDKey :: "bytes \<Rightarrow> bytes \<Rightarrow> nat \<Rightarrow> nat \<Rightarrow> nat \<Rightarrow> nat \<Rightarrow> bytes"
  gcm_Seal :: "bytes \<Rightarrow> bytes \<Rightarrow> bytes \<Rightarrow> bytes \<Rightarrow> bytes"
  gcm_Open :: "bytes \<Rightarrow> bytes \<Rightarrow> bytes \<Rightarrow> bytes \<Rightarrow> bytes option"
  json_Marshal :: "envelope \<Rightarrow> bytes res"
  json_Unmarshal :: "bytes \<Rightarrow> envelope res"

definition argonTime :: nat where "argonTime = 3"
definition argonMemory :: nat where "argonMemory = 64 * 1024"
definition argonThreads :: nat where "argonThreads = 2"
definition argonKeyLen :: nat where "argonKeyLen = 32"
definition saltSize :: nat where "saltSize = 16"
definition envelopeVersion :: int where "envelopeVersion = 1"
definition nonceSize :: nat where "nonceSize = 12"

lemmas argon_consts = argonTime_def argonMemory_def argonThreads_def argonKeyLen_def saltSize_def
  envelopeVersion_def nonceSize_def

definition aad :: "string \<Rightarrow> bytes" where
  "aad alg = bytes_of (''pqtrust-sealed-key-v1|'' @ alg)"

text \<open>\<open>aes.NewCipher\<close> takes keys of three sizes; the cipher is represented by its key.\<close>

definition newGCM :: "bytes \<Rightarrow> bytes res" where
  "newGCM key =
     (if length key = 16 \<or> length key = 24 \<or> length key = 32 then Inr key
      else Inl (Err [] ''keystore: creating AES cipher''))"

subsection \<open>Seal and Unseal\<close>

definition Seal :: "sealing \<Rightarrow> PrivateKey \<Rightarrow> bytes \<Rightarrow> bytes \<Rightarrow> (bytes \<times> bytes) res" where
  "Seal S priv passphrase r =
     (if length passphrase = 0 then Inl (Err [ErrEmptyPassphrase] ''Seal'')
      else if \<not> alg_Valid (priv_alg priv) then Inl (Err [ErrUnknownAlgorithm] ''keystore'')
      else if length (priv_seed priv) \<noteq> SeedSize (priv_alg priv)
      then Inl (Err [ErrInvalidKeySize] ''keystore: key material size'')
      else
        rbind (rmap_err (wrap_errs [] ''keystore: reading salt'') (read_full saltSize r)) (\<lambda>(salt, r1).
        let key = argon2_IDKey S passphrase salt argonTime argonMemory argonThreads argonKeyLen in
        rbind (newGCM key) (\<lambda>gcm.
        rbind (rmap_err (wrap_errs [] ''keystore: reading nonce'') (read_full nonceSize r1)) (\<lambda>(nonce, r2).
        let algName = alg_String (priv_alg priv);
            ct = gcm_Seal S gcm nonce (priv_seed priv) (aad algName) in
        rbind (rmap_err (wrap_errs [] ''keystore: marshaling envelope'')
          (json_Marshal S
            \<lparr>env_Version = envelopeVersion, env_Alg = algName, env_KDF = ''argon2id'',
             env_Time = argonTime, env_Memory = argonMemory, env_Threads = argonThreads,
             env_Salt = salt, env_Nonce = nonce, env_Cipher = ct\<rparr>)) (\<lambda>blob.
          Inr (blob, r2))))))"

definition Unseal :: "sealing \<Rightarrow> bytes \<Rightarrow> bytes \<Rightarrow> PrivateKey res" where
  "Unseal S sealed passphrase =
     (if length passphrase = 0 then Inl (Err [ErrEmptyPassphrase] ''Unseal'')
      else
        rbind (rmap_err (wrap_errs [] ''keystore: parsing sealed key'') (json_Unmarshal S sealed)) (\<lambda>env.
          if env_Version env \<noteq> envelopeVersion then Inl (Err [] ''keystore: unsupported sealed key version'')
          else if env_KDF env \<noteq> ''argon2id'' then Inl (Err [] ''keystore: unsupported KDF'')
          else
            rbind (rmap_err (wrap_errs [] ''keystore'') (ParseAlgorithm (env_Alg env))) (\<lambda>alg.
              if env_Threads env = 0 \<or> env_Time env = 0 \<or> env_Memory env = 0
                \<or> length (env_Salt env) = 0 \<or> length (env_Nonce env) = 0
              then Inl (Err [] ''keystore: incomplete sealed key envelope'')
              else
                (let key = argon2_IDKey S passphrase (env_Salt env) (env_Time env) (env_Memory env)
                       (env_Threads env) argonKeyLen in
                 rbind (newGCM key) (\<lambda>gcm.
                   if length (env_Nonce env) \<noteq> nonceSize then Inl (Err [] ''keystore: nonce size'')
                   else
                     (case gcm_Open S gcm (env_Nonce env) (env_Cipher env) (aad (env_Alg env)) of
                        None \<Rightarrow> Inl (Err [ErrWrongPassphrase] ''Unseal'')
                      | Some seed \<Rightarrow>
                          if length seed \<noteq> SeedSize alg
                          then Inl (Err [ErrInvalidKeySize] ''keystore: sealed key material size'')
                          else Inr \<lparr>priv_alg = alg, priv_seed = seed\<rparr>))))))"

text \<open>
  \<open>seal_ok\<close>: \<open>IDKey\<close> returns as many bytes as it is asked for, \<open>Open\<close> inverts \<open>Seal\<close> and accepts
  nothing that is not a sealed text, and the JSON of an envelope that names a registered algorithm
  and \<open>argon2id\<close> (the only text of it) decodes to it.
\<close>

definition envelope_ok :: "envelope \<Rightarrow> bool" where
  "envelope_ok e = ((\<exists>alg. alg_Valid alg \<and> env_Alg e = alg_String alg) \<and> env_KDF e = ''argon2id'')"

definition seal_ok :: "sealing \<Rightarrow> bool" where
  "seal_ok S =
     ((\<forall>p s t m n l. length (argon2_IDKey S p s t m n l) = l)
      \<and> (\<forall>k n p a. gcm_Open S k n (gcm_Seal S k n p a) a = Some p)
      \<and> (\<forall>k n c a p. gcm_Open S k n c a = Some p \<longrightarrow> c = gcm_Seal S k n p a)
      \<and> (\<forall>e. envelope_ok e \<longrightarrow> (\<exists>b. json_Marshal S e = Inr b \<and> json_Unmarshal S b = Inr e)))"

subsection \<open>Key identifiers\<close>

definition NewKeyID :: "bytes \<Rightarrow> (string \<times> bytes) res" where
  "NewKeyID r =
     rbind (rmap_err (wrap_errs [] ''keystore: generating key ID'') (read_full 16 r)) (\<lambda>(b, r').
       Inr (hex_encode b, r'))"

definition lower_hex :: "char \<Rightarrow> bool" where
  "lower_hex c = (c \<in> set ''0123456789abcdef'')"

definition validateKeyID :: "string \<Rightarrow> unit res" where
  "validateKeyID keyID =
     (if length keyID = 32 \<and> list_all lower_hex keyID then Inr ()
      else Inl (Err [] ''keystore: invalid key ID''))"

lemma lower_hex_digit: "n < 16 \<Longrightarrow> lower_hex (digit_char n)"
  unfolding lower_hex_def digit_char_def by (rule nth_mem) simp

lemma hex_encode_valid:
  "length (hex_encode bs) = 2 * length bs \<and> list_all lower_hex (hex_encode bs)"
proof (induction bs)
  case (Cons b bs)
  have "unat b div 16 < 16" "unat b mod 16 < 16"
    using byte_less [of b] by (simp_all add: less_mult_imp_div_less)
  then show ?case using Cons by (simp add: hex_encode_def lower_hex_digit)
qed (simp add: hex_encode_def)

lemma NewKeyID_valid:
  "NewKeyID r = Inr (keyID, r') \<Longrightarrow> validateKeyID keyID = Inr () \<and> r' = drop 16 r"
  using hex_encode_valid [of "take 16 r"]
  by (auto simp: NewKeyID_def validateKeyID_def read_full_def go_inv split: if_splits)

subsection \<open>Sealing and unsealing\<close>

lemma newGCM_32 [simp]: "length key = 32 \<Longrightarrow> newGCM key = Inr key"
  by (simp add: newGCM_def)

lemma Seal_Inr:
  assumes "seal_ok S" "Seal S priv pass r = Inr (blob, r')"
  shows "pass \<noteq> [] \<and> priv_ok priv \<and> Unseal S blob pass = Inr priv \<and> r' = drop 28 r \<and> 28 \<le> length r"
proof -
  have prim: "\<And>p s t m n l. length (argon2_IDKey S p s t m n l) = l"
    "\<And>k n p a. gcm_Open S k n (gcm_Seal S k n p a) a = Some p"
    using assms(1) by (simp_all add: seal_ok_def)
  have pass: "pass \<noteq> []" "alg_Valid (priv_alg priv)" "length (priv_seed priv) = SeedSize (priv_alg priv)"
    using assms(2) by (auto simp: Seal_def split: if_splits)
  obtain salt r1 nonce where rd: "read_full saltSize r = Inr (salt, r1)"
    "read_full nonceSize r1 = Inr (nonce, r')"
    and j: "json_Marshal S \<lparr>env_Version = envelopeVersion, env_Alg = alg_String (priv_alg priv),
        env_KDF = ''argon2id'', env_Time = argonTime, env_Memory = argonMemory,
        env_Threads = argonThreads, env_Salt = salt, env_Nonce = nonce,
        env_Cipher = gcm_Seal S (argon2_IDKey S pass salt argonTime argonMemory argonThreads argonKeyLen)
          nonce (priv_seed priv) (aad (alg_String (priv_alg priv)))\<rparr> = Inr blob"
    using assms(2) pass prim(1) [of pass _ argonTime argonMemory argonThreads argonKeyLen]
    by (auto simp: Seal_def Let_def go_inv argonKeyLen_def split: if_splits)
  have len: "length salt = 16" "length nonce = 12" "r' = drop 28 r" "28 \<le> length r"
    using rd by (auto simp: read_full_def argon_consts split: if_splits)
  have inj: "json_Unmarshal S blob = Inr e" if "json_Marshal S e = Inr blob" "envelope_ok e" for e
    using assms(1) that unfolding seal_ok_def by (metis sum.inject(2))
  note u = inj [OF j, unfolded envelope_ok_def, simplified, OF exI [of _ "priv_alg priv"], simplified, OF pass(2)]
  have "Unseal S blob pass = Inr priv"
    using pass len(1,2) prim(1) ParseAlgorithm_alg_String [OF pass(2)]
    by (simp add: Unseal_def u prim(2) argon_consts)
  then show ?thesis using pass len by (simp add: priv_ok_def)
qed

lemma Seal_total:
  assumes "seal_ok S" "priv_ok priv" "pass \<noteq> []" "28 \<le> length r"
  shows "\<exists>blob r'. Seal S priv pass r = Inr (blob, r')"
proof -
  have prim: "\<And>p s t m n l. length (argon2_IDKey S p s t m n l) = l"
    "\<And>e. envelope_ok e \<Longrightarrow> \<exists>b. json_Marshal S e = Inr b"
    using assms(1) unfolding seal_ok_def by (simp, metis)
  let ?e = "\<lambda>salt nonce ct. \<lparr>env_Version = envelopeVersion, env_Alg = alg_String (priv_alg priv),
      env_KDF = ''argon2id'', env_Time = argonTime, env_Memory = argonMemory,
      env_Threads = argonThreads, env_Salt = salt, env_Nonce = nonce, env_Cipher = ct\<rparr>"
  have "\<exists>b. json_Marshal S (?e salt nonce ct) = Inr b" for salt nonce ct
    using assms(2) by (intro prim(2)) (auto simp: envelope_ok_def priv_ok_def)
  from this [of "take 16 r" "take 12 (drop 16 r)"
      "gcm_Seal S (argon2_IDKey S pass (take 16 r) argonTime argonMemory argonThreads argonKeyLen)
        (take 12 (drop 16 r)) (priv_seed priv) (aad (alg_String (priv_alg priv)))"]
  show ?thesis
    using assms(2-4) by (auto simp: Seal_def priv_ok_def read_full_def argon_consts Let_def prim(1))
qed


subsection \<open>A concrete instance\<close>

text \<open>Computable primitives with the contract of \<open>seal_ok\<close>, for the concrete examples; they hide
  nothing. The text of an envelope is the list of its fields in the block format of \<open>toy_pem\<close>.\<close>

definition toy_num :: "nat \<Rightarrow> bytes" where
  "toy_num n = toy_put (replicate n 1)"

definition toy_get_num :: "bytes \<Rightarrow> (nat \<times> bytes) option" where
  "toy_get_num bs = (case toy_get bs of None \<Rightarrow> None | Some (xs, r) \<Rightarrow> Some (length xs, r))"

lemma toy_get_num [simp]: "toy_get_num (toy_num n @ rest) = Some (n, rest)"
  by (simp add: toy_get_num_def toy_num_def)

definition toy_json :: "envelope \<Rightarrow> bytes" where
  "toy_json e =
     toy_num (nat (env_Version e)) @ toy_num (nat (- env_Version e)) @ toy_put (bytes_of (env_Alg e))
     @ toy_put (bytes_of (env_KDF e)) @ toy_num (env_Time e) @ toy_num (env_Memory e)
     @ toy_num (env_Threads e) @ toy_put (env_Salt e) @ toy_put (env_Nonce e) @ toy_put (env_Cipher e)"

definition obind :: "('a \<times> bytes) option \<Rightarrow> ('a \<Rightarrow> bytes \<Rightarrow> 'b option) \<Rightarrow> 'b option" where
  "obind m f = (case m of None \<Rightarrow> None | Some (x, r) \<Rightarrow> f x r)"

lemma obind_Some [simp]: "obind (Some (x, r)) f = f x r" by (simp add: obind_def)

definition toy_unjson :: "bytes \<Rightarrow> envelope option" where
  "toy_unjson s =
     obind (toy_get_num s) (\<lambda>v s. obind (toy_get_num s) (\<lambda>v' s. obind (toy_get s) (\<lambda>alg s.
     obind (toy_get s) (\<lambda>kdf s. obind (toy_get_num s) (\<lambda>t s. obind (toy_get_num s) (\<lambda>m s.
     obind (toy_get_num s) (\<lambda>p s. obind (toy_get s) (\<lambda>salt s. obind (toy_get s) (\<lambda>nonce s.
     obind (toy_get s) (\<lambda>ct s.
       Some \<lparr>env_Version = int v - int v', env_Alg = string_of alg, env_KDF = string_of kdf,
             env_Time = t, env_Memory = m, env_Threads = p, env_Salt = salt, env_Nonce = nonce,
             env_Cipher = ct\<rparr>))))))))))"

lemma toy_get_put_end [simp]: "toy_get (toy_put bs) = Some (bs, [])"
  using toy_get_put [of bs "[]"] by simp

lemma toy_unjson_json: "toy_unjson (toy_json e) = Some e"
  by (cases e) (simp add: toy_unjson_def toy_json_def)

definition toy_sealing :: sealing where
  "toy_sealing =
     \<lparr>argon2_IDKey = (\<lambda>p s t m n l. take l (p @ replicate l 0)),
      gcm_Seal = (\<lambda>k n p a. toy_put k @ toy_put a @ p),
      gcm_Open = (\<lambda>k n c a. if take (length (toy_put k @ toy_put a)) c = toy_put k @ toy_put a
        then Some (drop (length (toy_put k @ toy_put a)) c) else None),
      json_Marshal = (\<lambda>e. Inr (toy_json e)),
      json_Unmarshal = (\<lambda>s. case toy_unjson s of None \<Rightarrow> Inl (Err [] ''json'') | Some e \<Rightarrow> Inr e)\<rparr>"

lemma toy_sealing_ok: "seal_ok toy_sealing"
proof -
  have "c = toy_put k @ toy_put a @ drop (length (toy_put k @ toy_put a)) c"
    if "take (length (toy_put k @ toy_put a)) c = toy_put k @ toy_put a" for c k a
    using append_take_drop_id [of "length (toy_put k @ toy_put a)" c] unfolding that by simp
  then show ?thesis
    by (auto simp: seal_ok_def toy_sealing_def toy_unjson_json split: if_splits)
qed

subsection \<open>Properties\<close>

text \<open>C23. \<open>Unseal\<close> opens what \<open>Seal\<close> closed: sealing any key of its algorithm's size under a
  passphrase that is not empty succeeds when 28 bytes of entropy are left, uses exactly those, and
  \<open>Unseal\<close> with the same passphrase gives the key back; the empty passphrase is refused by both
  with \<open>ErrEmptyPassphrase\<close>.\<close>

theorem Unseal_Seal:
  assumes "seal_ok S" and "priv_ok priv" and "28 \<le> length r"
  shows "if pass = []
    then Seal S priv pass r = Inl (Err [ErrEmptyPassphrase] ''Seal'')
      \<and> (\<forall>blob. Unseal S blob pass = Inl (Err [ErrEmptyPassphrase] ''Unseal''))
    else \<exists>blob. Seal S priv pass r = Inr (blob, drop 28 r) \<and> Unseal S blob pass = Inr priv"
proof (cases "pass = []")
  case True
  then show ?thesis by (simp add: Seal_def Unseal_def)
next
  case False
  then obtain blob r' where "Seal S priv pass r = Inr (blob, r')"
    using Seal_total [OF assms(1,2) _ assms(3)] by blast
  then show ?thesis using Seal_Inr [OF assms(1), of priv pass r blob r'] False by auto
qed

theorem Unseal_Seal_witness:
  "\<exists>blob. Seal toy_sealing \<lparr>priv_alg = MLDSA65, priv_seed = replicate 32 1\<rparr> [7] (replicate 28 3) = Inr (blob, [])
     \<and> Unseal toy_sealing blob [7] = Inr \<lparr>priv_alg = MLDSA65, priv_seed = replicate 32 1\<rparr>"
proof -
  have "priv_ok \<lparr>priv_alg = MLDSA65, priv_seed = replicate 32 1\<rparr>"
    by (simp add: priv_ok_def alg_Valid_def SeedSize_def alg_info_def algorithms_def algorithm_consts)
  from Unseal_Seal [OF toy_sealing_ok this, of "replicate 28 3" "[7]"] show ?thesis by simp
qed

text \<open>C10. What \<open>Unseal\<close> accepts is authentic: the sealed text is exactly what AES-GCM makes of the
  returned key material under the key that the passphrase and the salt of the envelope derive,
  bound to the algorithm name of the envelope, and the returned key is well formed.\<close>

theorem Unseal_authentic:
  assumes "seal_ok S" and "Unseal S blob pass = Inr k"
  shows "priv_ok k \<and> (\<exists>env. json_Unmarshal S blob = Inr env \<and> env_Version env = 1
    \<and> env_KDF env = ''argon2id'' \<and> ParseAlgorithm (env_Alg env) = Inr (priv_alg k)
    \<and> env_Cipher env = gcm_Seal S
        (argon2_IDKey S pass (env_Salt env) (env_Time env) (env_Memory env) (env_Threads env) 32)
        (env_Nonce env) (priv_seed k) (aad (env_Alg env)))"
proof -
  obtain env where env: "json_Unmarshal S blob = Inr env" "env_Version env = 1" "env_KDF env = ''argon2id''"
    "ParseAlgorithm (env_Alg env) = Inr (priv_alg k)" "length (priv_seed k) = SeedSize (priv_alg k)"
    "gcm_Open S (argon2_IDKey S pass (env_Salt env) (env_Time env) (env_Memory env) (env_Threads env) 32)
       (env_Nonce env) (env_Cipher env) (aad (env_Alg env)) = Some (priv_seed k)"
    using assms(2)
    by (auto simp: Unseal_def Let_def go_inv argon_consts newGCM_def split: if_splits option.splits)
  then show ?thesis
    using assms(1) ParseAlgorithm_valid [OF env(4)] by (auto simp: seal_ok_def priv_ok_def)
qed

theorem Unseal_authentic_witness:
  "\<exists>blob k env. Unseal toy_sealing blob [7] = Inr k \<and> priv_ok k \<and> json_Unmarshal toy_sealing blob = Inr env
     \<and> env_Version env = 1 \<and> ParseAlgorithm (env_Alg env) = Inr MLDSA65
     \<and> env_Cipher env = gcm_Seal toy_sealing (argon2_IDKey toy_sealing [7] (env_Salt env) (env_Time env)
          (env_Memory env) (env_Threads env) 32) (env_Nonce env) (replicate 32 1) (aad (env_Alg env))"
proof -
  let ?k = "\<lparr>priv_alg = MLDSA65, priv_seed = replicate 32 1\<rparr>"
  have "priv_ok ?k"
    by (simp add: priv_ok_def alg_Valid_def SeedSize_def alg_info_def algorithms_def algorithm_consts)
  then obtain blob where "Unseal toy_sealing blob [7] = Inr ?k"
    using Seal_total [OF toy_sealing_ok, of ?k "[7]" "replicate 28 3"]
      Seal_Inr [OF toy_sealing_ok, of ?k "[7]" "replicate 28 3"] by auto
  from this Unseal_authentic [OF toy_sealing_ok this] show ?thesis by auto
qed

end
