(* ===== verification/Key_Files.thy ===== *)
theory Key_Files
  imports Keystore
begin

section \<open>The file keystore (internal/keystore/filebackend.go)\<close>

text \<open>
  \<open>FileBackend\<close> keeps each sealed key in a file. Its directory is the map \<open>files\<close> from file names
  to contents; \<open>os_fault\<close> names the system calls that fail for a reason other than the existence
  of the file, and a failing write leaves the first \<open>os_written\<close> bytes. Operations that draw
  entropy thread the bytes that \<open>rand.Reader\<close> still has; an operation that fails for want of
  entropy leaves them.

  The locale \<open>key_backend\<close> is the interface \<open>keystore.Backend\<close> that the engine relies on, with
  the laws its comments promise; it is interpreted on \<open>FileBackend\<close>.
\<close>

subsection \<open>The operations\<close>

type_synonym files = "string \<Rightarrow> bytes option"

record os_state =
  os_fault :: "string \<Rightarrow> bool"
  os_written :: nat

definition NewFileBackend :: "os_state \<Rightarrow> string \<Rightarrow> string res" where
  "NewFileBackend os dir =
     (if dir = [] then Inl (Err [] ''keystore: key directory must not be empty'')
      else if os_fault os ''mkdir'' then Inl (Err [] ''keystore: creating key directory'')
      else if os_fault os ''chmod'' then Inl (Err [] ''keystore: tightening key directory permissions'')
      else Inr dir)"

definition key_path :: "string \<Rightarrow> string" where
  "key_path keyID = keyID @ ''.key''"

definition fb_Store ::
  "sealing \<Rightarrow> os_state \<Rightarrow> string \<Rightarrow> PrivateKey \<Rightarrow> bytes \<Rightarrow> files \<times> bytes \<Rightarrow> (files \<times> bytes) \<times> unit res" where
  "fb_Store S os keyID priv passphrase st =
     (case validateKeyID keyID of
        Inl e \<Rightarrow> (st, Inl e)
      | Inr _ \<Rightarrow>
          (case Seal S priv passphrase (snd st) of
             Inl e \<Rightarrow> (st, Inl e)
           | Inr (sealed, r) \<Rightarrow>
               if fst st (key_path keyID) \<noteq> None then ((fst st, r), Inl (Err [ErrKeyExists] keyID))
               else if os_fault os ''open'' then ((fst st, r), Inl (Err [] ''keystore: creating key file''))
               else if os_fault os ''write''
               then (((fst st)(key_path keyID \<mapsto> take (os_written os) sealed), r),
                     Inl (Err [] ''keystore: writing key file''))
               else if os_fault os ''sync''
               then (((fst st)(key_path keyID \<mapsto> sealed), r), Inl (Err [] ''keystore: syncing key file''))
               else (((fst st)(key_path keyID \<mapsto> sealed), r), Inr ())))"

definition fb_Generate ::
  "('pk, 'sk) circl \<Rightarrow> sealing \<Rightarrow> os_state \<Rightarrow> algorithm \<Rightarrow> bytes \<Rightarrow> files \<times> bytes
     \<Rightarrow> (files \<times> bytes) \<times> (string \<times> PublicKey \<times> PrivateKey) res" where
  "fb_Generate C S os alg passphrase st =
     (case GenerateKey C (snd st) alg of
        Inl e \<Rightarrow> (st, Inl e)
      | Inr ((pub, priv), r) \<Rightarrow>
          (case NewKeyID r of
             Inl e \<Rightarrow> ((fst st, r), Inl e)
           | Inr (keyID, r') \<Rightarrow>
               (case fb_Store S os keyID priv passphrase (fst st, r') of
                  (st', Inl e) \<Rightarrow> (st', Inl e)
                | (st', Inr _) \<Rightarrow> (st', Inr (keyID, pub, priv)))))"

definition fb_Load ::
  "('pk, 'sk) circl \<Rightarrow> sealing \<Rightarrow> os_state \<Rightarrow> string \<Rightarrow> bytes \<Rightarrow> files \<Rightarrow> Signer res" where
  "fb_Load C S os keyID passphrase fs =
     rbind (validateKeyID keyID) (\<lambda>_.
       case fs (key_path keyID) of
         None \<Rightarrow> Inl (Err [ErrKeyNotFound] keyID)
       | Some sealed \<Rightarrow>
           if os_fault os ''read'' then Inl (Err [] ''keystore: reading key file'')
           else rbind (Unseal S sealed passphrase) (key_Signer C))"

definition fb_Delete :: "os_state \<Rightarrow> string \<Rightarrow> files \<Rightarrow> files \<times> unit res" where
  "fb_Delete os keyID fs =
     (case validateKeyID keyID of
        Inl e \<Rightarrow> (fs, Inl e)
      | Inr _ \<Rightarrow>
          if fs (key_path keyID) = None then (fs, Inl (Err [ErrKeyNotFound] keyID))
          else if os_fault os ''remove'' then (fs, Inl (Err [] ''keystore: deleting key file''))
          else (fs(key_path keyID := None), Inr ()))"

definition fb_Has :: "os_state \<Rightarrow> string \<Rightarrow> files \<Rightarrow> bool res" where
  "fb_Has os keyID fs =
     rbind (validateKeyID keyID) (\<lambda>_.
       if fs (key_path keyID) = None then Inr False
       else if os_fault os ''stat'' then Inl (Err [] ''keystore: stat key file'')
       else Inr True)"

subsection \<open>The interface\<close>

text \<open>
  What happens to a keystore between two uses: a sequence of stores and deletions by anybody.
\<close>

datatype key_op = OpStore string PrivateKey bytes | OpDelete string

locale key_backend =
  fixes ready :: bool
    and signer_of :: "PrivateKey \<Rightarrow> Signer res"
    and store :: "string \<Rightarrow> PrivateKey \<Rightarrow> bytes \<Rightarrow> 's \<times> bytes \<Rightarrow> ('s \<times> bytes) \<times> unit res"
    and load :: "string \<Rightarrow> bytes \<Rightarrow> 's \<Rightarrow> Signer res"
    and delete :: "string \<Rightarrow> 's \<Rightarrow> 's \<times> unit res"
    and present :: "string \<Rightarrow> 's \<Rightarrow> bool"
  assumes store_load: "ready \<Longrightarrow> store k p pass (s, r) = ((s', r'), Inr ()) \<Longrightarrow>
      present k s' \<and> load k pass s' = signer_of p"
    and store_present: "present k s \<Longrightarrow> store k p pass (s, r) = ((s', r'), res) \<Longrightarrow>
      s' = s \<and> (\<exists>e. res = Inl e)"
    and store_other: "store k p pass (s, r) = ((s', r'), res) \<Longrightarrow> k' \<noteq> k \<Longrightarrow>
      present k' s' = present k' s \<and> load k' pass' s' = load k' pass' s"
    and delete_other: "delete k s = (s', res) \<Longrightarrow> k' \<noteq> k \<Longrightarrow>
      present k' s' = present k' s \<and> load k' pass' s' = load k' pass' s"
    and delete_gone: "delete k s = (s', Inr ()) \<Longrightarrow> \<not> present k s'"
    and absent_load: "\<not> present k s \<Longrightarrow> \<exists>e. load k pass s = Inl e"
begin

lemma stored_key_is_kept:
  assumes "present k s" "store k' p pass (s, r) = ((s', r'), res)"
  shows "present k s' \<and> load k pass' s' = load k pass' s"
  using assms store_present [of k s p pass r s' r' res] store_other [of k' p pass s r s' r' res k pass']
  by (cases "k' = k") auto

lemma deleted_other_is_kept:
  assumes "present k s" "delete k' s = (s', res)" "k' \<noteq> k"
  shows "present k s' \<and> load k pass s' = load k pass s"
  using assms delete_other [of k' s s' res k pass] by auto

text \<open>A key that was stored stays loadable, with its own signer, until it is deleted.\<close>

lemma key_survives:
  assumes "present k s"
    and "\<And>op s r s' r'. step op (s, r) = (s', r') \<Longrightarrow>
      (case op of OpStore k' p pass \<Rightarrow> (\<exists>res. store k' p pass (s, r) = ((s', r'), res))
       | OpDelete k' \<Rightarrow> (\<exists>res. delete k' s = (s', res)))"
    and "OpDelete k \<notin> set ops"
  shows "present k (fst (fold step ops (s, r))) \<and>
    load k pass (fst (fold step ops (s, r))) = load k pass s"
  using assms(1,3)
proof (induction ops arbitrary: s r)
  case Nil
  then show ?case by simp
next
  case (Cons op ops)
  obtain s' r' where st: "step op (s, r) = (s', r')" by force
  have "present k s' \<and> load k pass s' = load k pass s"
  proof (cases op)
    case (OpStore k' p pass')
    then show ?thesis using assms(2) [OF st] stored_key_is_kept [OF Cons.prems(1)] by auto
  next
    case (OpDelete k')
    then show ?thesis
      using assms(2) [OF st] deleted_other_is_kept [OF Cons.prems(1)] Cons.prems(2) by auto
  qed
  then show ?case using Cons.IH [of s' r'] Cons.prems st by simp
qed

end

subsection \<open>FileBackend keeps the contract\<close>

lemma key_path_inj [simp]: "key_path k = key_path k' \<longleftrightarrow> k = k'"
  by (simp add: key_path_def)

definition fb_present :: "string \<Rightarrow> files \<Rightarrow> bool" where
  "fb_present k fs = (validateKeyID k = Inr () \<and> fs (key_path k) \<noteq> None)"

definition fb_ready :: "sealing \<Rightarrow> os_state \<Rightarrow> bool" where
  "fb_ready S os = (seal_ok S \<and> \<not> os_fault os ''read'')"

lemma fb_Store_cases:
  assumes "fb_Store S os k p pass (fs, r) = ((fs', r'), res)"
  shows "fs' = fs \<and> (\<exists>e. res = Inl e)
    \<or> (\<exists>sealed body. validateKeyID k = Inr () \<and> Seal S p pass r = Inr (sealed, r')
        \<and> fs (key_path k) = None \<and> fs' = fs(key_path k \<mapsto> body) \<and> (res = Inr () \<longrightarrow> body = sealed))"
proof (cases "validateKeyID k")
  case (Inl e)
  then show ?thesis using assms unfolding fb_Store_def Inl by auto
next
  case (Inr u)
  show ?thesis
    using assms unfolding fb_Store_def Inr
    by (cases "Seal S p pass r") (auto split: if_splits)
qed

interpretation file_backend:
  key_backend "fb_ready S os" "key_Signer C" "fb_Store S os'" "fb_Load C S os" "fb_Delete os'" fb_present
  for C S os os'
proof
  fix k p pass fs r fs' r'
  assume "fb_ready S os" "fb_Store S os' k p pass (fs, r) = ((fs', r'), Inr ())"
  moreover from this obtain sealed where "validateKeyID k = Inr ()" "Seal S p pass r = Inr (sealed, r')"
    "fs' = fs(key_path k \<mapsto> sealed)"
    using fb_Store_cases by blast
  ultimately show "fb_present k fs' \<and> fb_Load C S os k pass fs' = key_Signer C p"
    using Seal_Inr [of S p pass r sealed r'] by (auto simp: fb_present_def fb_Load_def fb_ready_def)
next
  fix k fs p pass r fs' r' and res :: "unit res"
  assume "fb_present k fs" "fb_Store S os' k p pass (fs, r) = ((fs', r'), res)"
  then show "fs' = fs \<and> (\<exists>e. res = Inl e)"
    using fb_Store_cases by (fastforce simp: fb_present_def)
next
  fix k p pass fs r fs' r' k' pass' and res :: "unit res"
  assume "fb_Store S os' k p pass (fs, r) = ((fs', r'), res)" "k' \<noteq> k"
  then have "fs' (key_path k') = fs (key_path k')"
    using fb_Store_cases by fastforce
  then show "fb_present k' fs' = fb_present k' fs \<and> fb_Load C S os k' pass' fs' = fb_Load C S os k' pass' fs"
    by (simp add: fb_present_def fb_Load_def)
next
  fix k fs fs' k' pass' and res :: "unit res"
  assume "fb_Delete os' k fs = (fs', res)" "k' \<noteq> k"
  then have "fs' (key_path k') = fs (key_path k')"
    by (auto simp: fb_Delete_def split: sum.splits if_splits)
  then show "fb_present k' fs' = fb_present k' fs \<and> fb_Load C S os k' pass' fs' = fb_Load C S os k' pass' fs"
    by (simp add: fb_present_def fb_Load_def)
next
  fix k fs fs'
  assume "fb_Delete os' k fs = (fs', Inr ())"
  then show "\<not> fb_present k fs'"
    by (auto simp: fb_Delete_def fb_present_def split: sum.splits if_splits)
next
  fix k fs pass
  assume "\<not> fb_present k fs"
  then show "\<exists>e. fb_Load C S os k pass fs = Inl e"
    by (cases "validateKeyID k") (auto simp: fb_present_def fb_Load_def)
qed


subsection \<open>Generated keys\<close>

lemma fb_Store_succeeds:
  assumes "validateKeyID k = Inr ()" "Seal S p pass r = Inr (sealed, r')" "fs (key_path k) = None"
    and "\<And>c. \<not> os_fault os c"
  shows "fb_Store S os k p pass (fs, r) = ((fs(key_path k \<mapsto> sealed), r'), Inr ())"
  unfolding fb_Store_def using assms by simp

lemma fb_Generate_Inr:
  assumes "circl_ok C" "fb_ready S os"
    and "fb_Generate C S os alg pass (fs, r) = ((fs', r'), Inr (keyID, pub, priv))"
  shows "validateKeyID keyID = Inr () \<and> \<not> fb_present keyID fs \<and> fb_present keyID fs'
    \<and> pub_alg pub = alg \<and> priv_ok priv \<and> priv_alg priv = alg
    \<and> (\<exists>s. fb_Load C S os keyID pass fs' = Inr s \<and> key_Signer C priv = Inr s \<and> sg_pub s = pub
          \<and> sg_alg s = alg \<and> signer_ok C s)
    \<and> (\<forall>k. k \<noteq> keyID \<longrightarrow> fs' (key_path k) = fs (key_path k))"
proof -
  obtain r1 r2 where g: "GenerateKey C r alg = Inr ((pub, priv), r1)" "NewKeyID r1 = Inr (keyID, r2)"
    and st: "fb_Store S os keyID priv pass (fs, r2) = ((fs', r'), Inr ())"
    using assms(3) by (auto simp: fb_Generate_def split: sum.splits prod.splits)
  obtain s where s: "key_Signer C priv = Inr s" "sg_pub s = pub" "sg_alg s = alg" "signer_ok C s"
    "priv_alg priv = alg" "priv_ok priv"
    using GenerateKey_signer [OF assms(1) g(1)] by blast
  have "fb_present keyID fs' \<and> fb_Load C S os keyID pass fs' = key_Signer C priv"
    using file_backend.store_load [OF assms(2) st] .
  moreover obtain body where "fs (key_path keyID) = None" "fs' = fs(key_path keyID \<mapsto> body)"
    using fb_Store_cases [OF st] by auto
  moreover have "pub_alg pub = alg" using s by (auto simp: signer_ok_def)
  ultimately show ?thesis
    using s NewKeyID_valid [OF g(2)] by (auto simp: fb_present_def)
qed

text \<open>Every operation of the key store as a step, for any sequence of uses.\<close>

fun fb_step :: "sealing \<Rightarrow> os_state \<Rightarrow> key_op \<Rightarrow> files \<times> bytes \<Rightarrow> files \<times> bytes" where
  "fb_step S os (OpStore k p pass) st = fst (fb_Store S os k p pass st)"
| "fb_step S os (OpDelete k) st = (fst (fb_Delete os k (fst st)), snd st)"

lemma fb_step_ops:
  "fb_step S os op (fs, r) = (fs', r') \<Longrightarrow>
    (case op of OpStore k p pass \<Rightarrow> (\<exists>res. fb_Store S os k p pass (fs, r) = ((fs', r'), res))
     | OpDelete k \<Rightarrow> (\<exists>res. fb_Delete os k fs = (fs', res)))"
  by (cases op) (auto simp: prod_eq_iff)

subsection \<open>Properties\<close>

text \<open>The key identifier that \<open>Generate\<close> returns is a fresh, valid one under which \<open>Load\<close>,
  with the same passphrase, gives a signer of the returned public key that signs and verifies;
  and no other key changes.\<close>

theorem fb_Generate_Load:
  assumes "circl_ok C" and "fb_ready S os"
    and "fb_Generate C S os alg pass (fs, r) = ((fs', r'), Inr (keyID, pub, priv))"
  shows "validateKeyID keyID = Inr () \<and> fs (key_path keyID) = None
    \<and> (\<exists>s. fb_Load C S os keyID pass fs' = Inr s \<and> sg_pub s = pub \<and> sg_alg s = alg \<and> signer_ok C s)
    \<and> (\<forall>k pass'. k \<noteq> keyID \<longrightarrow> fb_Load C S os k pass' fs' = fb_Load C S os k pass' fs)"
  using fb_Generate_Inr [OF assms] by (auto simp: fb_present_def fb_Load_def)

theorem fb_Generate_Load_witness:
  "\<exists>fs' r' keyID pub priv s. fb_Generate toy_circl toy_sealing \<lparr>os_fault = (\<lambda>_. False), os_written = 0\<rparr>
      MLDSA65 [7] (Map.empty, replicate 76 5) = ((fs', r'), Inr (keyID, pub, priv))
    \<and> fb_Load toy_circl toy_sealing \<lparr>os_fault = (\<lambda>_. False), os_written = 0\<rparr> keyID [7] fs' = Inr s
    \<and> sg_pub s = pub"
proof -
  let ?os = "\<lparr>os_fault = (\<lambda>_. False), os_written = 0\<rparr>"
  have i: "alg_info MLDSA65 = Some \<lparr>ai_name = ''ML-DSA-65'', ai_oid = [2,16,840,1,101,3,4,3,18],
       ai_pkSize = 1952, ai_sigSize = 3309, ai_seedSize = 32, ai_family = mldsaFamily\<rparr>"
    by (simp add: alg_info_def algorithms_def algorithm_consts)
  have m: "mldsa_package_of toy_circl MLDSA65 = Some (toy_mldsa MLDSA65)"
    by (simp add: mldsa_package_of_def toy_circl_def algorithm_consts)
  have "\<exists>pub priv. GenerateKey toy_circl (replicate 76 5) MLDSA65 = Inr ((pub, priv), replicate 44 5)"
    using i m by (simp add: GenerateKey_def mldsa_generateKey_def read_full_def SeedSize_def key_Signer_def
        mldsa_signer_def toy_mldsa_def Let_def)
  then obtain pub priv where g: "GenerateKey toy_circl (replicate 76 5) MLDSA65 = Inr ((pub, priv), replicate 44 5)"
    by blast
  then have p: "priv_ok priv" using GenerateKey_signer [OF toy_circl_ok g] by blast
  obtain keyID where k: "NewKeyID (replicate 44 5) = Inr (keyID, replicate 28 5)"
    by (simp add: NewKeyID_def read_full_def)
  obtain blob where "Seal toy_sealing priv [7] (replicate 28 5) = Inr (blob, [])"
    using Seal_total [OF toy_sealing_ok p, of "[7]" "replicate 28 5"]
      Seal_Inr [OF toy_sealing_ok, of priv "[7]" "replicate 28 5"] by auto
  then have "fb_Store toy_sealing ?os keyID priv [7] (Map.empty, replicate 28 5) =
      ((Map.empty(key_path keyID \<mapsto> blob), []), Inr ())"
    using NewKeyID_valid [OF k] by (intro fb_Store_succeeds) (auto simp only: select_convs)
  then have gen: "fb_Generate toy_circl toy_sealing ?os MLDSA65 [7] (Map.empty, replicate 76 5) =
      ((Map.empty(key_path keyID \<mapsto> blob), []), Inr (keyID, pub, priv))"
    using g k by (simp add: fb_Generate_def)
  have "fb_ready toy_sealing ?os" by (simp add: fb_ready_def toy_sealing_ok)
  from fb_Generate_Load [OF toy_circl_ok this gen] gen show ?thesis by blast
qed

text \<open>C22. A key that is in the store is loaded as the same signer, with the same passphrases, after
  any sequence of further stores and deletions that does not delete it, whatever fails in each of
  them: \<open>Store\<close> never overwrites, and no operation touches another key.\<close>

theorem fb_key_survives:
  assumes "fb_present k fs" and "OpDelete k \<notin> snd ` set ops"
  shows "fb_Load C S os k pass (fst (fold (\<lambda>(os', op). fb_step S os' op) ops (fs, r))) = fb_Load C S os k pass fs"
  using assms
proof (induction ops arbitrary: fs r)
  case (Cons step ops)
  obtain os' op where step: "step = (os', op)" by force
  obtain fs' r' where st: "fb_step S os' op (fs, r) = (fs', r')" by force
  have "OpDelete k \<notin> set [op]" using Cons.prems(2) step by auto
  then have "fb_present k fs' \<and> fb_Load C S os k pass fs' = fb_Load C S os k pass fs"
    using file_backend.key_survives [where step = "fb_step S os'" and ops = "[op]" and r = r and C = C and S = S
        and os = os and os' = os' and pass = pass, OF Cons.prems(1) fb_step_ops] st by simp
  then show ?case using Cons.IH [of fs' r'] Cons.prems(2) step st by simp
qed simp

theorem fb_key_survives_witness:
  "fb_Load toy_circl toy_sealing \<lparr>os_fault = (\<lambda>_. False), os_written = 0\<rparr> (replicate 32 CHR ''a'') [7]
      (fst (fold (\<lambda>(os', op). fb_step toy_sealing os' op)
        [(\<lparr>os_fault = (\<lambda>c. c = ''remove''), os_written = 0\<rparr>, OpDelete (replicate 32 CHR ''b''))] ([key_path (replicate 32 CHR ''a'') \<mapsto> []], []))) =
   fb_Load toy_circl toy_sealing \<lparr>os_fault = (\<lambda>_. False), os_written = 0\<rparr> (replicate 32 CHR ''a'') [7]
     [key_path (replicate 32 CHR ''a'') \<mapsto> []]"
proof (rule fb_key_survives)
  have "list_all lower_hex (replicate 32 CHR ''a'')" by (simp add: list_all_iff lower_hex_def)
  then show "fb_present (replicate 32 CHR ''a'') [key_path (replicate 32 CHR ''a'') \<mapsto> []]"
    by (simp add: fb_present_def validateKeyID_def)
  have "hd (replicate 32 CHR ''a'') \<noteq> hd (replicate 32 CHR ''b'')" by simp
  then show "OpDelete (replicate 32 CHR ''a'') \<notin> snd ` set
      [(\<lparr>os_fault = (\<lambda>c. c = ''remove''), os_written = 0\<rparr>, OpDelete (replicate 32 CHR ''b''))]" by auto
qed

text \<open>When \<open>Store\<close> fails the directory is as before, unless the failure is that of the write or
  of the sync of the new file: then the file stays, holding a prefix of the sealed key, although
  the caller was told that nothing was stored. An existing key is reported as \<open>ErrKeyExists\<close>.\<close>

theorem fb_Store_error:
  "(case fb_Store S os k priv pass (fs, r) of
      ((fs', r'), Inl e) \<Rightarrow>
        if fs' = fs then True
        else fs (key_path k) = None \<and> (os_fault os ''write'' \<or> os_fault os ''sync'')
          \<and> (\<exists>sealed n. Seal S priv pass r = Inr (sealed, r') \<and> fs' = fs(key_path k \<mapsto> take n sealed))
    | ((fs', r'), Inr u) \<Rightarrow>
        fs (key_path k) = None \<and> (\<exists>sealed. Seal S priv pass r = Inr (sealed, r') \<and> fs' = fs(key_path k \<mapsto> sealed)))
   \<and> (fb_present k fs \<and> priv_ok priv \<and> pass \<noteq> [] \<and> 28 \<le> length r \<and> seal_ok S \<longrightarrow>
        (\<exists>st. fb_Store S os k priv pass (fs, r) = (st, Inl (Err [ErrKeyExists] k))))"
proof (intro conjI impI)
  show "case fb_Store S os k priv pass (fs, r) of
      ((fs', r'), Inl e) \<Rightarrow>
        if fs' = fs then True
        else fs (key_path k) = None \<and> (os_fault os ''write'' \<or> os_fault os ''sync'')
          \<and> (\<exists>sealed n. Seal S priv pass r = Inr (sealed, r') \<and> fs' = fs(key_path k \<mapsto> take n sealed))
    | ((fs', r'), Inr u) \<Rightarrow>
        fs (key_path k) = None \<and> (\<exists>sealed. Seal S priv pass r = Inr (sealed, r') \<and> fs' = fs(key_path k \<mapsto> sealed))"
  proof (cases "validateKeyID k")
    case (Inl e)
    then show ?thesis by (simp add: fb_Store_def)
  next
    case (Inr u)
    show ?thesis
    proof (cases "Seal S priv pass r")
      case (Inl e)
      then show ?thesis using Inr by (simp add: fb_Store_def)
    next
      case sl: (Inr b)
      obtain sealed r' where b: "b = (sealed, r')" by force
      have "\<exists>n. fs(key_path k \<mapsto> sealed) = fs(key_path k \<mapsto> take n sealed)"
        by (rule exI [of _ "length sealed"]) simp
      then show ?thesis using Inr sl b by (auto simp: fb_Store_def)
    qed
  qed
next
  assume a: "fb_present k fs \<and> priv_ok priv \<and> pass \<noteq> [] \<and> 28 \<le> length r \<and> seal_ok S"
  then obtain blob r' where "Seal S priv pass r = Inr (blob, r')"
    using Seal_total by blast
  then show "\<exists>st. fb_Store S os k priv pass (fs, r) = (st, Inl (Err [ErrKeyExists] k))"
    using a by (auto simp: fb_Store_def fb_present_def)
qed

theorem fb_Store_error_witness:
  "\<exists>st. fb_Store toy_sealing \<lparr>os_fault = (\<lambda>_. False), os_written = 0\<rparr> (replicate 32 CHR ''a'')
      \<lparr>priv_alg = MLDSA65, priv_seed = replicate 32 1\<rparr> [7]
      ([key_path (replicate 32 CHR ''a'') \<mapsto> []], replicate 28 1) =
    (st, Inl (Err [ErrKeyExists] (replicate 32 CHR ''a'')))"
proof -
  have p: "priv_ok \<lparr>priv_alg = MLDSA65, priv_seed = replicate 32 1\<rparr>"
    by (simp add: priv_ok_def alg_Valid_def SeedSize_def alg_info_def algorithms_def algorithm_consts)
  have "list_all lower_hex (replicate 32 CHR ''a'')" by (simp add: list_all_iff lower_hex_def)
  then have "fb_present (replicate 32 CHR ''a'') [key_path (replicate 32 CHR ''a'') \<mapsto> []]"
    by (simp add: fb_present_def validateKeyID_def)
  then show ?thesis
    using fb_Store_error [where S = toy_sealing and os = "\<lparr>os_fault = (\<lambda>_. False), os_written = 0\<rparr>"
        and k = "replicate 32 CHR ''a''" and pass = "[7]" and r = "replicate 28 1"
        and priv = "\<lparr>priv_alg = MLDSA65, priv_seed = replicate 32 1\<rparr>"
        and fs = "[key_path (replicate 32 CHR ''a'') \<mapsto> []]"] p toy_sealing_ok by simp
qed

end
