(* ===== verification/Store.thy ===== *)
theory Store
  imports Prelude "HOL-Library.List_Lexorder" "HOL-Library.Char_ord" "HOL-Library.Product_Lexorder"
    "HOL-Library.Option_ord"
begin

section \<open>The datastore (internal/store)\<close>

text \<open>
  The three tables of migrations/0001_init.sql as lists of records in the order of insertion, and
  each function of cas.go, certificates.go and tokens.go as the SQL statement it executes: a
  primary key and a UNIQUE column refuse a second row with the value (reported as \<open>ErrConflict\<close>),
  a reference refuses a missing parent row (a row may refer to itself), WHERE filters, ORDER BY sorts. A NULL column is the
  empty string or \<open>None\<close>, as the scan functions make it. \<open>F\<close> names the statements that fail for
  a reason of the driver, without effect. Times are instants; the text of a certificate is a list
  of bytes.
\<close>

subsection \<open>Records\<close>

record ca_rec =
  ca_ID :: string
  ca_Name :: string
  ca_ParentID :: string
  ca_Algorithm :: string
  ca_CertPEM :: bytes
  ca_KeyID :: string
  ca_Status :: string
  ca_CreatedAt :: int

record cert_rec =
  ct_Serial :: string
  ct_CAID :: string
  ct_SubjectDN :: string
  ct_SANs :: string
  ct_Algorithm :: string
  ct_CertPEM :: bytes
  ct_KeyID :: string
  ct_Status :: string
  ct_NotBefore :: int
  ct_NotAfter :: int
  ct_RevokedAt :: "int option"
  ct_RevocationReason :: "int option"

record token_rec =
  tk_ID :: string
  tk_Name :: string
  tk_TokenHash :: string
  tk_CreatedAt :: int

record db =
  db_cas :: "ca_rec list"
  db_certs :: "cert_rec list"
  db_tokens :: "token_rec list"

definition empty_db :: db where
  "empty_db = \<lparr>db_cas = [], db_certs = [], db_tokens = []\<rparr>"

definition StatusValid :: string where "StatusValid = ''valid''"
definition StatusRevoked :: string where "StatusRevoked = ''revoked''"
definition StatusActive :: string where "StatusActive = ''active''"

lemmas status_defs = StatusValid_def StatusRevoked_def StatusActive_def

type_synonym faults = "string \<Rightarrow> bool"

subsection \<open>cas.go\<close>

definition st_CreateCA :: "faults \<Rightarrow> ca_rec \<Rightarrow> db \<Rightarrow> db \<times> unit res" where
  "st_CreateCA F ca d =
     (if F ''insert ca'' then (d, Inl (Err [] ''store: inserting CA''))
      else if ca_ID ca \<in> ca_ID ` set (db_cas d) then (d, Inl (Err [StoreErrConflict] ''CA already exists''))
      else if ca_ParentID ca \<noteq> [] \<and> ca_ParentID ca \<notin> ca_ID ` set (ca # db_cas d)
      then (d, Inl (Err [] ''store: inserting CA''))
      else (d\<lparr>db_cas := db_cas d @ [ca]\<rparr>, Inr ()))"

definition st_GetCA :: "faults \<Rightarrow> string \<Rightarrow> db \<Rightarrow> ca_rec res" where
  "st_GetCA F i d =
     (if F ''get ca'' then Inl (Err [] ''store: querying CA'')
      else
        (case find (\<lambda>ca. ca_ID ca = i) (db_cas d) of
           None \<Rightarrow> Inl (Err [StoreErrNotFound] ''CA'')
         | Some ca \<Rightarrow> Inr ca))"

definition st_ListCAs :: "faults \<Rightarrow> db \<Rightarrow> ca_rec list res" where
  "st_ListCAs F d =
     (if F ''list cas'' then Inl (Err [] ''store: listing CAs'')
      else if F ''iterate cas'' then Inl (Err [] ''store: iterating CAs'')
      else Inr (sort_key (\<lambda>ca. (ca_CreatedAt ca, ca_ID ca)) (db_cas d)))"

subsection \<open>certificates.go\<close>

definition st_InsertCertificate :: "faults \<Rightarrow> cert_rec \<Rightarrow> db \<Rightarrow> db \<times> unit res" where
  "st_InsertCertificate F c d =
     (if F ''insert certificate'' then (d, Inl (Err [] ''store: inserting certificate''))
      else if ct_Serial c \<in> ct_Serial ` set (db_certs d)
      then (d, Inl (Err [StoreErrConflict] ''certificate already exists''))
      else if ct_CAID c \<notin> ca_ID ` set (db_cas d) then (d, Inl (Err [] ''store: inserting certificate''))
      else (d\<lparr>db_certs := db_certs d @ [c\<lparr>ct_RevokedAt := None, ct_RevocationReason := None\<rparr>]\<rparr>, Inr ()))"

definition st_GetCertificate :: "faults \<Rightarrow> string \<Rightarrow> db \<Rightarrow> cert_rec res" where
  "st_GetCertificate F serial d =
     (if F ''get certificate'' then Inl (Err [] ''store: querying certificate'')
      else
        (case find (\<lambda>c. ct_Serial c = serial) (db_certs d) of
           None \<Rightarrow> Inl (Err [StoreErrNotFound] ''certificate'')
         | Some c \<Rightarrow> Inr c))"

definition st_ListCertificatesByCA :: "faults \<Rightarrow> string \<Rightarrow> db \<Rightarrow> cert_rec list res" where
  "st_ListCertificatesByCA F caID d =
     (if F ''list certificates'' then Inl (Err [] ''store: listing certificates'')
      else if F ''iterate certificates'' then Inl (Err [] ''store: iterating certificates'')
      else Inr (sort_key (\<lambda>c. (ct_NotBefore c, ct_Serial c)) (filter (\<lambda>c. ct_CAID c = caID) (db_certs d))))"

definition st_ListRevoked :: "faults \<Rightarrow> string \<Rightarrow> db \<Rightarrow> cert_rec list res" where
  "st_ListRevoked F caID d =
     (if F ''list revoked'' then Inl (Err [] ''store: listing certificates'')
      else if F ''iterate certificates'' then Inl (Err [] ''store: iterating certificates'')
      else Inr (sort_key (\<lambda>c. (ct_RevokedAt c, ct_Serial c))
        (filter (\<lambda>c. ct_CAID c = caID \<and> ct_Status c = StatusRevoked) (db_certs d))))"

definition revoke_row :: "string \<Rightarrow> int \<Rightarrow> int \<Rightarrow> cert_rec \<Rightarrow> cert_rec" where
  "revoke_row serial at reason c =
     (if ct_Serial c = serial
      then c\<lparr>ct_Status := StatusRevoked, ct_RevokedAt := Some at, ct_RevocationReason := Some reason\<rparr>
      else c)"

definition st_RevokeCertificate :: "faults \<Rightarrow> string \<Rightarrow> int \<Rightarrow> int \<Rightarrow> db \<Rightarrow> db \<times> unit res" where
  "st_RevokeCertificate F serial at reason d =
     (if F ''begin'' then (d, Inl (Err [] ''store: beginning revocation''))
      else if F ''select status'' then (d, Inl (Err [] ''store: reading certificate status''))
      else
        (case find (\<lambda>c. ct_Serial c = serial) (db_certs d) of
           None \<Rightarrow> (d, Inl (Err [StoreErrNotFound] ''certificate''))
         | Some c \<Rightarrow>
             if ct_Status c = StatusRevoked then (d, Inl (Err [StoreErrConflict] ''already revoked''))
             else if F ''update'' then (d, Inl (Err [] ''store: updating certificate''))
             else if F ''commit'' then (d, Inl (Err [] ''store: committing revocation''))
             else (d\<lparr>db_certs := map (revoke_row serial at reason) (db_certs d)\<rparr>, Inr ())))"

subsection \<open>tokens.go\<close>

definition st_CreateToken :: "faults \<Rightarrow> token_rec \<Rightarrow> db \<Rightarrow> db \<times> unit res" where
  "st_CreateToken F t d =
     (if F ''insert token'' then (d, Inl (Err [] ''store: inserting token''))
      else if tk_ID t \<in> tk_ID ` set (db_tokens d) \<or> tk_TokenHash t \<in> tk_TokenHash ` set (db_tokens d)
      then (d, Inl (Err [StoreErrConflict] ''token already exists''))
      else (d\<lparr>db_tokens := db_tokens d @ [t]\<rparr>, Inr ()))"

definition st_TokenByHash :: "faults \<Rightarrow> string \<Rightarrow> db \<Rightarrow> token_rec res" where
  "st_TokenByHash F hash d =
     (if F ''get token'' then Inl (Err [] ''store: querying token'')
      else
        (case find (\<lambda>t. tk_TokenHash t = hash) (db_tokens d) of
           None \<Rightarrow> Inl (Err [StoreErrNotFound] ''token'')
         | Some t \<Rightarrow> Inr t))"

subsection \<open>migrate.go\<close>

text \<open>
  \<open>exec\<close> runs the text of a migration on the schema, or fails; the names of the migrations that
  were applied are the table schema_migrations. A migration and the record of its name are one
  transaction.
\<close>

fun migrate_loop ::
  "faults \<Rightarrow> ('a \<Rightarrow> 's \<Rightarrow> 's option) \<Rightarrow> (string \<times> 'a) list \<Rightarrow> 's \<times> string list \<Rightarrow> ('s \<times> string list) \<times> unit res"
where
  "migrate_loop F exec [] st = (st, Inr ())"
| "migrate_loop F exec ((name, sql) # es) st =
     (if F (''checking '' @ name) then (st, Inl (Err [] ''store: checking migration''))
      else if name \<in> set (snd st) then migrate_loop F exec es st
      else if F (''reading '' @ name) then (st, Inl (Err [] ''store: reading migration''))
      else if F (''beginning '' @ name) then (st, Inl (Err [] ''store: beginning migration''))
      else
        (case exec sql (fst st) of
           None \<Rightarrow> (st, Inl (Err [] ''store: applying migration''))
         | Some s \<Rightarrow>
             if F (''recording '' @ name) then (st, Inl (Err [] ''store: recording migration''))
             else if F (''committing '' @ name) then (st, Inl (Err [] ''store: committing migration''))
             else migrate_loop F exec es (s, snd st @ [name])))"

definition migrate ::
  "faults \<Rightarrow> ('a \<Rightarrow> 's \<Rightarrow> 's option) \<Rightarrow> (string \<times> 'a) list \<Rightarrow> 's \<times> string list \<Rightarrow> ('s \<times> string list) \<times> unit res"
where
  "migrate F exec entries st =
     (if F ''create migration table'' then (st, Inl (Err [] ''store: creating migration table''))
      else if F ''glob'' then (st, Inl (Err [] ''store: listing migrations''))
      else migrate_loop F exec (sort_key fst entries) st)"

subsection \<open>Integrity of the tables\<close>

definition cert_row_ok :: "cert_rec \<Rightarrow> bool" where
  "cert_row_ok c = (ct_Status c = StatusRevoked \<longleftrightarrow> ct_RevokedAt c \<noteq> None)"

definition db_ok :: "db \<Rightarrow> bool" where
  "db_ok d =
     (distinct (map ca_ID (db_cas d)) \<and> distinct (map ct_Serial (db_certs d))
      \<and> distinct (map tk_ID (db_tokens d)) \<and> distinct (map tk_TokenHash (db_tokens d))
      \<and> (\<forall>ca \<in> set (db_cas d). ca_ParentID ca = [] \<or> ca_ParentID ca \<in> ca_ID ` set (db_cas d))
      \<and> (\<forall>c \<in> set (db_certs d). ct_CAID c \<in> ca_ID ` set (db_cas d) \<and> cert_row_ok c
           \<and> (ct_RevokedAt c = None \<longleftrightarrow> ct_RevocationReason c = None)))"

text \<open>The transitions of the datastore: any of its operations, with any arguments and faults.
  Certificates are inserted with the status \<open>valid\<close>.\<close>

inductive db_step :: "db \<Rightarrow> db \<Rightarrow> bool" where
  create_ca: "db_step d (fst (st_CreateCA F ca d))"
| insert: "ct_Status c \<noteq> StatusRevoked \<Longrightarrow> db_step d (fst (st_InsertCertificate F c d))"
| revoke: "db_step d (fst (st_RevokeCertificate F serial at reason d))"
| create_token: "db_step d (fst (st_CreateToken F t d))"

inductive_cases db_stepE: "db_step d d'"

lemma revoke_row_sel [simp]:
  "ct_Serial (revoke_row s at r c) = ct_Serial c" "ct_CAID (revoke_row s at r c) = ct_CAID c"
  by (simp_all add: revoke_row_def)

lemma map_revoke_row [simp]: "map ct_Serial (map (revoke_row s at r) cs) = map ct_Serial cs"
  by (simp add: comp_def)

lemma db_ok_empty: "db_ok empty_db"
  by (simp add: db_ok_def empty_db_def)

lemma CreateCA_cases:
  assumes "st_CreateCA F ca d = (d', res)"
  shows "d' = d \<and> (\<exists>e. res = Inl e) \<or>
    d' = d\<lparr>db_cas := db_cas d @ [ca]\<rparr> \<and> res = Inr () \<and> ca_ID ca \<notin> ca_ID ` set (db_cas d)
      \<and> (ca_ParentID ca = [] \<or> ca_ParentID ca \<in> ca_ID ` set (ca # db_cas d))"
  using assms by (auto simp: st_CreateCA_def split: if_splits)

lemma InsertCertificate_cases:
  assumes "st_InsertCertificate F c d = (d', res)"
  shows "d' = d \<and> (\<exists>e. res = Inl e) \<or>
    d' = d\<lparr>db_certs := db_certs d @ [c\<lparr>ct_RevokedAt := None, ct_RevocationReason := None\<rparr>]\<rparr> \<and> res = Inr ()
      \<and> ct_Serial c \<notin> ct_Serial ` set (db_certs d) \<and> ct_CAID c \<in> ca_ID ` set (db_cas d)"
  using assms by (auto simp: st_InsertCertificate_def split: if_splits)

lemma find_in_set: "find P xs = Some x \<Longrightarrow> x \<in> set xs \<and> P x"
  by (auto simp: find_Some_iff)

lemma RevokeCertificate_cases:
  assumes "st_RevokeCertificate F serial at reason d = (d', res)"
  shows "d' = d \<and> (\<exists>e. res = Inl e) \<or>
    d' = d\<lparr>db_certs := map (revoke_row serial at reason) (db_certs d)\<rparr> \<and> res = Inr ()
      \<and> (\<exists>c \<in> set (db_certs d). ct_Serial c = serial \<and> ct_Status c \<noteq> StatusRevoked)"
  using assms
  by (auto simp: st_RevokeCertificate_def dest!: find_in_set split: if_splits option.splits)

lemma CreateToken_cases:
  assumes "st_CreateToken F t d = (d', res)"
  shows "d' = d \<and> (\<exists>e. res = Inl e) \<or>
    d' = d\<lparr>db_tokens := db_tokens d @ [t]\<rparr> \<and> res = Inr ()
      \<and> tk_ID t \<notin> tk_ID ` set (db_tokens d) \<and> tk_TokenHash t \<notin> tk_TokenHash ` set (db_tokens d)"
  using assms by (auto simp: st_CreateToken_def split: if_splits)

lemma db_ok_CreateCA: "db_ok d \<Longrightarrow> db_ok (fst (st_CreateCA F ca d))"
  using CreateCA_cases [of F ca d] by (cases "st_CreateCA F ca d") (auto simp: db_ok_def)

lemma db_ok_InsertCertificate:
  "db_ok d \<Longrightarrow> ct_Status c \<noteq> StatusRevoked \<Longrightarrow> db_ok (fst (st_InsertCertificate F c d))"
  using InsertCertificate_cases [of F c d]
  by (cases "st_InsertCertificate F c d") (auto simp: db_ok_def cert_row_ok_def)

lemma db_ok_RevokeCertificate:
  assumes "db_ok d"
  shows "db_ok (fst (st_RevokeCertificate F serial at reason d))"
proof (cases "st_RevokeCertificate F serial at reason d")
  case (Pair d' res)
  let ?cs = "map (revoke_row serial at reason) (db_certs d)"
  have rows: "\<forall>c \<in> set ?cs. ct_CAID c \<in> ca_ID ` set (db_cas d) \<and> cert_row_ok c
      \<and> (ct_RevokedAt c = None \<longleftrightarrow> ct_RevocationReason c = None)"
  proof
    fix c
    assume "c \<in> set ?cs"
    then obtain c0 where "c0 \<in> set (db_certs d)" "c = revoke_row serial at reason c0" by auto
    then show "ct_CAID c \<in> ca_ID ` set (db_cas d) \<and> cert_row_ok c
        \<and> (ct_RevokedAt c = None \<longleftrightarrow> ct_RevocationReason c = None)"
      using assms by (auto simp: db_ok_def cert_row_ok_def revoke_row_def)
  qed
  have "distinct (map ct_Serial ?cs)"
    using assms by (simp only: map_revoke_row db_ok_def)
  then have "db_ok (d\<lparr>db_certs := ?cs\<rparr>)" using assms rows by (simp add: db_ok_def)
  then show ?thesis using RevokeCertificate_cases [OF Pair] assms Pair by auto
qed

lemma db_ok_CreateToken: "db_ok d \<Longrightarrow> db_ok (fst (st_CreateToken F t d))"
  using CreateToken_cases [of F t d] by (cases "st_CreateToken F t d") (auto simp: db_ok_def)

lemma db_ok_step: "db_step d d' \<Longrightarrow> db_ok d \<Longrightarrow> db_ok d'"
  by (elim db_stepE)
    (auto intro: db_ok_CreateCA db_ok_InsertCertificate db_ok_RevokeCertificate db_ok_CreateToken)

lemma db_ok_steps: "db_step\<^sup>*\<^sup>* d d' \<Longrightarrow> db_ok d \<Longrightarrow> db_ok d'"
  by (induction rule: rtranclp_induct) (auto intro: db_ok_step)

subsection \<open>The table of certificates as an interface\<close>

text \<open>What a client that revokes certificates relies on: every operation keeps the integrity of
  the tables and the rows of the revoked certificates, and a revocation is visible.\<close>

locale revocation_store =
  fixes ok :: "'s \<Rightarrow> bool"
    and ops :: "'s \<Rightarrow> 's \<Rightarrow> bool"
    and get :: "'k \<Rightarrow> 's \<Rightarrow> 'r option"
    and revoke :: "'k \<Rightarrow> 's \<Rightarrow> 's option"
    and revoked :: "'r \<Rightarrow> bool"
  assumes ok_step: "ops d d' \<Longrightarrow> ok d \<Longrightarrow> ok d'"
    and get_step: "ops d d' \<Longrightarrow> ok d \<Longrightarrow> get k d = Some r \<Longrightarrow> \<exists>r'. get k d' = Some r' \<and> (revoked r \<longrightarrow> r' = r)"
    and revoke_step: "revoke k d = Some d' \<Longrightarrow> ops d d'"
    and revoke_get: "ok d \<Longrightarrow> revoke k d = Some d' \<Longrightarrow> \<exists>r. get k d' = Some r \<and> revoked r"
    and revoke_again: "get k d = Some r \<Longrightarrow> revoked r \<Longrightarrow> revoke k d = None"
begin

lemma ok_steps: "ops\<^sup>*\<^sup>* d d' \<Longrightarrow> ok d \<Longrightarrow> ok d'"
  by (induction rule: rtranclp_induct) (auto intro: ok_step)

lemma revoked_forever:
  assumes "ops\<^sup>*\<^sup>* d d'" "ok d" "get k d = Some r" "revoked r"
  shows "get k d' = Some r"
  using assms
proof (induction rule: rtranclp_induct)
  case (step d1 d2)
  from get_step [OF step.hyps(2) ok_steps [OF step.hyps(1) step.prems(1)] step.IH [OF step.prems]]
  show ?case using step.prems by blast
qed

lemma revoke_once:
  assumes "ok d" "revoke k d = Some d1" "ops\<^sup>*\<^sup>* d1 d2"
  shows "revoke k d2 = None"
proof -
  obtain r where "get k d1 = Some r" "revoked r" using revoke_get [OF assms(1, 2)] by blast
  moreover have "ok d1" using revoke_step [OF assms(2)] assms(1) by (rule ok_step)
  ultimately show ?thesis using revoked_forever [OF assms(3)] revoke_again by blast
qed

end

definition cert_at :: "string \<Rightarrow> db \<Rightarrow> cert_rec option" where
  "cert_at serial d = find (\<lambda>c. ct_Serial c = serial) (db_certs d)"

definition revoked_db :: "faults \<Rightarrow> int \<Rightarrow> int \<Rightarrow> string \<Rightarrow> db \<Rightarrow> db option" where
  "revoked_db F at reason serial d =
     (case st_RevokeCertificate F serial at reason d of (d', Inr _) \<Rightarrow> Some d' | _ \<Rightarrow> None)"

abbreviation is_revoked :: "cert_rec \<Rightarrow> bool" where
  "is_revoked c \<equiv> ct_Status c = StatusRevoked"

lemma find_append: "find P (xs @ ys) = (case find P xs of None \<Rightarrow> find P ys | Some x \<Rightarrow> Some x)"
  by (induction xs) auto

lemma find_revoke_row:
  "find (\<lambda>c. ct_Serial c = k) (map (revoke_row s at reason) cs)
     = map_option (revoke_row s at reason) (find (\<lambda>c. ct_Serial c = k) cs)"
  by (induction cs) auto

lemma cert_at_revoked:
  "cert_at k (d\<lparr>db_certs := map (revoke_row s at reason) (db_certs d)\<rparr>)
     = map_option (revoke_row s at reason) (cert_at k d)"
  by (simp add: cert_at_def find_revoke_row)

lemma is_revoked_revoke_row: "ct_Serial c = s \<Longrightarrow> is_revoked (revoke_row s at reason c)"
  by (simp add: revoke_row_def)

lemma RevokeCertificate_cert_at:
  "st_RevokeCertificate F serial at reason d =
     (if F ''begin'' then (d, Inl (Err [] ''store: beginning revocation''))
      else if F ''select status'' then (d, Inl (Err [] ''store: reading certificate status''))
      else
        (case cert_at serial d of
           None \<Rightarrow> (d, Inl (Err [StoreErrNotFound] ''certificate''))
         | Some c \<Rightarrow>
             if is_revoked c then (d, Inl (Err [StoreErrConflict] ''already revoked''))
             else if F ''update'' then (d, Inl (Err [] ''store: updating certificate''))
             else if F ''commit'' then (d, Inl (Err [] ''store: committing revocation''))
             else (d\<lparr>db_certs := map (revoke_row serial at reason) (db_certs d)\<rparr>, Inr ())))"
  by (simp add: st_RevokeCertificate_def cert_at_def)

lemma revoked_db_Some:
  "revoked_db F at reason k d = Some d' \<longleftrightarrow>
     \<not> F ''begin'' \<and> \<not> F ''select status'' \<and> \<not> F ''update'' \<and> \<not> F ''commit''
     \<and> (\<exists>c. cert_at k d = Some c \<and> \<not> is_revoked c)
     \<and> d' = d\<lparr>db_certs := map (revoke_row k at reason) (db_certs d)\<rparr>"
  by (auto simp: revoked_db_def RevokeCertificate_cert_at split: option.splits)

lemma cert_at_set: "cert_at k d = Some c \<Longrightarrow> c \<in> set (db_certs d) \<and> ct_Serial c = k"
  unfolding cert_at_def by (rule find_in_set)

lemma cert_at_iff: "db_ok d \<Longrightarrow> cert_at k d = Some c \<longleftrightarrow> c \<in> set (db_certs d) \<and> ct_Serial c = k"
proof
  assume ok: "db_ok d" and c: "c \<in> set (db_certs d) \<and> ct_Serial c = k"
  then have "\<exists>c'. cert_at k d = Some c'" by (auto simp: cert_at_def find_None_iff simp flip: not_None_eq)
  then obtain c' where c': "cert_at k d = Some c'" by blast
  then have "c' = c"
    using c cert_at_set [OF c'] ok by (auto simp: db_ok_def distinct_map inj_on_def)
  with c' show "cert_at k d = Some c" by simp
qed (rule cert_at_set)

lemma cert_at_step:
  assumes "db_step d d'" "cert_at k d = Some c"
  shows "\<exists>c'. cert_at k d' = Some c' \<and> (is_revoked c \<longrightarrow> c' = c)"
  using assms(1)
proof cases
  case (create_ca F ca)
  then show ?thesis using assms(2) CreateCA_cases [of F ca d]
    by (cases "st_CreateCA F ca d") (auto simp: cert_at_def)
next
  case (insert c0 F)
  then show ?thesis using assms(2) InsertCertificate_cases [of F c0 d]
    by (cases "st_InsertCertificate F c0 d") (auto simp: cert_at_def find_append)
next
  case (revoke F serial at reason)
  then show ?thesis using assms(2) cert_at_set [OF assms(2)]
    by (cases "cert_at serial d")
      (auto simp: RevokeCertificate_cert_at cert_at_revoked revoke_row_def)
next
  case (create_token F t)
  then show ?thesis using assms(2) CreateToken_cases [of F t d]
    by (cases "st_CreateToken F t d") (auto simp: cert_at_def)
qed

definition ca_at :: "string \<Rightarrow> db \<Rightarrow> ca_rec option" where
  "ca_at i d = find (\<lambda>ca. ca_ID ca = i) (db_cas d)"

lemma GetCA_Inr: "st_GetCA F i d = Inr rec \<longleftrightarrow> \<not> F ''get ca'' \<and> ca_at i d = Some rec"
  by (simp add: st_GetCA_def ca_at_def split: option.split)

lemma ca_at_set: "ca_at i d = Some rec \<Longrightarrow> rec \<in> set (db_cas d) \<and> ca_ID rec = i"
  unfolding ca_at_def by (rule find_in_set)

lemma ca_at_new:
  "ca_ID ca \<notin> ca_ID ` set (db_cas d) \<Longrightarrow> ca_at (ca_ID ca) (d\<lparr>db_cas := db_cas d @ [ca]\<rparr>) = Some ca"
proof -
  assume "ca_ID ca \<notin> ca_ID ` set (db_cas d)"
  then have "find (\<lambda>x. ca_ID x = ca_ID ca) (db_cas d) = None"
    by (metis (mono_tags, lifting) find_None_iff image_eqI)
  then show ?thesis by (simp add: ca_at_def find_append)
qed

lemma ca_at_step: "db_step d d' \<Longrightarrow> ca_at i d = Some rec \<Longrightarrow> ca_at i d' = Some rec"
proof (elim db_stepE)
  fix F ca
  assume "ca_at i d = Some rec" "d' = fst (st_CreateCA F ca d)"
  then show "ca_at i d' = Some rec"
    using CreateCA_cases [of F ca d] by (cases "st_CreateCA F ca d") (auto simp: ca_at_def find_append)
next
  fix c F
  assume "ca_at i d = Some rec" "d' = fst (st_InsertCertificate F c d)"
  then show "ca_at i d' = Some rec"
    using InsertCertificate_cases [of F c d] by (cases "st_InsertCertificate F c d") (auto simp: ca_at_def)
next
  fix F serial at reason
  assume "ca_at i d = Some rec" "d' = fst (st_RevokeCertificate F serial at reason d)"
  then show "ca_at i d' = Some rec"
    using RevokeCertificate_cases [of F serial at reason d]
    by (cases "st_RevokeCertificate F serial at reason d") (auto simp: ca_at_def)
next
  fix F t
  assume "ca_at i d = Some rec" "d' = fst (st_CreateToken F t d)"
  then show "ca_at i d' = Some rec"
    using CreateToken_cases [of F t d] by (cases "st_CreateToken F t d") (auto simp: ca_at_def)
qed

lemma ca_at_steps: "db_step\<^sup>*\<^sup>* d d' \<Longrightarrow> ca_at i d = Some rec \<Longrightarrow> ca_at i d' = Some rec"
  by (induction rule: rtranclp_induct) (auto intro: ca_at_step)

interpretation certificates: revocation_store db_ok db_step cert_at "revoked_db F at reason" is_revoked
  for F at reason
proof
  fix d d' :: db and k :: string and c :: cert_rec
  show "db_step d d' \<Longrightarrow> db_ok d \<Longrightarrow> db_ok d'" by (rule db_ok_step)
  show "db_step d d' \<Longrightarrow> db_ok d \<Longrightarrow> cert_at k d = Some c
      \<Longrightarrow> \<exists>r'. cert_at k d' = Some r' \<and> (is_revoked c \<longrightarrow> r' = c)"
    by (rule cert_at_step)
  show "cert_at k d = Some c \<Longrightarrow> is_revoked c \<Longrightarrow> revoked_db F at reason k d = None"
    by (cases "revoked_db F at reason k d") (auto simp: revoked_db_Some)
  assume rev: "revoked_db F at reason k d = Some d'"
  show "db_step d d'"
    using db_step.revoke [of d F k at reason] rev
    by (auto simp: revoked_db_def split: prod.splits sum.splits)
  show "\<exists>r. cert_at k d' = Some r \<and> is_revoked r"
    using rev by (auto simp: revoked_db_Some cert_at_revoked intro!: is_revoked_revoke_row dest: cert_at_set)
qed

subsection \<open>Properties\<close>

text \<open>C11. The datastore keeps its integrity: whatever sequence of CA insertions, certificate
  insertions, revocations and token insertions the program performs on an empty database, with
  whatever arguments (a certificate is inserted with a status other than revoked, as the program
  does) and failing statements, the identifiers, serial numbers and token hashes stay
  unique, every certificate names a stored CA, every parent is stored, and a certificate has a
  revocation time and a reason exactly when its status is revoked.\<close>

theorem db_integrity: "db_step\<^sup>*\<^sup>* empty_db d \<Longrightarrow> db_ok d"
  by (rule certificates.ok_steps [OF _ db_ok_empty])

definition toy_ca :: ca_rec where
  "toy_ca = \<lparr>ca_ID = ''a'', ca_Name = ''Root'', ca_ParentID = [], ca_Algorithm = [], ca_CertPEM = [],
     ca_KeyID = ''k'', ca_Status = StatusActive, ca_CreatedAt = 0\<rparr>"

definition toy_row :: "string \<Rightarrow> cert_rec" where
  "toy_row s = \<lparr>ct_Serial = s, ct_CAID = ''a'', ct_SubjectDN = [], ct_SANs = [], ct_Algorithm = [],
     ct_CertPEM = [], ct_KeyID = [], ct_Status = StatusValid, ct_NotBefore = 0, ct_NotAfter = 1,
     ct_RevokedAt = None, ct_RevocationReason = None\<rparr>"

definition toy_db :: db where
  "toy_db = \<lparr>db_cas = [toy_ca], db_certs = [toy_row ''1'', toy_row ''2''], db_tokens = []\<rparr>"

lemma toy_db_steps: "db_step\<^sup>*\<^sup>* empty_db toy_db"
proof -
  let ?F = "\<lambda>_ :: string. False"
  let ?d1 = "\<lparr>db_cas = [toy_ca], db_certs = [], db_tokens = []\<rparr>"
  let ?d2 = "\<lparr>db_cas = [toy_ca], db_certs = [toy_row ''1''], db_tokens = []\<rparr>"
  have "db_step empty_db ?d1"
    using db_step.create_ca [of empty_db ?F toy_ca]
    by (simp add: st_CreateCA_def empty_db_def toy_ca_def)
  moreover have "db_step ?d1 ?d2"
    using db_step.insert [of "toy_row ''1''" ?d1 ?F]
    by (simp add: st_InsertCertificate_def toy_row_def toy_ca_def status_defs)
  moreover have "db_step ?d2 toy_db"
    using db_step.insert [of "toy_row ''2''" ?d2 ?F]
    by (simp add: st_InsertCertificate_def toy_row_def toy_ca_def toy_db_def status_defs)
  ultimately show ?thesis by auto
qed

theorem db_integrity_witness: "db_ok toy_db"
  using db_integrity [OF toy_db_steps] .

text \<open>C12. Revocation is permanent: once a revocation of a serial number has succeeded, whatever the
  program does to the datastore afterwards the certificate keeps its row with the time and the
  reason of that revocation, and, when no statement fails, each further revocation of it, with any
  time and reason, is refused as a conflict and changes nothing.\<close>

theorem revocation_permanent:
  assumes "db_ok d" and "st_RevokeCertificate F serial at reason d = (d1, Inr ())"
    and "db_step\<^sup>*\<^sup>* d1 d2"
  shows "(\<exists>c. st_GetCertificate (\<lambda>_. False) serial d2 = Inr c \<and> ct_Status c = StatusRevoked
      \<and> ct_RevokedAt c = Some at \<and> ct_RevocationReason c = Some reason)
    \<and> st_RevokeCertificate (\<lambda>_. False) serial at' reason' d2
      = (d2, Inl (Err [StoreErrConflict] ''already revoked''))"
proof -
  have rev: "revoked_db F at reason serial d = Some d1" using assms(2) by (simp add: revoked_db_def)
  then obtain c where c: "cert_at serial d1 = Some (revoke_row serial at reason c)" "ct_Serial c = serial"
    by (auto simp: revoked_db_Some cert_at_revoked dest: cert_at_set)
  have "db_ok d1" using certificates.revoke_step [OF rev] assms(1) by (rule db_ok_step)
  from certificates.revoked_forever [OF assms(3) this c(1)] c(2)
  have row: "cert_at serial d2 = Some (revoke_row serial at reason c)" by (simp add: revoke_row_def)
  have "\<exists>c. st_GetCertificate (\<lambda>_. False) serial d2 = Inr c \<and> ct_Status c = StatusRevoked
      \<and> ct_RevokedAt c = Some at \<and> ct_RevocationReason c = Some reason"
    using row c(2) by (simp add: st_GetCertificate_def cert_at_def revoke_row_def)
  moreover have "st_RevokeCertificate (\<lambda>_. False) serial at' reason' d2
      = (d2, Inl (Err [StoreErrConflict] ''already revoked''))"
    using row c(2) by (simp add: RevokeCertificate_cert_at revoke_row_def)
  ultimately show ?thesis by blast
qed

theorem revocation_permanent_witness:
  "st_RevokeCertificate (\<lambda>_. False) ''1'' 9 3
     (fst (st_InsertCertificate (\<lambda>_. False) (toy_row ''3'') (fst (st_RevokeCertificate (\<lambda>_. False) ''1'' 5 1 toy_db))))
   = (fst (st_InsertCertificate (\<lambda>_. False) (toy_row ''3'') (fst (st_RevokeCertificate (\<lambda>_. False) ''1'' 5 1 toy_db))),
      Inl (Err [StoreErrConflict] ''already revoked''))"
proof (rule revocation_permanent [where at = 5 and reason = 1, THEN conjunct2])
  show "db_ok toy_db" using db_ok_steps [OF toy_db_steps db_ok_empty] .
  show "st_RevokeCertificate (\<lambda>_. False) ''1'' 5 1 toy_db = (fst (st_RevokeCertificate (\<lambda>_. False) ''1'' 5 1 toy_db), Inr ())"
    by (simp add: st_RevokeCertificate_def toy_db_def toy_row_def status_defs)
  show "db_step\<^sup>*\<^sup>* (fst (st_RevokeCertificate (\<lambda>_. False) ''1'' 5 1 toy_db))
     (fst (st_InsertCertificate (\<lambda>_. False) (toy_row ''3'') (fst (st_RevokeCertificate (\<lambda>_. False) ''1'' 5 1 toy_db))))"
    by (rule r_into_rtranclp, rule db_step.insert) (simp add: toy_row_def status_defs)
qed

text \<open>The rows that a CRL is built from: the list of the revoked certificates of a CA holds a
  certificate exactly when it is stored for that CA with a revocation time, holds no serial number
  twice, and is ordered by revocation time and then serial number.\<close>

theorem ListRevoked_exact:
  assumes "db_ok d" and "st_ListRevoked F caID d = Inr cs"
  shows "set cs = {c. cert_at (ct_Serial c) d = Some c \<and> ct_CAID c = caID \<and> ct_RevokedAt c \<noteq> None}
    \<and> distinct (map ct_Serial cs) \<and> sorted (map (\<lambda>c. (ct_RevokedAt c, ct_Serial c)) cs)"
proof -
  let ?rows = "filter (\<lambda>c. ct_CAID c = caID \<and> is_revoked c) (db_certs d)"
  have cs: "cs = sort_key (\<lambda>c. (ct_RevokedAt c, ct_Serial c)) ?rows"
    using assms(2) by (simp add: st_ListRevoked_def split: if_splits)
  then have "set cs = {c. cert_at (ct_Serial c) d = Some c \<and> ct_CAID c = caID \<and> ct_RevokedAt c \<noteq> None}"
    using assms(1) cert_at_iff [OF assms(1)] by (auto simp: db_ok_def cert_row_ok_def)
  moreover have "sorted (map (\<lambda>c. (ct_RevokedAt c, ct_Serial c)) cs)" unfolding cs by (rule sorted_sort_key)
  moreover have "distinct (map ct_Serial cs)"
    using assms(1) by (auto simp: cs db_ok_def distinct_map intro: inj_on_subset)
  ultimately show ?thesis by blast
qed

theorem ListRevoked_exact_witness:
  "set [toy_row ''1''\<lparr>ct_Status := StatusRevoked, ct_RevokedAt := Some 5, ct_RevocationReason := Some 1\<rparr>]
     = {c. cert_at (ct_Serial c) (fst (st_RevokeCertificate (\<lambda>_. False) ''1'' 5 1 toy_db)) = Some c
         \<and> ct_CAID c = ''a'' \<and> ct_RevokedAt c \<noteq> None}"
proof (rule ListRevoked_exact [where F = "\<lambda>_. False", THEN conjunct1])
  show "db_ok (fst (st_RevokeCertificate (\<lambda>_. False) ''1'' 5 1 toy_db))"
    using db_ok_RevokeCertificate [OF db_ok_steps [OF toy_db_steps db_ok_empty]] .
  show "st_ListRevoked (\<lambda>_. False) ''a'' (fst (st_RevokeCertificate (\<lambda>_. False) ''1'' 5 1 toy_db))
    = Inr [toy_row ''1''\<lparr>ct_Status := StatusRevoked, ct_RevokedAt := Some 5, ct_RevocationReason := Some 1\<rparr>]"
    by (simp add: st_ListRevoked_def st_RevokeCertificate_def toy_db_def toy_row_def revoke_row_def status_defs)
qed
text \<open>The reference of the migration runner: the migrations in the order of their names, less those
  recorded; running some of them is applying each to the schema and recording its name.\<close>

definition pending :: "(string \<times> 'a) list \<Rightarrow> string list \<Rightarrow> (string \<times> 'a) list" where
  "pending entries applied = filter (\<lambda>e. fst e \<notin> set applied) (sort_key fst entries)"

fun apply_migrations ::
  "('a \<Rightarrow> 's \<Rightarrow> 's option) \<Rightarrow> (string \<times> 'a) list \<Rightarrow> 's \<times> string list \<Rightarrow> ('s \<times> string list) option"
where
  "apply_migrations exec [] st = Some st"
| "apply_migrations exec ((name, sql) # es) st =
     (case exec sql (fst st) of
        None \<Rightarrow> None
      | Some s \<Rightarrow> apply_migrations exec es (s, snd st @ [name]))"

lemma filter_new_name:
  "name \<notin> fst ` set es \<Longrightarrow>
     filter (\<lambda>e. fst e \<notin> set (ns @ [name])) es = filter (\<lambda>e. fst e \<notin> set ns) es"
  by (rule filter_cong) auto

lemma migrate_loop_prefix:
  assumes "migrate_loop F exec es st = (st', res)" and "distinct (map fst es)"
  shows "\<exists>k. apply_migrations exec (take k (filter (\<lambda>e. fst e \<notin> set (snd st)) es)) st = Some st'
    \<and> (res = Inr () \<longrightarrow> length (filter (\<lambda>e. fst e \<notin> set (snd st)) es) \<le> k)"
  using assms
proof (induction F exec es st rule: migrate_loop.induct)
  case (1 F exec st)
  then show ?case by (auto intro: exI [of _ 0])
next
  case (2 F exec name sql es st)
  let ?p = "filter (\<lambda>e. fst e \<notin> set (snd st)) es"
  show ?case
  proof (cases "F (''checking '' @ name) \<or> name \<notin> set (snd st) \<and>
      (F (''reading '' @ name) \<or> F (''beginning '' @ name) \<or> exec sql (fst st) = None
       \<or> F (''recording '' @ name) \<or> F (''committing '' @ name))")
    case True
    then have "st' = st \<and> res \<noteq> Inr ()" using 2(3) by (auto split: option.splits if_splits)
    then show ?thesis by (auto intro: exI [of _ 0])
  next
    case ok: False
    show ?thesis
    proof (cases "name \<in> set (snd st)")
      case True
      then show ?thesis using ok 2 by simp
    next
      case new: False
      with ok obtain s where s: "exec sql (fst st) = Some s" by auto
      have "migrate_loop F exec es (s, snd st @ [name]) = (st', res)" using 2(3) ok new s by simp
      then have "\<exists>k. apply_migrations exec (take k ?p) (s, snd st @ [name]) = Some st'
          \<and> (res = Inr () \<longrightarrow> length ?p \<le> k)"
        using 2(2) [OF _ _ _ _ s] 2(4) ok new filter_new_name [of name es "snd st"] by simp
      then obtain k where "apply_migrations exec (take k ?p) (s, snd st @ [name]) = Some st'"
        "res = Inr () \<longrightarrow> length ?p \<le> k" by blast
      then show ?thesis using new s by (intro exI [of _ "Suc k"]) simp
    qed
  qed
qed

lemma apply_migrations_names:
  "apply_migrations exec es st = Some st' \<Longrightarrow> snd st' = snd st @ map fst es"
  by (induction exec es st rule: apply_migrations.induct) (auto split: option.splits)

lemma migrate_loop_done:
  "\<forall>n. \<not> F (''checking '' @ n) \<Longrightarrow> fst ` set es \<subseteq> set (snd st) \<Longrightarrow> migrate_loop F exec es st = (st, Inr ())"
  by (induction es) auto

text \<open>C35. The migration runner: whatever fails, the schema and the table of applied migrations are as
  after running the first few of the pending migrations in the order of their names (a migration
  that fails leaves neither its effect nor its record), and when it succeeds they are as after
  running all of them, so that running it again does nothing.\<close>

theorem migrate_pending:
  assumes "migrate F exec entries st = (st', res)" and "distinct (map fst entries)"
  shows "(\<exists>k. apply_migrations exec (take k (pending entries (snd st))) st = Some st')
    \<and> (res = Inr () \<longrightarrow> apply_migrations exec (pending entries (snd st)) st = Some st'
        \<and> migrate (\<lambda>_. False) exec entries st' = (st', Inr ()))"
proof -
  have d: "distinct (map fst (sort_key fst entries))"
    using assms(2) by (simp add: distinct_map)
  have "\<exists>k. apply_migrations exec (take k (pending entries (snd st))) st = Some st'
      \<and> (res = Inr () \<longrightarrow> length (pending entries (snd st)) \<le> k)"
  proof (cases "F ''create migration table'' \<or> F ''glob''")
    case True
    then show ?thesis using assms(1) by (auto simp: migrate_def intro: exI [of _ 0] split: if_splits)
  next
    case False
    then show ?thesis
      using migrate_loop_prefix [OF _ d] assms(1) by (simp add: migrate_def pending_def)
  qed
  then obtain k where k: "apply_migrations exec (take k (pending entries (snd st))) st = Some st'"
    "res = Inr () \<longrightarrow> length (pending entries (snd st)) \<le> k" by blast
  have "migrate (\<lambda>_. False) exec entries st' = (st', Inr ())"
    if all: "apply_migrations exec (pending entries (snd st)) st = Some st'"
    using apply_migrations_names [OF all]
    by (auto simp: migrate_def pending_def image_iff intro!: migrate_loop_done)
  then show ?thesis using k by auto
qed

definition toy_exec :: "nat \<Rightarrow> nat list \<Rightarrow> nat list option" where
  "toy_exec n s = (if n = 0 then None else Some (n # s))"

theorem migrate_pending_witness:
  "migrate (\<lambda>_. False) toy_exec [(''0002'', 2), (''0001'', 1)] ([], []) =
     (([2, 1], [''0001'', ''0002'']), Inr ())
   \<and> apply_migrations toy_exec (pending [(''0002'', 2), (''0001'', 1)] []) ([], []) = Some ([2, 1], [''0001'', ''0002''])
   \<and> migrate (\<lambda>_. False) toy_exec [(''0002'', 2), (''0001'', 1)] ([2, 1], [''0001'', ''0002'']) =
     (([2, 1], [''0001'', ''0002'']), Inr ())"
proof -
  have m: "migrate (\<lambda>_. False) toy_exec [(''0002'', 2), (''0001'', 1)] ([], []) =
      (([2, 1], [''0001'', ''0002'']), Inr ())"
    by (simp add: migrate_def toy_exec_def sort_key_def less_eq_char_def less_char_def)
  show ?thesis using migrate_pending [OF m] m by simp
qed

end
