(* ===== verification/Store_Rows.thy ===== *)
theory Store_Rows
  imports Store Go_Strings
begin

section \<open>The rows behind the datastore (internal/store)\<close>

text \<open>
  The statements of cas.go, certificates.go and tokens.go on the rows of an SQL database, whose
  schema is migrations/0001_init.sql: the parameters that a statement binds, NULL among them, the
  constraints that it can break and the message of SQLite for them, which \<open>isUniqueViolation\<close>
  searches, the columns that it reads and the scan functions that make a record of them. The
  theorem is that each of them implements its operation on the tables of theory \<open>Store\<close>; and
  \<open>Open\<close> is the start of a database file, new or not. A column of type TEXT holds a text or NULL,
  since SQLite converts what is bound to it, so that scanning one never meets another type.
\<close>

subsection \<open>A database\<close>

datatype sqlval = SQL_Null | SQL_Text string | SQL_Time int | SQL_Int int

text \<open>The order in which ORDER BY puts values: NULL, then numbers, then times and texts.\<close>

fun sql_rank :: "sqlval \<Rightarrow> nat \<times> int \<times> string" where
  "sql_rank SQL_Null = (0, 0, [])"
| "sql_rank (SQL_Int i) = (1, i, [])"
| "sql_rank (SQL_Time t) = (2, t, [])"
| "sql_rank (SQL_Text s) = (3, 0, s)"

lemma sql_rank_inj: "sql_rank v = sql_rank w \<longleftrightarrow> v = w"
  by (cases v; cases w) simp_all

instantiation sqlval :: linorder
begin

definition less_eq_sqlval :: "sqlval \<Rightarrow> sqlval \<Rightarrow> bool" where
  "less_eq_sqlval v w = (sql_rank v \<le> sql_rank w)"

definition less_sqlval :: "sqlval \<Rightarrow> sqlval \<Rightarrow> bool" where
  "less_sqlval v w = (sql_rank v < sql_rank w)"

instance
  by standard (auto simp: less_eq_sqlval_def less_sqlval_def order_less_le sql_rank_inj)

end

lemma sqlval_order [simp]:
  "SQL_Null \<le> v" "SQL_Time t \<le> SQL_Null \<longleftrightarrow> False" "SQL_Time t \<le> SQL_Time u \<longleftrightarrow> t \<le> u"
  "SQL_Text x \<le> SQL_Text y \<longleftrightarrow> x \<le> y"
  "SQL_Null < SQL_Null \<longleftrightarrow> False" "SQL_Null < SQL_Time t" "SQL_Time t < SQL_Null \<longleftrightarrow> False"
  "SQL_Time t < SQL_Time u \<longleftrightarrow> t < u"
  by (cases v; simp add: less_eq_sqlval_def) (auto simp: less_eq_sqlval_def less_sqlval_def)

record column =
  col_Name :: string
  col_NotNull :: bool
  col_Unique :: bool
  col_References :: "string option"
  col_Default :: sqlval

record sql_table =
  tb_Columns :: "column list"
  tb_Rows :: "sqlval list list"

type_synonym sql_db = "string \<Rightarrow> sql_table option"

definition column :: "string \<Rightarrow> bool \<Rightarrow> column" where
  "column n notnull =
     \<lparr>col_Name = n, col_NotNull = notnull, col_Unique = False, col_References = None, col_Default = SQL_Null\<rparr>"

definition key_column :: "string \<Rightarrow> column" where
  "key_column n = (column n False)\<lparr>col_Unique := True\<rparr>"

definition cas_columns :: "column list" where
  "cas_columns =
     [key_column ''id'', column ''name'' True, (column ''parent_id'' False)\<lparr>col_References := Some ''cas''\<rparr>,
      column ''algorithm'' True, column ''cert_pem'' True, column ''key_id'' True, column ''status'' True,
      column ''created_at'' True]"

definition certificates_columns :: "column list" where
  "certificates_columns =
     [key_column ''serial'', (column ''ca_id'' True)\<lparr>col_References := Some ''cas''\<rparr>, column ''subject_dn'' True,
      (column ''sans'' True)\<lparr>col_Default := SQL_Text []\<rparr>, column ''algorithm'' True, column ''cert_pem'' True,
      column ''key_id'' False, column ''status'' True, column ''not_before'' True, column ''not_after'' True,
      column ''revoked_at'' False, column ''revocation_reason'' False]"

definition tokens_columns :: "column list" where
  "tokens_columns =
     [key_column ''id'', column ''name'' True, (column ''token_hash'' True)\<lparr>col_Unique := True\<rparr>,
      column ''created_at'' True]"

definition init_sql :: "(string \<times> column list) list" where
  "init_sql = [(''cas'', cas_columns), (''certificates'', certificates_columns), (''tokens'', tokens_columns)]"

lemmas columns_defs = cas_columns_def certificates_columns_def tokens_columns_def column_def key_column_def

definition cell :: "column list \<Rightarrow> sqlval list \<Rightarrow> string \<Rightarrow> sqlval" where
  "cell cols row n = (case map_of (zip (map col_Name cols) row) n of None \<Rightarrow> SQL_Null | Some v \<Rightarrow> v)"

subsection \<open>Statements\<close>

text \<open>INSERT: the NOT NULL and UNIQUE constraints of the columns, then, at the end of the statement,
  the references.\<close>

definition inserted_row :: "column list \<Rightarrow> (string \<times> sqlval) list \<Rightarrow> sqlval list" where
  "inserted_row cols vals =
     map (\<lambda>c. case map_of vals (col_Name c) of None \<Rightarrow> col_Default c | Some v \<Rightarrow> v) cols"

definition null_column :: "column list \<Rightarrow> sqlval list \<Rightarrow> nat option" where
  "null_column cols row = find (\<lambda>i. col_NotNull (cols ! i) \<and> row ! i = SQL_Null) [0..<length cols]"

definition duplicate_column :: "column list \<Rightarrow> sqlval list list \<Rightarrow> sqlval list \<Rightarrow> nat option" where
  "duplicate_column cols rows row =
     find (\<lambda>i. col_Unique (cols ! i) \<and> row ! i \<noteq> SQL_Null \<and> row ! i \<in> set (map (\<lambda>r. r ! i) rows)) [0..<length cols]"

definition dangling_column :: "sql_db \<Rightarrow> column list \<Rightarrow> sqlval list \<Rightarrow> nat option" where
  "dangling_column d cols row =
     find (\<lambda>i. row ! i \<noteq> SQL_Null \<and>
        (case col_References (cols ! i) of
           None \<Rightarrow> False
         | Some t \<Rightarrow> (case d t of None \<Rightarrow> True | Some tb \<Rightarrow> row ! i \<notin> set (map hd (tb_Rows tb)))))
       [0..<length cols]"

definition sql_insert :: "string \<Rightarrow> (string \<times> sqlval) list \<Rightarrow> sql_db \<Rightarrow> string + sql_db" where
  "sql_insert t vals d =
     (case d t of
        None \<Rightarrow> Inl (''SQL logic error: no such table: '' @ t)
      | Some tb \<Rightarrow>
          let cols = tb_Columns tb; row = inserted_row cols vals; d' = d(t \<mapsto> tb\<lparr>tb_Rows := tb_Rows tb @ [row]\<rparr>) in
          (case null_column cols row of
             Some i \<Rightarrow> Inl (''constraint failed: NOT NULL constraint failed: '' @ t @ ''.'' @ col_Name (cols ! i))
           | None \<Rightarrow>
               (case duplicate_column cols (tb_Rows tb) row of
                  Some i \<Rightarrow> Inl (''constraint failed: UNIQUE constraint failed: '' @ t @ ''.'' @ col_Name (cols ! i))
                | None \<Rightarrow>
                    (case dangling_column d' cols row of
                       Some i \<Rightarrow> Inl ''constraint failed: FOREIGN KEY constraint failed''
                     | None \<Rightarrow> Inr d'))))"

text \<open>SELECT: the rows that satisfy a condition on the cells, in the order of a key of them, and the named columns of each.\<close>

definition sql_select ::
  "string \<Rightarrow> string list \<Rightarrow> ((string \<Rightarrow> sqlval) \<Rightarrow> bool) \<Rightarrow> ((string \<Rightarrow> sqlval) \<Rightarrow> 'k::linorder) \<Rightarrow> sql_db \<Rightarrow>
     string + sqlval list list" where
  "sql_select t names cond key d =
     (case d t of
        None \<Rightarrow> Inl (''SQL logic error: no such table: '' @ t)
      | Some tb \<Rightarrow>
          Inr (map (\<lambda>row. map (cell (tb_Columns tb) row) names)
            (sort_key (\<lambda>row. key (cell (tb_Columns tb) row)) (filter (\<lambda>row. cond (cell (tb_Columns tb) row)) (tb_Rows tb)))))"

definition sql_update ::
  "string \<Rightarrow> (string \<times> sqlval) list \<Rightarrow> ((string \<Rightarrow> sqlval) \<Rightarrow> bool) \<Rightarrow> sql_db \<Rightarrow> string + sql_db" where
  "sql_update t vals cond d =
     (case d t of
        None \<Rightarrow> Inl (''SQL logic error: no such table: '' @ t)
      | Some tb \<Rightarrow>
          let new = (\<lambda>row.
            if cond (cell (tb_Columns tb) row)
            then map2 (\<lambda>c v. case map_of vals (col_Name c) of None \<Rightarrow> v | Some w \<Rightarrow> w) (tb_Columns tb) row
            else row) in
          Inr (d(t \<mapsto> tb\<lparr>tb_Rows := map new (tb_Rows tb)\<rparr>)))"

subsection \<open>Scanning a row\<close>

fun scan_string :: "sqlval \<Rightarrow> string res" where
  "scan_string (SQL_Text s) = Inr s"
| "scan_string _ = Inl (Err [] ''sql: Scan error'')"

fun scan_time :: "sqlval \<Rightarrow> int res" where
  "scan_time (SQL_Time t) = Inr t"
| "scan_time _ = Inl (Err [] ''sql: Scan error'')"

text \<open>\<open>sql.NullString\<close>, \<open>sql.NullTime\<close> and \<open>sql.NullInt64\<close>.\<close>

fun scan_null :: "(sqlval \<Rightarrow> 'a res) \<Rightarrow> sqlval \<Rightarrow> 'a option res" where
  "scan_null scan SQL_Null = Inr None"
| "scan_null scan v = rbind (scan v) (\<lambda>x. Inr (Some x))"

fun scan_int :: "sqlval \<Rightarrow> int res" where
  "scan_int (SQL_Int i) = Inr i"
| "scan_int _ = Inl (Err [] ''sql: Scan error'')"

definition null_string :: "string option \<Rightarrow> string" where
  "null_string s = (case s of None \<Rightarrow> [] | Some t \<Rightarrow> t)"

fun scanCA :: "sqlval list \<Rightarrow> ca_rec res" where
  "scanCA [id_v, name_v, parent_v, alg_v, pem_v, key_v, status_v, created_v] =
     rbind (scan_string id_v) (\<lambda>i.
     rbind (scan_string name_v) (\<lambda>n.
     rbind (scan_null scan_string parent_v) (\<lambda>p.
     rbind (scan_string alg_v) (\<lambda>a.
     rbind (scan_string pem_v) (\<lambda>c.
     rbind (scan_string key_v) (\<lambda>k.
     rbind (scan_string status_v) (\<lambda>s.
     rbind (scan_time created_v) (\<lambda>t.
       Inr \<lparr>ca_ID = i, ca_Name = n, ca_ParentID = null_string p, ca_Algorithm = a, ca_CertPEM = bytes_of c,
            ca_KeyID = k, ca_Status = s, ca_CreatedAt = t\<rparr>))))))))"
| "scanCA _ = Inl (Err [] ''sql: expected destination arguments in Scan'')"

fun scanCertificate :: "sqlval list \<Rightarrow> cert_rec res" where
  "scanCertificate [serial_v, ca_v, dn_v, sans_v, alg_v, pem_v, key_v, status_v, nb_v, na_v, revoked_v, reason_v] =
     rbind (scan_string serial_v) (\<lambda>serial.
     rbind (scan_string ca_v) (\<lambda>ca.
     rbind (scan_string dn_v) (\<lambda>dn.
     rbind (scan_string sans_v) (\<lambda>sans.
     rbind (scan_string alg_v) (\<lambda>a.
     rbind (scan_string pem_v) (\<lambda>pem.
     rbind (scan_null scan_string key_v) (\<lambda>keyID.
     rbind (scan_string status_v) (\<lambda>status.
     rbind (scan_time nb_v) (\<lambda>notBefore.
     rbind (scan_time na_v) (\<lambda>notAfter.
     rbind (scan_null scan_time revoked_v) (\<lambda>revokedAt.
     rbind (scan_null scan_int reason_v) (\<lambda>reason.
       Inr \<lparr>ct_Serial = serial, ct_CAID = ca, ct_SubjectDN = dn, ct_SANs = sans, ct_Algorithm = a,
            ct_CertPEM = bytes_of pem, ct_KeyID = null_string keyID, ct_Status = status, ct_NotBefore = notBefore,
            ct_NotAfter = notAfter, ct_RevokedAt = revokedAt, ct_RevocationReason = reason\<rparr>))))))))))))"
| "scanCertificate _ = Inl (Err [] ''sql: expected destination arguments in Scan'')"

fun scanToken :: "sqlval list \<Rightarrow> token_rec res" where
  "scanToken [id_v, name_v, hash_v, created_v] =
     rbind (scan_string id_v) (\<lambda>i.
     rbind (scan_string name_v) (\<lambda>n.
     rbind (scan_string hash_v) (\<lambda>h.
     rbind (scan_time created_v) (\<lambda>t.
       Inr \<lparr>tk_ID = i, tk_Name = n, tk_TokenHash = h, tk_CreatedAt = t\<rparr>))))"
| "scanToken _ = Inl (Err [] ''sql: expected destination arguments in Scan'')"

subsection \<open>The functions of the package\<close>

text \<open>A driver can fail at any statement, with any message.\<close>

type_synonym driver = "string \<Rightarrow> string option"

fun isUniqueViolation :: "string option \<Rightarrow> bool" where
  "isUniqueViolation None = False"
| "isUniqueViolation (Some msg) =
     (sublist ''UNIQUE constraint failed'' msg \<or> sublist ''PRIMARY KEY must be unique'' msg)"

definition run_stmt :: "driver \<Rightarrow> string \<Rightarrow> string + 'a \<Rightarrow> string + 'a" where
  "run_stmt drv name r = (case drv name of Some msg \<Rightarrow> Inl msg | None \<Rightarrow> r)"

definition exec_insert ::
  "driver \<Rightarrow> string \<Rightarrow> string \<Rightarrow> (string \<times> sqlval) list \<Rightarrow> error \<Rightarrow> error \<Rightarrow> sql_db \<Rightarrow> sql_db \<times> unit res" where
  "exec_insert drv name t vals conflict failed d =
     (case run_stmt drv name (sql_insert t vals d) of
        Inl msg \<Rightarrow> (d, Inl (if isUniqueViolation (Some msg) then conflict else failed))
      | Inr d' \<Rightarrow> (d', Inr ()))"

definition null_if_empty :: "string \<Rightarrow> sqlval" where
  "null_if_empty s = (if s \<noteq> [] then SQL_Text s else SQL_Null)"

definition ca_values :: "ca_rec \<Rightarrow> (string \<times> sqlval) list" where
  "ca_values ca =
     [(''id'', SQL_Text (ca_ID ca)), (''name'', SQL_Text (ca_Name ca)), (''parent_id'', null_if_empty (ca_ParentID ca)),
      (''algorithm'', SQL_Text (ca_Algorithm ca)), (''cert_pem'', SQL_Text (string_of (ca_CertPEM ca))),
      (''key_id'', SQL_Text (ca_KeyID ca)), (''status'', SQL_Text (ca_Status ca)), (''created_at'', SQL_Time (ca_CreatedAt ca))]"

definition sql_CreateCA :: "driver \<Rightarrow> ca_rec \<Rightarrow> sql_db \<Rightarrow> sql_db \<times> unit res" where
  "sql_CreateCA drv ca =
     exec_insert drv ''insert ca'' ''cas'' (ca_values ca) (Err [StoreErrConflict] ''CA already exists'')
       (Err [] ''store: inserting CA'')"

definition caColumns :: "string list" where
  "caColumns = [''id'', ''name'', ''parent_id'', ''algorithm'', ''cert_pem'', ''key_id'', ''status'', ''created_at'']"

text \<open>\<open>QueryRowContext\<close> and \<open>Scan\<close>: the first row, or \<open>sql.ErrNoRows\<close>.\<close>

definition query_row ::
  "(sqlval list \<Rightarrow> 'a res) \<Rightarrow> error \<Rightarrow> error \<Rightarrow> string + sqlval list list \<Rightarrow> 'a res" where
  "query_row scan missing failed rows =
     (case rows of
        Inl msg \<Rightarrow> Inl failed
      | Inr [] \<Rightarrow> Inl missing
      | Inr (row # _) \<Rightarrow> rmap_err (\<lambda>_. failed) (scan row))"

text \<open>\<open>QueryContext\<close>, the loop over its rows, and \<open>rows.Err\<close> after it.\<close>

definition query_rows ::
  "driver \<Rightarrow> string \<Rightarrow> (sqlval list \<Rightarrow> 'a res) \<Rightarrow> error \<Rightarrow> error \<Rightarrow> error \<Rightarrow> string + sqlval list list \<Rightarrow> 'a list res" where
  "query_rows drv name scan listing scanning iterating rows =
     (case rows of
        Inl msg \<Rightarrow> Inl listing
      | Inr rs \<Rightarrow>
          rbind (rmap (\<lambda>row. rmap_err (\<lambda>_. scanning) (scan row)) rs) (\<lambda>out.
            if drv name \<noteq> None then Inl iterating else Inr out))"

definition sql_GetCA :: "driver \<Rightarrow> string \<Rightarrow> sql_db \<Rightarrow> ca_rec res" where
  "sql_GetCA drv i d =
     query_row scanCA (Err [StoreErrNotFound] ''CA'') (Err [] ''store: querying CA'')
       (run_stmt drv ''get ca'' (sql_select ''cas'' caColumns (\<lambda>c. c ''id'' = SQL_Text i) (\<lambda>_. ()) d))"

definition sql_ListCAs :: "driver \<Rightarrow> sql_db \<Rightarrow> ca_rec list res" where
  "sql_ListCAs drv d =
     query_rows drv ''iterate cas'' scanCA (Err [] ''store: listing CAs'') (Err [] ''store: scanning CA'')
       (Err [] ''store: iterating CAs'')
       (run_stmt drv ''list cas''
          (sql_select ''cas'' caColumns (\<lambda>_. True) (\<lambda>c. (c ''created_at'', c ''id'')) d))"

definition cert_values :: "cert_rec \<Rightarrow> (string \<times> sqlval) list" where
  "cert_values c =
     [(''serial'', SQL_Text (ct_Serial c)), (''ca_id'', SQL_Text (ct_CAID c)), (''subject_dn'', SQL_Text (ct_SubjectDN c)),
      (''sans'', SQL_Text (ct_SANs c)), (''algorithm'', SQL_Text (ct_Algorithm c)),
      (''cert_pem'', SQL_Text (string_of (ct_CertPEM c))), (''key_id'', null_if_empty (ct_KeyID c)),
      (''status'', SQL_Text (ct_Status c)), (''not_before'', SQL_Time (ct_NotBefore c)),
      (''not_after'', SQL_Time (ct_NotAfter c))]"

definition sql_InsertCertificate :: "driver \<Rightarrow> cert_rec \<Rightarrow> sql_db \<Rightarrow> sql_db \<times> unit res" where
  "sql_InsertCertificate drv c =
     exec_insert drv ''insert certificate'' ''certificates'' (cert_values c)
       (Err [StoreErrConflict] ''certificate already exists'') (Err [] ''store: inserting certificate'')"

definition certColumns :: "string list" where
  "certColumns =
     [''serial'', ''ca_id'', ''subject_dn'', ''sans'', ''algorithm'', ''cert_pem'', ''key_id'', ''status'',
      ''not_before'', ''not_after'', ''revoked_at'', ''revocation_reason'']"

definition sql_GetCertificate :: "driver \<Rightarrow> string \<Rightarrow> sql_db \<Rightarrow> cert_rec res" where
  "sql_GetCertificate drv serial d =
     query_row scanCertificate (Err [StoreErrNotFound] ''certificate'') (Err [] ''store: querying certificate'')
       (run_stmt drv ''get certificate''
          (sql_select ''certificates'' certColumns (\<lambda>c. c ''serial'' = SQL_Text serial) (\<lambda>_. ()) d))"

definition sql_listCertificates ::
  "driver \<Rightarrow> string \<Rightarrow> ((string \<Rightarrow> sqlval) \<Rightarrow> bool) \<Rightarrow> ((string \<Rightarrow> sqlval) \<Rightarrow> 'k::linorder) \<Rightarrow> sql_db \<Rightarrow> cert_rec list res" where
  "sql_listCertificates drv name cond key d =
     query_rows drv ''iterate certificates'' scanCertificate (Err [] ''store: listing certificates'')
       (Err [] ''store: scanning certificate'') (Err [] ''store: iterating certificates'')
       (run_stmt drv name (sql_select ''certificates'' certColumns cond key d))"

definition sql_ListCertificatesByCA :: "driver \<Rightarrow> string \<Rightarrow> sql_db \<Rightarrow> cert_rec list res" where
  "sql_ListCertificatesByCA drv caID =
     sql_listCertificates drv ''list certificates'' (\<lambda>c. c ''ca_id'' = SQL_Text caID)
       (\<lambda>c. (c ''not_before'', c ''serial''))"

definition sql_ListRevoked :: "driver \<Rightarrow> string \<Rightarrow> sql_db \<Rightarrow> cert_rec list res" where
  "sql_ListRevoked drv caID =
     sql_listCertificates drv ''list revoked''
       (\<lambda>c. c ''ca_id'' = SQL_Text caID \<and> c ''status'' = SQL_Text StatusRevoked)
       (\<lambda>c. (c ''revoked_at'', c ''serial''))"

text \<open>The transaction of a revocation: what it wrote counts when it commits.\<close>

definition sql_RevokeCertificate :: "driver \<Rightarrow> string \<Rightarrow> int \<Rightarrow> int \<Rightarrow> sql_db \<Rightarrow> sql_db \<times> unit res" where
  "sql_RevokeCertificate drv serial at reason d =
     (case drv ''begin'' of
        Some _ \<Rightarrow> (d, Inl (Err [] ''store: beginning revocation''))
      | None \<Rightarrow>
          (case query_row (\<lambda>row. scan_string (hd row)) (Err [StoreErrNotFound] ''certificate'')
                  (Err [] ''store: reading certificate status'')
                  (run_stmt drv ''select status''
                     (sql_select ''certificates'' [''status''] (\<lambda>c. c ''serial'' = SQL_Text serial) (\<lambda>_. ()) d)) of
             Inl e \<Rightarrow> (d, Inl e)
           | Inr status \<Rightarrow>
               if status = StatusRevoked then (d, Inl (Err [StoreErrConflict] ''already revoked''))
               else
                 (case run_stmt drv ''update''
                         (sql_update ''certificates''
                            [(''status'', SQL_Text StatusRevoked), (''revoked_at'', SQL_Time at), (''revocation_reason'', SQL_Int reason)]
                            (\<lambda>c. c ''serial'' = SQL_Text serial) d) of
                    Inl _ \<Rightarrow> (d, Inl (Err [] ''store: updating certificate''))
                  | Inr d' \<Rightarrow>
                      if drv ''commit'' \<noteq> None then (d, Inl (Err [] ''store: committing revocation''))
                      else (d', Inr ()))))"

definition token_values :: "token_rec \<Rightarrow> (string \<times> sqlval) list" where
  "token_values t =
     [(''id'', SQL_Text (tk_ID t)), (''name'', SQL_Text (tk_Name t)), (''token_hash'', SQL_Text (tk_TokenHash t)),
      (''created_at'', SQL_Time (tk_CreatedAt t))]"

definition sql_CreateToken :: "driver \<Rightarrow> token_rec \<Rightarrow> sql_db \<Rightarrow> sql_db \<times> unit res" where
  "sql_CreateToken drv t =
     exec_insert drv ''insert token'' ''tokens'' (token_values t) (Err [StoreErrConflict] ''token already exists'')
       (Err [] ''store: inserting token'')"

definition sql_TokenByHash :: "driver \<Rightarrow> string \<Rightarrow> sql_db \<Rightarrow> token_rec res" where
  "sql_TokenByHash drv hash d =
     query_row scanToken (Err [StoreErrNotFound] ''token'') (Err [] ''store: querying token'')
       (run_stmt drv ''get token''
          (sql_select ''tokens'' [''id'', ''name'', ''token_hash'', ''created_at''] (\<lambda>c. c ''token_hash'' = SQL_Text hash)
             (\<lambda>_. ()) d))"

subsection \<open>Open and Close\<close>

text \<open>A database file: its tables and the names in its table of migrations. A path without a file is
  opened as a new, empty one.\<close>

type_synonym db_file = "sql_db \<times> string list"

fun create_tables :: "(string \<times> column list) list \<Rightarrow> sql_db \<Rightarrow> sql_db option" where
  "create_tables [] d = Some d"
| "create_tables ((t, cols) # ts) d =
     (case d t of
        None \<Rightarrow> create_tables ts (d(t \<mapsto> \<lparr>tb_Columns = cols, tb_Rows = []\<rparr>))
      | Some _ \<Rightarrow> None)"

definition migrationFS :: "(string \<times> (string \<times> column list) list) list" where
  "migrationFS = [(''migrations/0001_init.sql'', init_sql)]"

definition Open :: "driver \<Rightarrow> string \<Rightarrow> (string \<Rightarrow> db_file option) \<Rightarrow> (string \<Rightarrow> db_file option) \<times> unit res" where
  "Open drv path disk =
     (if path = [] then (disk, Inl (Err [] ''store: database path must not be empty''))
      else if drv ''open'' \<noteq> None then (disk, Inl (Err [] ''store: opening database''))
      else if drv ''ping'' \<noteq> None then (disk, Inl (Err [] ''store: pinging database''))
      else
        (case migrate (\<lambda>s. drv s \<noteq> None) create_tables migrationFS
                (case disk path of None \<Rightarrow> (Map.empty, []) | Some f \<Rightarrow> f) of
           (f, r) \<Rightarrow> (disk(path \<mapsto> f), r)))"

definition Close :: "driver \<Rightarrow> unit res" where
  "Close drv = (if drv ''close'' \<noteq> None then Inl (Err [] ''store: closing database'') else Inr ())"


subsection \<open>The rows of a state of the datastore\<close>

definition or_null :: "('a \<Rightarrow> sqlval) \<Rightarrow> 'a option \<Rightarrow> sqlval" where
  "or_null f v = (case v of None \<Rightarrow> SQL_Null | Some x \<Rightarrow> f x)"

definition ca_row_of :: "ca_rec \<Rightarrow> sqlval list" where
  "ca_row_of ca = map snd (ca_values ca)"

definition cert_row_of :: "cert_rec \<Rightarrow> sqlval list" where
  "cert_row_of c =
     map snd (cert_values c) @ [or_null SQL_Time (ct_RevokedAt c), or_null SQL_Int (ct_RevocationReason c)]"

definition token_row_of :: "token_rec \<Rightarrow> sqlval list" where
  "token_row_of t = map snd (token_values t)"

definition rows_of :: "db \<Rightarrow> sql_db" where
  "rows_of d =
     [''cas'' \<mapsto> \<lparr>tb_Columns = cas_columns, tb_Rows = map ca_row_of (db_cas d)\<rparr>,
      ''certificates'' \<mapsto> \<lparr>tb_Columns = certificates_columns, tb_Rows = map cert_row_of (db_certs d)\<rparr>,
      ''tokens'' \<mapsto> \<lparr>tb_Columns = tokens_columns, tb_Rows = map token_row_of (db_tokens d)\<rparr>]"

text \<open>The records of the rows.\<close>

definition table_records :: "(sqlval list \<Rightarrow> 'a res) \<Rightarrow> string \<Rightarrow> sql_db \<Rightarrow> 'a list res" where
  "table_records scan t d =
     (case d t of None \<Rightarrow> Inl (Err [] ''no such table'') | Some tb \<Rightarrow> rmap scan (tb_Rows tb))"

definition records_of :: "sql_db \<Rightarrow> db res" where
  "records_of d =
     rbind (table_records scanCA ''cas'' d) (\<lambda>cas.
     rbind (table_records scanCertificate ''certificates'' d) (\<lambda>certs.
     rbind (table_records scanToken ''tokens'' d) (\<lambda>tokens.
       Inr \<lparr>db_cas = cas, db_certs = certs, db_tokens = tokens\<rparr>)))"

lemmas row_defs = ca_row_of_def ca_values_def cert_row_of_def cert_values_def token_row_of_def token_values_def

lemma null_string_scan [simp]:
  "scan_null scan_string (null_if_empty s) = Inr (if s = [] then None else Some s)"
  "null_string (if s = [] then None else Some s) = s"
  by (simp_all add: null_if_empty_def null_string_def)

lemma scan_or_null [simp]:
  "scan_null scan_time (or_null SQL_Time t) = Inr t"
  "scan_null scan_int (or_null SQL_Int i) = Inr i"
  by (cases t; simp add: or_null_def) (cases i; simp add: or_null_def)

lemma scan_row_of [simp]:
  "scanCA (ca_row_of ca) = Inr ca" "scanCertificate (cert_row_of c) = Inr c" "scanToken (token_row_of t) = Inr t"
  by (simp_all add: row_defs null_string_def null_if_empty_def)

lemma rows_of_sel [simp]:
  "rows_of d ''cas'' = Some \<lparr>tb_Columns = cas_columns, tb_Rows = map ca_row_of (db_cas d)\<rparr>"
  "rows_of d ''certificates'' = Some \<lparr>tb_Columns = certificates_columns, tb_Rows = map cert_row_of (db_certs d)\<rparr>"
  "rows_of d ''tokens'' = Some \<lparr>tb_Columns = tokens_columns, tb_Rows = map token_row_of (db_tokens d)\<rparr>"
  by (simp_all add: rows_of_def)

lemma rmap_map_Inr: "(\<And>x. f (g x) = Inr x) \<Longrightarrow> rmap f (map g xs) = Inr xs"
  by (induction xs) simp_all

lemma records_of_rows_of: "records_of (rows_of d) = Inr d"
  by (simp add: records_of_def table_records_def rmap_map_Inr)

subsection \<open>Columns\<close>

lemma cell_cas [simp]:
  "cell cas_columns (ca_row_of ca) ''id'' = SQL_Text (ca_ID ca)"
  "cell cas_columns (ca_row_of ca) ''created_at'' = SQL_Time (ca_CreatedAt ca)"
  "map (cell cas_columns (ca_row_of ca)) caColumns = ca_row_of ca"
  by (simp_all add: cell_def columns_defs row_defs caColumns_def)

lemma cell_certificates [simp]:
  "cell certificates_columns (cert_row_of c) ''serial'' = SQL_Text (ct_Serial c)"
  "cell certificates_columns (cert_row_of c) ''ca_id'' = SQL_Text (ct_CAID c)"
  "cell certificates_columns (cert_row_of c) ''status'' = SQL_Text (ct_Status c)"
  "cell certificates_columns (cert_row_of c) ''not_before'' = SQL_Time (ct_NotBefore c)"
  "cell certificates_columns (cert_row_of c) ''revoked_at'' = or_null SQL_Time (ct_RevokedAt c)"
  "map (cell certificates_columns (cert_row_of c)) certColumns = cert_row_of c"
  by (simp_all add: cell_def columns_defs row_defs certColumns_def)

lemma cell_tokens [simp]:
  "cell tokens_columns (token_row_of t) ''token_hash'' = SQL_Text (tk_TokenHash t)"
  "map (cell tokens_columns (token_row_of t)) [''id'', ''name'', ''token_hash'', ''created_at''] = token_row_of t"
  by (simp_all add: cell_def columns_defs row_defs)

lemma or_null_order [simp]:
  "or_null SQL_Time t \<le> or_null SQL_Time u \<longleftrightarrow> t \<le> u" "or_null SQL_Time t < or_null SQL_Time u \<longleftrightarrow> t < u"
  by (cases t; cases u; simp add: or_null_def)+

subsection \<open>Statements on the rows of a state\<close>

lemma insort_key_map: "insort_key f (g x) (map g xs) = map g (insort_key (\<lambda>x. f (g x)) x xs)"
  by (induction xs) simp_all

lemma sort_key_map: "sort_key f (map g xs) = map g (sort_key (\<lambda>x. f (g x)) xs)"
  by (induction xs) (simp_all add: insort_key_map)

lemma sort_key_order:
  assumes "\<And>x y. f x \<le> f y \<longleftrightarrow> k x \<le> k y"
  shows "sort_key f xs = sort_key k xs"
proof -
  have "insort_key f x ys = insort_key k x ys" for x ys
    by (induction ys) (simp_all add: assms)
  then show ?thesis by (induction xs) simp_all
qed

lemma sort_key_unit [simp]: "sort_key (\<lambda>_. ()) xs = xs"
  by (rule sort_key_const)

lemma find_filter: "find P xs = (case filter P xs of [] \<Rightarrow> None | x # _ \<Rightarrow> Some x)"
  by (induction xs) simp_all

lemma select_rows:
  assumes "d t = Some \<lparr>tb_Columns = cols, tb_Rows = map row xs\<rparr>"
    and "\<And>x. map (cell cols (row x)) names = out x"
  shows "sql_select t names cond key d =
    Inr (map out (sort_key (\<lambda>x. key (cell cols (row x))) (filter (\<lambda>x. cond (cell cols (row x))) xs)))"
  using assms(2) by (simp add: sql_select_def assms(1) filter_map sort_key_map comp_def)

lemma query_row_rows:
  assumes "\<And>x. scan (out x) = Inr (g x)"
  shows "query_row scan missing failed (run_stmt drv name (Inr (map out (filter P xs)))) =
    (if drv name \<noteq> None then Inl failed else case find P xs of None \<Rightarrow> Inl missing | Some x \<Rightarrow> Inr (g x))"
  by (cases "filter P xs") (auto simp: query_row_def run_stmt_def find_filter assms split: option.split)

lemma query_rows_rows:
  assumes "\<And>x. scan (row x) = Inr x"
  shows "query_rows drv iter scan listing scanning iterating (run_stmt drv name (Inr (map row xs))) =
    (if drv name \<noteq> None then Inl listing else if drv iter \<noteq> None then Inl iterating else Inr xs)"
proof -
  have "rmap (\<lambda>r. rmap_err (\<lambda>_. scanning) (scan r)) (map row xs) = Inr xs"
    by (rule rmap_map_Inr) (simp add: assms)
  then show ?thesis by (simp add: query_rows_def run_stmt_def split: option.split)
qed

lemma less_8: "[0..<8] = [0, 1, 2, 3, 4, 5, 6, 7]" and less_12: "[0..<12] = [0, 1, 2, 3, 4, 5, 6, 7, 8, 9, 10, 11]"
  and less_4: "[0..<4] = [0, 1, 2, 3]"
  by (simp_all add: upt_rec)

lemma SQL_Text_image: "SQL_Text x \<in> (\<lambda>r. SQL_Text (f r)) ` A \<longleftrightarrow> x \<in> f ` A"
  by auto

lemma length_columns [simp]:
  "length cas_columns = 8" "length certificates_columns = 12" "length tokens_columns = 4"
  by (simp_all add: columns_defs)

lemma insert_cas:
  "sql_insert ''cas'' (ca_values ca) (rows_of d) =
     (if ca_ID ca \<in> ca_ID ` set (db_cas d) then Inl ''constraint failed: UNIQUE constraint failed: cas.id''
      else if ca_ParentID ca \<noteq> [] \<and> ca_ParentID ca \<notin> ca_ID ` set (ca # db_cas d)
      then Inl ''constraint failed: FOREIGN KEY constraint failed''
      else Inr (rows_of (d\<lparr>db_cas := db_cas d @ [ca]\<rparr>)))"
proof -
  let ?d = "rows_of (d\<lparr>db_cas := db_cas d @ [ca]\<rparr>)"
  have row: "inserted_row cas_columns (ca_values ca) = ca_row_of ca"
    by (simp add: inserted_row_def columns_defs row_defs)
  have new: "(rows_of d)(''cas'' \<mapsto> \<lparr>tb_Columns = cas_columns, tb_Rows = map ca_row_of (db_cas d) @ [ca_row_of ca]\<rparr>) = ?d"
    by (auto simp: rows_of_def)
  have "null_column cas_columns (ca_row_of ca) = None"
    unfolding null_column_def length_columns less_8 by (simp add: columns_defs row_defs)
  moreover have "duplicate_column cas_columns (map ca_row_of (db_cas d)) (ca_row_of ca) =
      (if ca_ID ca \<in> ca_ID ` set (db_cas d) then Some 0 else None)"
    unfolding duplicate_column_def length_columns less_8
    by (simp add: columns_defs row_defs comp_def image_image SQL_Text_image)
  moreover have "dangling_column ?d cas_columns (ca_row_of ca) =
      (if ca_ParentID ca \<noteq> [] \<and> ca_ParentID ca \<notin> ca_ID ` set (ca # db_cas d) then Some 2 else None)"
    unfolding dangling_column_def length_columns less_8
    by (simp add: columns_defs row_defs comp_def image_image SQL_Text_image null_if_empty_def)
  moreover have "col_Name (cas_columns ! 0) = ''id''" by (simp add: columns_defs)
  ultimately show ?thesis
    unfolding sql_insert_def rows_of_sel option.case Let_def sql_table.select_convs sql_table.update_convs row new
    by simp
qed

lemma insert_certificates:
  "sql_insert ''certificates'' (cert_values c) (rows_of d) =
     (if ct_Serial c \<in> ct_Serial ` set (db_certs d)
      then Inl ''constraint failed: UNIQUE constraint failed: certificates.serial''
      else if ct_CAID c \<notin> ca_ID ` set (db_cas d) then Inl ''constraint failed: FOREIGN KEY constraint failed''
      else Inr (rows_of (d\<lparr>db_certs := db_certs d @ [c\<lparr>ct_RevokedAt := None, ct_RevocationReason := None\<rparr>]\<rparr>)))"
proof -
  let ?c = "c\<lparr>ct_RevokedAt := None, ct_RevocationReason := None\<rparr>"
  let ?d = "rows_of (d\<lparr>db_certs := db_certs d @ [?c]\<rparr>)"
  have row: "inserted_row certificates_columns (cert_values c) = cert_row_of ?c"
    by (simp add: inserted_row_def columns_defs row_defs or_null_def)
  have new: "(rows_of d)(''certificates'' \<mapsto>
      \<lparr>tb_Columns = certificates_columns, tb_Rows = map cert_row_of (db_certs d) @ [cert_row_of ?c]\<rparr>) = ?d"
    by (auto simp: rows_of_def)
  have "null_column certificates_columns (cert_row_of ?c) = None"
    unfolding null_column_def length_columns less_12 by (simp add: columns_defs row_defs)
  moreover have "duplicate_column certificates_columns (map cert_row_of (db_certs d)) (cert_row_of ?c) =
      (if ct_Serial c \<in> ct_Serial ` set (db_certs d) then Some 0 else None)"
    unfolding duplicate_column_def length_columns less_12
    by (simp add: columns_defs row_defs comp_def image_image SQL_Text_image)
  moreover have "dangling_column ?d certificates_columns (cert_row_of ?c) =
      (if ct_CAID c \<notin> ca_ID ` set (db_cas d) then Some 1 else None)"
    unfolding dangling_column_def length_columns less_12
    by (simp add: columns_defs row_defs comp_def image_image SQL_Text_image)
  moreover have "col_Name (certificates_columns ! 0) = ''serial''" by (simp add: columns_defs)
  ultimately show ?thesis
    unfolding sql_insert_def rows_of_sel option.case Let_def sql_table.select_convs sql_table.update_convs row new
    by simp
qed

lemma insert_tokens:
  "sql_insert ''tokens'' (token_values t) (rows_of d) =
     (if tk_ID t \<in> tk_ID ` set (db_tokens d) then Inl ''constraint failed: UNIQUE constraint failed: tokens.id''
      else if tk_TokenHash t \<in> tk_TokenHash ` set (db_tokens d)
      then Inl ''constraint failed: UNIQUE constraint failed: tokens.token_hash''
      else Inr (rows_of (d\<lparr>db_tokens := db_tokens d @ [t]\<rparr>)))"
proof -
  let ?d = "rows_of (d\<lparr>db_tokens := db_tokens d @ [t]\<rparr>)"
  have row: "inserted_row tokens_columns (token_values t) = token_row_of t"
    by (simp add: inserted_row_def columns_defs row_defs)
  have new: "(rows_of d)(''tokens'' \<mapsto>
      \<lparr>tb_Columns = tokens_columns, tb_Rows = map token_row_of (db_tokens d) @ [token_row_of t]\<rparr>) = ?d"
    by (auto simp: rows_of_def)
  have "null_column tokens_columns (token_row_of t) = None"
    unfolding null_column_def length_columns less_4 by (simp add: columns_defs row_defs)
  moreover have "duplicate_column tokens_columns (map token_row_of (db_tokens d)) (token_row_of t) =
      (if tk_ID t \<in> tk_ID ` set (db_tokens d) then Some 0
       else if tk_TokenHash t \<in> tk_TokenHash ` set (db_tokens d) then Some 2 else None)"
    unfolding duplicate_column_def length_columns less_4
    by (simp add: columns_defs row_defs comp_def image_image SQL_Text_image)
  moreover have "dangling_column ?d tokens_columns (token_row_of t) = None"
    unfolding dangling_column_def length_columns less_4 by (simp add: columns_defs row_defs)
  moreover have "col_Name (tokens_columns ! 0) = ''id''" "col_Name (tokens_columns ! 2) = ''token_hash''"
    by (simp_all add: columns_defs)
  ultimately show ?thesis
    unfolding sql_insert_def rows_of_sel option.case Let_def sql_table.select_convs sql_table.update_convs row new
    by simp
qed

lemma update_certificates:
  "sql_update ''certificates''
     [(''status'', SQL_Text StatusRevoked), (''revoked_at'', SQL_Time at), (''revocation_reason'', SQL_Int reason)]
     (\<lambda>c. c ''serial'' = SQL_Text serial) (rows_of d) =
   Inr (rows_of (d\<lparr>db_certs := map (revoke_row serial at reason) (db_certs d)\<rparr>))"
proof -
  let ?vals = "[(''status'', SQL_Text StatusRevoked), (''revoked_at'', SQL_Time at), (''revocation_reason'', SQL_Int reason)]"
  have row: "(if cell certificates_columns (cert_row_of c) ''serial'' = SQL_Text serial
      then map2 (\<lambda>c v. case map_of ?vals (col_Name c) of None \<Rightarrow> v | Some w \<Rightarrow> w) certificates_columns (cert_row_of c)
      else cert_row_of c) = cert_row_of (revoke_row serial at reason c)" for c
    unfolding cell_certificates revoke_row_def
    by (simp add: columns_defs row_defs or_null_def)
  show ?thesis
    unfolding sql_update_def rows_of_sel option.case Let_def sql_table.select_convs sql_table.update_convs map_map comp_def row
    by (auto simp: rows_of_def)
qed

lemma select_cas:
  "sql_select ''cas'' caColumns cond key (rows_of d) =
     Inr (map ca_row_of (sort_key (\<lambda>x. key (cell cas_columns (ca_row_of x)))
       (filter (\<lambda>x. cond (cell cas_columns (ca_row_of x))) (db_cas d))))"
  by (rule select_rows) simp_all

lemma select_certificates:
  "sql_select ''certificates'' certColumns cond key (rows_of d) =
     Inr (map cert_row_of (sort_key (\<lambda>x. key (cell certificates_columns (cert_row_of x)))
       (filter (\<lambda>x. cond (cell certificates_columns (cert_row_of x))) (db_certs d))))"
  by (rule select_rows) simp_all

lemma select_status:
  "sql_select ''certificates'' [''status''] (\<lambda>c. c ''serial'' = SQL_Text serial) (\<lambda>_. ()) (rows_of d) =
     Inr (map (\<lambda>c. [SQL_Text (ct_Status c)]) (filter (\<lambda>c. ct_Serial c = serial) (db_certs d)))"
  using select_rows [of "rows_of d" "''certificates''", where names = "[''status'']" and cols = certificates_columns
      and row = cert_row_of and xs = "db_certs d" and out = "\<lambda>c. [SQL_Text (ct_Status c)]"
      and cond = "\<lambda>c. c ''serial'' = SQL_Text serial" and key = "\<lambda>_. ()"]
  by simp

lemma select_tokens:
  "sql_select ''tokens'' [''id'', ''name'', ''token_hash'', ''created_at''] cond (\<lambda>_. ()) (rows_of d) =
     Inr (map token_row_of (filter (\<lambda>x. cond (cell tokens_columns (token_row_of x))) (db_tokens d)))"
  using select_rows [of "rows_of d" "''tokens''", where names = "[''id'', ''name'', ''token_hash'', ''created_at'']"
      and cols = tokens_columns and row = token_row_of and xs = "db_tokens d" and out = token_row_of
      and cond = cond and key = "\<lambda>_. ()"]
  unfolding cell_tokens(2) by simp

subsection \<open>Each function implements its operation\<close>

definition driver_faults :: "driver \<Rightarrow> faults" where
  "driver_faults drv s = (drv s \<noteq> None)"

definition driver_ok :: "driver \<Rightarrow> bool" where
  "driver_ok drv = (\<forall>s msg. drv s = Some msg \<longrightarrow> \<not> isUniqueViolation (Some msg))"

lemma unique_messages:
  "isUniqueViolation (Some ''constraint failed: UNIQUE constraint failed: cas.id'')"
  "isUniqueViolation (Some ''constraint failed: UNIQUE constraint failed: certificates.serial'')"
  "isUniqueViolation (Some ''constraint failed: UNIQUE constraint failed: tokens.id'')"
  "isUniqueViolation (Some ''constraint failed: UNIQUE constraint failed: tokens.token_hash'')"
  "\<not> isUniqueViolation (Some ''constraint failed: FOREIGN KEY constraint failed'')"
  by code_simp+

lemma CreateCA_rows:
  assumes "driver_ok drv"
  shows "sql_CreateCA drv ca (rows_of d) = map_prod rows_of id (st_CreateCA (driver_faults drv) ca d)"
proof (cases "drv ''insert ca''")
  case (Some msg)
  then show ?thesis
    using assms by (simp add: sql_CreateCA_def exec_insert_def run_stmt_def st_CreateCA_def driver_faults_def driver_ok_def
        del: isUniqueViolation.simps)
next
  case None
  then show ?thesis
    unfolding sql_CreateCA_def exec_insert_def run_stmt_def insert_cas st_CreateCA_def driver_faults_def
    by (simp add: unique_messages del: isUniqueViolation.simps)
qed

lemma InsertCertificate_rows:
  assumes "driver_ok drv"
  shows "sql_InsertCertificate drv c (rows_of d) = map_prod rows_of id (st_InsertCertificate (driver_faults drv) c d)"
proof (cases "drv ''insert certificate''")
  case (Some msg)
  then show ?thesis
    using assms by (simp add: sql_InsertCertificate_def exec_insert_def run_stmt_def st_InsertCertificate_def
        driver_faults_def driver_ok_def del: isUniqueViolation.simps)
next
  case None
  then show ?thesis
    unfolding sql_InsertCertificate_def exec_insert_def run_stmt_def insert_certificates st_InsertCertificate_def
      driver_faults_def
    by (simp add: unique_messages del: isUniqueViolation.simps)
qed

lemma CreateToken_rows:
  assumes "driver_ok drv"
  shows "sql_CreateToken drv t (rows_of d) = map_prod rows_of id (st_CreateToken (driver_faults drv) t d)"
proof (cases "drv ''insert token''")
  case (Some msg)
  then show ?thesis
    using assms by (simp add: sql_CreateToken_def exec_insert_def run_stmt_def st_CreateToken_def driver_faults_def
        driver_ok_def del: isUniqueViolation.simps)
next
  case None
  then show ?thesis
    unfolding sql_CreateToken_def exec_insert_def run_stmt_def insert_tokens st_CreateToken_def driver_faults_def
    by (simp add: unique_messages del: isUniqueViolation.simps)
qed

lemma Get_rows:
  "sql_GetCA drv i (rows_of d) = st_GetCA (driver_faults drv) i d"
  "sql_GetCertificate drv serial (rows_of d) = st_GetCertificate (driver_faults drv) serial d"
  "sql_TokenByHash drv hash (rows_of d) = st_TokenByHash (driver_faults drv) hash d"
  by (simp_all add: sql_GetCA_def sql_GetCertificate_def sql_TokenByHash_def select_cas select_certificates select_tokens
      query_row_rows st_GetCA_def st_GetCertificate_def st_TokenByHash_def driver_faults_def)

lemma List_rows:
  "sql_ListCAs drv (rows_of d) = st_ListCAs (driver_faults drv) d"
  "sql_ListCertificatesByCA drv caID (rows_of d) = st_ListCertificatesByCA (driver_faults drv) caID d"
  "sql_ListRevoked drv caID (rows_of d) = st_ListRevoked (driver_faults drv) caID d"
proof -
  have cas: "sort_key (\<lambda>x. (SQL_Time (ca_CreatedAt x), SQL_Text (ca_ID x))) xs
      = sort_key (\<lambda>x. (ca_CreatedAt x, ca_ID x)) xs" for xs
    by (rule sort_key_order) simp
  have certs: "sort_key (\<lambda>x. (SQL_Time (ct_NotBefore x), SQL_Text (ct_Serial x))) xs
      = sort_key (\<lambda>x. (ct_NotBefore x, ct_Serial x)) xs" for xs
    by (rule sort_key_order) simp
  have revoked: "sort_key (\<lambda>x. (or_null SQL_Time (ct_RevokedAt x), SQL_Text (ct_Serial x))) xs
      = sort_key (\<lambda>x. (ct_RevokedAt x, ct_Serial x)) xs" for xs
    by (rule sort_key_order) simp
  show "sql_ListCAs drv (rows_of d) = st_ListCAs (driver_faults drv) d"
    by (simp add: sql_ListCAs_def select_cas query_rows_rows st_ListCAs_def driver_faults_def cas)
  show "sql_ListCertificatesByCA drv caID (rows_of d) = st_ListCertificatesByCA (driver_faults drv) caID d"
    by (simp add: sql_ListCertificatesByCA_def sql_listCertificates_def select_certificates query_rows_rows
        st_ListCertificatesByCA_def driver_faults_def certs)
  show "sql_ListRevoked drv caID (rows_of d) = st_ListRevoked (driver_faults drv) caID d"
    by (simp add: sql_ListRevoked_def sql_listCertificates_def select_certificates query_rows_rows
        st_ListRevoked_def driver_faults_def revoked)
qed

lemma RevokeCertificate_rows:
  "sql_RevokeCertificate drv serial at reason (rows_of d) =
     map_prod rows_of id (st_RevokeCertificate (driver_faults drv) serial at reason d)"
proof -
  have status: "query_row (\<lambda>row. scan_string (hd row)) missing failed
      (run_stmt drv ''select status'' (Inr (map (\<lambda>c. [SQL_Text (ct_Status c)]) (filter P xs)))) =
      (if drv ''select status'' \<noteq> None then Inl failed
       else case find P xs of None \<Rightarrow> Inl missing | Some x \<Rightarrow> Inr (ct_Status x))" for missing failed P xs
    by (rule query_row_rows) simp
  show ?thesis
    unfolding sql_RevokeCertificate_def select_status status update_certificates st_RevokeCertificate_def
      driver_faults_def
    by (auto simp: run_stmt_def split: option.split)
qed

subsection \<open>A database file over time\<close>

text \<open>What a step of the implementation does to the state that it represents is a run of the
  specification; then so is a run of the implementation.\<close>

locale simulation =
  fixes spec :: "'a \<Rightarrow> 'a \<Rightarrow> bool"
    and impl :: "'c \<Rightarrow> 'c \<Rightarrow> bool"
    and rep :: "'a \<Rightarrow> 'c"
  assumes sim_step: "impl (rep a) c \<Longrightarrow> \<exists>a'. spec\<^sup>*\<^sup>* a a' \<and> c = rep a'"
begin

lemma sim_steps: "impl\<^sup>*\<^sup>* (rep a) c \<Longrightarrow> \<exists>a'. spec\<^sup>*\<^sup>* a a' \<and> c = rep a'"
proof (induction rule: rtranclp_induct)
  case (step c1 c2)
  then show ?case using sim_step by (metis rtranclp_trans)
qed auto

end

inductive sql_step :: "sql_db \<Rightarrow> sql_db \<Rightarrow> bool" where
  create_ca: "sql_step T (fst (sql_CreateCA drv ca T))"
| insert: "ct_Status c \<noteq> StatusRevoked \<Longrightarrow> sql_step T (fst (sql_InsertCertificate drv c T))"
| revoke: "sql_step T (fst (sql_RevokeCertificate drv serial at reason T))"
| create_token: "sql_step T (fst (sql_CreateToken drv t T))"

inductive_cases sql_stepE: "sql_step T T'"

text \<open>Whatever a driver says when it fails, the effect is that of a driver that fails with nothing to
  say.\<close>

definition quiet :: "driver \<Rightarrow> driver" where
  "quiet drv s = map_option (\<lambda>_. ''database is locked'') (drv s)"

lemma driver_ok_quiet: "driver_ok (quiet drv)"
proof -
  have "\<not> isUniqueViolation (Some ''database is locked'')" by code_simp
  then show ?thesis by (auto simp: driver_ok_def quiet_def simp del: isUniqueViolation.simps)
qed

lemma exec_insert_quiet:
  "fst (exec_insert drv name t vals conflict failed d) = fst (exec_insert (quiet drv) name t vals conflict failed d)"
  by (cases "drv name") (simp_all add: exec_insert_def run_stmt_def quiet_def split: sum.split)

lemma insert_effects:
  "fst (sql_CreateCA drv ca (rows_of d)) = rows_of (fst (st_CreateCA (driver_faults (quiet drv)) ca d))"
  "fst (sql_InsertCertificate drv c (rows_of d)) = rows_of (fst (st_InsertCertificate (driver_faults (quiet drv)) c d))"
  "fst (sql_CreateToken drv t (rows_of d)) = rows_of (fst (st_CreateToken (driver_faults (quiet drv)) t d))"
proof -
  show "fst (sql_CreateCA drv ca (rows_of d)) = rows_of (fst (st_CreateCA (driver_faults (quiet drv)) ca d))"
    using CreateCA_rows [OF driver_ok_quiet [of drv], of ca d]
    by (simp add: sql_CreateCA_def exec_insert_quiet [of drv])
  show "fst (sql_InsertCertificate drv c (rows_of d)) = rows_of (fst (st_InsertCertificate (driver_faults (quiet drv)) c d))"
    using InsertCertificate_rows [OF driver_ok_quiet [of drv], of c d]
    by (simp add: sql_InsertCertificate_def exec_insert_quiet [of drv])
  show "fst (sql_CreateToken drv t (rows_of d)) = rows_of (fst (st_CreateToken (driver_faults (quiet drv)) t d))"
    using CreateToken_rows [OF driver_ok_quiet [of drv], of t d]
    by (simp add: sql_CreateToken_def exec_insert_quiet [of drv])
qed

interpretation rows: simulation db_step sql_step rows_of
proof
  fix d T
  assume "sql_step (rows_of d) T"
  then show "\<exists>d'. db_step\<^sup>*\<^sup>* d d' \<and> T = rows_of d'"
  proof (elim sql_stepE)
    fix drv ca
    assume "T = fst (sql_CreateCA drv ca (rows_of d))"
    then show ?thesis unfolding insert_effects by (metis db_step.create_ca r_into_rtranclp)
  next
    fix drv c
    assume "T = fst (sql_InsertCertificate drv c (rows_of d))" "ct_Status c \<noteq> StatusRevoked"
    then show ?thesis unfolding insert_effects by (metis db_step.insert r_into_rtranclp)
  next
    fix drv serial at reason
    assume "T = fst (sql_RevokeCertificate drv serial at reason (rows_of d))"
    then show ?thesis unfolding RevokeCertificate_rows by (metis db_step.revoke r_into_rtranclp fst_map_prod)
  next
    fix drv t
    assume "T = fst (sql_CreateToken drv t (rows_of d))"
    then show ?thesis unfolding insert_effects by (metis db_step.create_token r_into_rtranclp)
  qed
qed

text \<open>The life of a database file: processes open it, and while one of them has, it runs statements
  and closes it.\<close>

inductive file_step ::
  "string \<Rightarrow> (string \<Rightarrow> db_file option) \<times> nat \<Rightarrow> (string \<Rightarrow> db_file option) \<times> nat \<Rightarrow> bool" for path where
  opened: "Open drv path disk = (disk', Inr ()) \<Longrightarrow> file_step path (disk, n) (disk', Suc n)"
| refused: "Open drv path disk = (disk', Inl e) \<Longrightarrow> file_step path (disk, n) (disk', n)"
| statement: "disk path = Some (T, ms) \<Longrightarrow> sql_step T T' \<Longrightarrow> file_step path (disk, Suc n) (disk(path \<mapsto> (T', ms)), Suc n)"
| closed: "file_step path (disk, Suc n) (disk, n)"

definition init_name :: string where
  "init_name = ''migrations/0001_init.sql''"

definition file_holds :: "db_file option \<Rightarrow> db \<Rightarrow> bool" where
  "file_holds f d = (f = Some (rows_of d, [init_name]))"

definition file_new :: "db_file option \<Rightarrow> bool" where
  "file_new f = (f = None \<or> f = Some (Map.empty, []))"

lemma create_init: "create_tables init_sql Map.empty = Some (rows_of empty_db)"
  by (simp add: init_sql_def rows_of_def empty_db_def fun_eq_iff)

lemma migrate_new:
  "migrate F create_tables migrationFS (Map.empty, []) = (f, r) \<Longrightarrow>
     f = (Map.empty, []) \<and> r \<noteq> Inr () \<or> f = (rows_of empty_db, [init_name])"
  by (auto simp: migrate_def migrationFS_def create_init init_name_def split: if_splits)

lemma migrate_held:
  "migrate F create_tables migrationFS (T, [init_name]) = (f, r) \<Longrightarrow> f = (T, [init_name])"
  by (auto simp: migrate_def migrationFS_def init_name_def split: if_splits)

lemma Open_new:
  assumes "Open drv path disk = (disk', r)" "file_new (disk path)"
  shows "file_new (disk' path) \<and> r \<noteq> Inr () \<or> file_holds (disk' path) empty_db"
  using assms by (auto simp: Open_def file_new_def file_holds_def dest: migrate_new split: if_splits prod.splits)

lemma Open_held:
  assumes "Open drv path disk = (disk', r)" "file_holds (disk path) d"
  shows "disk' = disk"
  using assms by (auto simp: Open_def file_holds_def fun_upd_idem dest!: migrate_held split: if_splits prod.splits)

lemma Open_clean:
  assumes "path \<noteq> []" "\<And>s. drv s = None"
  shows "file_holds (disk path) d \<Longrightarrow> Open drv path disk = (disk, Inr ())"
    "file_new (disk path) \<Longrightarrow> Open drv path disk = (disk(path \<mapsto> (rows_of empty_db, [init_name])), Inr ())"
  using assms
  by (auto simp: Open_def file_holds_def file_new_def migrate_def migrationFS_def create_init init_name_def fun_upd_idem)

definition file_ok :: "string \<Rightarrow> (string \<Rightarrow> db_file option) \<times> nat \<Rightarrow> bool" where
  "file_ok path st =
     (file_new (fst st path) \<and> snd st = 0 \<or> (\<exists>d. file_holds (fst st path) d \<and> db_step\<^sup>*\<^sup>* empty_db d))"

lemma file_ok_step:
  assumes "file_step path st st'" "file_ok path st"
  shows "file_ok path st'"
  using assms
proof (induction rule: file_step.induct)
  case (opened drv disk disk' n)
  then show ?case using Open_new [OF opened(1)] Open_held [OF opened(1)] by (auto simp: file_ok_def)
next
  case (refused drv disk disk' e n)
  then show ?case using Open_new [OF refused(1)] Open_held [OF refused(1)] by (auto simp: file_ok_def)
next
  case (statement disk T ms T' n)
  then obtain d where d: "file_holds (disk path) d" "db_step\<^sup>*\<^sup>* empty_db d" by (auto simp: file_ok_def)
  then have "T = rows_of d" "ms = [init_name]" using statement(1) by (simp_all add: file_holds_def)
  then obtain d' where "db_step\<^sup>*\<^sup>* d d'" "T' = rows_of d'" using rows.sim_step statement(2) by blast
  then show ?case using d(2) \<open>ms = [init_name]\<close> by (auto simp: file_ok_def file_holds_def intro: rtranclp_trans)
next
  case (closed disk n)
  then show ?case by (auto simp: file_ok_def)
qed

lemma file_ok_steps: "(file_step path)\<^sup>*\<^sup>* st st' \<Longrightarrow> file_ok path st \<Longrightarrow> file_ok path st'"
  by (induction rule: rtranclp_induct) (auto intro: file_ok_step)

subsection \<open>Properties\<close>

text \<open>C13. The SQL of the package implements the datastore. On the rows of any state of the tables each
  function, with the parameters it binds, the NULL it binds for an empty parent or key, the
  constraints of the schema, the message of the driver by which it tells a conflict, and its scan
  functions, has the effect and the result of its operation on the tables, statement failures
  included, when no other failure of the driver has the message of a uniqueness violation. The rows
  determine the state.\<close>

theorem rows_implement_store:
  assumes "driver_ok drv"
  defines "F \<equiv> driver_faults drv"
  shows "sql_CreateCA drv ca (rows_of d) = map_prod rows_of id (st_CreateCA F ca d)
    \<and> sql_GetCA drv i (rows_of d) = st_GetCA F i d
    \<and> sql_ListCAs drv (rows_of d) = st_ListCAs F d
    \<and> sql_InsertCertificate drv c (rows_of d) = map_prod rows_of id (st_InsertCertificate F c d)
    \<and> sql_GetCertificate drv serial (rows_of d) = st_GetCertificate F serial d
    \<and> sql_ListCertificatesByCA drv caID (rows_of d) = st_ListCertificatesByCA F caID d
    \<and> sql_ListRevoked drv caID (rows_of d) = st_ListRevoked F caID d
    \<and> sql_RevokeCertificate drv serial at reason (rows_of d)
        = map_prod rows_of id (st_RevokeCertificate F serial at reason d)
    \<and> sql_CreateToken drv t (rows_of d) = map_prod rows_of id (st_CreateToken F t d)
    \<and> sql_TokenByHash drv hash (rows_of d) = st_TokenByHash F hash d
    \<and> records_of (rows_of d) = Inr d"
  unfolding F_def Get_rows List_rows RevokeCertificate_rows records_of_rows_of
  using CreateCA_rows InsertCertificate_rows CreateToken_rows assms(1) by blast

theorem rows_implement_store_witness:
  "sql_CreateCA (\<lambda>_. None) toy_ca (rows_of toy_db) = (rows_of toy_db, Inl (Err [StoreErrConflict] ''CA already exists''))"
proof -
  have "driver_ok (\<lambda>_. None)" by (simp add: driver_ok_def)
  note r = rows_implement_store [OF this, THEN conjunct1, of toy_ca toy_db]
  show ?thesis unfolding r by (simp add: st_CreateCA_def driver_faults_def toy_db_def)
qed

text \<open>C14. A database file is whole at every moment. Starting without a file, whatever processes open,
  change, close and reopen it, with whatever failures, the file is either missing or empty, and then
  nobody has it open, or it holds the migrated tables of a state that the operations of the
  datastore reach from the empty one, so with all its integrity; and opening such a file again,
  when nothing fails, succeeds and leaves it as it is.\<close>

theorem database_file_whole:
  assumes "(file_step path)\<^sup>*\<^sup>* (disk0, 0) (disk, n)" "disk0 path = None"
  shows "n = 0 \<and> (disk path = None \<or> disk path = Some (Map.empty, []))
    \<or> (\<exists>d. disk path = Some (rows_of d, [''migrations/0001_init.sql'']) \<and> db_ok d
         \<and> (path \<noteq> [] \<longrightarrow> Open (\<lambda>_. None) path disk = (disk, Inr ())))"
proof -
  have "file_ok path (disk, n)"
    by (rule file_ok_steps [OF assms(1)]) (simp add: file_ok_def file_new_def assms(2))
  then show ?thesis
    using db_ok_steps [OF _ db_ok_empty] Open_clean(1) [of path "\<lambda>_. None" disk]
    unfolding file_ok_def file_new_def file_holds_def init_name_def by auto
qed

theorem database_file_whole_witness:
  "let disk = [''x.db'' \<mapsto> (rows_of empty_db, [''migrations/0001_init.sql''])] in
   Open (\<lambda>_. None) ''x.db'' disk = (disk, Inr ())"
proof -
  let ?disk = "[''x.db'' \<mapsto> (rows_of empty_db, [''migrations/0001_init.sql''])]"
  have "Open (\<lambda>_. None) ''x.db'' Map.empty = (?disk, Inr ())"
    using Open_clean(2) [of "''x.db''" "\<lambda>_. None" Map.empty] by (simp add: file_new_def init_name_def)
  then have "(file_step ''x.db'')\<^sup>*\<^sup>* (Map.empty, 0) (?disk, Suc 0)"
    using file_step.opened by blast
  from database_file_whole [OF this] show ?thesis by auto
qed

end
