(* ===== verification/Rendering.thy ===== *)
theory Rendering
  imports Extensions
begin

section \<open>Serial numbers and addresses as text (internal/ca/engine.go)\<close>

text \<open>
  \<open>SerialHex\<close> and \<open>sansString\<close>, with what they and \<open>CRL\<close> use of the standard library:
  \<open>big.Int.Text(16)\<close>, \<open>big.Int.SetString(_, 16)\<close>, \<open>net.IP.String\<close>, and \<open>strings.ToLower\<close>. The
  last is modelled on its ASCII part: it is applied to serial numbers that are then looked up, and
  the lower case of a text that is not ASCII never is a hexadecimal number.
\<close>

definition to_lower :: "string \<Rightarrow> string" where
  "to_lower s = map lower_char s"

definition big_Text16 :: "int \<Rightarrow> string" where
  "big_Text16 n = (if n < 0 then CHR ''-'' # radix_digits 16 (nat (- n)) else radix_digits 16 (nat n))"

definition SerialHex :: "int \<Rightarrow> string" where
  "SerialHex serial = to_lower (big_Text16 serial)"

definition hex_value :: "char \<Rightarrow> nat option" where
  "hex_value c =
     (let v = of_char c :: nat in
      if 48 \<le> v \<and> v \<le> 57 then Some (v - 48)
      else if 97 \<le> v \<and> v \<le> 102 then Some (v - 87)
      else if 65 \<le> v \<and> v \<le> 70 then Some (v - 55)
      else None)"

fun hex_number :: "nat \<Rightarrow> string \<Rightarrow> nat option" where
  "hex_number acc [] = Some acc"
| "hex_number acc (c # s) =
     (case hex_value c of None \<Rightarrow> None | Some d \<Rightarrow> hex_number (16 * acc + d) s)"

definition SetString16 :: "string \<Rightarrow> int option" where
  "SetString16 s =
     (let neg = (s \<noteq> [] \<and> hd s = CHR ''-'');
          digits = (if s \<noteq> [] \<and> (hd s = CHR ''-'' \<or> hd s = CHR ''+'') then tl s else s) in
      if digits = [] then None
      else map_option (\<lambda>n. if neg then - int n else int n) (hex_number 0 digits))"

subsection \<open>Addresses\<close>

text \<open>The eight groups of an IPv6 address, and the first longest run of at least two zero groups.\<close>

definition ip_groups :: "ip \<Rightarrow> nat list" where
  "ip_groups b = map (\<lambda>i. 256 * unat (b ! (2 * i)) + unat (b ! (2 * i + 1))) [0..<8]"

definition zero_run :: "nat list \<Rightarrow> nat \<Rightarrow> nat" where
  "zero_run gs i = length (takeWhile (\<lambda>g. g = 0) (drop i gs))"

definition longest_zeros :: "nat list \<Rightarrow> nat \<times> nat" where
  "longest_zeros gs =
     fold (\<lambda>i (start, len). if 2 \<le> zero_run gs i \<and> len < zero_run gs i then (i, zero_run gs i) else (start, len))
       [0..<length gs] (length gs, 0)"

definition colon_join :: "nat list \<Rightarrow> string" where
  "colon_join gs = str_join '':'' (map (radix_digits 16) gs)"

definition ip6_String :: "ip \<Rightarrow> string" where
  "ip6_String b =
     (let gs = ip_groups b; (start, len) = longest_zeros gs in
      if len = 0 then colon_join gs
      else colon_join (take start gs) @ ''::'' @ colon_join (drop (start + len) gs))"

definition ip_String :: "ip \<Rightarrow> string" where
  "ip_String b =
     (if b = [] then ''<nil>''
      else if length b \<noteq> 4 \<and> length b \<noteq> 16 then ''?'' @ hex_encode b
      else (case To4 b of
              Some v4 \<Rightarrow> str_join ''.'' (map (\<lambda>x. radix_digits 10 (unat x)) v4)
            | None \<Rightarrow> ip6_String b))"

definition sansString :: "SANs \<Rightarrow> string" where
  "sansString s = str_join '','' (DNSNames s @ map ip_String (IPAddresses s) @ EmailAddresses s)"

subsection \<open>Serial numbers\<close>

lemma hex_digit_back:
  assumes "d < 16"
  shows "hex_value (digit_char d) = Some d \<and> lower_char (digit_char d) = digit_char d
    \<and> digit_char d \<noteq> CHR ''-'' \<and> digit_char d \<noteq> CHR ''+''"
proof -
  have "\<forall>d \<in> set [0..<16]. hex_value (digit_char d) = Some d \<and> lower_char (digit_char d) = digit_char d
      \<and> digit_char d \<noteq> CHR ''-'' \<and> digit_char d \<noteq> CHR ''+''"
    by code_simp
  then show ?thesis using assms by simp
qed

lemma radix_digits_shape:
  "list_all (\<lambda>c. \<exists>d < 16. c = digit_char d) (radix_digits 16 n) \<and> radix_digits 16 n \<noteq> []"
proof (induction n rule: less_induct)
  case (less n)
  show ?case
  proof (cases "n < 16")
    case True
    then show ?thesis by (subst (1 2) radix_digits.simps) auto
  next
    case False
    then have "list_all (\<lambda>c. \<exists>d < 16. c = digit_char d) (radix_digits 16 (n div 16))"
      using less by simp
    then show ?thesis using False
      by (subst (1 2) radix_digits.simps) (auto intro: exI [of _ "n mod 16"])
  qed
qed

lemma hex_number_append:
  "hex_number acc (s @ t) = (case hex_number acc s of None \<Rightarrow> None | Some n \<Rightarrow> hex_number n t)"
  by (induction acc s rule: hex_number.induct) (auto split: option.splits)

lemma hex_number_radix: "hex_number 0 (radix_digits 16 n) = Some n"
proof (induction n rule: less_induct)
  case (less n)
  show ?case
  proof (cases "n < 16")
    case True
    then show ?thesis using hex_digit_back by (subst radix_digits.simps) simp
  next
    case False
    then show ?thesis using less [of "n div 16"] hex_digit_back [of "n mod 16"]
      by (subst radix_digits.simps) (simp add: hex_number_append)
  qed
qed

lemma to_lower_digits: "to_lower (radix_digits 16 n) = radix_digits 16 n"
  unfolding to_lower_def
proof (rule map_idI)
  fix c
  assume "c \<in> set (radix_digits 16 n)"
  then show "lower_char c = c"
    using radix_digits_shape [of n] hex_digit_back by (auto simp: list_all_iff)
qed

lemma SerialHex_nonneg: "0 \<le> n \<Longrightarrow> SerialHex n = radix_digits 16 (nat n)"
  by (simp add: SerialHex_def big_Text16_def to_lower_digits)

lemma SetString16_SerialHex: "0 \<le> n \<Longrightarrow> SetString16 (SerialHex n) = Some n"
proof -
  assume n: "0 \<le> n"
  let ?s = "radix_digits 16 (nat n)"
  have "hd ?s \<noteq> CHR ''-''" "hd ?s \<noteq> CHR ''+''" "?s \<noteq> []"
    using radix_digits_shape [of "nat n"] hex_digit_back by (auto simp: list_all_iff dest!: hd_in_set)
  then show ?thesis using n hex_number_radix [of "nat n"]
    by (simp add: SerialHex_nonneg SetString16_def)
qed

lemma to_lower_SerialHex: "0 \<le> n \<Longrightarrow> to_lower (SerialHex n) = SerialHex n"
  by (simp add: SerialHex_nonneg to_lower_digits)

lemma SerialHex_inj: "0 \<le> m \<Longrightarrow> 0 \<le> n \<Longrightarrow> SerialHex m = SerialHex n \<longleftrightarrow> m = n"
  by (metis SetString16_SerialHex option.inject)

end
