(* ===== verification/Policy.thy ===== *)
theory Policy
  imports Rendering Csr Key_Files
begin

section \<open>Issuance policy (internal/ca/profiles.go)\<close>

text \<open>
  The profiles of the two CA levels, the algorithms and usages of end-entity certificates, and the
  validity periods. \<open>time.Duration\<close> is nanoseconds in 64 bits; \<open>time_Add\<close> and
  \<open>time_AddDays\<close> are \<open>Time.Add\<close>, which saturates, and \<open>Time.AddDate(0, 0, days)\<close> of a
  UTC time, whose seconds wrap around.
\<close>

subsection \<open>Times\<close>

definition hour :: int where "hour = 3600 * second"

definition clockSkew :: int where "clockSkew = 300 * second"

definition time_Add :: "instant \<Rightarrow> int \<Rightarrow> instant" where
  "time_Add t d =
     (let u = t + d; s = u div second in
      if 2 ^ 63 \<le> s then (2 ^ 63 - 1) * second + u mod second
      else if s < - (2 ^ 63) then - (2 ^ 63 - 1) * second + u mod second
      else u)"

definition time_AddDays :: "instant \<Rightarrow> int \<Rightarrow> instant" where
  "time_AddDays t days = second * wrap64 (t div second + days * day_seconds) + t mod second"

text \<open>The instants of the clock that the properties are about: the first \<open>2 ^ 62\<close> seconds, which
  is more than a hundred thousand million years.\<close>

definition clock_ok :: "instant \<Rightarrow> bool" where
  "clock_ok t = (0 \<le> t \<and> t div second < 2 ^ 62)"

subsection \<open>Profiles\<close>

definition rootValidityDays :: int where "rootValidityDays = 3650"
definition intermediateValidityDays :: int where "intermediateValidityDays = 1825"
definition endEntityValidityDays :: int where "endEntityValidityDays = 90"
definition maxEndEntityValidityDays :: int where "maxEndEntityValidityDays = 397"

lemmas validity_defs = rootValidityDays_def intermediateValidityDays_def endEntityValidityDays_def
  maxEndEntityValidityDays_def

record caProfile =
  allowedAlgorithms :: "algorithm list"
  pathLen :: int
  prof_keyUsage :: KeyUsage
  defaultDays :: int
  maxDays :: int

definition rootProfile :: caProfile where
  "rootProfile =
     \<lparr>allowedAlgorithms = [MLDSA87, SLHDSA_SHA2_256s, SLHDSA_SHAKE_256s], pathLen = 1,
      prof_keyUsage = KeyUsageKeyCertSign OR KeyUsageCRLSign,
      defaultDays = rootValidityDays, maxDays = rootValidityDays\<rparr>"

definition intermediateProfile :: caProfile where
  "intermediateProfile =
     \<lparr>allowedAlgorithms = [MLDSA65, SLHDSA_SHA2_192s, SLHDSA_SHAKE_192s], pathLen = 0,
      prof_keyUsage = KeyUsageKeyCertSign OR KeyUsageCRLSign,
      defaultDays = intermediateValidityDays, maxDays = intermediateValidityDays\<rparr>"

definition endEntityAlgorithms :: "algorithm list" where
  "endEntityAlgorithms =
     [MLDSA44, MLDSA65, SLHDSA_SHA2_128s, SLHDSA_SHA2_128f, SLHDSA_SHAKE_128s, SLHDSA_SHAKE_128f]"

fun algorithmAllowed :: "algorithm \<Rightarrow> algorithm list \<Rightarrow> bool" where
  "algorithmAllowed alg [] = False"
| "algorithmAllowed alg (a # as) = (if alg = a then True else algorithmAllowed alg as)"

definition violation :: "string \<Rightarrow> error" where
  "violation m = Err [ErrConstraintViolation] m"

definition checkAlgorithm :: "caProfile \<Rightarrow> algorithm \<Rightarrow> unit res" where
  "checkAlgorithm p alg =
     (if \<not> algorithmAllowed alg (allowedAlgorithms p) then Inl (violation ''this CA level allows'') else Inr ())"

definition resolveDays :: "caProfile \<Rightarrow> int \<Rightarrow> int res" where
  "resolveDays p requested =
     (if requested = 0 then Inr (defaultDays p)
      else if requested < 0 then Inl (violation ''validity must be positive'')
      else if maxDays p < requested then Inl (violation ''validity exceeds the maximum for this CA level'')
      else Inr requested)"

definition checkEndEntityAlgorithm :: "algorithm \<Rightarrow> unit res" where
  "checkEndEntityAlgorithm alg =
     (if \<not> algorithmAllowed alg endEntityAlgorithms then Inl (violation ''end-entity certificates allow'')
      else Inr ())"

fun checkExtKeyUsage :: "ExtKeyUsage list \<Rightarrow> unit res" where
  "checkExtKeyUsage [] = Inr ()"
| "checkExtKeyUsage (e # es) =
     (if e = ExtKeyUsageServerAuth \<or> e = ExtKeyUsageClientAuth then checkExtKeyUsage es
      else Inl (violation ''unsupported extended key usage''))"

subsection \<open>What the checks decide\<close>

lemma algorithmAllowed_iff [simp]: "algorithmAllowed alg as \<longleftrightarrow> alg \<in> set as"
  by (induction as) auto

lemma checkAlgorithm_Inr: "checkAlgorithm p alg = Inr u \<longleftrightarrow> alg \<in> set (allowedAlgorithms p)"
  by (auto simp: checkAlgorithm_def)

lemma checkEndEntityAlgorithm_Inr: "checkEndEntityAlgorithm alg = Inr u \<longleftrightarrow> alg \<in> set endEntityAlgorithms"
  by (auto simp: checkEndEntityAlgorithm_def)

lemma checkExtKeyUsage_Inr:
  "checkExtKeyUsage es = Inr u \<longleftrightarrow> set es \<subseteq> {ExtKeyUsageServerAuth, ExtKeyUsageClientAuth}"
  by (induction es) auto

lemmas profile_defs = rootProfile_def intermediateProfile_def

lemma resolveDays_Inr:
  assumes "p = rootProfile \<or> p = intermediateProfile" "resolveDays p requested = Inr days"
  shows "0 < days \<and> days \<le> maxDays p"
  using assms by (auto simp: resolveDays_def profile_defs validity_defs split: if_splits)

subsection \<open>Time arithmetic\<close>

lemma second_pos [simp]: "0 < second" "second \<noteq> 0" by (simp_all add: second_def)

lemma time_Add_exact:
  assumes "clock_ok t" "\<bar>d\<bar> < 2 ^ 63"
  shows "time_Add t d = t + d"
proof -
  have "(t + d) div second < 2 ^ 63" "- (2 ^ 63) \<le> (t + d) div second"
    using assms unfolding clock_ok_def second_def by simp_all linarith+
  then show ?thesis by (simp add: time_Add_def Let_def)
qed

lemma time_AddDays_exact:
  assumes "clock_ok t" "0 \<le> days" "days < 2 ^ 40"
  shows "time_AddDays t days = t + days * day_seconds * second"
proof -
  have "wrap64 (t div second + days * day_seconds) = t div second + days * day_seconds"
    using assms pos_imp_zdiv_nonneg_iff [of second t]
    by (intro wrap64_id) (simp_all add: clock_ok_def day_seconds_def)
  then show ?thesis
    by (simp add: time_AddDays_def distrib_left mult.commute [of second] flip: mult.assoc)
qed

end
