(* ===== verification/Engine.thy ===== *)
theory Engine
  imports Policy Store Crl Verify_Path
begin

section \<open>The certificate authority (internal/ca/engine.go, crl.go)\<close>

text \<open>
  \<open>Engine\<close> over the datastore and the file keystore. The record \<open>engine\<close> is what the
  operations change: the tables, the key files, the entropy that \<open>rand.Reader\<close> still has, the two
  configured durations and the cache of CRLs; the record \<open>env\<close> is what they use and do not change:
  the packages that are parameters, the failures of the operating system and of the driver, and
  the reading of the clock (each operation reads it once).

  An operation is a function from the engine to the engine and a result: \<open>op_bind\<close> is
  \<open>if err != nil { return err }\<close>, \<open>op_res\<close> lifts a computation without effect, \<open>op_read\<close> one that
  only reads, and \<open>op_cleanup\<close> runs a compensation when its operation fails.
\<close>

subsection \<open>State and effects\<close>

record crlCacheEntry =
  cc_der :: bytes
  cc_entryCount :: nat
  cc_nextUpdate :: instant
  cc_number :: int

record engine =
  e_db :: db
  e_files :: files
  e_rand :: bytes
  e_maxValidity :: int
  e_crlValidity :: int
  e_crlCache :: "string \<Rightarrow> crlCacheEntry option"

record ('pk, 'sk) env =
  env_circl :: "('pk, 'sk) circl"
  env_pem :: pem_package
  env_sealing :: sealing
  env_os :: os_state
  env_faults :: faults
  env_now :: instant

type_synonym 'a op = "engine \<Rightarrow> engine \<times> 'a res"

definition op_bind :: "'a op \<Rightarrow> ('a \<Rightarrow> 'b op) \<Rightarrow> 'b op" where
  "op_bind m f s = (case m s of (s', Inl e) \<Rightarrow> (s', Inl e) | (s', Inr x) \<Rightarrow> f x s')"

definition op_res :: "'a res \<Rightarrow> 'a op" where
  "op_res r s = (s, r)"

definition op_read :: "(engine \<Rightarrow> 'a res) \<Rightarrow> 'a op" where
  "op_read f s = (s, f s)"

definition op_cleanup :: "(engine \<Rightarrow> engine) \<Rightarrow> 'a op \<Rightarrow> 'a op" where
  "op_cleanup c m s = (case m s of (s', Inl e) \<Rightarrow> (c s', Inl e) | (s', Inr x) \<Rightarrow> (s', Inr x))"

definition op_rand :: "(bytes \<Rightarrow> ('a \<times> bytes) res) \<Rightarrow> 'a op" where
  "op_rand f s = (case f (e_rand s) of Inl e \<Rightarrow> (s, Inl e) | Inr (x, r) \<Rightarrow> (s\<lparr>e_rand := r\<rparr>, Inr x))"

definition op_db :: "(db \<Rightarrow> db \<times> 'a res) \<Rightarrow> 'a op" where
  "op_db f s = (case f (e_db s) of (d, r) \<Rightarrow> (s\<lparr>e_db := d\<rparr>, r))"

definition op_keys :: "(files \<times> bytes \<Rightarrow> (files \<times> bytes) \<times> 'a res) \<Rightarrow> 'a op" where
  "op_keys f s = (case f (e_files s, e_rand s) of ((fs, r), res) \<Rightarrow> (s\<lparr>e_files := fs, e_rand := r\<rparr>, res))"

definition op_wrap :: "(error \<Rightarrow> error) \<Rightarrow> 'a op \<Rightarrow> 'a op" where
  "op_wrap g m s = (case m s of (s', r) \<Rightarrow> (s', rmap_err g r))"

text \<open>\<open>_ = e.ks.Delete(id)\<close>\<close>

definition ks_discard :: "('pk, 'sk) env \<Rightarrow> string \<Rightarrow> engine \<Rightarrow> engine" where
  "ks_discard E keyID s = s\<lparr>e_files := fst (fb_Delete (env_os E) keyID (e_files s))\<rparr>"

definition ks_Load :: "('pk, 'sk) env \<Rightarrow> string \<Rightarrow> bytes \<Rightarrow> engine \<Rightarrow> Signer res" where
  "ks_Load E keyID passphrase s =
     fb_Load (env_circl E) (env_sealing E) (env_os E) keyID passphrase (e_files s)"

subsection \<open>New\<close>

record Options =
  MaxValidity :: int
  CRLValidity :: int

definition New :: "(db \<times> bytes) option \<Rightarrow> files option \<Rightarrow> Options \<Rightarrow> engine res" where
  "New st ks opts =
     (case (st, ks) of
        (Some (d, r), Some fs) \<Rightarrow>
          Inr \<lparr>e_db = d, e_files = fs, e_rand = r,
               e_maxValidity =
                 (if MaxValidity opts = 0 then maxEndEntityValidityDays * 24 * hour else MaxValidity opts),
               e_crlValidity = (if CRLValidity opts = 0 then 168 * hour else CRLValidity opts),
               e_crlCache = Map.empty\<rparr>
      | _ \<Rightarrow> Inl (Err [] ''ca: store and keystore are required''))"

subsection \<open>Requests and results\<close>

record CreateCARequest =
  cq_Name :: string
  cq_ParentID :: string
  cq_Algorithm :: algorithm
  cq_Subject :: Name
  cq_ValidityDays :: int
  cq_Passphrase :: bytes
  cq_ParentPassphrase :: bytes

record CAResult =
  cr_ID :: string
  cr_Name :: string
  cr_ParentID :: string
  cr_Algorithm :: algorithm
  cr_CertPEM :: bytes
  cr_ChainPEM :: bytes
  cr_Certificate :: Certificate
  cr_CreatedAt :: instant

record IssueRequest =
  iq_CAID :: string
  iq_CAPassphrase :: bytes
  iq_Subject :: Name
  iq_SANs :: SANs
  iq_Algorithm :: algorithm
  iq_ValidityDays :: int
  iq_ExtKeyUsage :: "ExtKeyUsage list"
  iq_StoreKey :: bool
  iq_CSR :: "CertificateRequest option"

record IssueResult =
  ir_Serial :: string
  ir_CertPEM :: bytes
  ir_ChainPEM :: bytes
  ir_PrivateKeyPEM :: bytes
  ir_Certificate :: Certificate

subsection \<open>Reading\<close>

definition wrapStoreErr :: "error \<Rightarrow> error" where
  "wrapStoreErr e = (if errors_is e StoreErrNotFound then wrap_errs [CaErrNotFound] ''not found'' e else e)"

definition parseCertPEM :: "pem_package \<Rightarrow> bytes \<Rightarrow> Certificate res" where
  "parseCertPEM P certPEM =
     rbind (rmap_err (wrap_errs [] ''ca: decoding stored certificate'') (DecodeCertificatePEM P certPEM))
       (\<lambda>der. rmap_err (wrap_errs [] ''ca: parsing stored certificate'') (ParseCertificate der))"

text \<open>The query for the parent is a second statement, which can fail when the first did not.\<close>

definition parent_faults :: "('pk, 'sk) env \<Rightarrow> faults" where
  "parent_faults E f = env_faults E (''parent: '' @ f)"

definition caResult :: "('pk, 'sk) env \<Rightarrow> db \<Rightarrow> ca_rec \<Rightarrow> CAResult res" where
  "caResult E d rec =
     rbind (parseCertPEM (env_pem E) (ca_CertPEM rec)) (\<lambda>cert.
     rbind (rmap_err (wrap_errs [] ''ca: stored CA'') (ParseAlgorithm (ca_Algorithm rec))) (\<lambda>alg.
     rbind
       (if ca_ParentID rec \<noteq> []
        then rbind (rmap_err wrapStoreErr (st_GetCA (parent_faults E) (ca_ParentID rec) d))
               (\<lambda>parent. Inr (ca_CertPEM rec @ ca_CertPEM parent))
        else Inr (ca_CertPEM rec)) (\<lambda>chain.
       Inr \<lparr>cr_ID = ca_ID rec, cr_Name = ca_Name rec, cr_ParentID = ca_ParentID rec,
            cr_Algorithm = alg, cr_CertPEM = ca_CertPEM rec, cr_ChainPEM = chain,
            cr_Certificate = cert, cr_CreatedAt = ca_CreatedAt rec\<rparr>)))"

definition GetCA :: "('pk, 'sk) env \<Rightarrow> string \<Rightarrow> engine \<Rightarrow> CAResult res" where
  "GetCA E i s =
     rbind (rmap_err wrapStoreErr (st_GetCA (env_faults E) i (e_db s))) (caResult E (e_db s))"

definition ListCAs :: "('pk, 'sk) env \<Rightarrow> engine \<Rightarrow> CAResult list res" where
  "ListCAs E s =
     rbind (rmap_err wrapStoreErr (st_ListCAs (env_faults E) (e_db s))) (rmap (caResult E (e_db s)))"

definition GetCertificate :: "('pk, 'sk) env \<Rightarrow> string \<Rightarrow> engine \<Rightarrow> cert_rec res" where
  "GetCertificate E serial s =
     rmap_err wrapStoreErr (st_GetCertificate (env_faults E) (to_lower serial) (e_db s))"

subsection \<open>CreateCA\<close>

definition create_ca_check :: "CreateCARequest \<Rightarrow> unit res" where
  "create_ca_check req =
     (if trim_space (cq_Name req) = [] then Inl (violation ''CA name must not be empty'')
      else if CommonName (cq_Subject req) = []
      then Inl (violation ''a CA subject must include a common name'')
      else if cq_Passphrase req = [] then Inl (violation ''a passphrase is required to seal the CA key'')
      else Inr ())"

text \<open>The profile, and the record and certificate of the parent when there is one.\<close>

definition ca_parent ::
  "('pk, 'sk) env \<Rightarrow> CreateCARequest \<Rightarrow> db \<Rightarrow> (caProfile \<times> (ca_rec \<times> Certificate) option) res" where
  "ca_parent E req d =
     (if cq_ParentID req = [] then Inr (rootProfile, None)
      else
        rbind (rmap_err wrapStoreErr (st_GetCA (env_faults E) (cq_ParentID req) d)) (\<lambda>parentRec.
          if ca_ParentID parentRec \<noteq> []
          then Inl (violation ''only a root CA may issue an intermediate'')
          else if ca_Status parentRec \<noteq> StatusActive then Inl (violation ''parent CA is not active'')
          else
            rbind (parseCertPEM (env_pem E) (ca_CertPEM parentRec)) (\<lambda>parentCert.
              Inr (intermediateProfile, Some (parentRec, parentCert)))))"

definition ca_window ::
  "('pk, 'sk) env \<Rightarrow> int \<Rightarrow> (ca_rec \<times> Certificate) option \<Rightarrow> (instant \<times> instant \<times> instant) res" where
  "ca_window E days parent =
     (let now = time_Truncate (env_now E);
          notBefore = time_Add now (- clockSkew);
          notAfter = time_AddDays now days in
      if (case parent of None \<Rightarrow> False | Some (_, parentCert) \<Rightarrow> crt_NotAfter parentCert < notAfter)
      then Inl (violation ''intermediate validity would outlast the root'')
      else Inr (now, notBefore, notAfter))"

text \<open>The signature algorithm and the signer. A root that cannot sign leaves its key; an
  intermediate whose parent cannot be unsealed deletes it.\<close>

definition ca_signer ::
  "('pk, 'sk) env \<Rightarrow> CreateCARequest \<Rightarrow> (ca_rec \<times> Certificate) option \<Rightarrow> string \<Rightarrow> PrivateKey
     \<Rightarrow> (algorithm \<times> Signer) op" where
  "ca_signer E req parent keyID priv =
     (case parent of
        None \<Rightarrow> op_res (rbind (key_Signer (env_circl E) priv) (\<lambda>signer. Inr (cq_Algorithm req, signer)))
      | Some (parentRec, parentCert) \<Rightarrow>
          op_cleanup (ks_discard E keyID)
            (op_read (\<lambda>s. rbind (ks_Load E (ca_KeyID parentRec) (cq_ParentPassphrase req) s)
               (\<lambda>signer. Inr (pub_alg (crt_PublicKey parentCert), signer)))))"

definition ca_template ::
  "CreateCARequest \<Rightarrow> caProfile \<Rightarrow> int \<Rightarrow> algorithm \<Rightarrow> instant \<Rightarrow> instant \<Rightarrow> Certificate" where
  "ca_template req profile serial signatureAlg notBefore notAfter =
     zero_Certificate
       \<lparr>crt_Serial := Some serial, crt_SigAlg := signatureAlg, crt_Subject := cq_Subject req,
        crt_NotBefore := notBefore, crt_NotAfter := notAfter,
        crt_BasicConstraints := \<lparr>IsCA = True, MaxPathLen = pathLen profile, MaxPathLenSet = True\<rparr>,
        crt_BCValid := True, crt_KeyUsage := prof_keyUsage profile\<rparr>"

definition ca_row ::
  "('pk, 'sk) env \<Rightarrow> CreateCARequest \<Rightarrow> string \<Rightarrow> string \<Rightarrow> bytes \<Rightarrow> instant \<Rightarrow> ca_rec" where
  "ca_row E req caID keyID der now =
     \<lparr>ca_ID = caID, ca_Name = cq_Name req, ca_ParentID = cq_ParentID req,
      ca_Algorithm = alg_String (cq_Algorithm req), ca_CertPEM = EncodeCertificatePEM (env_pem E) der,
      ca_KeyID = keyID, ca_Status = StatusActive, ca_CreatedAt = now\<rparr>"

definition CreateCA :: "('pk, 'sk) env \<Rightarrow> CreateCARequest \<Rightarrow> CAResult op" where
  "CreateCA E req =
     op_bind (op_res (create_ca_check req)) (\<lambda>_.
     op_bind (op_read (\<lambda>s. ca_parent E req (e_db s))) (\<lambda>(profile, parent).
     op_bind (op_res (checkAlgorithm profile (cq_Algorithm req))) (\<lambda>_.
     op_bind (op_res (resolveDays profile (cq_ValidityDays req))) (\<lambda>days.
     op_bind (op_res (ca_window E days parent)) (\<lambda>(now, notBefore, notAfter).
     op_bind (op_wrap (wrap_errs [] ''ca: generating CA key'')
       (op_keys (fb_Generate (env_circl E) (env_sealing E) (env_os E) (cq_Algorithm req) (cq_Passphrase req))))
       (\<lambda>(keyID, pub, priv).
     op_bind (op_rand GenerateSerialNumber) (\<lambda>serial.
     op_bind (ca_signer E req parent keyID priv) (\<lambda>(signatureAlg, signer).
     op_cleanup (ks_discard E keyID)
       (op_bind (op_res (rmap_err (wrap_errs [] ''ca: creating CA certificate'')
          (CreateCertificate (Some (ca_template req profile serial signatureAlg notBefore notAfter))
             (case parent of None \<Rightarrow> TemplateItself | Some (_, parentCert) \<Rightarrow> Parent parentCert)
             pub (Some signer)))) (\<lambda>der.
        op_bind (op_res (rmap_err (wrap_errs [] ''ca: re-parsing the new CA certificate'')
          (ParseCertificate der))) (\<lambda>cert.
        op_bind (op_rand NewKeyID) (\<lambda>caID.
        op_bind (op_wrap wrapStoreErr
          (op_db (st_CreateCA (env_faults E) (ca_row E req caID keyID der now)))) (\<lambda>_.
          op_res (Inr
            \<lparr>cr_ID = caID, cr_Name = cq_Name req, cr_ParentID = cq_ParentID req,
             cr_Algorithm = cq_Algorithm req, cr_CertPEM = EncodeCertificatePEM (env_pem E) der,
             cr_ChainPEM = EncodeCertificatePEM (env_pem E) der
               @ (case parent of None \<Rightarrow> [] | Some (parentRec, _) \<Rightarrow> ca_CertPEM parentRec),
             cr_Certificate = cert, cr_CreatedAt = now\<rparr>))))))))))))))"

subsection \<open>IssueCertificate\<close>

definition issue_ca :: "('pk, 'sk) env \<Rightarrow> string \<Rightarrow> db \<Rightarrow> (ca_rec \<times> Certificate) res" where
  "issue_ca E caID d =
     rbind (rmap_err wrapStoreErr (st_GetCA (env_faults E) caID d)) (\<lambda>caRec.
       if ca_Status caRec \<noteq> StatusActive then Inl (violation ''CA is not active'')
       else if ca_ParentID caRec = [] then Inl (violation ''the root CA issues intermediates only'')
       else rbind (parseCertPEM (env_pem E) (ca_CertPEM caRec)) (\<lambda>caCert. Inr (caRec, caCert)))"

definition issue_csr_check :: "('pk, 'sk) env \<Rightarrow> IssueRequest \<Rightarrow> unit res" where
  "issue_csr_check E req =
     (case iq_CSR req of
        None \<Rightarrow> Inr ()
      | Some csr \<Rightarrow>
          rbind (rmap_err (wrap_errs [] ''ca: verifying CSR self-signature'')
            (CheckSignature (env_circl E) csr)) (\<lambda>_.
            if iq_StoreKey req then Inl (violation ''store_key is unavailable for CSR issuance'')
            else Inr ()))"

definition issue_subject :: "IssueRequest \<Rightarrow> Name \<times> SANs \<times> algorithm" where
  "issue_subject req =
     (case iq_CSR req of
        Some csr \<Rightarrow>
          (csr_Subject csr,
           \<lparr>DNSNames = csr_DNSNames csr, EmailAddresses = csr_EmailAddresses csr,
            IPAddresses = csr_IPAddresses csr\<rparr>,
           pub_alg (csr_PublicKey csr))
      | None \<Rightarrow> (iq_Subject req, iq_SANs req, if iq_Algorithm req = 0 then MLDSA44 else iq_Algorithm req))"

definition issue_ekus :: "IssueRequest \<Rightarrow> ExtKeyUsage list" where
  "issue_ekus req = (if iq_ExtKeyUsage req = [] then [ExtKeyUsageServerAuth] else iq_ExtKeyUsage req)"

definition issue_policy :: "IssueRequest \<Rightarrow> (Name \<times> SANs \<times> algorithm) res" where
  "issue_policy req =
     (case issue_subject req of
        (subject, sans, alg) \<Rightarrow>
          rbind (checkEndEntityAlgorithm alg) (\<lambda>_.
          rbind (checkExtKeyUsage (issue_ekus req)) (\<lambda>_.
            if CommonName subject = [] \<and> SANs_Empty sans
            then Inl (violation ''a certificate needs a common name or at least one subject alternative name'')
            else Inr (subject, sans, alg))))"

text \<open>\<open>time.Duration(days) * 24 * time.Hour\<close> wraps around in 64 bits.\<close>

definition requested_validity :: "int \<Rightarrow> int" where
  "requested_validity days = wrap64 (wrap64 (days * 24) * hour)"

definition issue_window ::
  "('pk, 'sk) env \<Rightarrow> int \<Rightarrow> int \<Rightarrow> Certificate \<Rightarrow> (instant \<times> instant) res" where
  "issue_window E maxValidity validityDays caCert =
     (let days = (if validityDays = 0 then endEntityValidityDays else validityDays) in
      if days < 0 then Inl (violation ''validity must be positive'')
      else if maxValidity < requested_validity days then Inl (violation ''validity exceeds the maximum'')
      else
        (let now = time_Truncate (env_now E);
             notBefore = time_Add now (- clockSkew);
             notAfter = time_AddDays now days in
         if crt_NotAfter caCert < notAfter then Inl (violation ''requested validity outlasts the issuing CA'')
         else Inr (notBefore, notAfter)))"

definition issue_template ::
  "IssueRequest \<Rightarrow> Name \<Rightarrow> SANs \<Rightarrow> int \<Rightarrow> algorithm \<Rightarrow> instant \<Rightarrow> instant \<Rightarrow> Certificate" where
  "issue_template req subject sans serial signatureAlg notBefore notAfter =
     zero_Certificate
       \<lparr>crt_Serial := Some serial, crt_SigAlg := signatureAlg, crt_Subject := subject,
        crt_NotBefore := notBefore, crt_NotAfter := notAfter,
        crt_BasicConstraints := \<lparr>IsCA = False, MaxPathLen = 0, MaxPathLenSet = False\<rparr>,
        crt_BCValid := True, crt_KeyUsage := KeyUsageDigitalSignature,
        crt_ExtKeyUsage := issue_ekus req, crt_SANs := sans\<rparr>"

definition zero_PrivateKey :: PrivateKey where
  "zero_PrivateKey = \<lparr>priv_alg = 0, priv_seed = []\<rparr>"

definition issue_key :: "('pk, 'sk) env \<Rightarrow> IssueRequest \<Rightarrow> algorithm \<Rightarrow> (PublicKey \<times> PrivateKey) op" where
  "issue_key E req alg =
     (case iq_CSR req of
        Some csr \<Rightarrow> op_res (Inr (csr_PublicKey csr, zero_PrivateKey))
      | None \<Rightarrow> op_rand (\<lambda>r. GenerateKey (env_circl E) r alg))"

definition issue_store_key :: "('pk, 'sk) env \<Rightarrow> IssueRequest \<Rightarrow> PrivateKey \<Rightarrow> string op" where
  "issue_store_key E req priv =
     (if iq_StoreKey req
      then op_bind (op_rand NewKeyID) (\<lambda>keyID.
           op_bind (op_wrap (wrap_errs [] ''ca: storing the end-entity key'')
             (op_keys (fb_Store (env_sealing E) (env_os E) keyID priv (iq_CAPassphrase req)))) (\<lambda>_.
           op_res (Inr keyID)))
      else op_res (Inr []))"

definition issue_row ::
  "('pk, 'sk) env \<Rightarrow> string \<Rightarrow> int \<Rightarrow> Name \<Rightarrow> SANs \<Rightarrow> algorithm \<Rightarrow> bytes \<Rightarrow> string \<Rightarrow> instant \<Rightarrow> instant
     \<Rightarrow> cert_rec" where
  "issue_row E caID serial subject sans alg der storedKeyID notBefore notAfter =
     \<lparr>ct_Serial = SerialHex serial, ct_CAID = caID, ct_SubjectDN = name_String subject,
      ct_SANs = sansString sans, ct_Algorithm = alg_String alg,
      ct_CertPEM = EncodeCertificatePEM (env_pem E) der, ct_KeyID = storedKeyID,
      ct_Status = StatusValid, ct_NotBefore = notBefore, ct_NotAfter = notAfter,
      ct_RevokedAt = None, ct_RevocationReason = None\<rparr>"

definition IssueCertificate :: "('pk, 'sk) env \<Rightarrow> IssueRequest \<Rightarrow> IssueResult op" where
  "IssueCertificate E req =
     op_bind (op_read (\<lambda>s. issue_ca E (iq_CAID req) (e_db s))) (\<lambda>(caRec, caCert).
     op_bind (op_res (issue_csr_check E req)) (\<lambda>_.
     op_bind (op_res (issue_policy req)) (\<lambda>(subject, sans, alg).
     op_bind (op_read (\<lambda>s. issue_window E (e_maxValidity s) (iq_ValidityDays req) caCert))
       (\<lambda>(notBefore, notAfter).
     op_bind (op_read (ks_Load E (ca_KeyID caRec) (iq_CAPassphrase req))) (\<lambda>signer.
     op_bind (issue_key E req alg) (\<lambda>(pub, priv).
     op_bind (op_rand GenerateSerialNumber) (\<lambda>serial.
     op_bind (op_res (rmap_err (wrap_errs [] ''ca: issuing certificate'')
       (CreateCertificate
          (Some (issue_template req subject sans serial (pub_alg (crt_PublicKey caCert)) notBefore notAfter))
          (Parent caCert) pub (Some signer)))) (\<lambda>der.
     op_bind (op_res (rmap_err (wrap_errs [] ''ca: re-parsing the issued certificate'') (ParseCertificate der)))
       (\<lambda>cert.
     op_bind (issue_store_key E req priv) (\<lambda>storedKeyID.
     op_bind
       (op_cleanup (\<lambda>s. if storedKeyID \<noteq> [] then ks_discard E storedKeyID s else s)
          (op_wrap wrapStoreErr (op_db (st_InsertCertificate (env_faults E)
             (issue_row E (ca_ID caRec) serial subject sans alg der storedKeyID notBefore notAfter))))) (\<lambda>_.
     op_bind (op_read (\<lambda>s. caResult E (e_db s) caRec)) (\<lambda>caRes.
     op_bind
       (if \<not> iq_StoreKey req \<and> iq_CSR req = None
        then op_res (rmap_err (wrap_errs [] ''ca: encoding private key'') (EncodePrivateKeyPEM (env_pem E) priv))
        else op_res (Inr [])) (\<lambda>keyPEM.
     op_res (Inr
       \<lparr>ir_Serial = SerialHex serial, ir_CertPEM = EncodeCertificatePEM (env_pem E) der,
        ir_ChainPEM = EncodeCertificatePEM (env_pem E) der @ cr_ChainPEM caRes, ir_PrivateKeyPEM = keyPEM,
        ir_Certificate = cert\<rparr>))))))))))))))"

subsection \<open>Revoke\<close>

definition invalidateCRL :: "string \<Rightarrow> engine \<Rightarrow> engine" where
  "invalidateCRL caID s = s\<lparr>e_crlCache := (e_crlCache s)(caID := None)\<rparr>"

definition revoke_err :: "error \<Rightarrow> error" where
  "revoke_err e = (if errors_is e StoreErrConflict then Err [ErrAlreadyRevoked] ''already revoked'' else wrapStoreErr e)"

definition Revoke :: "('pk, 'sk) env \<Rightarrow> string \<Rightarrow> int \<Rightarrow> unit op" where
  "Revoke E serial reason =
     (if reason < 0 \<or> 10 < reason \<or> reason = 7
      then op_res (Inl (violation ''not an RFC 5280 CRLReason''))
      else
        op_bind (op_read (GetCertificate E serial)) (\<lambda>rec.
        op_bind (op_wrap revoke_err
          (op_db (st_RevokeCertificate (env_faults E) (to_lower serial) (time_Truncate (env_now E)) reason)))
          (\<lambda>_ s. (invalidateCRL (ct_CAID rec) s, Inr ()))))"

subsection \<open>CRL (internal/ca/crl.go)\<close>

definition crl_entry :: "instant \<Rightarrow> cert_rec \<Rightarrow> RevocationEntry res" where
  "crl_entry now rec =
     (case SetString16 (ct_Serial rec) of
        None \<Rightarrow> Inl (Err [] ''ca: stored serial is not hexadecimal'')
      | Some serial \<Rightarrow>
          Inr \<lparr>re_Serial = Some serial,
               re_Time = (case ct_RevokedAt rec of None \<Rightarrow> now | Some t \<Rightarrow> t),
               re_Reason = (case ct_RevocationReason rec of None \<Rightarrow> 0 | Some r \<Rightarrow> r)\<rparr>)"

text \<open>The first half of \<open>CRL\<close> reads the tables and the cache, the second builds a list.\<close>

definition crl_cached :: "instant \<Rightarrow> string \<Rightarrow> nat \<Rightarrow> engine \<Rightarrow> bytes option" where
  "crl_cached now caID n s =
     (case e_crlCache s caID of
        None \<Rightarrow> None
      | Some c \<Rightarrow> if cc_entryCount c = n \<and> now < cc_nextUpdate c then Some (cc_der c) else None)"

definition crl_build ::
  "('pk, 'sk) env \<Rightarrow> bytes \<Rightarrow> ca_rec \<Rightarrow> cert_rec list \<Rightarrow> engine \<Rightarrow> crlCacheEntry res" where
  "crl_build E passphrase caRec revoked s =
     (let now = time_Truncate (env_now E) in
      rbind (parseCertPEM (env_pem E) (ca_CertPEM caRec)) (\<lambda>caCert.
      rbind (ks_Load E (ca_KeyID caRec) passphrase s) (\<lambda>signer.
      rbind (rmap (crl_entry now) revoked) (\<lambda>entries.
      let number = int (length revoked) + 1; nextUpdate = time_Add now (e_crlValidity s) in
      rbind (rmap_err (wrap_errs [] ''ca: creating CRL'')
        (CreateRevocationList (Some caCert) (Some signer) (Some number) entries now nextUpdate)) (\<lambda>der.
      Inr \<lparr>cc_der = der, cc_entryCount = length revoked, cc_nextUpdate = nextUpdate, cc_number = number\<rparr>)))))"

definition CRL :: "('pk, 'sk) env \<Rightarrow> string \<Rightarrow> bytes \<Rightarrow> bytes op" where
  "CRL E caID passphrase =
     op_bind (op_read (\<lambda>s. rmap_err wrapStoreErr (st_GetCA (env_faults E) caID (e_db s)))) (\<lambda>caRec.
     op_bind (op_read (\<lambda>s. rmap_err wrapStoreErr (st_ListRevoked (env_faults E) caID (e_db s)))) (\<lambda>revoked.
     op_bind (op_read (\<lambda>s. Inr (crl_cached (time_Truncate (env_now E)) caID (length revoked) s))) (\<lambda>cached.
       case cached of
         Some der \<Rightarrow> op_res (Inr der)
       | None \<Rightarrow>
           op_bind (op_read (crl_build E passphrase caRec revoked)) (\<lambda>entry s.
             (s\<lparr>e_crlCache := (e_crlCache s)(caID \<mapsto> entry)\<rparr>, Inr (cc_der entry))))))"

end
