(* ===== verification/Engine_Frame.thy ===== *)
theory Engine_Frame
  imports Engine
begin

section \<open>What the engine's operations change\<close>

text \<open>
  Inversion of successful operations, and the interface \<open>op_frame\<close>: a relation between the state
  before and after that is reflexive and transitive holds of an operation, whatever its outcome,
  when it holds of the effects that it is composed of. It is interpreted on the tables (every
  operation is a sequence of steps of the datastore) and on the configuration.
\<close>

subsection \<open>Successful operations\<close>

lemma op_bind_Inr: "op_bind m f s = (s', Inr y) \<longleftrightarrow> (\<exists>s1 x. m s = (s1, Inr x) \<and> f x s1 = (s', Inr y))"
  by (auto simp: op_bind_def split: prod.splits sum.splits)

lemma op_res_Inr: "op_res r s = (s', Inr x) \<longleftrightarrow> s' = s \<and> r = Inr x"
  by (auto simp: op_res_def)

lemma op_read_Inr: "op_read f s = (s', Inr x) \<longleftrightarrow> s' = s \<and> f s = Inr x"
  by (auto simp: op_read_def)

lemma op_cleanup_Inr: "op_cleanup c m s = (s', Inr x) \<longleftrightarrow> m s = (s', Inr x)"
  by (auto simp: op_cleanup_def split: prod.splits sum.splits)

lemma op_wrap_Inr: "op_wrap g m s = (s', Inr x) \<longleftrightarrow> m s = (s', Inr x)"
  by (auto simp: op_wrap_def go_inv split: prod.splits)

lemma op_rand_Inr: "op_rand f s = (s', Inr x) \<longleftrightarrow> (\<exists>r. f (e_rand s) = Inr (x, r) \<and> s' = s\<lparr>e_rand := r\<rparr>)"
  by (auto simp: op_rand_def split: prod.splits sum.splits)

lemma op_db_Inr: "op_db f s = (s', Inr x) \<longleftrightarrow> (\<exists>d. f (e_db s) = (d, Inr x) \<and> s' = s\<lparr>e_db := d\<rparr>)"
  by (auto simp: op_db_def split: prod.splits)

lemma op_keys_Inr:
  "op_keys f s = (s', Inr x) \<longleftrightarrow>
     (\<exists>fs r. f (e_files s, e_rand s) = ((fs, r), Inr x) \<and> s' = s\<lparr>e_files := fs, e_rand := r\<rparr>)"
  by (auto simp: op_keys_def split: prod.splits)

lemmas op_Inr = op_bind_Inr op_res_Inr op_read_Inr op_cleanup_Inr op_wrap_Inr op_rand_Inr op_db_Inr op_keys_Inr

subsection \<open>Frames\<close>

definition op_keeps :: "(engine \<Rightarrow> engine \<Rightarrow> bool) \<Rightarrow> 'a op \<Rightarrow> bool" where
  "op_keeps R m = (\<forall>s. R s (fst (m s)))"

locale op_frame =
  fixes R :: "engine \<Rightarrow> engine \<Rightarrow> bool"
  assumes frame_refl: "R s s"
    and frame_trans: "R s t \<Longrightarrow> R t u \<Longrightarrow> R s u"
    and frame_rand: "R s (s\<lparr>e_rand := r\<rparr>)"
    and frame_keys: "R s (s\<lparr>e_files := fs, e_rand := r\<rparr>)"
    and frame_files: "R s (s\<lparr>e_files := fs\<rparr>)"
begin

lemma frame_discard: "R s (ks_discard E k s)"
  by (simp add: ks_discard_def frame_files)

lemma keeps_bind:
  assumes "op_keeps R m" "\<And>x. op_keeps R (f x)"
  shows "op_keeps R (op_bind m f)"
  unfolding op_keeps_def
proof
  fix s
  obtain s1 r where m: "m s = (s1, r)" by force
  have 1: "R s s1" using assms(1) m unfolding op_keeps_def by (metis fst_conv)
  show "R s (fst (op_bind m f s))"
  proof (cases r)
    case (Inl e)
    then show ?thesis using m 1 by (simp add: op_bind_def)
  next
    case (Inr x)
    then have "R s1 (fst (f x s1))" using assms(2) unfolding op_keeps_def by blast
    then show ?thesis using m 1 Inr frame_trans [OF 1] by (simp add: op_bind_def)
  qed
qed

lemma keeps_res: "op_keeps R (op_res r)"
  by (simp add: op_keeps_def op_res_def frame_refl)

lemma keeps_read: "op_keeps R (op_read f)"
  by (simp add: op_keeps_def op_read_def frame_refl)

lemma keeps_rand: "op_keeps R (op_rand f)"
  by (auto simp: op_keeps_def op_rand_def frame_refl frame_rand split: sum.splits prod.splits)

lemma keeps_keys: "op_keeps R (op_keys f)"
  by (auto simp: op_keeps_def op_keys_def frame_keys split: prod.splits)

lemma keeps_wrap: "op_keeps R m \<Longrightarrow> op_keeps R (op_wrap g m)"
  by (auto simp: op_keeps_def op_wrap_def split: prod.splits) (metis fst_conv)

lemma keeps_cleanup:
  assumes "op_keeps R m" "\<And>s. R s (c s)"
  shows "op_keeps R (op_cleanup c m)"
  unfolding op_keeps_def
proof
  fix s
  obtain s1 r where m: "m s = (s1, r)" by force
  have "R s s1" using assms(1) m unfolding op_keeps_def by (metis fst_conv)
  then show "R s (fst (op_cleanup c m s))"
    using m assms(2) frame_trans by (cases r) (auto simp: op_cleanup_def)
qed

lemma keeps_prod: "(\<And>a b. op_keeps R (f a b)) \<Longrightarrow> op_keeps R (case x of (a, b) \<Rightarrow> f a b)"
  by (cases x) simp

lemma keeps_option:
  "op_keeps R m \<Longrightarrow> (\<And>a. op_keeps R (f a)) \<Longrightarrow> op_keeps R (case x of None \<Rightarrow> m | Some a \<Rightarrow> f a)"
  by (cases x) simp_all

lemma keeps_if: "op_keeps R m \<Longrightarrow> op_keeps R m' \<Longrightarrow> op_keeps R (if b then m else m')"
  by simp

lemmas keeps_intros = keeps_bind keeps_res keeps_read keeps_rand keeps_keys keeps_wrap
  keeps_cleanup keeps_prod keeps_option keeps_if frame_discard frame_refl

text \<open>The operations of the engine keep what their effects on the tables and the cache keep.\<close>

lemma keeps_CreateCA:
  assumes "\<And>rec. op_keeps R (op_db (st_CreateCA (env_faults E) rec))"
  shows "op_keeps R (CreateCA E req)"
  unfolding CreateCA_def ca_signer_def Let_def by (intro keeps_intros assms)

lemma keeps_IssueCertificate:
  assumes "\<And>rec. ct_Status rec = StatusValid \<Longrightarrow> op_keeps R (op_db (st_InsertCertificate (env_faults E) rec))"
  shows "op_keeps R (IssueCertificate E req)"
proof -
  have "R s (if k \<noteq> [] then ks_discard E k s else s)" for k s
    by (simp add: frame_discard frame_refl)
  then show ?thesis
    unfolding IssueCertificate_def issue_key_def issue_store_key_def
    by (intro keeps_intros assms) (simp_all add: issue_row_def)
qed

lemma keeps_Revoke:
  assumes "\<And>serial at reason. op_keeps R (op_db (st_RevokeCertificate (env_faults E) serial at reason))"
    and "\<And>s caID. R s (invalidateCRL caID s)"
  shows "op_keeps R (Revoke E serial reason)"
proof -
  have "op_keeps R (\<lambda>s. (invalidateCRL caID s, Inr ()))" for caID
    by (simp add: op_keeps_def assms(2))
  then show ?thesis unfolding Revoke_def by (intro keeps_intros assms(1))
qed

lemma keeps_CRL:
  assumes "\<And>s caID entry. R s (s\<lparr>e_crlCache := (e_crlCache s)(caID \<mapsto> entry)\<rparr>)"
  shows "op_keeps R (CRL E caID passphrase)"
proof -
  have "op_keeps R (\<lambda>s. (s\<lparr>e_crlCache := (e_crlCache s)(caID \<mapsto> entry)\<rparr>, Inr (cc_der entry)))" for entry
    by (simp add: op_keeps_def assms)
  then show ?thesis unfolding CRL_def by (intro keeps_intros)
qed

end

text \<open>The transitions of an engine: any operation, with any arguments, clock and failures.\<close>

inductive engine_step :: "('pk, 'sk) circl \<Rightarrow> pem_package \<Rightarrow> sealing \<Rightarrow> engine \<Rightarrow> engine \<Rightarrow> bool"
  for C P S where
  create: "env_circl E = C \<Longrightarrow> env_pem E = P \<Longrightarrow> env_sealing E = S \<Longrightarrow>
    engine_step C P S s (fst (CreateCA E req s))"
| issue: "env_circl E = C \<Longrightarrow> env_pem E = P \<Longrightarrow> env_sealing E = S \<Longrightarrow>
    engine_step C P S s (fst (IssueCertificate E ireq s))"
| revoke: "env_circl E = C \<Longrightarrow> env_pem E = P \<Longrightarrow> env_sealing E = S \<Longrightarrow>
    engine_step C P S s (fst (Revoke E serial reason s))"
| crl: "env_circl E = C \<Longrightarrow> env_pem E = P \<Longrightarrow> env_sealing E = S \<Longrightarrow>
    engine_step C P S s (fst (CRL E caID passphrase s))"

inductive_cases engine_stepE: "engine_step C P S s s'"

text \<open>A restart of the process: the database and the key files stay; the cache is empty, the source of
  randomness and the configured periods are those of the new process.\<close>

definition restarted :: "engine \<Rightarrow> engine \<Rightarrow> bool" where
  "restarted s t = (e_db t = e_db s \<and> e_files t = e_files s \<and> e_crlCache t = Map.empty)"


subsection \<open>The frames of the engine\<close>

definition db_frame :: "engine \<Rightarrow> engine \<Rightarrow> bool" where
  "db_frame s t = db_step\<^sup>*\<^sup>* (e_db s) (e_db t)"

interpretation tables: op_frame db_frame
  by unfold_locales (auto simp: db_frame_def)

definition config_frame :: "engine \<Rightarrow> engine \<Rightarrow> bool" where
  "config_frame s t = (e_maxValidity t = e_maxValidity s \<and> e_crlValidity t = e_crlValidity s)"

interpretation config: op_frame config_frame
  by unfold_locales (auto simp: config_frame_def)

lemma op_db_tables:
  assumes "\<And>d. db_step d (fst (f d))"
  shows "op_keeps db_frame (op_db f)"
  using assms by (auto simp: op_keeps_def db_frame_def op_db_def split: prod.splits)
    (metis fst_conv r_into_rtranclp)

text \<open>Whatever an operation of the engine does, the tables change by steps of the datastore.\<close>

lemma engine_step_tables:
  assumes "engine_step C P S s s'"
  shows "db_step\<^sup>*\<^sup>* (e_db s) (e_db s')"
proof -
  have "op_keeps db_frame (CreateCA E req)" for E :: "('a, 'b) env" and req
    by (intro tables.keeps_CreateCA op_db_tables db_step.create_ca)
  moreover have "op_keeps db_frame (IssueCertificate E ireq)" for E :: "('a, 'b) env" and ireq
    by (intro tables.keeps_IssueCertificate op_db_tables db_step.insert) (simp add: status_defs)
  moreover have "op_keeps db_frame (Revoke E serial reason)" for E :: "('a, 'b) env" and serial reason
    by (intro tables.keeps_Revoke op_db_tables db_step.revoke) (simp add: db_frame_def invalidateCRL_def)
  moreover have "op_keeps db_frame (CRL E caID passphrase)" for E :: "('a, 'b) env" and caID passphrase
    by (intro tables.keeps_CRL) (simp add: db_frame_def)
  ultimately show ?thesis
    using assms by (elim engine_stepE) (simp_all add: op_keeps_def db_frame_def)
qed

lemma engine_steps_tables: "(engine_step C P S)\<^sup>*\<^sup>* s s' \<Longrightarrow> db_step\<^sup>*\<^sup>* (e_db s) (e_db s')"
  by (induction rule: rtranclp_induct) (auto dest: engine_step_tables)

end
