(* ===== verification/Canonical.thy ===== *)
theory Canonical
  imports Issuance
begin

section \<open>The names of a parsed certificate are usable as an issuer\<close>

text \<open>
  \<open>encoding/asn1\<close> refuses lengths that are not minimal, so a SEQUENCE that it read has exactly
  the octets that it writes. A parsed certificate therefore is a template issuer in the sense of
  \<open>subject_ok\<close>: the engine issues under certificates that it parsed.
\<close>

lemma be_bytes_snoc: "0 < l * 256 + unat b \<Longrightarrow> be_bytes (l * 256 + unat b) = be_bytes l @ [b]"
proof -
  assume "0 < l * 256 + unat b"
  moreover have "(l * 256 + unat b) div 256 = l" using byte_less [of b] by simp
  moreover have "unat (word_of_nat (l * 256 + unat b) :: byte) = unat b"
    using byte_less [of b] by (simp only: unat_byte_of_nat) simp
  then have "word_of_nat (l * 256 + unat b) = b" by (rule word_unat_eq_iff [THEN iffD2])
  ultimately show ?thesis by (simp only: be_bytes_pos)
qed

lemma length_octets_canonical:
  assumes "length_octets n l bs = Inr (l', r)"
  shows "\<exists>pre. bs = pre @ r \<and> length pre = n \<and> be_bytes l' = be_bytes l @ pre"
  using assms
proof (induction n l bs rule: length_octets.induct)
  case (3 n l b bs)
  then have "l * 256 + unat b \<noteq> 0" and
    "\<exists>pre. bs = pre @ r \<and> length pre = n \<and> be_bytes l' = be_bytes (l * 256 + unat b) @ pre"
    by (auto simp: Let_def split: if_splits)
  then obtain pre where "bs = pre @ r" "length pre = n" "be_bytes l' = be_bytes (l * 256 + unat b) @ pre"
    by blast
  then show ?case using be_bytes_snoc [of l b] \<open>l * 256 + unat b \<noteq> 0\<close>
    by (intro exI [of _ "b # pre"]) simp
qed simp_all

lemma long_form_back:
  assumes "(b :: byte) AND 0x80 \<noteq> 0"
  shows "0x80 OR (b AND 0x7f) = b"
proof -
  have "bit b 7" using assms and_exp_eq_0_iff_not_bit [of b 7] by simp
  then have "b AND 2 ^ 7 = 2 ^ 7"
    by (intro bit_word_eqI) (auto simp only: bit_and_iff bit_exp_iff)
  then have "0x80 OR (b AND 0x7f) = (b AND 0x80) OR (b AND 0x7f)" by simp
  also have "... = b AND (0x80 OR 0x7f)" by (simp only: bit.conj_disj_distrib)
  also have "(0x80 OR 0x7f :: byte) = - 1" by simp
  finally show ?thesis by simp
qed

lemma parse_length_canonical:
  assumes "parse_length bs = Inr (l, r)"
  shows "bs = marshalLength l @ r"
proof -
  obtain b rest where bs: "bs = b # rest" using assms by (cases bs) (simp_all add: parse_length_def)
  show ?thesis
  proof (cases "b AND 0x80 = 0")
    case True
    then have "unat b < 128" by (simp add: byte_high_bit)
    then have "unat (b AND 0x7f) = unat b" by (simp add: byte_low7)
    then show ?thesis
      using assms True \<open>unat b < 128\<close> word_unat_eq_iff [of b "word_of_nat (unat b)"]
      by (auto simp: bs parse_length_def marshalLength_def)
  next
    case False
    let ?n = "unat (b AND 0x7f)"
    have n: "?n \<noteq> 0" "length_octets ?n 0 rest = Inr (l, r)" "128 \<le> l"
      using assms False by (auto simp: bs parse_length_def go_inv split: if_splits)
    obtain pre where pre: "rest = pre @ r" "length pre = ?n" "be_bytes l = pre"
      using length_octets_canonical [OF n(2)] by auto
    have "b = 0x80 OR word_of_nat ?n" using long_form_back [OF False] by simp
    then show ?thesis using pre n(3) by (simp add: bs marshalLength_def Let_def)
  qed
qed

lemma parse_header_sequence:
  assumes "parse_header bs = Inr (t, r)" "hd bs = 0x30"
  shows "bs = 0x30 # marshalLength (h_len t) @ r"
proof -
  obtain rest where bs: "bs = 0x30 # rest"
    using assms by (cases bs) (simp_all add: parse_header_def)
  then show ?thesis using assms(1) parse_length_canonical by (auto simp: parse_header_def go_inv)
qed

lemma parse_raw_sequence:
  assumes "parse_raw no_params bs = Inr (rv, rest)" "hd (rv_full rv) = 0x30" "rv_full rv \<noteq> []"
  shows "\<exists>body. rv_full rv = tlv 0 True 16 body"
proof -
  obtain t r where h: "parse_header bs = Inr (t, r)" "h_len t \<le> length r"
    and full: "rv_full rv = take (length bs - length (drop (h_len t) r)) bs"
    using assms(1)
    by (auto simp: parse_raw_def parse_field_def field_contents_def default_or_def Let_def go_inv no_params_def
        split: if_splits)
  have "hd bs = 0x30" using assms(2,3) full by (cases bs) (auto simp: take_Cons' split: if_splits)
  from parse_header_sequence [OF h(1) this]
  have bs: "bs = (0x30 # marshalLength (h_len t)) @ r" by simp
  have "rv_full rv = 0x30 # marshalLength (h_len t) @ take (h_len t) r"
    using h(2) unfolding full by (subst (2) bs, subst bs) simp
  then have "rv_full rv = tlv 0 True 16 (take (h_len t) r)"
    using h(2) by (simp add: tlv_marshalSequence marshalSequence_def min_def)
  then show ?thesis by blast
qed

lemma ParseName_hd: "ParseName der = Inr n \<Longrightarrow> der \<noteq> [] \<and> hd der = 0x30"
  by (auto simp: ParseName_def parseSequence_def go_inv split: list.splits if_splits)

text \<open>Every certificate that \<open>ParseCertificate\<close> returns can be the issuer of others.\<close>

lemma ParseCertificate_subject_ok:
  assumes "ParseCertificate der = Inr c"
  shows "subject_ok c" "crt_RawSubject c \<noteq> []"
proof -
  obtain outer :: signedDER and tbs :: tbsCertificate and cert :: Certificate where p: "parse_tbsCertificate (rv_full (sd_tbs outer)) = Inr (tbs, [])"
    "parse_cert_exts cert [] (tc_exts tbs) = Inr c" "crt_RawSubject cert = rv_full (tc_subject tbs)"
    "ParseName (rv_full (tc_subject tbs)) = Inr (crt_Subject cert)"
    using ParseCertificate_Inr [OF assms] by metis
  have same: "crt_RawSubject c = rv_full (tc_subject tbs)" "crt_Subject c = crt_Subject cert"
    using parse_cert_exts_Inr [OF p(2)] p(3) by (simp_all add: same_fields_def)
  obtain bs rest where "parse_raw no_params bs = Inr (tc_subject tbs, rest)"
    using p(1) by (auto simp: parse_tbsCertificate_def parse_struct_def parse_field_def field_contents_def
        default_or_def tbsCertificate_fields_def Let_def go_inv no_params_def split: if_splits)
  then have "\<exists>body. rv_full (tc_subject tbs) = tlv 0 True 16 body"
    using parse_raw_sequence ParseName_hd [OF p(4)] by blast
  then show "subject_ok c" using p(4) same ParseName_hd [OF p(4)] by (auto simp: subject_ok_def)
  show "crt_RawSubject c \<noteq> []" using ParseName_hd [OF p(4)] same by simp
qed

end
