(* ===== verification/Issue_Policy.thy ===== *)
theory Issue_Policy
  imports Engine_Frame Canonical
begin

section \<open>What the engine lets through\<close>

text \<open>
  The inversion of a successful \<open>IssueCertificate\<close>, the bound on the validity of what is issued
  in spite of the overflow of its check, and the effect of an issuance on the tables.
\<close>

subsection \<open>Modular arithmetic on durations\<close>

lemma wrap64_cong: "x mod 2 ^ 64 = y mod 2 ^ 64 \<Longrightarrow> wrap64 x = wrap64 y"
  unfolding wrap64_def by (metis mod_add_left_eq)

lemma wrap64_mod: "wrap64 x mod 2 ^ 64 = x mod 2 ^ 64"
  by (simp add: wrap64_def mod_diff_left_eq)

lemma requested_validity_wrap: "requested_validity days = wrap64 (days * (day_seconds * second))"
proof -
  have "(wrap64 (days * 24) * hour) mod 2 ^ 64 = (days * 24 * hour) mod 2 ^ 64"
    by (metis wrap64_mod mod_mult_left_eq)
  then have "requested_validity days = wrap64 (days * 24 * hour)"
    unfolding requested_validity_def by (rule wrap64_cong)
  then show ?thesis by (simp add: hour_def day_seconds_def ac_simps)
qed

lemma requested_validity_of_gap:
  assumes "wrap64 (T + days * day_seconds) = A" "0 \<le> (A - T) * second" "(A - T) * second < 2 ^ 63"
  shows "requested_validity days = (A - T) * second"
proof -
  have "(A - T) mod 2 ^ 64 = (days * day_seconds) mod 2 ^ 64"
    using wrap64_mod [of "T + days * day_seconds"] unfolding assms(1)
    by (metis add_diff_cancel_left' mod_diff_left_eq)
  then have "(days * (day_seconds * second)) mod 2 ^ 64 = ((A - T) * second) mod 2 ^ 64"
    by (metis mod_mult_left_eq mult.assoc)
  then have "requested_validity days = wrap64 ((A - T) * second)"
    unfolding requested_validity_wrap by (rule wrap64_cong)
  then show ?thesis using assms(2,3) by (simp add: wrap64_id)
qed

lemma issue_window_Inr:
  assumes "issue_window E m validityDays caCert = Inr (notBefore, notAfter)"
  obtains days where "0 \<le> days" "requested_validity days \<le> m"
    "notBefore = time_Add (time_Truncate (env_now E)) (- clockSkew)"
    "notAfter = time_AddDays (time_Truncate (env_now E)) days" "notAfter \<le> crt_NotAfter caCert"
  using assms that [of endEntityValidityDays] that [of validityDays]
  by (fastforce simp: issue_window_def Let_def endEntityValidityDays_def split: if_splits)

lemma time_Truncate_div: "time_Truncate t div second * second = time_Truncate t"
  "time_Truncate t mod second = 0"
  by (simp_all add: time_Truncate_def minus_mod_eq_mult_div)

lemma clock_ok_Truncate: "clock_ok t \<Longrightarrow> clock_ok (time_Truncate t)"
  by (simp add: clock_ok_def time_Truncate_def minus_mod_eq_mult_div second_def pos_imp_zdiv_nonneg_iff)

subsection \<open>A successful issuance\<close>

lemma issue_key_Inr:
  assumes "issue_key E req alg s = (s', Inr (pub, priv))"
  shows "e_db s' = e_db s" "e_files s' = e_files s" "e_crlCache s' = e_crlCache s"
    "case iq_CSR req of Some csr \<Rightarrow> pub = csr_PublicKey csr \<and> priv = zero_PrivateKey
     | None \<Rightarrow> \<exists>r. GenerateKey (env_circl E) (e_rand s) alg = Inr ((pub, priv), r)"
  using assms by (auto simp: issue_key_def op_Inr split: option.splits)

lemma issue_store_key_Inr:
  assumes "issue_store_key E req priv s = (s', Inr keyID)"
  shows "e_db s' = e_db s" "e_crlCache s' = e_crlCache s"
    "if iq_StoreKey req
     then \<exists>r r'. fb_Store (env_sealing E) (env_os E) keyID priv (iq_CAPassphrase req) (e_files s, r)
        = ((e_files s', r'), Inr ())
     else keyID = [] \<and> e_files s' = e_files s"
  using assms by (auto simp: issue_store_key_def op_Inr split: if_splits) blast

lemma issue_ca_Inr:
  assumes "issue_ca E caID d = Inr (caRec, caCert)"
  shows "st_GetCA (env_faults E) caID d = Inr caRec" "ca_Status caRec = StatusActive"
    "ca_ParentID caRec \<noteq> []" "parseCertPEM (env_pem E) (ca_CertPEM caRec) = Inr caCert"
  using assms by (auto simp: issue_ca_def go_inv split: if_splits)

lemma issue_policy_Inr:
  assumes "issue_policy req = Inr (subject, sans, alg)"
  shows "issue_subject req = (subject, sans, alg)" "alg \<in> set endEntityAlgorithms"
    "set (issue_ekus req) \<subseteq> {ExtKeyUsageServerAuth, ExtKeyUsageClientAuth}"
    "CommonName subject \<noteq> [] \<or> \<not> SANs_Empty sans"
  using assms
  by (auto simp: issue_policy_def go_inv checkEndEntityAlgorithm_Inr checkExtKeyUsage_Inr
      split: prod.splits if_splits)

lemma IssueCertificate_Inr:
  assumes "IssueCertificate E req s = (s', Inr r)"
  obtains caRec caCert subject sans alg notBefore notAfter signer pub priv serial der cert keyID s1 s2 er er'
  where "issue_ca E (iq_CAID req) (e_db s) = Inr (caRec, caCert)" "issue_csr_check E req = Inr ()"
    "issue_policy req = Inr (subject, sans, alg)"
    "issue_window E (e_maxValidity s) (iq_ValidityDays req) caCert = Inr (notBefore, notAfter)"
    "ks_Load E (ca_KeyID caRec) (iq_CAPassphrase req) s = Inr signer"
    "issue_key E req alg s = (s1, Inr (pub, priv))" "GenerateSerialNumber er = Inr (serial, er')"
    "CreateCertificate
       (Some (issue_template req subject sans serial (pub_alg (crt_PublicKey caCert)) notBefore notAfter))
       (Parent caCert) pub (Some signer) = Inr der"
    "ParseCertificate der = Inr cert" "issue_store_key E req priv (s1\<lparr>e_rand := er'\<rparr>) = (s2, Inr keyID)"
    "st_InsertCertificate (env_faults E)
       (issue_row E (ca_ID caRec) serial subject sans alg der keyID notBefore notAfter) (e_db s)
       = (e_db s', Inr ())"
    "e_files s' = e_files s2" "e_crlCache s' = e_crlCache s"
    "\<exists>caRes. caResult E (e_db s') caRec = Inr caRes \<and>
       ir_ChainPEM r = EncodeCertificatePEM (env_pem E) der @ cr_ChainPEM caRes"
    "ir_Serial r = SerialHex serial" "ir_CertPEM r = EncodeCertificatePEM (env_pem E) der"
    "ir_Certificate r = cert"
    "if \<not> iq_StoreKey req \<and> iq_CSR req = None
     then EncodePrivateKeyPEM (env_pem E) priv = Inr (ir_PrivateKeyPEM r) else ir_PrivateKeyPEM r = []"
proof -
  obtain caRec caCert subject sans alg notBefore notAfter signer pub priv serial der cert keyID s1 s2 er er'
    s3 caRes keyPEM
  where 1: "issue_ca E (iq_CAID req) (e_db s) = Inr (caRec, caCert)" "issue_csr_check E req = Inr ()"
    "issue_policy req = Inr (subject, sans, alg)"
    "issue_window E (e_maxValidity s) (iq_ValidityDays req) caCert = Inr (notBefore, notAfter)"
    "ks_Load E (ca_KeyID caRec) (iq_CAPassphrase req) s = Inr signer"
    and 2: "issue_key E req alg s = (s1, Inr (pub, priv))" "GenerateSerialNumber er = Inr (serial, er')"
    "CreateCertificate
       (Some (issue_template req subject sans serial (pub_alg (crt_PublicKey caCert)) notBefore notAfter))
       (Parent caCert) pub (Some signer) = Inr der"
    "ParseCertificate der = Inr cert"
    and 3: "issue_store_key E req priv (s1\<lparr>e_rand := er'\<rparr>) = (s2, Inr keyID)"
    and 4: "op_db (st_InsertCertificate (env_faults E)
       (issue_row E (ca_ID caRec) serial subject sans alg der keyID notBefore notAfter)) s2 = (s3, Inr ())"
    and 5: "caResult E (e_db s3) caRec = Inr caRes"
    "(if \<not> iq_StoreKey req \<and> iq_CSR req = None
        then op_res (rmap_err (wrap_errs [] ''ca: encoding private key'') (EncodePrivateKeyPEM (env_pem E) priv))
        else op_res (Inr [])) s3 = (s', Inr keyPEM)"
    "r = \<lparr>ir_Serial = SerialHex serial, ir_CertPEM = EncodeCertificatePEM (env_pem E) der,
        ir_ChainPEM = EncodeCertificatePEM (env_pem E) der @ cr_ChainPEM caRes, ir_PrivateKeyPEM = keyPEM,
        ir_Certificate = cert\<rparr>"
    using assms
    by (simp only: IssueCertificate_def op_bind_Inr op_res_Inr op_read_Inr op_cleanup_Inr op_wrap_Inr
        op_rand_Inr split_paired_Ex case_prod_conv rmap_err_Inr_iff sum.inject) (elim exE conjE, simp)
  note k = issue_key_Inr [OF 2(1)]
  note st = issue_store_key_Inr [OF 3]
  have s': "s' = s3" "if \<not> iq_StoreKey req \<and> iq_CSR req = None
     then EncodePrivateKeyPEM (env_pem E) priv = Inr keyPEM else keyPEM = []"
    using 5(2) by (auto simp: op_res_Inr go_inv split: if_splits)
  have db: "st_InsertCertificate (env_faults E)
       (issue_row E (ca_ID caRec) serial subject sans alg der keyID notBefore notAfter) (e_db s)
       = (e_db s', Inr ())" "e_files s' = e_files s2" "e_crlCache s' = e_crlCache s"
    using 4 st k s' by (auto simp: op_db_Inr)
  show ?thesis
    using 5 s' by (intro that [OF 1 2 3 db]) simp_all
qed

subsection \<open>The validity period\<close>

text \<open>C21. The validity of an end-entity certificate: it begins five minutes before the clock and
  ends at most \<open>MaxValidity\<close> after it and not after the issuing CA, although the comparison of
  the requested duration with \<open>MaxValidity\<close> is on a product that overflows (a request for 106752
  days, 292 years, is a negative duration and passes it): what bounds the validity then is the end
  of the issuing CA, provided that it is less than \<open>2 ^ 63\<close> nanoseconds away.\<close>

theorem issue_window_bounds:
  assumes "issue_window E m validityDays caCert = Inr (notBefore, notAfter)"
    and "clock_ok (env_now E)" and "0 \<le> m"
    and "crt_NotAfter caCert - time_Truncate (env_now E) < 2 ^ 63"
  shows "notBefore = time_Truncate (env_now E) - 300 * second
    \<and> notAfter \<le> time_Truncate (env_now E) + m \<and> notAfter \<le> crt_NotAfter caCert
    \<and> requested_validity 106752 < 0"
proof -
  let ?now = "time_Truncate (env_now E)"
  let ?T = "?now div second"
  obtain days where d: "requested_validity days \<le> m" "notBefore = time_Add ?now (- clockSkew)"
    "notAfter = time_AddDays ?now days" "notAfter \<le> crt_NotAfter caCert"
    using issue_window_Inr [OF assms(1)] by metis
  define A where "A = wrap64 (?T + days * day_seconds)"
  have na: "notAfter = A * second"
    using d(3) by (simp add: time_AddDays_def A_def time_Truncate_div)
  have gap: "(A - ?T) * second = notAfter - ?now"
    by (simp add: na left_diff_distrib time_Truncate_div)
  have "notAfter \<le> ?now + m"
  proof (cases "?now \<le> notAfter")
    case True
    have "requested_validity days = (A - ?T) * second"
      using True d(4) assms(4) by (intro requested_validity_of_gap) (simp_all add: A_def [symmetric] gap)
    then show ?thesis using d(1) gap by simp
  next
    case False
    then show ?thesis using assms(3) by simp
  qed
  moreover have "notBefore = ?now - 300 * second"
    using d(2) time_Add_exact [OF clock_ok_Truncate [OF assms(2)], of "- clockSkew"]
    by (simp add: clockSkew_def second_def)
  moreover have "requested_validity 106752 < 0"
    by (simp add: requested_validity_wrap wrap64_def day_seconds_def second_def)
  ultimately show ?thesis using d(4) by blast
qed

text \<open>The environment of the concrete examples: no failures, and a clock in 2025.\<close>

definition toy_os :: os_state where
  "toy_os = \<lparr>os_fault = (\<lambda>_. False), os_written = 0\<rparr>"

definition toy_now :: instant where
  "toy_now = 63871200000 * second"

definition toy_env :: "(algorithm \<times> bytes, algorithm \<times> bytes) env" where
  "toy_env = \<lparr>env_circl = toy_circl, env_pem = toy_pem, env_sealing = toy_sealing, env_os = toy_os,
     env_faults = (\<lambda>_. False), env_now = toy_now\<rparr>"

lemma toy_clock [simp]: "clock_ok toy_now" "time_Truncate toy_now = toy_now" "env_now toy_env = toy_now"
  by (simp_all add: clock_ok_def toy_now_def time_Truncate_def toy_env_def second_def)

theorem issue_window_bounds_witness:
  "issue_window toy_env (397 * 24 * hour) 0 (toy_issuer\<lparr>crt_NotAfter := toy_now + 10 ^ 17\<rparr>)
     = Inr (toy_now - 300 * second, toy_now + 90 * day_seconds * second)
   \<and> toy_now + 90 * day_seconds * second \<le> toy_now + 397 * 24 * hour"
proof -
  have w: "issue_window toy_env (397 * 24 * hour) 0 (toy_issuer\<lparr>crt_NotAfter := toy_now + 10 ^ 17\<rparr>)
     = Inr (toy_now - 300 * second, toy_now + 90 * day_seconds * second)"
    using time_Add_exact [of toy_now "- clockSkew"] time_AddDays_exact [of toy_now 90]
    by (simp add: issue_window_def Let_def endEntityValidityDays_def requested_validity_wrap wrap64_def
        hour_def day_seconds_def second_def clockSkew_def)
  show ?thesis using w issue_window_bounds [OF w] by (simp add: hour_def second_def)
qed

end
