(* ===== verification/Engine_Keys.thy ===== *)
theory Engine_Keys
  imports Engine_Frame
begin

section \<open>The engine and its keys\<close>

text \<open>
  No operation of the engine touches a key file that was there before it: the keystore never
  overwrites, and the only files that the engine deletes are those of keys that it generated in the
  same operation. \<open>op_inv P m Q\<close> says that \<open>m\<close> keeps the invariant \<open>P\<close> of the state, whatever
  its outcome, and that its result, when it has one, satisfies \<open>Q\<close>.
\<close>

definition op_inv :: "(engine \<Rightarrow> bool) \<Rightarrow> 'a op \<Rightarrow> ('a \<Rightarrow> bool) \<Rightarrow> bool" where
  "op_inv P m Q = (\<forall>s. P s \<longrightarrow> P (fst (m s)) \<and> (\<forall>x. snd (m s) = Inr x \<longrightarrow> Q x))"

lemma op_inv_bind:
  assumes "op_inv P m Q" "\<And>x. Q x \<Longrightarrow> op_inv P (f x) Q'"
  shows "op_inv P (op_bind m f) Q'"
  unfolding op_inv_def
proof (intro allI impI)
  fix s
  assume s: "P s"
  obtain s1 r where m: "m s = (s1, r)" by force
  show "P (fst (op_bind m f s)) \<and> (\<forall>x. snd (op_bind m f s) = Inr x \<longrightarrow> Q' x)"
    using assms(1) [unfolded op_inv_def, rule_format, OF s] assms(2) m
    by (cases r) (auto simp: op_bind_def op_inv_def)
qed

lemma op_inv_res: "op_inv P (op_res r) (\<lambda>_. True)"
  by (simp add: op_inv_def op_res_def)

lemma op_inv_return: "op_inv P (op_res r) (\<lambda>x. r = Inr x)"
  by (simp add: op_inv_def op_res_def)

lemma op_invD: "op_inv P m Q \<Longrightarrow> P s \<Longrightarrow> P (fst (m s))"
  by (simp add: op_inv_def)

lemma op_inv_read: "op_inv P (op_read f) (\<lambda>_. True)"
  by (simp add: op_inv_def op_read_def)

lemma op_inv_wrap: "op_inv P m Q \<Longrightarrow> op_inv P (op_wrap g m) Q"
  by (auto simp: op_inv_def op_wrap_def go_inv split: prod.splits)

lemma op_inv_cleanup:
  assumes "op_inv P m Q" "\<And>s. P s \<Longrightarrow> P (c s)"
  shows "op_inv P (op_cleanup c m) Q"
  unfolding op_inv_def
proof (intro allI impI)
  fix s
  assume s: "P s"
  obtain s1 r where m: "m s = (s1, r)" by force
  show "P (fst (op_cleanup c m s)) \<and> (\<forall>x. snd (op_cleanup c m s) = Inr x \<longrightarrow> Q x)"
    using assms(1) [unfolded op_inv_def, rule_format, OF s] assms(2) m
    by (cases r) (auto simp: op_cleanup_def)
qed

lemma op_inv_weaken: "op_inv P m Q \<Longrightarrow> (\<And>x. Q x \<Longrightarrow> Q' x) \<Longrightarrow> op_inv P m Q'"
  unfolding op_inv_def by blast

lemma op_inv_prod: "(\<And>a b. x = (a, b) \<Longrightarrow> op_inv P (f a b) Q) \<Longrightarrow> op_inv P (case x of (a, b) \<Rightarrow> f a b) Q"
  by (cases x) simp

lemma op_inv_option:
  "op_inv P m Q \<Longrightarrow> (\<And>a. op_inv P (f a) Q) \<Longrightarrow> op_inv P (case x of None \<Rightarrow> m | Some a \<Rightarrow> f a) Q"
  by (cases x) simp_all

lemma op_inv_if: "op_inv P m Q \<Longrightarrow> op_inv P m' Q \<Longrightarrow> op_inv P (if b then m else m') Q"
  by simp

subsection \<open>Keys that were there stay\<close>

definition has_keys :: "files \<Rightarrow> engine \<Rightarrow> bool" where
  "has_keys fs s = (fs \<subseteq>\<^sub>m e_files s)"

definition fresh_key :: "files \<Rightarrow> string \<Rightarrow> bool" where
  "fresh_key fs k = (fs (key_path k) = None)"

lemma has_keys_update [simp]:
  "has_keys fs (s\<lparr>e_rand := r\<rparr>) = has_keys fs s" "has_keys fs (s\<lparr>e_db := d\<rparr>) = has_keys fs s"
  "has_keys fs (s\<lparr>e_crlCache := c\<rparr>) = has_keys fs s"
  by (simp_all add: has_keys_def)

lemma has_keys_rand: "op_inv (has_keys fs) (op_rand f) (\<lambda>_. True)"
  by (auto simp: op_inv_def op_rand_def split: sum.splits)

lemma has_keys_db: "op_inv (has_keys fs) (op_db f) (\<lambda>_. True)"
  by (auto simp: op_inv_def op_db_def split: prod.splits)

lemma has_keys_discard: "fresh_key fs k \<Longrightarrow> has_keys fs s \<Longrightarrow> has_keys fs (ks_discard E k s)"
  by (auto simp: fresh_key_def has_keys_def ks_discard_def fb_Delete_def map_le_def dom_def split: sum.splits)

lemma fb_Store_files:
  assumes "fb_Store S os k p pass (fs1, r) = ((fs2, r'), res)" "fs \<subseteq>\<^sub>m fs1"
  shows "fs \<subseteq>\<^sub>m fs2 \<and> (res = Inr () \<longrightarrow> fresh_key fs k)"
proof -
  have "fs2 = fs1 \<and> res \<noteq> Inr () \<or> (\<exists>body. fs1 (key_path k) = None \<and> fs2 = fs1(key_path k \<mapsto> body))"
    using fb_Store_cases [OF assms(1)] by auto
  moreover have "fs (key_path k) = None" if "fs1 (key_path k) = None"
    using assms(2) that by (metis domIff map_le_implies_dom_le subsetD)
  ultimately show ?thesis
    using assms(2) by (auto simp: fresh_key_def map_le_def dom_def)
qed

lemma has_keys_Store:
  "op_inv (has_keys fs) (op_keys (fb_Store S os k p pass)) (\<lambda>_. fresh_key fs k)"
  unfolding op_inv_def op_keys_def has_keys_def
  by (auto dest!: fb_Store_files split: prod.splits)

lemma has_keys_Generate:
  "op_inv (has_keys fs) (op_keys (fb_Generate C S os alg pass)) (\<lambda>(k, pub, priv). fresh_key fs k)"
proof -
  have "fs \<subseteq>\<^sub>m fs2 \<and> (\<forall>k pub priv. res = Inr (k, pub, priv) \<longrightarrow> fresh_key fs k)"
    if "fb_Generate C S os alg pass (fs1, r) = ((fs2, r'), res)" "fs \<subseteq>\<^sub>m fs1" for fs1 r fs2 r' res
    using that by (auto simp: fb_Generate_def dest: fb_Store_files split: sum.splits prod.splits)
  then show ?thesis
    unfolding op_inv_def op_keys_def has_keys_def by (auto split: prod.splits)
qed

lemmas has_keys_intros = op_inv_bind [OF op_inv_read] op_inv_bind [OF op_inv_res] op_inv_bind [OF has_keys_rand]
  op_inv_bind [OF op_inv_wrap [OF has_keys_db]] op_inv_res op_inv_read op_inv_prod op_inv_option op_inv_if

lemma CreateCA_keys: "op_inv (has_keys fs) (CreateCA E req) (\<lambda>_. True)"
proof -
  have signer: "op_inv (has_keys fs) (ca_signer E req parent k priv) (\<lambda>_. True)" if "fresh_key fs k" for parent k priv
    unfolding ca_signer_def using that
    by (intro has_keys_intros op_inv_cleanup) (auto intro: has_keys_discard)
  show ?thesis
    unfolding CreateCA_def
    by (intro has_keys_intros op_inv_bind [OF op_inv_wrap [OF has_keys_Generate]] op_inv_bind [OF signer]
        op_inv_cleanup has_keys_discard) auto
qed

lemma IssueCertificate_keys: "op_inv (has_keys fs) (IssueCertificate E req) (\<lambda>_. True)"
proof -
  have key: "op_inv (has_keys fs) (issue_key E req alg) (\<lambda>_. True)" for alg
    unfolding issue_key_def by (intro has_keys_intros has_keys_rand)
  have store: "op_inv (has_keys fs) (issue_store_key E req priv) (\<lambda>k. k \<noteq> [] \<longrightarrow> fresh_key fs k)" for priv
    unfolding issue_store_key_def
    by (intro op_inv_if op_inv_bind [OF has_keys_rand] op_inv_bind [OF op_inv_wrap [OF has_keys_Store]]
        op_inv_weaken [OF op_inv_return]) auto
  show ?thesis
    unfolding IssueCertificate_def
    by (intro has_keys_intros op_inv_bind [OF key] op_inv_bind [OF store] 
        op_inv_bind [OF op_inv_cleanup [OF op_inv_wrap [OF has_keys_db]]])
      (auto intro: has_keys_discard intro!: has_keys_intros)
qed

lemma Revoke_keys: "op_inv (has_keys fs) (Revoke E serial reason) (\<lambda>_. True)"
  unfolding Revoke_def by (intro has_keys_intros) (simp_all add: op_inv_def invalidateCRL_def)

lemma CRL_keys: "op_inv (has_keys fs) (CRL E caID passphrase) (\<lambda>_. True)"
  unfolding CRL_def by (intro has_keys_intros) (simp_all add: op_inv_def)

lemma engine_step_keys:
  assumes "engine_step C P S s s'"
  shows "e_files s \<subseteq>\<^sub>m e_files s'"
proof -
  have "has_keys (e_files s) s" by (simp add: has_keys_def)
  then have "has_keys (e_files s) s'"
    using assms
    by (elim engine_stepE) (auto intro: op_invD [OF CreateCA_keys] op_invD [OF IssueCertificate_keys]
        op_invD [OF Revoke_keys] op_invD [OF CRL_keys])
  then show ?thesis by (simp add: has_keys_def)
qed

lemma engine_steps_keys: "(engine_step C P S)\<^sup>*\<^sup>* s s' \<Longrightarrow> e_files s \<subseteq>\<^sub>m e_files s'"
  by (induction rule: rtranclp_induct) (auto dest: engine_step_keys intro: map_le_trans)

end
