(* ===== verification/Engine_Trust.thy ===== *)
theory Engine_Trust
  imports Issue_Policy Engine_Keys
begin

section \<open>The engine's certificates form trusted chains\<close>

text \<open>
  The inversion of a successful \<open>CreateCA\<close>, and what \<open>CreateCertificate\<close> makes of the
  templates of the engine: certificates that are linked, in the sense of \<open>Verify_Path\<close>, to the
  certificate they are issued under.
\<close>

subsection \<open>A successful CA creation\<close>

lemma ca_parent_Inr:
  assumes "ca_parent E req d = Inr (profile, parent)"
  shows "if cq_ParentID req = [] then profile = rootProfile \<and> parent = None
    else profile = intermediateProfile \<and> (\<exists>rec cert. parent = Some (rec, cert)
      \<and> st_GetCA (env_faults E) (cq_ParentID req) d = Inr rec \<and> ca_ParentID rec = []
      \<and> ca_Status rec = StatusActive \<and> parseCertPEM (env_pem E) (ca_CertPEM rec) = Inr cert)"
  using assms by (auto simp: ca_parent_def go_inv split: if_splits)

lemma ca_window_Inr:
  assumes "ca_window E days parent = Inr (now, notBefore, notAfter)"
  shows "now = time_Truncate (env_now E)" "notBefore = time_Add now (- clockSkew)"
    "notAfter = time_AddDays now days" "\<And>rec cert. parent = Some (rec, cert) \<Longrightarrow> notAfter \<le> crt_NotAfter cert"
  using assms by (auto simp: ca_window_def Let_def split: if_splits option.splits)

lemma ca_signer_Inr:
  assumes "ca_signer E req parent keyID priv s = (s', Inr (signatureAlg, signer))"
  shows "s' = s"
    "case parent of None \<Rightarrow> key_Signer (env_circl E) priv = Inr signer \<and> signatureAlg = cq_Algorithm req
     | Some (rec, cert) \<Rightarrow> ks_Load E (ca_KeyID rec) (cq_ParentPassphrase req) s = Inr signer
         \<and> signatureAlg = pub_alg (crt_PublicKey cert)"
  using assms by (auto simp: ca_signer_def op_Inr go_inv split: option.splits)

definition parent_of :: "(ca_rec \<times> Certificate) option \<Rightarrow> parent" where
  "parent_of parent = (case parent of None \<Rightarrow> TemplateItself | Some (_, parentCert) \<Rightarrow> Parent parentCert)"

lemma CreateCA_Inr:
  assumes "CreateCA E req s = (s', Inr r)"
  obtains profile parent days now notBefore notAfter fs rnd keyID pub priv serial signatureAlg signer
    der cert caID er er' kr kr'
  where "create_ca_check req = Inr ()" "ca_parent E req (e_db s) = Inr (profile, parent)"
    "checkAlgorithm profile (cq_Algorithm req) = Inr ()"
    "resolveDays profile (cq_ValidityDays req) = Inr days"
    "ca_window E days parent = Inr (now, notBefore, notAfter)"
    "fb_Generate (env_circl E) (env_sealing E) (env_os E) (cq_Algorithm req) (cq_Passphrase req)
       (e_files s, e_rand s) = ((fs, rnd), Inr (keyID, pub, priv))"
    "GenerateSerialNumber er = Inr (serial, er')"
    "ca_signer E req parent keyID priv (s\<lparr>e_files := fs, e_rand := er'\<rparr>)
       = (s\<lparr>e_files := fs, e_rand := er'\<rparr>, Inr (signatureAlg, signer))"
    "CreateCertificate (Some (ca_template req profile serial signatureAlg notBefore notAfter))
       (parent_of parent) pub (Some signer) = Inr der"
    "ParseCertificate der = Inr cert" "NewKeyID kr = Inr (caID, kr')"
    "st_CreateCA (env_faults E) (ca_row E req caID keyID der now) (e_db s) = (e_db s', Inr ())"
    "e_files s' = fs" "e_crlCache s' = e_crlCache s" "cr_ID r = caID" "cr_Certificate r = cert"
    "cr_CertPEM r = EncodeCertificatePEM (env_pem E) der"
proof -
  obtain profile parent days now notBefore notAfter s1 keyID pub priv er serial er' signatureAlg signer s3
    der cert caID kr kr' s5
  where 1: "create_ca_check req = Inr ()" "ca_parent E req (e_db s) = Inr (profile, parent)"
    "checkAlgorithm profile (cq_Algorithm req) = Inr ()"
    "resolveDays profile (cq_ValidityDays req) = Inr days"
    "ca_window E days parent = Inr (now, notBefore, notAfter)"
    and 2: "op_keys (fb_Generate (env_circl E) (env_sealing E) (env_os E) (cq_Algorithm req)
       (cq_Passphrase req)) s = (s1, Inr (keyID, pub, priv))"
    and 3: "GenerateSerialNumber er = Inr (serial, er')"
    and 4: "ca_signer E req parent keyID priv (s1\<lparr>e_rand := er'\<rparr>) = (s3, Inr (signatureAlg, signer))"
    and 5: "CreateCertificate (Some (ca_template req profile serial signatureAlg notBefore notAfter))
       (parent_of parent) pub (Some signer) = Inr der" "ParseCertificate der = Inr cert"
    and 6: "NewKeyID kr = Inr (caID, kr')"
    and 7: "op_db (st_CreateCA (env_faults E) (ca_row E req caID keyID der now)) (s3\<lparr>e_rand := kr'\<rparr>) = (s5, Inr ())"
    and 8: "s' = s5" "r = \<lparr>cr_ID = caID, cr_Name = cq_Name req, cr_ParentID = cq_ParentID req,
             cr_Algorithm = cq_Algorithm req, cr_CertPEM = EncodeCertificatePEM (env_pem E) der,
             cr_ChainPEM = EncodeCertificatePEM (env_pem E) der
               @ (case parent of None \<Rightarrow> [] | Some (parentRec, _) \<Rightarrow> ca_CertPEM parentRec),
             cr_Certificate = cert, cr_CreatedAt = now\<rparr>"
    using assms
    by (simp only: CreateCA_def op_bind_Inr op_res_Inr op_read_Inr op_cleanup_Inr op_wrap_Inr
        op_rand_Inr split_paired_Ex case_prod_conv rmap_err_Inr_iff sum.inject parent_of_def)
      (elim exE conjE, simp)
  obtain fs rnd where g: "fb_Generate (env_circl E) (env_sealing E) (env_os E) (cq_Algorithm req)
      (cq_Passphrase req) (e_files s, e_rand s) = ((fs, rnd), Inr (keyID, pub, priv))"
    "s1 = s\<lparr>e_files := fs, e_rand := rnd\<rparr>"
    using 2 by (auto simp: op_keys_Inr)
  have s3: "s3 = s\<lparr>e_files := fs, e_rand := er'\<rparr>" using ca_signer_Inr(1) [OF 4] g(2) by simp
  have sg: "ca_signer E req parent keyID priv (s\<lparr>e_files := fs, e_rand := er'\<rparr>)
       = (s\<lparr>e_files := fs, e_rand := er'\<rparr>, Inr (signatureAlg, signer))"
    using 4 g(2) s3 by simp
  have db: "st_CreateCA (env_faults E) (ca_row E req caID keyID der now) (e_db s) = (e_db s', Inr ())"
    "e_files s' = fs" "e_crlCache s' = e_crlCache s"
    using 7 s3 8(1) by (auto simp: op_db_Inr)
  show ?thesis
    by (rule that [OF 1 g(1) 3 sg 5 6 db]) (simp_all add: 8)
qed

subsection \<open>What is signed is linked\<close>

lemma engine_templates_ok:
  "template_ok (ca_template req profile serial alg nb na) \<longleftrightarrow> pathLen profile < 2 ^ 63"
  "template_ok (issue_template ireq subject sans serial alg nb na) \<longleftrightarrow> san_ok sans"
  by (simp_all add: template_ok_def ca_template_def issue_template_def zero_Certificate_def unhandled_ok_def
      san_ok_def zero_SANs_def)

lemma engine_template_sel:
  "crt_RawSubject (ca_template req profile serial alg nb na) = []"
  "crt_Subject (ca_template req profile serial alg nb na) = cq_Subject req"
  "crt_RawSubject (issue_template ireq subject sans serial alg nb na) = []"
  "crt_Subject (issue_template ireq subject sans serial alg nb na) = subject"
  by (simp_all add: ca_template_def issue_template_def zero_Certificate_def)

lemma engine_subject_ok:
  "subject_ok (ca_template req profile serial alg nb na) \<longleftrightarrow> name_size (cq_Subject req) \<le> 2 ^ 30"
  "subject_ok (issue_template ireq subject sans serial alg nb na) \<longleftrightarrow> name_size subject \<le> 2 ^ 30"
  by (simp_all add: subject_ok_def engine_template_sel)

lemma time_Truncate_le: "time_Truncate t \<le> t"
  by (simp add: time_Truncate_def second_def)

lemma created_certificate:
  assumes "CreateCertificate (Some t) parent pub (Some signer) = Inr der" "ParseCertificate der = Inr cert"
    and "length der < 2 ^ 31" "signer_ok C signer" "template_ok t" "subject_ok t"
    and "subject_ok (issuer_cert parent t)"
  shows "subject_der (issuer_cert parent t) = Inr (crt_RawIssuer cert)
    \<and> subject_der t = Inr (crt_RawSubject cert) \<and> crt_RawSubject cert \<noteq> []
    \<and> crt_Subject cert = crt_Subject t
    \<and> crt_SigAlg cert = pub_alg (sg_pub signer)
    \<and> Verify C (sg_pub signer) (crt_RawTBS cert) (crt_Signature cert) = Inr ()
    \<and> crt_PublicKey cert = pub \<and> crt_Serial cert = crt_Serial t \<and> crt_Raw cert = der
    \<and> crt_NotBefore cert = time_Truncate (crt_NotBefore t) \<and> crt_NotAfter cert = time_Truncate (crt_NotAfter t)
    \<and> crt_BCValid cert = crt_BCValid t
    \<and> (crt_BCValid t \<longrightarrow> crt_BasicConstraints cert = bc_view (crt_BasicConstraints t))
    \<and> crt_KeyUsage cert = crt_KeyUsage t \<and> crt_ExtKeyUsage cert = crt_ExtKeyUsage t
    \<and> (\<not> SANs_Empty (crt_SANs t) \<longrightarrow> crt_SANs cert = san_view (crt_SANs t))"
proof -
  obtain tbsDER sig issuerDER subjectDER where
    p: "ParseCertificate der = Inr (issued t (issuer_cert parent t) pub signer der tbsDER sig issuerDER subjectDER)"
    and n: "subject_der t = Inr subjectDER" "subject_der (issuer_cert parent t) = Inr issuerDER"
    and v: "Verify C (sg_pub signer) tbsDER sig = Inr ()"
    using CreateCertificate_parse [OF assms(1,3,4,5,6,7)] by blast
  have c: "cert = issued t (issuer_cert parent t) pub signer der tbsDER sig issuerDER subjectDER"
    using assms(2) p by simp
  have alg: "sg_alg signer = pub_alg (sg_pub signer)" using assms(4) by (simp add: signer_ok_def)
  have "subjectDER \<noteq> []" using subject_der_ok [OF assms(6) n(1)] by auto
  then show ?thesis using n v alg by (simp add: c issued_def issued_exts_def zero_Certificate_def)
qed

subsection \<open>A CA that the engine keeps\<close>

text \<open>
  \<open>ca_stored\<close>: the engine has the CA \<open>i\<close> with the certificate \<open>c\<close>, and a key that the passphrase
  unseals and that is the certificate's. \<open>signed_by\<close>: the name and the signature of a certificate
  are its issuer's.
\<close>

definition ca_stored ::
  "('pk, 'sk) circl \<Rightarrow> pem_package \<Rightarrow> sealing \<Rightarrow> string \<Rightarrow> Certificate \<Rightarrow> bytes \<Rightarrow> engine \<Rightarrow> bool" where
  "ca_stored C P S i c pass s =
     (\<exists>rec sealed priv signer. ca_at i (e_db s) = Some rec \<and> parseCertPEM P (ca_CertPEM rec) = Inr c
        \<and> validateKeyID (ca_KeyID rec) = Inr () \<and> e_files s (key_path (ca_KeyID rec)) = Some sealed \<and> Unseal S sealed pass = Inr priv
        \<and> key_Signer C priv = Inr signer \<and> signer_ok C signer \<and> sg_pub signer = crt_PublicKey c)"

definition signed_by :: "('pk, 'sk) circl \<Rightarrow> Certificate \<Rightarrow> Certificate \<Rightarrow> bool" where
  "signed_by C child issuer =
     (crt_RawIssuer child = crt_RawSubject issuer
      \<and> crt_SigAlg child = pub_alg (crt_PublicKey issuer)
      \<and> Verify C (crt_PublicKey issuer) (crt_RawTBS child) (crt_Signature child) = Inr ())"

text \<open>Nothing that the engine does afterwards changes that.\<close>

lemma ca_stored_steps:
  assumes "(engine_step C P S)\<^sup>*\<^sup>* s s'" "ca_stored C P S i c pass s"
  shows "ca_stored C P S i c pass s'"
proof -
  have "e_files s \<subseteq>\<^sub>m e_files s'" by (rule engine_steps_keys [OF assms(1)])
  then have "e_files s k = Some b \<Longrightarrow> e_files s' k = Some b" for k b
    by (auto simp: map_le_def dom_def)
  moreover have "ca_at i (e_db s) = Some rec \<Longrightarrow> ca_at i (e_db s') = Some rec" for rec
    by (rule ca_at_steps [OF engine_steps_tables [OF assms(1)]])
  ultimately show ?thesis using assms(2) unfolding ca_stored_def by blast
qed

lemma ca_stored_load:
  assumes "ca_stored C P S i c pass s" "ca_at i (e_db s) = Some rec"
    and "fb_Load C S os (ca_KeyID rec) pass (e_files s) = Inr signer"
  shows "signer_ok C signer \<and> sg_pub signer = crt_PublicKey c \<and> parseCertPEM P (ca_CertPEM rec) = Inr c"
  using assms by (auto simp: ca_stored_def fb_Load_def go_inv split: option.splits if_splits)

lemma parsed_issuer:
  assumes "parseCertPEM P pem = Inr c"
  shows "subject_ok c" "subject_der c = Inr (crt_RawSubject c)"
  using assms ParseCertificate_subject_ok by (auto simp: parseCertPEM_def go_inv subject_der_def)

lemma fb_Generate_stores:
  assumes "circl_ok C" "seal_ok S" "fb_Generate C S os alg pass (fs, r) = ((fs', r'), Inr (keyID, pub, priv))"
  shows "\<exists>sealed signer. validateKeyID keyID = Inr () \<and> fs' (key_path keyID) = Some sealed \<and> Unseal S sealed pass = Inr priv
    \<and> key_Signer C priv = Inr signer \<and> signer_ok C signer \<and> sg_pub signer = pub \<and> sg_alg signer = alg"
proof -
  obtain r1 r2 where g: "GenerateKey C r alg = Inr ((pub, priv), r1)"
    and st: "fb_Store S os keyID priv pass (fs, r2) = ((fs', r'), Inr ())"
    using assms(3) by (auto simp: fb_Generate_def split: sum.splits prod.splits)
  obtain sealed where "validateKeyID keyID = Inr ()" "Seal S priv pass r2 = Inr (sealed, r')"
    "fs' = fs(key_path keyID \<mapsto> sealed)"
    using fb_Store_cases [OF st] by auto
  moreover from this(2) have "Unseal S sealed pass = Inr priv" using Seal_Inr [OF assms(2)] by blast
  ultimately show ?thesis using GenerateKey_signer [OF assms(1) g] by auto
qed

text \<open>What \<open>CreateCA\<close> makes: a CA certificate of its level, signed by itself or by the parent.\<close>

definition ca_level :: "caProfile \<Rightarrow> Certificate \<Rightarrow> bool" where
  "ca_level profile c =
     (crt_BCValid c \<and> crt_BasicConstraints c = \<lparr>IsCA = True, MaxPathLen = pathLen profile, MaxPathLenSet = True\<rparr>
      \<and> crt_KeyUsage c = KeyUsageKeyCertSign OR KeyUsageCRLSign)"

lemma CreateCA_certificate:
  assumes c: "CreateCA E req s = (s', Inr r)"
    and ok: "circl_ok (env_circl E)" "seal_ok (env_sealing E)" "pem_ok (env_pem E)"
    and size: "length (crt_Raw (cr_Certificate r)) < 2 ^ 31" "name_size (cq_Subject req) \<le> 2 ^ 30"
    and parent: "cq_ParentID req \<noteq> [] \<Longrightarrow>
      ca_stored (env_circl E) (env_pem E) (env_sealing E) (cq_ParentID req) pc (cq_ParentPassphrase req) s"
  shows "ca_stored (env_circl E) (env_pem E) (env_sealing E) (cr_ID r) (cr_Certificate r) (cq_Passphrase req) s'
    \<and> ca_level (if cq_ParentID req = [] then rootProfile else intermediateProfile) (cr_Certificate r)
    \<and> signed_by (env_circl E) (cr_Certificate r) (if cq_ParentID req = [] then cr_Certificate r else pc)
    \<and> ParseCertificate (crt_Raw (cr_Certificate r)) = Inr (cr_Certificate r)
    \<and> ToRDNSequence (cq_Subject req) = Inr (crt_RawSubject (cr_Certificate r))
    \<and> (cq_ParentID req \<noteq> [] \<longrightarrow> crt_NotAfter (cr_Certificate r) \<le> crt_NotAfter pc)
    \<and> validateKeyID (cr_ID r) = Inr ()
    \<and> crt_NotBefore (cr_Certificate r) = time_Truncate (time_Add (time_Truncate (env_now E)) (- clockSkew))
    \<and> (\<exists>days. resolveDays (if cq_ParentID req = [] then rootProfile else intermediateProfile)
          (cq_ValidityDays req) = Inr days
        \<and> crt_NotAfter (cr_Certificate r) = time_Truncate (time_AddDays (time_Truncate (env_now E)) days))"
proof -
  obtain profile parent days now notBefore notAfter fs rnd keyID pub priv serial signatureAlg signer
    der cert caID er er' kr kr' where
    pa: "ca_parent E req (e_db s) = Inr (profile, parent)"
    and gen: "fb_Generate (env_circl E) (env_sealing E) (env_os E) (cq_Algorithm req) (cq_Passphrase req)
       (e_files s, e_rand s) = ((fs, rnd), Inr (keyID, pub, priv))"
    and sg: "ca_signer E req parent keyID priv (s\<lparr>e_files := fs, e_rand := er'\<rparr>)
       = (s\<lparr>e_files := fs, e_rand := er'\<rparr>, Inr (signatureAlg, signer))"
    and cc: "CreateCertificate (Some (ca_template req profile serial signatureAlg notBefore notAfter))
       (parent_of parent) pub (Some signer) = Inr der" "ParseCertificate der = Inr cert"
    and st: "st_CreateCA (env_faults E) (ca_row E req caID keyID der now) (e_db s) = (e_db s', Inr ())"
      "e_files s' = fs"
    and days: "resolveDays profile (cq_ValidityDays req) = Inr days"
    and win: "ca_window E days parent = Inr (now, notBefore, notAfter)" and kid: "NewKeyID kr = Inr (caID, kr')"
    and r: "cr_ID r = caID" "cr_Certificate r = cert" "cr_CertPEM r = EncodeCertificatePEM (env_pem E) der"
    using CreateCA_Inr [OF c] by metis
  note pa' = ca_parent_Inr [OF pa]
  obtain sealed gsigner where g: "fs (key_path keyID) = Some sealed" "validateKeyID keyID = Inr ()"
    "Unseal (env_sealing E) sealed (cq_Passphrase req) = Inr priv"
    "key_Signer (env_circl E) priv = Inr gsigner" "signer_ok (env_circl E) gsigner" "sg_pub gsigner = pub"
    using fb_Generate_stores [OF ok(1,2) gen] by blast
  have "e_files s \<subseteq>\<^sub>m fs"
    using op_invD [OF has_keys_Generate, of "e_files s" s "env_circl E" "env_sealing E" "env_os E"
      "cq_Algorithm req" "cq_Passphrase req"] gen by (simp add: op_keys_def has_keys_def)
  then have files: "e_files s k = Some b \<Longrightarrow> fs k = Some b" for k b
    by (auto simp: map_le_def dom_def)
  have signer: "signer_ok (env_circl E) signer \<and> subject_ok (issuer_cert (parent_of parent)
        (ca_template req profile serial signatureAlg notBefore notAfter))
      \<and> (if cq_ParentID req = [] then parent = None \<and> sg_pub signer = pub
         else (\<exists>rec. parent = Some (rec, pc)) \<and> sg_pub signer = crt_PublicKey pc
           \<and> subject_der pc = Inr (crt_RawSubject pc))"
  proof (cases "cq_ParentID req = []")
    case True
    then show ?thesis
      using pa' ca_signer_Inr(2) [OF sg] g size(2)
      by (simp add: issuer_cert_def parent_of_def subject_ok_def engine_template_sel)
  next
    case False
    obtain rec pcert where p: "parent = Some (rec, pcert)" "ca_at (cq_ParentID req) (e_db s) = Some rec"
      "parseCertPEM (env_pem E) (ca_CertPEM rec) = Inr pcert"
      using pa' False by (auto simp: GetCA_Inr)
    have "ks_Load E (ca_KeyID rec) (cq_ParentPassphrase req) (s\<lparr>e_files := fs, e_rand := er'\<rparr>) = Inr signer"
      using ca_signer_Inr(2) [OF sg] p(1) by simp
    moreover have "ca_stored (env_circl E) (env_pem E) (env_sealing E) (cq_ParentID req) pc (cq_ParentPassphrase req)
        (s\<lparr>e_files := fs, e_rand := er'\<rparr>)"
      using parent [OF False] files unfolding ca_stored_def by fastforce
    ultimately have "signer_ok (env_circl E) signer \<and> sg_pub signer = crt_PublicKey pc
        \<and> parseCertPEM (env_pem E) (ca_CertPEM rec) = Inr pc"
      using ca_stored_load p(2) unfolding ks_Load_def by fastforce
    then show ?thesis
      using p False parsed_issuer [of "env_pem E" "ca_CertPEM rec" pc] by (simp add: parent_of_def issuer_cert_def)
  qed
  have prof: "profile = (if cq_ParentID req = [] then rootProfile else intermediateProfile)"
    using pa' by (simp split: if_splits)
  have t: "template_ok (ca_template req profile serial signatureAlg notBefore notAfter)"
    "subject_ok (ca_template req profile serial signatureAlg notBefore notAfter)"
    using size(2) by (simp_all add: engine_templates_ok prof profile_defs subject_ok_def engine_template_sel)
  have raw: "crt_Raw cert = der"
    using cc(2) by (rule ParseCertificate_Inr) (use parse_cert_exts_Inr in \<open>fastforce simp: same_fields_def\<close>)
  have len: "length der < 2 ^ 31" using size(1) r(2) raw by simp
  note made = created_certificate [OF cc len signer [THEN conjunct1] t signer [THEN conjunct2, THEN conjunct1]]
  have "ca_at caID (e_db s') = Some (ca_row E req caID keyID der now)"
    using CreateCA_cases [OF st(1)] ca_at_new [of "ca_row E req caID keyID der now" "e_db s"]
    by (auto simp: ca_row_def)
  moreover have "parseCertPEM (env_pem E) (EncodeCertificatePEM (env_pem E) der) = Inr cert"
    using Decode_EncodeCertificatePEM [OF ok(3), of der "[]"] cc(2) by (simp add: parseCertPEM_def)
  ultimately have "ca_stored (env_circl E) (env_pem E) (env_sealing E) caID cert (cq_Passphrase req) s'"
    using g st(2) made by (auto simp: ca_stored_def ca_row_def)
  moreover have "ca_level profile cert"
    using made by (simp add: ca_level_def ca_template_def bc_view_def prof profile_defs split: if_splits)
  moreover have "signed_by (env_circl E) cert (if cq_ParentID req = [] then cert else pc)"
    using made signer by (auto simp: signed_by_def parent_of_def issuer_cert_def split: if_splits)
  moreover have "crt_NotAfter cert \<le> crt_NotAfter pc" if nonroot: "cq_ParentID req \<noteq> []"
  proof -
    obtain rec where "parent = Some (rec, pc)" using signer nonroot by auto
    then have "notAfter \<le> crt_NotAfter pc" using ca_window_Inr(4) [OF win] by blast
    moreover have "crt_NotAfter cert = time_Truncate notAfter"
      using made by (simp add: ca_template_def zero_Certificate_def)
    ultimately show ?thesis using time_Truncate_le [of notAfter] by simp
  qed
  moreover have "ToRDNSequence (cq_Subject req) = Inr (crt_RawSubject cert)"
    using made by (simp add: subject_der_def engine_template_sel)
  moreover have "validateKeyID caID = Inr ()" using NewKeyID_valid [OF kid] by simp
  moreover have "crt_NotBefore cert = time_Truncate notBefore \<and> crt_NotAfter cert = time_Truncate notAfter"
    using made by (simp add: ca_template_def zero_Certificate_def)
  ultimately show ?thesis using r prof raw cc(2) days ca_window_Inr(1-3) [OF win] by (cases "cq_ParentID req = []") simp_all
qed

lemma GenerateKey_alg: "circl_ok C \<Longrightarrow> GenerateKey C r alg = Inr ((pub, priv), r') \<Longrightarrow> pub_alg pub = alg"
  using GenerateKey_signer [of C r alg pub priv r'] by (auto simp: signer_ok_def)

text \<open>What \<open>IssueCertificate\<close> makes: an end-entity certificate signed by the CA.\<close>

lemma IssueCertificate_certificate:
  assumes i: "IssueCertificate E req s = (s', Inr r)"
    and subj: "issue_subject req = (subject, sans, alg)" "name_size subject \<le> 2 ^ 30" "san_ok sans"
    and size: "length (crt_Raw (ir_Certificate r)) < 2 ^ 31"
    and ca: "ca_stored (env_circl E) P S (iq_CAID req) caCert (iq_CAPassphrase req) s"
    and env: "env_pem E = P" "env_sealing E = S" "circl_ok (env_circl E)"
  shows "signed_by (env_circl E) (ir_Certificate r) caCert
    \<and> crt_BCValid (ir_Certificate r) \<and> \<not> IsCA (crt_BasicConstraints (ir_Certificate r))
    \<and> crt_Subject (ir_Certificate r) = subject \<and> pub_alg (crt_PublicKey (ir_Certificate r)) \<in> set endEntityAlgorithms
    \<and> ParseCertificate (crt_Raw (ir_Certificate r)) = Inr (ir_Certificate r)
    \<and> crt_NotAfter (ir_Certificate r) \<le> crt_NotAfter caCert
    \<and> (\<exists>notBefore notAfter. issue_window E (e_maxValidity s) (iq_ValidityDays req) caCert = Inr (notBefore, notAfter)
        \<and> crt_NotBefore (ir_Certificate r) = time_Truncate notBefore
        \<and> crt_NotAfter (ir_Certificate r) = time_Truncate notAfter)"
proof -
  obtain caRec caCert' subject' sans' alg' notBefore notAfter signer pub priv serial der cert s1 where
    1: "issue_ca E (iq_CAID req) (e_db s) = Inr (caRec, caCert')" "issue_policy req = Inr (subject', sans', alg')"
    "ks_Load E (ca_KeyID caRec) (iq_CAPassphrase req) s = Inr signer"
    "issue_key E req alg' s = (s1, Inr (pub, priv))"
    and cc: "CreateCertificate
       (Some (issue_template req subject' sans' serial (pub_alg (crt_PublicKey caCert')) notBefore notAfter))
       (Parent caCert') pub (Some signer) = Inr der" "ParseCertificate der = Inr cert"
    and win: "issue_window E (e_maxValidity s) (iq_ValidityDays req) caCert' = Inr (notBefore, notAfter)"
    and r: "ir_Certificate r = cert"
    using IssueCertificate_Inr [OF i] by metis
  note ca' = issue_ca_Inr [OF 1(1)]
  note pol = issue_policy_Inr [OF 1(2)]
  have same: "subject' = subject" "sans' = sans" "alg' = alg" using pol(1) subj(1) by simp_all
  have "ca_at (iq_CAID req) (e_db s) = Some caRec" using ca'(1) by (simp add: GetCA_Inr)
  from ca_stored_load [OF ca this] 1(3) env(2)
  have sg: "signer_ok (env_circl E) signer" "sg_pub signer = crt_PublicKey caCert" "caCert' = caCert"
    using ca'(4) env(1) by (auto simp: ks_Load_def)
  note issuer = parsed_issuer [OF ca'(4)]
  have raw: "crt_Raw cert = der"
    using cc(2) by (rule ParseCertificate_Inr) (use parse_cert_exts_Inr in \<open>fastforce simp: same_fields_def\<close>)
  let ?t = "issue_template req subject' sans' serial (pub_alg (crt_PublicKey caCert')) notBefore notAfter"
  have t: "template_ok ?t" "subject_ok ?t" "subject_ok (issuer_cert (Parent caCert') ?t)"
    using subj(2,3) same issuer(1)
    by (simp_all add: engine_templates_ok engine_subject_ok issuer_cert_def)
  have len: "length der < 2 ^ 31" using size raw r by simp
  note facts = created_certificate [OF cc len sg(1) t]
  have made: "subject_der caCert = Inr (crt_RawIssuer cert)" "crt_SigAlg cert = pub_alg (sg_pub signer)"
    "Verify (env_circl E) (sg_pub signer) (crt_RawTBS cert) (crt_Signature cert) = Inr ()"
    "crt_PublicKey cert = pub" "crt_Subject cert = subject" "crt_BCValid cert"
    "crt_BasicConstraints cert = bc_view \<lparr>IsCA = False, MaxPathLen = 0, MaxPathLenSet = False\<rparr>"
    using facts same sg(3) by (simp_all add: issuer_cert_def issue_template_def)
  have "pub_alg pub = alg"
  proof (cases "iq_CSR req")
    case None
    then obtain rnd where "GenerateKey (env_circl E) (e_rand s) alg = Inr ((pub, priv), rnd)"
      using issue_key_Inr(4) [OF 1(4)] same by auto
    then show ?thesis by (rule GenerateKey_alg [OF env(3)])
  next
    case (Some csr)
    then show ?thesis using issue_key_Inr(4) [OF 1(4)] pol(1) same by (simp add: issue_subject_def)
  qed
  moreover have "crt_NotAfter cert \<le> crt_NotAfter caCert"
  proof -
    have "notAfter \<le> crt_NotAfter caCert" using win sg(3) by (auto simp: issue_window_def Let_def split: if_splits)
    moreover have "crt_NotAfter cert = time_Truncate notAfter"
      using facts by (simp add: issue_template_def zero_Certificate_def)
    ultimately show ?thesis using time_Truncate_le [of notAfter] by simp
  qed
  moreover have "crt_NotBefore cert = time_Truncate notBefore \<and> crt_NotAfter cert = time_Truncate notAfter"
    using facts by (simp add: issue_template_def zero_Certificate_def)
  ultimately show ?thesis
    using made issuer sg pol(2) same r raw cc(2) win by (simp add: signed_by_def bc_view_def)
qed

subsection \<open>From a root to a leaf\<close>

lemma signed_by_linked:
  assumes "signed_by C child issuer" "ca_level profile issuer" "valid_at issuer now"
    and "int depth \<le> pathLen profile" "CheckRevocation opts = None"
  shows "linked C opts now depth child issuer"
proof -
  have "(KeyUsageKeyCertSign OR KeyUsageCRLSign) AND KeyUsageKeyCertSign \<noteq> 0"
    by (simp add: KeyUsageKeyCertSign_def KeyUsageCRLSign_def)
  then show ?thesis
    using assms by (simp add: linked_def issuer_ok_def signed_by_def ca_level_def)
qed

lemma trusted_three:
  assumes "linked C opts now 0 leaf sub" "linked C opts now 1 sub root"
    and "crt_Raw leaf \<noteq> crt_Raw sub" "Roots opts = [root]" "Intermediates opts = [sub]"
  shows "trusted_chain C opts now leaf [leaf, sub, root]"
  using assms by (simp add: trusted_chain_def partial_path_def less_Suc_eq)

end
