(* ===== verification/Engine_Live.thy ===== *)
theory Engine_Live
  imports Engine_Trust
begin

section \<open>When the engine succeeds\<close>

text \<open>
  Sufficient conditions for \<open>CreateCA\<close> and \<open>IssueCertificate\<close> to succeed: the policy allows the
  request, nothing fails, the entropy suffices and is fresh, and the names can be encoded.
\<close>

subsection \<open>Extensions and certificates\<close>

definition small_exts :: "extension list \<Rightarrow> bool" where
  "small_exts exts = ((\<forall>e \<in> set exts. oid_ok (ext_id e) \<and> length (ext_id e) \<le> 20) \<and> exts_size exts < 2 ^ 28)"

lemma key_identifier_total: "pub_ok pub \<Longrightarrow> \<exists>kid. KeyIdentifier pub = Inr kid \<and> length kid = 20"
  by (auto simp: KeyIdentifier_def pub_ok_def)

lemma ext_ids_ok:
  "oid_ok oidExtBasicConstraints" "oid_ok oidExtKeyUsage" "oid_ok oidExtExtendedKeyUsage"
  "oid_ok oidExtSubjectKeyID" "oid_ok oidExtAuthorityKeyID" "oid_ok oidExtSubjectAltName"
  "length oidExtBasicConstraints = 4" "length oidExtKeyUsage = 4" "length oidExtExtendedKeyUsage = 4"
  "length oidExtSubjectKeyID = 4" "length oidExtAuthorityKeyID = 4" "length oidExtSubjectAltName = 4"
  by (simp_all add: ext_oids oid_ok_def)

lemma key_id_lengths:
  assumes "length kid = 20"
  shows "length (marshal_octets kid) \<le> 26"
    "length (tlv 0 True 16 (make_field akid_params 4 False kid)) \<le> 40"
proof -
  show "length (marshal_octets kid) \<le> 26"
    using length_tlv_le [of 4 kid 0 False] assms by (simp add: marshal_octets_def)
  have "length (make_field akid_params 4 False kid) \<le> 26"
    using length_tlv_le [of 0 kid 2 False] assms by (simp add: make_field_def akid_params_def)
  then show "length (tlv 0 True 16 (make_field akid_params 4 False kid)) \<le> 40"
    using length_tlv_le [of 16 "make_field akid_params 4 False kid" 0 True] by simp
qed

lemma basic_constraints_total:
  assumes "bc = \<lparr>IsCA = True, MaxPathLen = 1, MaxPathLenSet = True\<rparr>
    \<or> bc = \<lparr>IsCA = True, MaxPathLen = 0, MaxPathLenSet = True\<rparr>
    \<or> bc = \<lparr>IsCA = False, MaxPathLen = 0, MaxPathLenSet = False\<rparr>"
  shows "\<exists>v. marshalBasicConstraints bc = Inr v \<and> length v \<le> 40"
proof -
  let ?v = "\<lambda>ca l. marshal_basicConstraintsDER \<lparr>bcd_IsCA = ca, bcd_MaxPathLen = l\<rparr>"
  have "length (?v True 1) \<le> 40" "length (?v True 0) \<le> 40" "length (?v False (- 1)) \<le> 40"
    by code_simp+
  then show ?thesis using assms by (auto simp: marshalBasicConstraints_def)
qed

lemma key_usage_total:
  "\<exists>v. marshalKeyUsage (KeyUsageKeyCertSign OR KeyUsageCRLSign) = Inr v \<and> length v \<le> 10"
  "\<exists>v. marshalKeyUsage KeyUsageDigitalSignature = Inr v \<and> length v \<le> 10"
proof -
  have "KeyUsageKeyCertSign OR KeyUsageCRLSign = 0x60" "KeyUsageDigitalSignature = 1"
    by (simp_all add: KeyUsageKeyCertSign_def KeyUsageCRLSign_def KeyUsageDigitalSignature_def)
  moreover have "marshalKeyUsage 0x60 = Inr [3, 2, 1, 6]" "marshalKeyUsage 1 = Inr [3, 2, 7, 128]"
    by code_simp+
  ultimately show "\<exists>v. marshalKeyUsage (KeyUsageKeyCertSign OR KeyUsageCRLSign) = Inr v \<and> length v \<le> 10"
    "\<exists>v. marshalKeyUsage KeyUsageDigitalSignature = Inr v \<and> length v \<le> 10"
    by simp_all
qed

lemma key_usage_nonzero:
  "KeyUsageKeyCertSign OR KeyUsageCRLSign \<noteq> 0" "KeyUsageDigitalSignature \<noteq> 0"
  by (simp_all add: KeyUsageKeyCertSign_def KeyUsageCRLSign_def KeyUsageDigitalSignature_def)

lemma ca_extensions_total:
  assumes "pub_ok pub" "pub_ok (sg_pub signer)" "profile = rootProfile \<or> profile = intermediateProfile"
  shows "\<exists>exts. buildExtensions (ca_template req profile serial alg nb na) pub signer b = Inr exts
    \<and> small_exts exts"
proof -
  obtain kid akid where k: "KeyIdentifier pub = Inr kid" "length kid = 20"
    "KeyIdentifier (sg_pub signer) = Inr akid" "length akid = 20"
    using key_identifier_total assms(1,2) by metis
  obtain bc where bc: "marshalBasicConstraints
      \<lparr>IsCA = True, MaxPathLen = pathLen profile, MaxPathLenSet = True\<rparr> = Inr bc" "length bc \<le> 40"
    using basic_constraints_total assms(3) by (force simp: profile_defs)
  obtain ku where ku: "marshalKeyUsage (KeyUsageKeyCertSign OR KeyUsageCRLSign) = Inr ku" "length ku \<le> 10"
    using key_usage_total(1) by blast
  have p: "prof_keyUsage profile = KeyUsageKeyCertSign OR KeyUsageCRLSign"
    using assms(3) by (auto simp: profile_defs)
  have "akid \<noteq> []" using k(4) by auto
  then show ?thesis
    using k bc ku key_id_lengths [OF k(2)] key_id_lengths [OF k(4)] key_usage_nonzero
    by (simp add: buildExtensions_def ca_template_def zero_Certificate_def p SANs_Empty_def zero_SANs_def
        marshalKeyID_def marshalAuthorityKeyID_def small_exts_def exts_size_def ext_of_def ext_ids_ok)
qed

lemma eku_oids_total:
  "\<exists>bss. rmap marshal_oid (map eku_oid ekus) = Inr bss \<and> length (concat bss) \<le> 200 * length ekus"
proof (induction ekus)
  case Nil
  then show ?case by simp
next
  case (Cons e es)
  have ok: "oid_ok (eku_oid e)" "length (eku_oid e) = 9" by (simp_all add: eku_oid_def oid_ok_def)
  then obtain i where i: "oid_bytes (eku_oid e) = Inr i" using oid_ok_bytes by blast
  then have "length i \<le> 50" using length_oid_bytes [OF ok(1) i] ok(2) by simp
  then have "length (tlv 0 False 6 i) \<le> 200" using length_tlv_le [of 6 i 0 False] by simp
  then show ?case using Cons i by (auto simp: marshal_oid_def)
qed

lemma eku_value_total:
  assumes "set ekus \<subseteq> {ExtKeyUsageServerAuth, ExtKeyUsageClientAuth}" "length ekus \<le> 1000"
  shows "\<exists>v. marshalExtKeyUsage ekus = Inr v \<and> length v \<le> 200010"
proof -
  obtain bss where bss: "rmap marshal_oid (map eku_oid ekus) = Inr bss" "length (concat bss) \<le> 200000"
    using eku_oids_total [of ekus] assms(2) by fastforce
  have "eku_ok ekus" using assms(1) by (auto simp: eku_ok_def list_all_iff)
  then have "marshalExtKeyUsage ekus = Inr (tlv 0 True 16 (concat bss))"
    using bss(1) by (simp add: marshalExtKeyUsage_def marshal_oid_list_def eku_oids)
  moreover have "length (tlv 0 True 16 (concat bss)) \<le> 200010"
    using length_tlv_le [of 16 "concat bss" 0 True] bss(2) by simp
  ultimately show ?thesis by blast
qed

lemma issue_extensions_total:
  assumes "pub_ok pub" "pub_ok (sg_pub signer)"
    and "set (issue_ekus req) \<subseteq> {ExtKeyUsageServerAuth, ExtKeyUsageClientAuth}" "length (issue_ekus req) \<le> 1000"
    and "\<And>v. marshalSANs sans = Inr v \<Longrightarrow> length v \<le> 2 ^ 27"
  shows "\<exists>exts. buildExtensions (issue_template req subject sans serial alg nb na) pub signer b = Inr exts
    \<and> small_exts exts"
proof -
  obtain kid akid where k: "KeyIdentifier pub = Inr kid" "length kid = 20"
    "KeyIdentifier (sg_pub signer) = Inr akid" "length akid = 20"
    using key_identifier_total assms(1,2) by metis
  obtain bc where bc: "marshalBasicConstraints
      \<lparr>IsCA = False, MaxPathLen = 0, MaxPathLenSet = False\<rparr> = Inr bc" "length bc \<le> 40"
    using basic_constraints_total by force
  obtain ku where ku: "marshalKeyUsage KeyUsageDigitalSignature = Inr ku" "length ku \<le> 10"
    using key_usage_total(2) by blast
  obtain eku where eku: "marshalExtKeyUsage (issue_ekus req) = Inr eku" "length eku \<le> 200010"
    using eku_value_total [OF assms(3,4)] by blast
  have "akid \<noteq> []" "issue_ekus req \<noteq> []" using k(4) by (auto simp: issue_ekus_def)
  moreover have "\<exists>v. marshalSANs sans = Inr v" if "\<not> SANs_Empty sans"
    using that by (auto simp: marshalSANs_def SANs_Empty_def Let_def)
  ultimately show ?thesis
    using k bc ku eku key_id_lengths [OF k(2)] key_id_lengths [OF k(4)] key_usage_nonzero assms(5)
    by (cases "SANs_Empty sans")
      (auto simp: buildExtensions_def issue_template_def zero_Certificate_def
        marshalKeyID_def marshalAuthorityKeyID_def small_exts_def exts_size_def ext_of_def ext_ids_ok)
qed

subsection \<open>Keys\<close>

text \<open>Generating a key and storing it takes 44 bytes of entropy after those of the key.\<close>

lemma fb_Generate_total:
  assumes "circl_ok C" "seal_ok S" "\<And>c. \<not> os_fault os c" "pass \<noteq> []"
    and "GenerateKey C r alg = Inr ((pub, priv), r1)" "44 \<le> length r1"
    and "fs (key_path (hex_encode (take 16 r1))) = None"
  shows "\<exists>sealed. fb_Generate C S os alg pass (fs, r)
    = ((fs(key_path (hex_encode (take 16 r1)) \<mapsto> sealed), drop 44 r1), Inr (hex_encode (take 16 r1), pub, priv))"
proof -
  have p: "priv_ok priv" using GenerateKey_signer [OF assms(1,5)] by blast
  have k: "NewKeyID r1 = Inr (hex_encode (take 16 r1), drop 16 r1)"
    using assms(6) by (simp add: NewKeyID_def read_full_def)
  have l: "28 \<le> length (drop 16 r1)" using assms(6) by simp
  obtain sealed r' where "Seal S priv pass (drop 16 r1) = Inr (sealed, r')"
    using Seal_total [OF assms(2) p assms(4) l] by blast
  moreover from this have "r' = drop 44 r1" using Seal_Inr [OF assms(2), of priv pass "drop 16 r1"] by simp
  ultimately have "fb_Store S os (hex_encode (take 16 r1)) priv pass (fs, drop 16 r1)
      = ((fs(key_path (hex_encode (take 16 r1)) \<mapsto> sealed), drop 44 r1), Inr ())"
    using NewKeyID_valid [OF k] assms(3,7) by (intro fb_Store_succeeds) auto
  then show ?thesis using assms(5) k by (auto simp: fb_Generate_def)
qed

lemma GenerateSerialNumber_first:
  assumes "16 \<le> length r" "0 < serial_draw r 0"
  shows "GenerateSerialNumber r = Inr (int (serial_draw r 0), drop 16 r)"
    "0 < int (serial_draw r 0)" "int (serial_draw r 0) < 2 ^ 127"
proof -
  have "(8 :: nat) = Suc 7" by simp
  then show "GenerateSerialNumber r = Inr (int (serial_draw r 0), drop 16 r)"
    using assms by (simp only: GenerateSerialNumber_def serial_loop_Suc) simp
  have "serial_draw r 0 < 2 ^ 127" by (simp add: serial_draw_def)
  then show "int (serial_draw r 0) < 2 ^ 127" by (metis of_nat_less_iff of_nat_numeral of_nat_power)
qed (use assms in simp)

subsection \<open>CreateCA\<close>

definition no_faults :: "('pk, 'sk) env \<Rightarrow> bool" where
  "no_faults E = ((\<forall>c. \<not> os_fault (env_os E) c) \<and> (\<forall>c. \<not> env_faults E c))"

definition packages_ok :: "('pk, 'sk) env \<Rightarrow> bool" where
  "packages_ok E = (circl_ok (env_circl E) \<and> seal_ok (env_sealing E) \<and> pem_ok (env_pem E))"

text \<open>The entropy of \<open>CreateCA\<close> after the key: an identifier and a nonce that give an unused file
  name, a serial number that is not zero, an unused identifier.\<close>

definition ca_entropy :: "bytes \<Rightarrow> engine \<Rightarrow> bool" where
  "ca_entropy r s =
     (76 \<le> length r \<and> e_files s (key_path (hex_encode (take 16 r))) = None
      \<and> 0 < serial_draw (drop 44 r) 0
      \<and> hex_encode (take 16 (drop 60 r)) \<notin> ca_ID ` set (db_cas (e_db s)))"

definition encodable_name :: "Name \<Rightarrow> bool" where
  "encodable_name n = (name_size n \<le> 2 ^ 30 \<and> (\<exists>der. ToRDNSequence n = Inr der \<and> length der \<le> 2 ^ 24))"

definition encodable_times :: "instant \<Rightarrow> instant \<Rightarrow> bool" where
  "encodable_times nb na = (nb < na \<and> (\<exists>r. marshalTime nb = Inr r) \<and> (\<exists>r. marshalTime na = Inr r))"

lemma ToRDNSequence_nonempty: "ToRDNSequence n = Inr der \<Longrightarrow> der \<noteq> []"
  by (auto simp: ToRDNSequence_def go_inv marshalSequence_def)

lemma created_and_parsed:
  assumes t: "crt_Serial t = Some n" "0 < n" "n < 2 ^ 127" "crt_SigAlg t = sg_alg signer" "template_ok t"
      "crt_RawSubject t = []" "encodable_name (crt_Subject t)"
      "encodable_times (crt_NotBefore t) (crt_NotAfter t)"
      "CommonName (crt_Subject t) \<noteq> [] \<or> \<not> SANs_Empty (crt_SANs t)"
    and keys: "signer_ok C signer" "pub_ok pub"
    and parent: "parent = TemplateItself \<or> parent = Parent p \<and> subject_ok p \<and> crt_RawSubject p \<noteq> []
      \<and> length (crt_RawSubject p) \<le> 2 ^ 24"
    and exts: "\<And>b. \<exists>exts. buildExtensions t pub signer b = Inr exts \<and> small_exts exts"
  shows "\<exists>der cert. CreateCertificate (Some t) parent pub (Some signer) = Inr der
    \<and> ParseCertificate der = Inr cert \<and> length der < 2 ^ 31"
proof -
  obtain sub where sub: "ToRDNSequence (crt_Subject t) = Inr sub" "length sub \<le> 2 ^ 24"
    using t(7) by (auto simp: encodable_name_def)
  then have sd: "subject_der t = Inr sub" using t(6) by (simp add: subject_der_def)
  have ne: "sub \<noteq> []" using ToRDNSequence_nonempty [OF sub(1)] .
  have so: "subject_ok t" using t(6,7) by (simp add: subject_ok_def encodable_name_def)
  have named: "sub = [0x30, 0x00] \<longrightarrow> \<not> SANs_Empty (crt_SANs t)"
  proof
    assume "sub = [0x30, 0x00]"
    moreover have "ParseName [0x30, 0x00] = Inr zero_Name" by code_simp
    moreover have "ParseName sub = Inr (crt_Subject t)" using subject_der_ok [OF so sd] by blast
    ultimately have "crt_Subject t = zero_Name" by simp
    then show "\<not> SANs_Empty (crt_SANs t)" using t(9) by (simp add: zero_Name_def)
  qed
  obtain iss where iss: "issuer_der parent sub = Inr iss" "length iss \<le> 2 ^ 24" "iss \<noteq> []" "parent \<noteq> NilParent"
    "subject_ok (issuer_cert parent t)"
    using parent sub(2) ne so by (auto simp: issuer_der_def subject_der_def issuer_cert_def)
  obtain exts where ex: "buildExtensions t pub signer (sub = [0x30, 0x00]) = Inr exts" "small_exts exts"
    using exts by blast
  obtain nb na where tm: "crt_NotBefore t < crt_NotAfter t" "marshalTime (crt_NotBefore t) = Inr nb"
    "marshalTime (crt_NotAfter t) = Inr na"
    using t(8) by (auto simp: encodable_times_def)
  obtain der where der: "CreateCertificate (Some t) parent pub (Some signer) = Inr der" "length der < 2 ^ 31"
    using CreateCertificate_succeeds [OF t(1-3) tm t(4) keys sd sub(2) ne named iss(4,1-3) ex(1)] ex(2)
    by (auto simp: small_exts_def)
  then show ?thesis using CreateCertificate_parse [OF der keys(1) t(5) so iss(5)] by blast
qed

lemma ca_stored_signer:
  assumes "ca_stored C P S i c pass s" "ca_at i (e_db s) = Some rec" "\<And>x. \<not> os_fault os x"
  shows "\<exists>signer. fb_Load C S os (ca_KeyID rec) pass (e_files s) = Inr signer
    \<and> signer_ok C signer \<and> sg_pub signer = crt_PublicKey c"
  using assms by (auto simp: ca_stored_def fb_Load_def)

lemma engine_template_values:
  "crt_Serial (ca_template req profile serial alg nb na) = Some serial"
  "crt_SigAlg (ca_template req profile serial alg nb na) = alg"
  "crt_NotBefore (ca_template req profile serial alg nb na) = nb"
  "crt_NotAfter (ca_template req profile serial alg nb na) = na"
  "crt_Serial (issue_template ireq subject sans serial alg nb na) = Some serial"
  "crt_SigAlg (issue_template ireq subject sans serial alg nb na) = alg"
  "crt_NotBefore (issue_template ireq subject sans serial alg nb na) = nb"
  "crt_NotAfter (issue_template ireq subject sans serial alg nb na) = na"
  "crt_SANs (issue_template ireq subject sans serial alg nb na) = sans"
  by (simp_all add: ca_template_def issue_template_def zero_Certificate_def)

text \<open>The signer and the certificate of the issuer, for a root and for an intermediate.\<close>

lemma ca_signer_total:
  assumes "packages_ok E" "no_faults E" "ca_parent E req (e_db s) = Inr (profile, parent)"
    and "GenerateKey (env_circl E) r0 (cq_Algorithm req) = Inr ((pub, priv), r)"
    and "cq_ParentID req \<noteq> [] \<Longrightarrow> ca_stored (env_circl E) (env_pem E) (env_sealing E) (cq_ParentID req) pc
        (cq_ParentPassphrase req) s \<and> length (crt_RawSubject pc) \<le> 2 ^ 24"
    and s1: "e_files s \<subseteq>\<^sub>m e_files s1" "e_db s1 = e_db s"
  shows "\<exists>signer p. ca_signer E req parent keyID priv s1 = (s1, Inr (sg_alg signer, signer))
    \<and> signer_ok (env_circl E) signer
    \<and> (parent_of parent = TemplateItself \<or> parent_of parent = Parent p \<and> subject_ok p
        \<and> crt_RawSubject p \<noteq> [] \<and> length (crt_RawSubject p) \<le> 2 ^ 24)"
proof (cases "cq_ParentID req = []")
  case True
  obtain signer where "key_Signer (env_circl E) priv = Inr signer" "signer_ok (env_circl E) signer"
    "sg_alg signer = cq_Algorithm req"
    using GenerateKey_signer [OF _ assms(4)] assms(1) by (auto simp: packages_ok_def)
  then show ?thesis
    using ca_parent_Inr [OF assms(3)] True by (auto simp: ca_signer_def op_res_def parent_of_def)
next
  case False
  obtain rec pcert where p: "parent = Some (rec, pcert)" "ca_at (cq_ParentID req) (e_db s) = Some rec"
    "parseCertPEM (env_pem E) (ca_CertPEM rec) = Inr pcert"
    using ca_parent_Inr [OF assms(3)] False by (auto simp: GetCA_Inr)
  have st: "ca_stored (env_circl E) (env_pem E) (env_sealing E) (cq_ParentID req) pc (cq_ParentPassphrase req) s"
    and len: "length (crt_RawSubject pc) \<le> 2 ^ 24"
    using assms(5) [OF False] by blast+
  have same: "pcert = pc" using st p(2,3) by (auto simp: ca_stored_def)
  have up: "e_files s k = Some b \<Longrightarrow> e_files s1 k = Some b" for k b
    using s1(1) by (auto simp: map_le_def dom_def)
  then have st1: "ca_stored (env_circl E) (env_pem E) (env_sealing E) (cq_ParentID req) pc (cq_ParentPassphrase req) s1"
    using st s1(2) unfolding ca_stored_def by fastforce
  obtain signer where sg: "ks_Load E (ca_KeyID rec) (cq_ParentPassphrase req) s1 = Inr signer"
    "signer_ok (env_circl E) signer" "sg_pub signer = crt_PublicKey pc"
    using ca_stored_signer [OF st1, of rec "env_os E"] p(2) s1(2) assms(2) by (auto simp: ks_Load_def no_faults_def)
  obtain der where "ParseCertificate der = Inr pc"
    using p(3) same by (auto simp: parseCertPEM_def go_inv)
  then have "subject_ok pc" "crt_RawSubject pc \<noteq> []" using ParseCertificate_subject_ok by blast+
  moreover have "pub_alg (crt_PublicKey pc) = sg_alg signer" using sg(2,3) by (auto simp: signer_ok_def)
  ultimately show ?thesis
    using sg len p(1) same
    by (auto simp: ca_signer_def op_cleanup_def op_read_def parent_of_def)
qed

text \<open>A creation that the policy allows succeeds. It uses 76 bytes of entropy after those of the
  key, and adds one key file and one row.\<close>

lemma CreateCA_total:
  assumes E: "packages_ok E" "no_faults E"
    and policy: "create_ca_check req = Inr ()" "ca_parent E req (e_db s) = Inr (profile, parent)"
      "checkAlgorithm profile (cq_Algorithm req) = Inr ()" "resolveDays profile (cq_ValidityDays req) = Inr days"
      "ca_window E days parent = Inr (now, nb, na)"
    and enc: "encodable_times nb na" "encodable_name (cq_Subject req)"
    and key: "GenerateKey (env_circl E) (e_rand s) (cq_Algorithm req) = Inr ((pub, priv), r)" "ca_entropy r s"
    and pc: "cq_ParentID req \<noteq> [] \<Longrightarrow> ca_stored (env_circl E) (env_pem E) (env_sealing E) (cq_ParentID req) pc
        (cq_ParentPassphrase req) s \<and> length (crt_RawSubject pc) \<le> 2 ^ 24"
  shows "\<exists>s' res sealed cert. CreateCA E req s = (s', Inr res) \<and> cr_Certificate res = cert
    \<and> length (crt_Raw cert) < 2 ^ 31 \<and> cr_ID res = hex_encode (take 16 (drop 60 r))
    \<and> s' = s\<lparr>e_files := (e_files s)(key_path (hex_encode (take 16 r)) \<mapsto> sealed), e_rand := drop 76 r,
        e_db := (e_db s)\<lparr>db_cas := db_cas (e_db s)
          @ [ca_row E req (hex_encode (take 16 (drop 60 r))) (hex_encode (take 16 r)) (crt_Raw cert) now]\<rparr>\<rparr>"
proof -
  let ?kid = "hex_encode (take 16 r)" and ?caid = "hex_encode (take 16 (drop 60 r))"
  let ?n = "int (serial_draw (drop 44 r) 0)"
  have ent: "76 \<le> length r" "e_files s (key_path ?kid) = None" "0 < serial_draw (drop 44 r) 0"
    "?caid \<notin> ca_ID ` set (db_cas (e_db s))"
    using key(2) by (simp_all add: ca_entropy_def)
  have pass: "cq_Passphrase req \<noteq> []" using policy(1) by (auto simp: create_ca_check_def split: if_splits)
  obtain sealed where gen: "fb_Generate (env_circl E) (env_sealing E) (env_os E) (cq_Algorithm req)
      (cq_Passphrase req) (e_files s, e_rand s)
    = (((e_files s)(key_path ?kid \<mapsto> sealed), drop 44 r), Inr (?kid, pub, priv))"
    using fb_Generate_total [where fs = "e_files s" and S = "env_sealing E" and os = "env_os E", OF _ _ _ pass key(1)] E ent(1,2)
    by (auto simp: packages_ok_def no_faults_def)
  have ser: "GenerateSerialNumber (drop 44 r) = Inr (?n, drop 60 r)" "0 < ?n" "?n < 2 ^ 127"
    using GenerateSerialNumber_first [of "drop 44 r"] ent by simp_all
  define s1 where "s1 = s\<lparr>e_files := (e_files s)(key_path ?kid \<mapsto> sealed), e_rand := drop 60 r\<rparr>"
  have "e_files s \<subseteq>\<^sub>m e_files s1" "e_db s1 = e_db s" using ent(2) by (auto simp: s1_def map_le_def dom_def)
  then obtain signer p where sg: "ca_signer E req parent ?kid priv s1 = (s1, Inr (sg_alg signer, signer))"
    "signer_ok (env_circl E) signer"
    "parent_of parent = TemplateItself \<or> parent_of parent = Parent p \<and> subject_ok p
        \<and> crt_RawSubject p \<noteq> [] \<and> length (crt_RawSubject p) \<le> 2 ^ 24"
    using ca_signer_total [OF E policy(2) key(1) pc] by blast
  have prof: "profile = rootProfile \<or> profile = intermediateProfile"
    using ca_parent_Inr [OF policy(2)] by (auto split: if_splits)
  have pub: "pub_ok pub" "pub_ok (sg_pub signer)"
    using GenerateKey_signer [OF _ key(1)] E(1) sg(2) by (auto simp: packages_ok_def signer_ok_def)
  let ?t = "ca_template req profile ?n (sg_alg signer) nb na"
  have t: "crt_Serial ?t = Some ?n" "crt_SigAlg ?t = sg_alg signer" "template_ok ?t" "crt_RawSubject ?t = []"
    "encodable_name (crt_Subject ?t)" "encodable_times (crt_NotBefore ?t) (crt_NotAfter ?t)"
    "CommonName (crt_Subject ?t) \<noteq> [] \<or> \<not> SANs_Empty (crt_SANs ?t)"
    using prof enc policy(1)
    by (auto simp: engine_template_values engine_template_sel engine_templates_ok profile_defs
        create_ca_check_def split: if_splits)
  obtain der cert where cc: "CreateCertificate (Some ?t) (parent_of parent) pub (Some signer) = Inr der"
    "ParseCertificate der = Inr cert" "length der < 2 ^ 31"
    using created_and_parsed [OF t(1) ser(2,3) t(2-7) sg(2) pub(1) sg(3)] ca_extensions_total [OF pub prof]
    by blast
  have raw: "crt_Raw cert = der"
    using cc(2) by (rule ParseCertificate_Inr) (use parse_cert_exts_Inr in \<open>fastforce simp: same_fields_def\<close>)
  have kid: "NewKeyID (drop 60 r) = Inr (?caid, drop 76 r)"
    using ent(1) by (simp add: NewKeyID_def read_full_def)
  let ?row = "ca_row E req ?caid ?kid der now"
  have "ca_ParentID ?row \<noteq> [] \<longrightarrow> ca_ParentID ?row \<in> ca_ID ` set (db_cas (e_db s))"
    using pc by (auto simp: ca_row_def ca_stored_def image_iff dest!: ca_at_set) metis
  then have db: "st_CreateCA (env_faults E) ?row (e_db s)
      = ((e_db s)\<lparr>db_cas := db_cas (e_db s) @ [?row]\<rparr>, Inr ())"
    using E(2) ent(4) by (auto simp: st_CreateCA_def no_faults_def ca_row_def)
  show ?thesis
    using policy gen ser(1) sg(1) cc(1,2) kid db raw cc(3)
    by (intro exI [of _ sealed] exI conjI [rotated])
      (auto simp: CreateCA_def op_bind_def op_res_def op_read_def op_wrap_def op_keys_def op_rand_def
        op_cleanup_def op_db_def s1_def parent_of_def)
qed

subsection \<open>IssueCertificate\<close>

text \<open>The entropy of \<open>IssueCertificate\<close> after the key: an unused serial number that is not zero.\<close>

definition issue_entropy :: "bytes \<Rightarrow> engine \<Rightarrow> bool" where
  "issue_entropy r s =
     (16 \<le> length r \<and> 0 < serial_draw r 0
      \<and> SerialHex (int (serial_draw r 0)) \<notin> ct_Serial ` set (db_certs (e_db s)))"

definition encodable_sans :: "SANs \<Rightarrow> bool" where
  "encodable_sans sans = (san_ok sans \<and> (\<forall>v. marshalSANs sans = Inr v \<longrightarrow> length v \<le> 2 ^ 27))"

lemma caResult_cas: "db_cas d' = db_cas d \<Longrightarrow> caResult E d' rec = caResult E d rec"
  by (simp add: caResult_def st_GetCA_def)

lemma EncodePrivateKeyPEM_total: "priv_ok k \<Longrightarrow> \<exists>text. EncodePrivateKeyPEM P k = Inr text"
  using MarshalPKCS8_total [of k] by (auto simp: EncodePrivateKeyPEM_def)

text \<open>The row that \<open>InsertCertificate\<close> adds.\<close>

definition issued_row ::
  "('pk, 'sk) env \<Rightarrow> IssueRequest \<Rightarrow> Name \<Rightarrow> SANs \<Rightarrow> algorithm \<Rightarrow> Certificate \<Rightarrow> int \<Rightarrow> instant \<Rightarrow> instant
     \<Rightarrow> cert_rec" where
  "issued_row E req subject sans alg cert serial nb na =
     issue_row E (iq_CAID req) serial subject sans alg (crt_Raw cert) [] nb na"

lemma IssueCertificate_total:
  assumes E: "packages_ok E" "no_faults E"
    and req: "iq_CSR req = None" "\<not> iq_StoreKey req" "length (iq_ExtKeyUsage req) \<le> 1000"
    and policy: "issue_ca E (iq_CAID req) (e_db s) = Inr (caRec, caCert)"
      "issue_policy req = Inr (subject, sans, alg)"
      "issue_window E (e_maxValidity s) (iq_ValidityDays req) caCert = Inr (nb, na)"
    and enc: "encodable_times nb na" "encodable_name subject" "encodable_sans sans"
    and key: "GenerateKey (env_circl E) (e_rand s) alg = Inr ((pub, priv), r)" "issue_entropy r s"
    and ca: "ca_stored (env_circl E) (env_pem E) (env_sealing E) (iq_CAID req) caCert (iq_CAPassphrase req) s"
      "length (crt_RawSubject caCert) \<le> 2 ^ 24" "GetCA E (iq_CAID req) s = Inr caRes"
  shows "\<exists>s' res cert. IssueCertificate E req s = (s', Inr res) \<and> ir_Certificate res = cert
    \<and> length (crt_Raw cert) < 2 ^ 31 \<and> ir_Serial res = SerialHex (int (serial_draw r 0))
    \<and> s' = s\<lparr>e_rand := drop 16 r, e_db := (e_db s)\<lparr>db_certs := db_certs (e_db s)
          @ [issued_row E req subject sans alg cert (int (serial_draw r 0)) nb na]\<rparr>\<rparr>"
proof -
  let ?n = "int (serial_draw r 0)"
  have ent: "16 \<le> length r" "0 < serial_draw r 0" "SerialHex ?n \<notin> ct_Serial ` set (db_certs (e_db s))"
    using key(2) by (simp_all add: issue_entropy_def)
  note ser = GenerateSerialNumber_first [OF ent(1,2)]
  note ic = issue_ca_Inr [OF policy(1)]
  note pol = issue_policy_Inr [OF policy(2)]
  have at: "ca_at (iq_CAID req) (e_db s) = Some caRec" using ic(1) by (simp add: GetCA_Inr)
  obtain signer where sg: "ks_Load E (ca_KeyID caRec) (iq_CAPassphrase req) s = Inr signer"
    "signer_ok (env_circl E) signer" "sg_pub signer = crt_PublicKey caCert"
    using ca_stored_signer [OF ca(1) at, of "env_os E"] E(2) by (auto simp: ks_Load_def no_faults_def)
  obtain der0 where "ParseCertificate der0 = Inr caCert" using ic(4) by (auto simp: parseCertPEM_def go_inv)
  then have issuer: "subject_ok caCert" "crt_RawSubject caCert \<noteq> []" using ParseCertificate_subject_ok by blast+
  have pub: "pub_ok pub" "pub_ok (sg_pub signer)" "priv_ok priv"
    using GenerateKey_signer [OF _ key(1)] E(1) sg(2) by (auto simp: packages_ok_def signer_ok_def)
  have alg: "pub_alg (crt_PublicKey caCert) = sg_alg signer" using sg(2,3) by (auto simp: signer_ok_def)
  let ?t = "issue_template req subject sans ?n (sg_alg signer) nb na"
  have t: "crt_Serial ?t = Some ?n" "crt_SigAlg ?t = sg_alg signer" "template_ok ?t" "crt_RawSubject ?t = []"
    "encodable_name (crt_Subject ?t)" "encodable_times (crt_NotBefore ?t) (crt_NotAfter ?t)"
    "CommonName (crt_Subject ?t) \<noteq> [] \<or> \<not> SANs_Empty (crt_SANs ?t)"
    using enc pol(4)
    by (auto simp: engine_template_values engine_template_sel engine_templates_ok encodable_sans_def)
  have "length (issue_ekus req) \<le> 1000" using req(3) by (simp add: issue_ekus_def)
  then obtain der cert where cc: "CreateCertificate (Some ?t) (Parent caCert) pub (Some signer) = Inr der"
    "ParseCertificate der = Inr cert" "length der < 2 ^ 31"
    using created_and_parsed [OF t(1) ser(2,3) t(2-7) sg(2) pub(1), of "Parent caCert" caCert]
      issue_extensions_total [OF pub(1,2) pol(3)] issuer ca(2) enc(3)
    by (auto simp: encodable_sans_def)
  have raw: "crt_Raw cert = der"
    using cc(2) by (rule ParseCertificate_Inr) (use parse_cert_exts_Inr in \<open>fastforce simp: same_fields_def\<close>)
  have id: "ca_ID caRec = iq_CAID req" "caRec \<in> set (db_cas (e_db s))" using ca_at_set [OF at] by simp_all
  let ?row = "issued_row E req subject sans alg cert ?n nb na"
  let ?d = "(e_db s)\<lparr>db_certs := db_certs (e_db s) @ [?row]\<rparr>"
  have "ct_CAID ?row \<in> ca_ID ` set (db_cas (e_db s))" using imageI [OF id(2), of ca_ID] id(1)
    by (simp add: issued_row_def issue_row_def)
  moreover have "ct_Serial ?row = SerialHex ?n" "?row\<lparr>ct_RevokedAt := None, ct_RevocationReason := None\<rparr> = ?row"
    by (simp_all add: issued_row_def issue_row_def)
  ultimately have db: "st_InsertCertificate (env_faults E) ?row (e_db s) = (?d, Inr ())"
    using E(2) ent(3) by (simp add: st_InsertCertificate_def no_faults_def)
  have "caResult E (e_db s) caRec = Inr caRes" using ca(3) ic(1) by (simp add: GetCA_def)
  then have res: "caResult E ?d caRec = Inr caRes" using caResult_cas [of ?d "e_db s" E caRec] by simp
  obtain keyPEM where pem: "EncodePrivateKeyPEM (env_pem E) priv = Inr keyPEM" using EncodePrivateKeyPEM_total [OF pub(3)] by blast
  have key': "issue_key E req alg s = (s\<lparr>e_rand := r\<rparr>, Inr (pub, priv))"
    using req(1) key(1) by (simp add: issue_key_def op_rand_def)
  have csr: "issue_csr_check E req = Inr ()" using req(1) by (simp add: issue_csr_check_def)
  let ?res = "\<lparr>ir_Serial = SerialHex ?n, ir_CertPEM = EncodeCertificatePEM (env_pem E) der,
        ir_ChainPEM = EncodeCertificatePEM (env_pem E) der @ cr_ChainPEM caRes, ir_PrivateKeyPEM = keyPEM,
        ir_Certificate = cert\<rparr>"
  let ?s' = "s\<lparr>e_rand := drop 16 r, e_db := ?d\<rparr>"
  have "IssueCertificate E req s = (?s', Inr ?res)"
    using policy csr sg(1) key' ser(1) cc(1,2) db res pem req alg raw id(1)
    by (simp add: IssueCertificate_def op_bind_def op_res_def op_read_def op_wrap_def op_rand_def
        op_cleanup_def op_db_def issue_store_key_def issued_row_def)
  then show ?thesis
    using cc(3) raw by (intro exI [of _ ?s'] exI [of _ ?res] exI [of _ cert]) simp
qed

end
