(* ===== verification/Engine_Toy.thy ===== *)
theory Engine_Toy
  imports Engine_Live
begin

section \<open>A concrete run of the engine\<close>

text \<open>
  A root, an intermediate and a leaf made by the engine on the concrete packages of the witnesses,
  with a fixed clock and fixed entropy. The runs are obtained from \<open>CreateCA_total\<close> and
  \<open>IssueCertificate_total\<close>, whose premises are evaluated here.
\<close>

definition toy_engine :: engine where
  "toy_engine = \<lparr>e_db = empty_db, e_files = Map.empty,
     e_rand = replicate 108 5 @ replicate 108 6 @ replicate 48 7,
     e_maxValidity = 397 * 24 * hour, e_crlValidity = 168 * hour, e_crlCache = Map.empty\<rparr>"

definition toy_ca_req :: "string \<Rightarrow> string \<Rightarrow> algorithm \<Rightarrow> CreateCARequest" where
  "toy_ca_req parent name alg = \<lparr>cq_Name = name, cq_ParentID = parent, cq_Algorithm = alg,
     cq_Subject = zero_Name\<lparr>CommonName := name\<rparr>, cq_ValidityDays = 0, cq_Passphrase = [1],
     cq_ParentPassphrase = [1]\<rparr>"

definition toy_root_id :: string where "toy_root_id = hex_encode (replicate 16 5)"
definition toy_sub_id :: string where "toy_sub_id = hex_encode (replicate 16 6)"

definition toy_leaf_req :: IssueRequest where
  "toy_leaf_req = \<lparr>iq_CAID = toy_sub_id, iq_CAPassphrase = [1], iq_Subject = zero_Name\<lparr>CommonName := ''leaf''\<rparr>,
     iq_SANs = zero_SANs, iq_Algorithm = 0, iq_ValidityDays = 0, iq_ExtKeyUsage = [], iq_StoreKey = False,
     iq_CSR = None\<rparr>"

subsection \<open>Premises\<close>

lemma toy_packages [simp]: "packages_ok toy_env" "no_faults toy_env"
  by (simp_all add: packages_ok_def no_faults_def toy_env_def toy_os_def toy_circl_ok toy_sealing_ok toy_pem_ok)

lemma toy_generate:
  assumes "alg = MLDSA44 \<or> alg = MLDSA65 \<or> alg = MLDSA87"
  shows "\<exists>pub priv. GenerateKey toy_circl (replicate 32 b @ r) alg = Inr ((pub, priv), r)"
proof -
  have "\<exists>i. alg_info alg = Some i \<and> ai_family i = mldsaFamily \<and> ai_seedSize i = 32"
    using assms by (auto simp: alg_info_def algorithms_def algorithm_consts)
  moreover have "mldsa_package_of toy_circl alg = Some (toy_mldsa alg)"
    using assms by (auto simp: mldsa_package_of_def toy_circl_def algorithm_consts)
  ultimately show ?thesis
    by (auto simp: GenerateKey_def mldsa_generateKey_def read_full_def SeedSize_def key_Signer_def
        mldsa_signer_def toy_mldsa_def Let_def)
qed

lemma toy_name:
  assumes "n = ''root'' \<or> n = ''sub'' \<or> n = ''leaf''"
  shows "encodable_name (zero_Name\<lparr>CommonName := n\<rparr>)"
    "\<And>b. ToRDNSequence (zero_Name\<lparr>CommonName := n\<rparr>) = Inr b \<Longrightarrow> length b \<le> 2 ^ 24"
proof -
  have "case ToRDNSequence (zero_Name\<lparr>CommonName := ''root''\<rparr>) of Inr b \<Rightarrow> length b < 50 | Inl e \<Rightarrow> False"
    "case ToRDNSequence (zero_Name\<lparr>CommonName := ''sub''\<rparr>) of Inr b \<Rightarrow> length b < 50 | Inl e \<Rightarrow> False"
    "case ToRDNSequence (zero_Name\<lparr>CommonName := ''leaf''\<rparr>) of Inr b \<Rightarrow> length b < 50 | Inl e \<Rightarrow> False"
    by code_simp+
  then obtain b where b: "ToRDNSequence (zero_Name\<lparr>CommonName := n\<rparr>) = Inr b" "length b < 50"
    using assms by (auto split: sum.splits)
  moreover have "name_size (zero_Name\<lparr>CommonName := n\<rparr>) \<le> 2 ^ 30"
    using assms by (auto simp: name_size_def zero_Name_def name_parts_def)
  ultimately show "encodable_name (zero_Name\<lparr>CommonName := n\<rparr>)" by (simp add: encodable_name_def)
  show "length b' \<le> 2 ^ 24" if "ToRDNSequence (zero_Name\<lparr>CommonName := n\<rparr>) = Inr b'" for b'
    using b that by simp
qed

lemma toy_times:
  assumes "days = 3650 \<or> days = 1825 \<or> days = 90"
  shows "time_AddDays toy_now days = toy_now + days * 86400 * second"
    "time_Add toy_now (- clockSkew) = toy_now - 300 * second"
    "encodable_times (toy_now - 300 * second) (toy_now + days * 86400 * second)"
proof -
  have "time_Year (time_Truncate (toy_now - 300 * second)) = 2024"
    "time_Year (time_Truncate (toy_now + 3650 * 86400 * second)) = 2034"
    "time_Year (time_Truncate (toy_now + 1825 * 86400 * second)) = 2029"
    "time_Year (time_Truncate (toy_now + 90 * 86400 * second)) = 2025"
    by code_simp+
  then have y: "0 \<le> time_Year (time_Truncate t) \<and> time_Year (time_Truncate t) \<le> 9999"
    if "t = toy_now - 300 * second \<or> t = toy_now + days * 86400 * second" for t
    using assms that by auto
  have "\<exists>r. marshalTime t = Inr r" if "t = toy_now - 300 * second \<or> t = toy_now + days * 86400 * second" for t
    using marshalTime_parse [of t] y [OF that] by blast
  then show "encodable_times (toy_now - 300 * second) (toy_now + days * 86400 * second)"
    using assms by (auto simp: encodable_times_def second_def)
  show "time_AddDays toy_now days = toy_now + days * 86400 * second"
    using time_AddDays_exact [of toy_now days] assms by (auto simp: day_seconds_def)
  show "time_Add toy_now (- clockSkew) = toy_now - 300 * second"
    using time_Add_exact [of toy_now "- clockSkew"] by (simp add: clockSkew_def second_def)
qed

lemma toy_truncate: "time_Truncate (toy_now + k * second) = toy_now + k * second"
  "time_Truncate (toy_now - k * second) = toy_now - k * second"
proof -
  have "toy_now + k * second = (63871200000 + k) * second" "toy_now - k * second = (63871200000 - k) * second"
    by (simp_all add: toy_now_def algebra_simps)
  then show "time_Truncate (toy_now + k * second) = toy_now + k * second"
    "time_Truncate (toy_now - k * second) = toy_now - k * second"
    by (simp_all add: time_Truncate_def)
qed

lemma toy_draw:
  "serial_draw (replicate 16 5 @ r) 0 = be_value (replicate 16 5)"
  "serial_draw (replicate 16 6 @ r) 0 = be_value (replicate 16 6)"
  "serial_draw (replicate 16 7 @ r) 0 = be_value (replicate 16 7)"
  "0 < be_value (replicate 16 5)" "0 < be_value (replicate 16 6)" "0 < be_value (replicate 16 7)"
proof -
  have r: "replicate 16 b = [b, b, b, b, b, b, b, b, b, b, b, b, b, b, b, b]" for b :: byte
    by (simp add: numeral_eq_Suc)
  have "be_value (replicate 16 5) mod 2 ^ 127 = be_value (replicate 16 5)"
    "be_value (replicate 16 6) mod 2 ^ 127 = be_value (replicate 16 6)"
    "be_value (replicate 16 7) mod 2 ^ 127 = be_value (replicate 16 7)"
    "0 < be_value (replicate 16 5)" "0 < be_value (replicate 16 6)" "0 < be_value (replicate 16 7)"
    by (simp_all add: r be_value_def)
  then show "serial_draw (replicate 16 5 @ r) 0 = be_value (replicate 16 5)"
    "serial_draw (replicate 16 6 @ r) 0 = be_value (replicate 16 6)"
    "serial_draw (replicate 16 7 @ r) 0 = be_value (replicate 16 7)"
    "0 < be_value (replicate 16 5)" "0 < be_value (replicate 16 6)" "0 < be_value (replicate 16 7)"
    by (simp_all add: serial_draw_def)
qed

lemma toy_ids: "toy_root_id \<noteq> []" "toy_root_id \<noteq> toy_sub_id" "key_path toy_root_id \<noteq> key_path toy_sub_id"
proof -
  show "toy_root_id \<noteq> []" "toy_root_id \<noteq> toy_sub_id" by code_simp+
  then show "key_path toy_root_id \<noteq> key_path toy_sub_id" by (simp add: key_path_inj)
qed

subsection \<open>The root\<close>

lemma toy_split:
  "replicate 108 (b :: byte) = replicate 32 b @ replicate 16 b @ replicate 28 b @ replicate 16 b @ replicate 16 b"
  by (simp flip: replicate_add)

lemma toy_drop44:
  "drop 44 (replicate 16 (b :: byte) @ replicate 28 b @ replicate 16 b @ replicate 16 b @ r)
     = replicate 16 b @ replicate 16 b @ r"
  by (simp add: drop_append)

lemma toy_entropy:
  assumes "b = 5 \<or> b = 6" "e_files s (key_path (hex_encode (replicate 16 b))) = None"
    and "hex_encode (replicate 16 b) \<notin> ca_ID ` set (db_cas (e_db s))"
  shows "ca_entropy (replicate 16 b @ replicate 28 b @ replicate 16 b @ replicate 16 b @ r) s"
    "take 16 (drop 60 (replicate 16 b @ replicate 28 b @ replicate 16 b @ replicate 16 b @ r)) = replicate 16 b"
    "drop 76 (replicate 16 b @ replicate 28 b @ replicate 16 b @ replicate 16 b @ r) = r"
proof -
  let ?r = "replicate 16 b @ replicate 28 b @ replicate 16 b @ replicate 16 b @ r"
  show id: "take 16 (drop 60 ?r) = replicate 16 b" and "drop 76 ?r = r" by (simp_all add: drop_append)
  have "0 < serial_draw (drop 44 ?r) 0" unfolding toy_drop44 using assms(1) toy_draw by auto
  moreover have "take 16 ?r = replicate 16 b" "76 \<le> length ?r" by simp_all
  ultimately show "ca_entropy ?r s" using assms(2,3) unfolding ca_entropy_def id by simp
qed

definition toy_rest :: "byte \<Rightarrow> bytes \<Rightarrow> bytes" where
  "toy_rest b r = replicate 16 b @ replicate 28 b @ replicate 16 b @ replicate 16 b @ r"

abbreviation toy_root_req :: CreateCARequest where
  "toy_root_req \<equiv> toy_ca_req [] ''root'' MLDSA87"

lemma toy_root_policy:
  "create_ca_check toy_root_req = Inr ()" "ca_parent toy_env toy_root_req (e_db toy_engine) = Inr (rootProfile, None)"
  "checkAlgorithm rootProfile (cq_Algorithm toy_root_req) = Inr ()"
  "resolveDays rootProfile (cq_ValidityDays toy_root_req) = Inr 3650"
  "ca_window toy_env 3650 None = Inr (toy_now, toy_now - 300 * second, toy_now + 3650 * 86400 * second)"
proof -
  have "trim_space ''root'' = ''root''" by code_simp
  then show "create_ca_check toy_root_req = Inr ()" by (simp add: create_ca_check_def toy_ca_req_def)
  show "ca_window toy_env 3650 None = Inr (toy_now, toy_now - 300 * second, toy_now + 3650 * 86400 * second)"
    using toy_times [of 3650] by (simp add: ca_window_def Let_def)
qed (simp_all add: ca_parent_def toy_ca_req_def checkAlgorithm_Inr profile_defs resolveDays_def validity_defs)

lemma toy_root_ready:
  "\<exists>pub priv. GenerateKey (env_circl toy_env) (e_rand toy_engine) (cq_Algorithm toy_root_req)
     = Inr ((pub, priv), toy_rest 5 (replicate 108 6 @ replicate 48 7))"
  "ca_entropy (toy_rest 5 (replicate 108 6 @ replicate 48 7)) toy_engine"
  "encodable_times (toy_now - 300 * second) (toy_now + 3650 * 86400 * second)"
  "encodable_name (cq_Subject toy_root_req)"
proof -
  let ?rest = "replicate 108 6 @ replicate 48 7 :: bytes"
  have rnd: "e_rand toy_engine = replicate 32 5 @ toy_rest 5 ?rest"
    unfolding toy_engine_def toy_split [of 5] by (simp add: toy_rest_def)
  show "\<exists>pub priv. GenerateKey (env_circl toy_env) (e_rand toy_engine) (cq_Algorithm toy_root_req)
     = Inr ((pub, priv), toy_rest 5 ?rest)"
    using toy_generate [of MLDSA87 5 "toy_rest 5 ?rest"] unfolding rnd by (simp add: toy_env_def toy_ca_req_def)
  have "e_db toy_engine = empty_db" "e_files toy_engine = Map.empty" by (simp_all add: toy_engine_def)
  then show "ca_entropy (toy_rest 5 ?rest) toy_engine"
    unfolding toy_rest_def by (intro toy_entropy) (simp_all add: empty_db_def)
  show "encodable_times (toy_now - 300 * second) (toy_now + 3650 * 86400 * second)"
    using toy_times(3) by blast
  show "encodable_name (cq_Subject toy_root_req)"
    using toy_name(1) [of "''root''"] by (simp add: toy_ca_req_def)
qed

lemma toy_root_created:
  "\<exists>s1 root sealed cert. CreateCA toy_env toy_root_req toy_engine = (s1, Inr root)
    \<and> cr_Certificate root = cert \<and> length (crt_Raw cert) < 2 ^ 31 \<and> cr_ID root = toy_root_id
    \<and> s1 = toy_engine\<lparr>e_files := [key_path toy_root_id \<mapsto> sealed],
        e_rand := replicate 108 6 @ replicate 48 7,
        e_db := empty_db\<lparr>db_cas := [ca_row toy_env toy_root_req toy_root_id toy_root_id (crt_Raw cert) toy_now]\<rparr>\<rparr>"
proof -
  let ?rest = "replicate 108 6 @ replicate 48 7 :: bytes"
  obtain pub priv where key: "GenerateKey (env_circl toy_env) (e_rand toy_engine) (cq_Algorithm toy_root_req)
     = Inr ((pub, priv), toy_rest 5 ?rest)"
    using toy_root_ready(1) by blast
  have st: "cq_ParentID toy_root_req = []" "e_db toy_engine = empty_db" "e_files toy_engine = Map.empty"
    by (simp_all add: toy_ca_req_def toy_engine_def)
  have r: "take 16 (drop 60 (toy_rest 5 ?rest)) = replicate 16 5" "drop 76 (toy_rest 5 ?rest) = ?rest"
    "take 16 (toy_rest 5 ?rest) = replicate 16 5"
    using toy_entropy(2,3) [of 5 toy_engine ?rest] by (simp_all add: toy_rest_def st empty_db_def)
  show ?thesis
    using CreateCA_total [OF toy_packages toy_root_policy toy_root_ready(3,4) key toy_root_ready(2)]
    by (simp add: st r empty_db_def toy_root_id_def)
qed

subsection \<open>The intermediate\<close>

lemma toy_parent:
  assumes "CreateCA toy_env toy_root_req toy_engine = (s1, Inr root)"
    and "length (crt_Raw (cr_Certificate root)) < 2 ^ 31" "cr_ID root = toy_root_id"
  shows "ca_stored toy_circl toy_pem toy_sealing toy_root_id (cr_Certificate root) [1] s1"
    "length (crt_RawSubject (cr_Certificate root)) \<le> 2 ^ 24"
    "ParseCertificate (crt_Raw (cr_Certificate root)) = Inr (cr_Certificate root)"
    "crt_NotAfter (cr_Certificate root) = toy_now + 3650 * 86400 * second"
    "crt_NotBefore (cr_Certificate root) = toy_now - 300 * second"
proof -
  let ?req = toy_root_req
  have sel: "cq_ParentID ?req = []" "cq_Subject ?req = zero_Name\<lparr>CommonName := ''root''\<rparr>" "cq_Passphrase ?req = [1]"
    by (simp_all add: toy_ca_req_def)
  have n: "name_size (cq_Subject ?req) \<le> 2 ^ 30"
    using toy_name(1) [of "''root''"] by (simp add: sel encodable_name_def)
  have env: "env_circl toy_env = toy_circl" "env_pem toy_env = toy_pem" "env_sealing toy_env = toy_sealing"
    by (simp_all add: toy_env_def)
  note m = CreateCA_certificate [OF assms(1) _ _ _ assms(2) n]
  have c: "ca_stored toy_circl toy_pem toy_sealing (cr_ID root) (cr_Certificate root) [1] s1"
    "ParseCertificate (crt_Raw (cr_Certificate root)) = Inr (cr_Certificate root)"
    "ToRDNSequence (zero_Name\<lparr>CommonName := ''root''\<rparr>) = Inr (crt_RawSubject (cr_Certificate root))"
    using m by (simp_all add: env sel toy_circl_ok toy_sealing_ok toy_pem_ok)
  show "ca_stored toy_circl toy_pem toy_sealing toy_root_id (cr_Certificate root) [1] s1"
    "ParseCertificate (crt_Raw (cr_Certificate root)) = Inr (cr_Certificate root)"
    using c assms(3) by simp_all
  show "length (crt_RawSubject (cr_Certificate root)) \<le> 2 ^ 24" using toy_name(2) c(3) by blast
  have "resolveDays rootProfile (cq_ValidityDays ?req) = Inr 3650"
    by (simp add: toy_ca_req_def profile_defs resolveDays_def validity_defs)
  then show "crt_NotAfter (cr_Certificate root) = toy_now + 3650 * 86400 * second"
    "crt_NotBefore (cr_Certificate root) = toy_now - 300 * second"
    using m toy_times(1,2) [of 3650] toy_truncate by (simp_all add: env sel toy_circl_ok toy_sealing_ok toy_pem_ok)
qed

lemma toy_parse:
  "ParseCertificate (crt_Raw c) = Inr c \<Longrightarrow> parseCertPEM (env_pem toy_env) (EncodeCertificatePEM (env_pem toy_env) (crt_Raw c)) = Inr c"
  using Decode_EncodeCertificatePEM [OF toy_pem_ok, of "crt_Raw c" "[]"] by (simp add: parseCertPEM_def toy_env_def)

lemma toy_sub_created:
  "\<exists>s1 root s2 sub. CreateCA toy_env toy_root_req toy_engine = (s1, Inr root)
    \<and> length (crt_Raw (cr_Certificate root)) < 2 ^ 31 \<and> cr_ID root = toy_root_id
    \<and> CreateCA toy_env (toy_ca_req toy_root_id ''sub'' MLDSA65) s1 = (s2, Inr sub)
    \<and> length (crt_Raw (cr_Certificate sub)) < 2 ^ 31 \<and> cr_ID sub = toy_sub_id
    \<and> e_rand s2 = replicate 48 7 \<and> e_maxValidity s2 = 397 * 24 * hour
    \<and> e_db s2 = empty_db\<lparr>db_cas :=
        [ca_row toy_env toy_root_req toy_root_id toy_root_id (crt_Raw (cr_Certificate root)) toy_now,
         ca_row toy_env (toy_ca_req toy_root_id ''sub'' MLDSA65) toy_sub_id toy_sub_id (crt_Raw (cr_Certificate sub)) toy_now]\<rparr>"
proof -
  obtain s1 root sealed where root: "CreateCA toy_env toy_root_req toy_engine = (s1, Inr root)"
    "length (crt_Raw (cr_Certificate root)) < 2 ^ 31" "cr_ID root = toy_root_id"
    and s1: "s1 = toy_engine\<lparr>e_files := [key_path toy_root_id \<mapsto> sealed], e_rand := replicate 108 6 @ replicate 48 7,
        e_db := empty_db\<lparr>db_cas := [ca_row toy_env toy_root_req toy_root_id toy_root_id
          (crt_Raw (cr_Certificate root)) toy_now]\<rparr>\<rparr>"
    using toy_root_created by blast
  note P = toy_parent [OF root]
  let ?rc = "cr_Certificate root" and ?req = "toy_ca_req toy_root_id ''sub'' MLDSA65"
  let ?row = "ca_row toy_env toy_root_req toy_root_id toy_root_id (crt_Raw ?rc) toy_now"
  let ?r = "replicate 16 6 @ replicate 28 6 @ replicate 16 6 @ replicate 16 6 @ replicate 48 7 :: bytes"
  have sel: "cq_Algorithm ?req = MLDSA65" "cq_Subject ?req = zero_Name\<lparr>CommonName := ''sub''\<rparr>"
    "cq_ParentID ?req = toy_root_id" "cq_ParentPassphrase ?req = [1]"
    by (simp_all add: toy_ca_req_def)
  have env: "env_circl toy_env = toy_circl" "env_sealing toy_env = toy_sealing" "env_pem toy_env = toy_pem"
    "env_faults toy_env = (\<lambda>_. False)"
    by (simp_all add: toy_env_def)
  have st: "e_rand s1 = replicate 32 6 @ ?r" "e_db s1 = \<lparr>db_cas = [?row], db_certs = [], db_tokens = []\<rparr>"
    "e_files s1 = [key_path toy_root_id \<mapsto> sealed]"
    unfolding s1 toy_split [of 6] by (simp_all add: empty_db_def)
  obtain pub priv where key: "GenerateKey (env_circl toy_env) (e_rand s1) (cq_Algorithm ?req) = Inr ((pub, priv), ?r)"
    using toy_generate [of MLDSA65 6 ?r] unfolding st(1) by (auto simp: env sel)
  have row: "ca_ID ?row = toy_root_id" "ca_ParentID ?row = []" "ca_Status ?row = StatusActive"
    "ca_CertPEM ?row = EncodeCertificatePEM (env_pem toy_env) (crt_Raw ?rc)"
    by (simp_all add: ca_row_def toy_ca_req_def)
  have ids: "hex_encode (replicate 16 6) = toy_sub_id" by (simp add: toy_sub_id_def)
  have free: "e_files s1 (key_path (hex_encode (replicate 16 6))) = None"
    "hex_encode (replicate 16 6) \<notin> ca_ID ` set (db_cas (e_db s1))"
    unfolding ids using toy_ids by (simp_all add: st row)
  have ent: "ca_entropy ?r s1" by (rule toy_entropy [OF _ free]) simp
  have policy: "create_ca_check ?req = Inr ()" "ca_parent toy_env ?req (e_db s1) = Inr (intermediateProfile, Some (?row, ?rc))"
    "checkAlgorithm intermediateProfile (cq_Algorithm ?req) = Inr ()"
    "resolveDays intermediateProfile (cq_ValidityDays ?req) = Inr 1825"
    "ca_window toy_env 1825 (Some (?row, ?rc)) = Inr (toy_now, toy_now - 300 * second, toy_now + 1825 * 86400 * second)"
  proof -
    have "trim_space ''sub'' = ''sub''" by code_simp
    then show "create_ca_check ?req = Inr ()" by (simp add: create_ca_check_def toy_ca_req_def)
    have "st_GetCA (env_faults toy_env) toy_root_id (e_db s1) = Inr ?row"
      by (simp add: st_GetCA_def st row env)
    then show "ca_parent toy_env ?req (e_db s1) = Inr (intermediateProfile, Some (?row, ?rc))"
      using toy_ids(1) toy_parse [OF P(3)] by (simp add: ca_parent_def sel row)
    show "ca_window toy_env 1825 (Some (?row, ?rc)) = Inr (toy_now, toy_now - 300 * second, toy_now + 1825 * 86400 * second)"
      using toy_times [of 1825] by (simp add: ca_window_def Let_def P(4) second_def)
  qed (simp_all add: toy_ca_req_def checkAlgorithm_Inr profile_defs resolveDays_def validity_defs)
  have parent: "ca_stored (env_circl toy_env) (env_pem toy_env) (env_sealing toy_env) (cq_ParentID ?req) ?rc
      (cq_ParentPassphrase ?req) s1 \<and> length (crt_RawSubject ?rc) \<le> 2 ^ 24"
    unfolding env sel using P(1,2) by blast
  have ns: "encodable_name (cq_Subject ?req)" unfolding sel using toy_name(1) [of "''sub''"] by simp
  have tm: "encodable_times (toy_now - 300 * second) (toy_now + 1825 * 86400 * second)" using toy_times(3) by blast
  note r = toy_entropy(2,3) [OF _ free, of "replicate 48 7"]
  obtain s2 sub sealed2 where
    "CreateCA toy_env ?req s1 = (s2, Inr sub)" "length (crt_Raw (cr_Certificate sub)) < 2 ^ 31"
    "cr_ID sub = hex_encode (take 16 (drop 60 ?r))"
    "s2 = s1\<lparr>e_files := (e_files s1)(key_path (hex_encode (take 16 ?r)) \<mapsto> sealed2), e_rand := drop 76 ?r,
        e_db := (e_db s1)\<lparr>db_cas := db_cas (e_db s1)
          @ [ca_row toy_env ?req (hex_encode (take 16 (drop 60 ?r))) (hex_encode (take 16 ?r))
              (crt_Raw (cr_Certificate sub)) toy_now]\<rparr>\<rparr>"
    using CreateCA_total [OF toy_packages policy tm ns key ent] parent by blast
  moreover have "e_maxValidity s1 = 397 * 24 * hour" by (simp add: s1 toy_engine_def)
  ultimately show ?thesis
    using root r by (intro exI [of _ s1] exI [of _ root] exI [of _ s2] exI [of _ sub]) (simp add: st ids empty_db_def)
qed

subsection \<open>The leaf\<close>

lemma toy_issuer_sub:
  assumes "CreateCA toy_env toy_root_req toy_engine = (s1, Inr root)"
    and "length (crt_Raw (cr_Certificate root)) < 2 ^ 31" "cr_ID root = toy_root_id"
    and "CreateCA toy_env (toy_ca_req toy_root_id ''sub'' MLDSA65) s1 = (s2, Inr sub)"
    and "length (crt_Raw (cr_Certificate sub)) < 2 ^ 31" "cr_ID sub = toy_sub_id"
  shows "ca_stored toy_circl toy_pem toy_sealing toy_sub_id (cr_Certificate sub) [1] s2"
    "length (crt_RawSubject (cr_Certificate sub)) \<le> 2 ^ 24"
    "ParseCertificate (crt_Raw (cr_Certificate sub)) = Inr (cr_Certificate sub)"
    "crt_NotAfter (cr_Certificate sub) = toy_now + 1825 * 86400 * second"
    "crt_NotBefore (cr_Certificate sub) = toy_now - 300 * second"
proof -
  let ?req = "toy_ca_req toy_root_id ''sub'' MLDSA65"
  have sel: "cq_ParentID ?req = toy_root_id" "cq_Subject ?req = zero_Name\<lparr>CommonName := ''sub''\<rparr>"
    "cq_Passphrase ?req = [1]" "cq_ParentPassphrase ?req = [1]" "(toy_root_id = []) = False"
    using toy_ids(1) by (simp_all add: toy_ca_req_def)
  have n: "name_size (cq_Subject ?req) \<le> 2 ^ 30"
    using toy_name(1) [of "''sub''"] by (simp add: sel encodable_name_def)
  have env: "env_circl toy_env = toy_circl" "env_pem toy_env = toy_pem" "env_sealing toy_env = toy_sealing"
    by (simp_all add: toy_env_def)
  note m = CreateCA_certificate [OF assms(4) _ _ _ assms(5) n, of "cr_Certificate root"]
  note P = toy_parent(1) [OF assms(1-3)]
  have c: "ca_stored toy_circl toy_pem toy_sealing toy_sub_id (cr_Certificate sub) [1] s2"
    "ParseCertificate (crt_Raw (cr_Certificate sub)) = Inr (cr_Certificate sub)"
    "ToRDNSequence (zero_Name\<lparr>CommonName := ''sub''\<rparr>) = Inr (crt_RawSubject (cr_Certificate sub))"
    using m P assms(6) by (simp_all add: env sel toy_circl_ok toy_sealing_ok toy_pem_ok)
  then show "ca_stored toy_circl toy_pem toy_sealing toy_sub_id (cr_Certificate sub) [1] s2"
    "ParseCertificate (crt_Raw (cr_Certificate sub)) = Inr (cr_Certificate sub)" by blast+
  show "length (crt_RawSubject (cr_Certificate sub)) \<le> 2 ^ 24" using toy_name(2) c(3) by blast
  have "resolveDays intermediateProfile (cq_ValidityDays ?req) = Inr 1825"
    by (simp add: toy_ca_req_def profile_defs resolveDays_def validity_defs)
  then show "crt_NotAfter (cr_Certificate sub) = toy_now + 1825 * 86400 * second"
    "crt_NotBefore (cr_Certificate sub) = toy_now - 300 * second"
    using m P toy_times(1,2) [of 1825] toy_truncate by (simp_all add: env sel toy_circl_ok toy_sealing_ok toy_pem_ok)
qed

lemma toy_issue_premises:
  assumes "e_db s2 = empty_db\<lparr>db_cas :=
        [ca_row toy_env toy_root_req toy_root_id toy_root_id (crt_Raw rc) toy_now,
         ca_row toy_env (toy_ca_req toy_root_id ''sub'' MLDSA65) toy_sub_id toy_sub_id (crt_Raw sc) toy_now]\<rparr>"
    and "ParseCertificate (crt_Raw sc) = Inr sc" "e_maxValidity s2 = 397 * 24 * hour"
    and "crt_NotAfter sc = toy_now + 1825 * 86400 * second" "e_rand s2 = replicate 48 7"
  shows "\<exists>caRec. issue_ca toy_env toy_sub_id (e_db s2) = Inr (caRec, sc)"
    "\<exists>caRes. GetCA toy_env toy_sub_id s2 = Inr caRes"
    "issue_policy toy_leaf_req = Inr (zero_Name\<lparr>CommonName := ''leaf''\<rparr>, zero_SANs, MLDSA44)"
    "issue_window toy_env (e_maxValidity s2) 0 sc = Inr (toy_now - 300 * second, toy_now + 90 * 86400 * second)"
    "\<exists>pub priv. GenerateKey toy_circl (e_rand s2) MLDSA44 = Inr ((pub, priv), replicate 16 7)"
    "issue_entropy (replicate 16 7) s2"
proof -
  let ?root = "ca_row toy_env toy_root_req toy_root_id toy_root_id (crt_Raw rc) toy_now"
  let ?sub = "ca_row toy_env (toy_ca_req toy_root_id ''sub'' MLDSA65) toy_sub_id toy_sub_id (crt_Raw sc) toy_now"
  have row: "ca_ID ?root = toy_root_id" "ca_ID ?sub = toy_sub_id" "ca_ParentID ?sub = toy_root_id"
    "ca_Status ?sub = StatusActive" "ca_CertPEM ?sub = EncodeCertificatePEM (env_pem toy_env) (crt_Raw sc)"
    "ca_Algorithm ?sub = alg_String MLDSA65"
    by (simp_all add: ca_row_def toy_ca_req_def)
  have env: "env_faults toy_env = (\<lambda>_. False)" "env_circl toy_env = toy_circl" by (simp_all add: toy_env_def)
  have db: "e_db s2 = \<lparr>db_cas = [?root, ?sub], db_certs = [], db_tokens = []\<rparr>" using assms(1) by (simp add: empty_db_def)
  have get: "st_GetCA (env_faults toy_env) toy_sub_id (e_db s2) = Inr ?sub"
    "st_GetCA (env_faults toy_env) toy_root_id (e_db s2) = Inr ?root"
    "st_GetCA (parent_faults toy_env) toy_root_id (e_db s2) = Inr ?root"
    using toy_ids(2) by (simp_all add: st_GetCA_def db row env parent_faults_def)
  note pem = toy_parse [OF assms(2)]
  show "\<exists>caRec. issue_ca toy_env toy_sub_id (e_db s2) = Inr (caRec, sc)"
    using toy_ids(1) by (simp add: issue_ca_def get row pem)
  have "alg_Valid MLDSA65" by (simp add: alg_Valid_iff algorithm_consts)
  then have "ParseAlgorithm (alg_String MLDSA65) = Inr MLDSA65" by (rule ParseAlgorithm_alg_String)
  then show "\<exists>caRes. GetCA toy_env toy_sub_id s2 = Inr caRes"
    using toy_ids(1) by (simp add: GetCA_def get caResult_def row pem)
  have "checkEndEntityAlgorithm MLDSA44 = Inr ()"
    using checkEndEntityAlgorithm_Inr [of MLDSA44] by (simp add: endEntityAlgorithms_def)
  then show "issue_policy toy_leaf_req = Inr (zero_Name\<lparr>CommonName := ''leaf''\<rparr>, zero_SANs, MLDSA44)"
    by (simp add: issue_policy_def issue_subject_def toy_leaf_req_def checkExtKeyUsage_Inr
        issue_ekus_def)
  show "issue_window toy_env (e_maxValidity s2) 0 sc = Inr (toy_now - 300 * second, toy_now + 90 * 86400 * second)"
    using toy_times(1,2) [of 90]
    by (simp add: issue_window_def Let_def endEntityValidityDays_def requested_validity_wrap wrap64_def assms(3,4)
        hour_def day_seconds_def second_def)
  have "replicate 48 7 = replicate 32 (7 :: byte) @ replicate 16 7" by (simp flip: replicate_add)
  then show "\<exists>pub priv. GenerateKey toy_circl (e_rand s2) MLDSA44 = Inr ((pub, priv), replicate 16 7)"
    using toy_generate [of MLDSA44 7 "replicate 16 7"] by (simp add: assms(5))
  show "issue_entropy (replicate 16 7) s2"
    using toy_draw(3) [of "[]"] toy_draw(6) by (simp add: issue_entropy_def db)
qed

lemma toy_leaf_ready:
  "\<exists>s1 root s2 sub caRec caRes pub priv. CreateCA toy_env toy_root_req toy_engine = (s1, Inr root)
    \<and> length (crt_Raw (cr_Certificate root)) < 2 ^ 31 \<and> cr_ID root = toy_root_id
    \<and> CreateCA toy_env (toy_ca_req toy_root_id ''sub'' MLDSA65) s1 = (s2, Inr sub)
    \<and> length (crt_Raw (cr_Certificate sub)) < 2 ^ 31 \<and> cr_ID sub = toy_sub_id
    \<and> issue_ca toy_env (iq_CAID toy_leaf_req) (e_db s2) = Inr (caRec, cr_Certificate sub)
    \<and> issue_policy toy_leaf_req = Inr (zero_Name\<lparr>CommonName := ''leaf''\<rparr>, zero_SANs, MLDSA44)
    \<and> issue_window toy_env (e_maxValidity s2) (iq_ValidityDays toy_leaf_req) (cr_Certificate sub)
        = Inr (toy_now - 300 * second, toy_now + 90 * 86400 * second)
    \<and> GenerateKey (env_circl toy_env) (e_rand s2) MLDSA44 = Inr ((pub, priv), replicate 16 7)
    \<and> issue_entropy (replicate 16 7) s2
    \<and> ca_stored (env_circl toy_env) (env_pem toy_env) (env_sealing toy_env) (iq_CAID toy_leaf_req) (cr_Certificate sub)
        (iq_CAPassphrase toy_leaf_req) s2
    \<and> length (crt_RawSubject (cr_Certificate sub)) \<le> 2 ^ 24
    \<and> GetCA toy_env (iq_CAID toy_leaf_req) s2 = Inr caRes"
proof -
  obtain s1 root s2 sub where
    ca: "CreateCA toy_env toy_root_req toy_engine = (s1, Inr root)"
      "length (crt_Raw (cr_Certificate root)) < 2 ^ 31" "cr_ID root = toy_root_id"
      "CreateCA toy_env (toy_ca_req toy_root_id ''sub'' MLDSA65) s1 = (s2, Inr sub)"
      "length (crt_Raw (cr_Certificate sub)) < 2 ^ 31" "cr_ID sub = toy_sub_id"
    and st: "e_rand s2 = replicate 48 7" "e_maxValidity s2 = 397 * 24 * hour"
    and db: "e_db s2 = empty_db\<lparr>db_cas :=
        [ca_row toy_env toy_root_req toy_root_id toy_root_id (crt_Raw (cr_Certificate root)) toy_now,
         ca_row toy_env (toy_ca_req toy_root_id ''sub'' MLDSA65) toy_sub_id toy_sub_id (crt_Raw (cr_Certificate sub)) toy_now]\<rparr>"
    using toy_sub_created by blast
  note P = toy_issuer_sub [OF ca]
  note Q = toy_issue_premises [OF db P(3) st(2) P(4) st(1)]
  have sel: "iq_CAID toy_leaf_req = toy_sub_id" "iq_CAPassphrase toy_leaf_req = [1]" "iq_ValidityDays toy_leaf_req = 0"
    by (simp_all add: toy_leaf_req_def)
  have env: "env_circl toy_env = toy_circl" "env_pem toy_env = toy_pem" "env_sealing toy_env = toy_sealing"
    by (simp_all add: toy_env_def)
  show ?thesis unfolding env sel using ca P(1,2) Q by blast
qed

lemma toy_leaf_values:
  "iq_CSR toy_leaf_req = None" "\<not> iq_StoreKey toy_leaf_req" "length (iq_ExtKeyUsage toy_leaf_req) \<le> 1000"
  "issue_subject toy_leaf_req = (zero_Name\<lparr>CommonName := ''leaf''\<rparr>, zero_SANs, MLDSA44)"
  "encodable_sans zero_SANs" "encodable_name (zero_Name\<lparr>CommonName := ''leaf''\<rparr>)"
  "encodable_times (toy_now - 300 * second) (toy_now + 90 * 86400 * second)"
  by (simp_all add: toy_leaf_req_def issue_subject_def encodable_sans_def san_ok_def zero_SANs_def marshalSANs_def
      SANs_Empty_def toy_name(1)) (rule toy_times(3) [of 90, simplified])

lemma toy_leaf_issued:
  "\<exists>s1 root s2 sub s3 leaf. CreateCA toy_env toy_root_req toy_engine = (s1, Inr root)
    \<and> length (crt_Raw (cr_Certificate root)) < 2 ^ 31 \<and> cr_ID root = toy_root_id
    \<and> CreateCA toy_env (toy_ca_req toy_root_id ''sub'' MLDSA65) s1 = (s2, Inr sub)
    \<and> length (crt_Raw (cr_Certificate sub)) < 2 ^ 31 \<and> cr_ID sub = toy_sub_id
    \<and> IssueCertificate toy_env toy_leaf_req s2 = (s3, Inr leaf)
    \<and> length (crt_Raw (ir_Certificate leaf)) < 2 ^ 31 \<and> valid_at (ir_Certificate leaf) toy_now
    \<and> crt_NotBefore (cr_Certificate sub) \<le> toy_now \<and> crt_NotBefore (cr_Certificate root) \<le> toy_now"
proof -
  obtain s1 root s2 sub caRec caRes pub priv where
    ca: "CreateCA toy_env toy_root_req toy_engine = (s1, Inr root)"
      "length (crt_Raw (cr_Certificate root)) < 2 ^ 31" "cr_ID root = toy_root_id"
      "CreateCA toy_env (toy_ca_req toy_root_id ''sub'' MLDSA65) s1 = (s2, Inr sub)"
      "length (crt_Raw (cr_Certificate sub)) < 2 ^ 31" "cr_ID sub = toy_sub_id"
    and q: "issue_ca toy_env (iq_CAID toy_leaf_req) (e_db s2) = Inr (caRec, cr_Certificate sub)"
      "issue_policy toy_leaf_req = Inr (zero_Name\<lparr>CommonName := ''leaf''\<rparr>, zero_SANs, MLDSA44)"
      "issue_window toy_env (e_maxValidity s2) (iq_ValidityDays toy_leaf_req) (cr_Certificate sub)
        = Inr (toy_now - 300 * second, toy_now + 90 * 86400 * second)"
      "GenerateKey (env_circl toy_env) (e_rand s2) MLDSA44 = Inr ((pub, priv), replicate 16 7)"
      "issue_entropy (replicate 16 7) s2"
      "ca_stored (env_circl toy_env) (env_pem toy_env) (env_sealing toy_env) (iq_CAID toy_leaf_req) (cr_Certificate sub)
        (iq_CAPassphrase toy_leaf_req) s2"
      "length (crt_RawSubject (cr_Certificate sub)) \<le> 2 ^ 24" "GetCA toy_env (iq_CAID toy_leaf_req) s2 = Inr caRes"
    using toy_leaf_ready by blast
  note v = toy_leaf_values
  obtain s3 leaf where i: "IssueCertificate toy_env toy_leaf_req s2 = (s3, Inr leaf)"
    "length (crt_Raw (ir_Certificate leaf)) < 2 ^ 31"
    using IssueCertificate_total [OF toy_packages v(1-3) q(1-3) v(7,6,5) q(4-8)] by blast
  have size: "name_size (zero_Name\<lparr>CommonName := ''leaf''\<rparr>) \<le> 2 ^ 30" "san_ok zero_SANs"
    using v(5,6) by (simp_all add: encodable_name_def encodable_sans_def)
  have "crt_NotBefore (ir_Certificate leaf) = toy_now - 300 * second
      \<and> crt_NotAfter (ir_Certificate leaf) = toy_now + 90 * 86400 * second"
    using IssueCertificate_certificate [OF i(1) v(4) size i(2) q(6) refl refl] q(3) toy_truncate
    by (simp add: toy_env_def toy_circl_ok)
  then have "valid_at (ir_Certificate leaf) toy_now" by (simp add: valid_at_def second_def)
  moreover have "crt_NotBefore (cr_Certificate sub) \<le> toy_now" "crt_NotBefore (cr_Certificate root) \<le> toy_now"
    using toy_issuer_sub(5) [OF ca] toy_parent(5) [OF ca(1-3)] by (simp_all add: second_def)
  ultimately show ?thesis using ca i by blast
qed

end
