(* ===== verification/Engine_Chain.thy ===== *)
theory Engine_Chain
  imports Engine_Toy
begin

section \<open>A hierarchy, from its creation to the verification of a leaf\<close>

text \<open>
  The composition of the engine with path validation: what \<open>CreateCA\<close> and \<open>IssueCertificate\<close> make,
  at any time and with any operations of the engine in between, is a chain that
  \<open>Certificate.Verify\<close> finds. The clock, the failures and the state of the operating system may
  differ from one operation to the next; the signature, PEM and sealing packages are the same.
\<close>

definition same_packages :: "('pk, 'sk) env \<Rightarrow> ('pk, 'sk) env \<Rightarrow> bool" where
  "same_packages E E' = (env_circl E' = env_circl E \<and> env_pem E' = env_pem E \<and> env_sealing E' = env_sealing E)"

lemma engine_chain_trusted:
  assumes ok: "packages_ok E1" "same_packages E1 E2" "same_packages E1 E3"
    and root: "CreateCA E1 rootReq s0 = (s1, Inr root)" "cq_ParentID rootReq = []"
    and sub: "(engine_step (env_circl E1) (env_pem E1) (env_sealing E1))\<^sup>*\<^sup>* s1 s2"
      "CreateCA E2 subReq s2 = (s3, Inr sub)" "cq_ParentID subReq = cr_ID root"
      "cq_ParentPassphrase subReq = cq_Passphrase rootReq"
    and leaf: "(engine_step (env_circl E1) (env_pem E1) (env_sealing E1))\<^sup>*\<^sup>* s3 s4"
      "IssueCertificate E3 leafReq s4 = (s5, Inr leaf)" "iq_CAID leafReq = cr_ID sub"
      "iq_CAPassphrase leafReq = cq_Passphrase subReq" "issue_subject leafReq = (subject, sans, alg)" "san_ok sans"
    and size: "name_size (cq_Subject rootReq) \<le> 2 ^ 30" "name_size (cq_Subject subReq) \<le> 2 ^ 30"
      "name_size subject \<le> 2 ^ 30" "length (crt_Raw (cr_Certificate root)) < 2 ^ 31"
      "length (crt_Raw (cr_Certificate sub)) < 2 ^ 31" "length (crt_Raw (ir_Certificate leaf)) < 2 ^ 31"
    and opts: "Roots opts = [cr_Certificate root]" "Intermediates opts = [cr_Certificate sub]"
      "CheckRevocation opts = None"
    and now: "valid_at (ir_Certificate leaf) now" "crt_NotBefore (cr_Certificate sub) \<le> now"
      "crt_NotBefore (cr_Certificate root) \<le> now"
  shows "trusted_chain (env_circl E1) opts now (ir_Certificate leaf)
    [ir_Certificate leaf, cr_Certificate sub, cr_Certificate root]"
proof -
  let ?C = "env_circl E1" and ?P = "env_pem E1" and ?S = "env_sealing E1"
  let ?r = "cr_Certificate root" and ?s = "cr_Certificate sub" and ?l = "ir_Certificate leaf"
  have pk: "circl_ok ?C" "seal_ok ?S" "pem_ok ?P" using ok(1) by (simp_all add: packages_ok_def)
  have e2: "env_circl E2 = ?C" "env_pem E2 = ?P" "env_sealing E2 = ?S"
    and e3: "env_circl E3 = ?C" "env_pem E3 = ?P" "env_sealing E3 = ?S"
    using ok(2,3) by (simp_all add: same_packages_def)
  have R: "ca_stored ?C ?P ?S (cr_ID root) ?r (cq_Passphrase rootReq) s1" "ca_level rootProfile ?r"
    "validateKeyID (cr_ID root) = Inr ()"
    using CreateCA_certificate [OF root(1) pk size(4,1)] root(2) by auto
  have ne: "cr_ID root \<noteq> []" using R(3) by (auto simp: validateKeyID_def)
  have "ca_stored ?C ?P ?S (cq_ParentID subReq) ?r (cq_ParentPassphrase subReq) s2"
    using ca_stored_steps [OF sub(1) R(1)] sub(3,4) by simp
  then have S: "ca_stored ?C ?P ?S (cr_ID sub) ?s (cq_Passphrase subReq) s3" "ca_level intermediateProfile ?s"
    "signed_by ?C ?s ?r" "ParseCertificate (crt_Raw ?s) = Inr ?s" "crt_NotAfter ?s \<le> crt_NotAfter ?r"
    using CreateCA_certificate [OF sub(2), of ?r] pk e2 size(5,2) sub(3) ne by simp_all
  have "ca_stored ?C ?P ?S (iq_CAID leafReq) ?s (iq_CAPassphrase leafReq) s4"
    using ca_stored_steps [OF leaf(1) S(1)] leaf(3,4) by simp
  then have L: "signed_by ?C ?l ?s" "\<not> IsCA (crt_BasicConstraints ?l)" "ParseCertificate (crt_Raw ?l) = Inr ?l"
    "crt_NotAfter ?l \<le> crt_NotAfter ?s"
    using IssueCertificate_certificate [OF leaf(2,5) size(3) leaf(6) size(6), of ?P ?S ?s] e3 pk(1) by simp_all
  have "valid_at ?s now" "valid_at ?r now" using now S(5) L(4) by (auto simp: valid_at_def)
  then have "linked ?C opts now 0 ?l ?s" "linked ?C opts now 1 ?s ?r"
    using signed_by_linked [OF L(1) S(2)] signed_by_linked [OF S(3) R(2)] opts(3) by (simp_all add: profile_defs)
  moreover have "crt_Raw ?l \<noteq> crt_Raw ?s"
  proof
    assume eq: "crt_Raw ?l = crt_Raw ?s"
    have "(Inr ?l :: Certificate res) = Inr ?s"
      using L(3) S(4) unfolding eq by (rule trans [OF sym])
    then have "?l = ?s" by (simp only: sum.inject)
    then show False using L(2) S(2) by (simp add: ca_level_def)
  qed
  ultimately show ?thesis by (rule trusted_three) (use opts in simp_all)
qed

subsection \<open>Properties\<close>

text \<open>C1. The engine and path validation agree. A root, an intermediate under it and a leaf under
  the intermediate, created by the engine in this order with any number of operations of the
  engine in between (creations, issuances, revocations and CRLs, failing or not), form a chain
  that \<open>Certificate.Verify\<close> finds for the leaf, given the root as the only trust anchor and the
  intermediate: at every time at which the leaf is valid and the two CA certificates have
  begun. Their ends need no check, since the engine nests them. The sizes are those that the ASN.1
  package can read back.\<close>

theorem engine_chain_verifies:
  assumes ok: "packages_ok E1" "same_packages E1 E2" "same_packages E1 E3"
    and root: "CreateCA E1 rootReq s0 = (s1, Inr root)" "cq_ParentID rootReq = []"
    and sub: "(engine_step (env_circl E1) (env_pem E1) (env_sealing E1))\<^sup>*\<^sup>* s1 s2"
      "CreateCA E2 subReq s2 = (s3, Inr sub)" "cq_ParentID subReq = cr_ID root"
      "cq_ParentPassphrase subReq = cq_Passphrase rootReq"
    and leaf: "(engine_step (env_circl E1) (env_pem E1) (env_sealing E1))\<^sup>*\<^sup>* s3 s4"
      "IssueCertificate E3 leafReq s4 = (s5, Inr leaf)" "iq_CAID leafReq = cr_ID sub"
      "iq_CAPassphrase leafReq = cq_Passphrase subReq" "issue_subject leafReq = (subject, sans, alg)" "san_ok sans"
    and size: "name_size (cq_Subject rootReq) \<le> 2 ^ 30" "name_size (cq_Subject subReq) \<le> 2 ^ 30"
      "name_size subject \<le> 2 ^ 30" "length (crt_Raw (cr_Certificate root)) < 2 ^ 31"
      "length (crt_Raw (cr_Certificate sub)) < 2 ^ 31" "length (crt_Raw (ir_Certificate leaf)) < 2 ^ 31"
    and opts: "Roots opts = [cr_Certificate root]" "Intermediates opts = [cr_Certificate sub]"
      "CheckRevocation opts = None"
    and now: "valid_at (ir_Certificate leaf) (verify_time clock opts)"
      "crt_NotBefore (cr_Certificate sub) \<le> verify_time clock opts"
      "crt_NotBefore (cr_Certificate root) \<le> verify_time clock opts"
  shows "\<exists>chains. cert_Verify (env_circl E1) clock (ir_Certificate leaf) opts = Inr chains
    \<and> [ir_Certificate leaf, cr_Certificate sub, cr_Certificate root] \<in> set chains"
proof -
  note chain = engine_chain_trusted [OF ok root sub leaf size opts now]
  then have c: "valid_at (ir_Certificate leaf) (verify_time clock opts)
      \<and> (\<exists>ch. trusted_chain (env_circl E1) opts (verify_time clock opts) (ir_Certificate leaf) ch)"
    using now(1) by blast
  show ?thesis
    using Verify_chains [of "ir_Certificate leaf" clock opts "env_circl E1"] chain unfolding if_P [OF c] by blast
qed

theorem engine_chain_verifies_witness:
  "\<exists>s1 root s2 sub s3 leaf chains. CreateCA toy_env toy_root_req toy_engine = (s1, Inr root)
    \<and> CreateCA toy_env (toy_ca_req toy_root_id ''sub'' MLDSA65) s1 = (s2, Inr sub)
    \<and> IssueCertificate toy_env toy_leaf_req s2 = (s3, Inr leaf)
    \<and> cert_Verify toy_circl 0 (ir_Certificate leaf)
        \<lparr>Roots = [cr_Certificate root], Intermediates = [cr_Certificate sub], CurrentTime = toy_now,
         CheckRevocation = None\<rparr> = Inr chains
    \<and> [ir_Certificate leaf, cr_Certificate sub, cr_Certificate root] \<in> set chains"
proof -
  obtain s1 root s2 sub s3 leaf where
    w: "CreateCA toy_env toy_root_req toy_engine = (s1, Inr root)"
      "CreateCA toy_env (toy_ca_req toy_root_id ''sub'' MLDSA65) s1 = (s2, Inr sub)"
      "IssueCertificate toy_env toy_leaf_req s2 = (s3, Inr leaf)"
    and size: "length (crt_Raw (cr_Certificate root)) < 2 ^ 31" "length (crt_Raw (cr_Certificate sub)) < 2 ^ 31"
      "length (crt_Raw (ir_Certificate leaf)) < 2 ^ 31"
    and id: "cr_ID root = toy_root_id" "cr_ID sub = toy_sub_id"
    and now: "valid_at (ir_Certificate leaf) toy_now" "crt_NotBefore (cr_Certificate sub) \<le> toy_now"
      "crt_NotBefore (cr_Certificate root) \<le> toy_now"
    using toy_leaf_issued by blast
  let ?opts = "\<lparr>Roots = [cr_Certificate root], Intermediates = [cr_Certificate sub], CurrentTime = toy_now,
         CheckRevocation = None\<rparr>"
  have "name_size (zero_Name\<lparr>CommonName := n\<rparr>) \<le> 2 ^ 30" if "n = ''root'' \<or> n = ''sub'' \<or> n = ''leaf''" for n
    using toy_name(1) [OF that] by (simp add: encodable_name_def)
  then have names: "name_size (cq_Subject toy_root_req) \<le> 2 ^ 30"
    "name_size (cq_Subject (toy_ca_req toy_root_id ''sub'' MLDSA65)) \<le> 2 ^ 30"
    "name_size (zero_Name\<lparr>CommonName := ''leaf''\<rparr>) \<le> 2 ^ 30"
    by (simp_all add: toy_ca_req_def)
  have req: "cq_ParentID toy_root_req = []" "cq_ParentID (toy_ca_req toy_root_id ''sub'' MLDSA65) = cr_ID root"
    "cq_ParentPassphrase (toy_ca_req toy_root_id ''sub'' MLDSA65) = cq_Passphrase toy_root_req"
    "iq_CAID toy_leaf_req = cr_ID sub"
    "iq_CAPassphrase toy_leaf_req = cq_Passphrase (toy_ca_req toy_root_id ''sub'' MLDSA65)" "san_ok zero_SANs"
    using toy_leaf_values(5) by (simp_all add: id toy_ca_req_def toy_leaf_req_def encodable_sans_def)
  have pk: "same_packages toy_env toy_env" by (simp add: same_packages_def)
  have t: "verify_time 0 ?opts = toy_now" by (simp add: verify_time_def toy_now_def second_def)
  have "\<exists>chains. cert_Verify (env_circl toy_env) 0 (ir_Certificate leaf) ?opts = Inr chains
    \<and> [ir_Certificate leaf, cr_Certificate sub, cr_Certificate root] \<in> set chains"
    by (rule engine_chain_verifies [OF toy_packages(1) pk pk w(1) req(1) rtranclp.rtrancl_refl w(2) req(2,3)
          rtranclp.rtrancl_refl w(3) req(4,5) toy_leaf_values(4) req(6) names size])
      (simp_all add: t now)
  then show ?thesis using w by (auto simp: toy_env_def)
qed

text \<open>C24. \<open>CreateCA\<close> succeeds when the policy allows the request, nothing fails, the names and times
  can be encoded and the entropy is fresh: it takes 76 bytes after those of the key, adds exactly
  one sealed key file and one row, for the CA of the identifier that it returns, and leaves
  everything else as it was.\<close>

theorem CreateCA_succeeds:
  assumes E: "packages_ok E" "no_faults E"
    and policy: "create_ca_check req = Inr ()" "ca_parent E req (e_db s) = Inr (profile, parent)"
      "checkAlgorithm profile (cq_Algorithm req) = Inr ()" "resolveDays profile (cq_ValidityDays req) = Inr days"
      "ca_window E days parent = Inr (now, nb, na)"
    and enc: "encodable_times nb na" "encodable_name (cq_Subject req)"
    and key: "GenerateKey (env_circl E) (e_rand s) (cq_Algorithm req) = Inr ((pub, priv), r)" "ca_entropy r s"
    and pc: "cq_ParentID req \<noteq> [] \<Longrightarrow> ca_stored (env_circl E) (env_pem E) (env_sealing E) (cq_ParentID req) pc
        (cq_ParentPassphrase req) s \<and> length (crt_RawSubject pc) \<le> 2 ^ 24"
  shows "\<exists>s' res sealed cert. CreateCA E req s = (s', Inr res) \<and> cr_Certificate res = cert
    \<and> length (crt_Raw cert) < 2 ^ 31 \<and> cr_ID res = hex_encode (take 16 (drop 60 r))
    \<and> s' = s\<lparr>e_files := (e_files s)(key_path (hex_encode (take 16 r)) \<mapsto> sealed), e_rand := drop 76 r,
        e_db := (e_db s)\<lparr>db_cas := db_cas (e_db s)
          @ [ca_row E req (hex_encode (take 16 (drop 60 r))) (hex_encode (take 16 r)) (crt_Raw cert) now]\<rparr>\<rparr>"
  by (rule CreateCA_total [OF E policy enc key pc])

theorem CreateCA_succeeds_witness:
  "\<exists>s' res. CreateCA toy_env toy_root_req toy_engine = (s', Inr res)
    \<and> length (db_cas (e_db s')) = 1 \<and> length (e_rand s') = 156"
proof -
  obtain pub priv where key: "GenerateKey (env_circl toy_env) (e_rand toy_engine) (cq_Algorithm toy_root_req)
     = Inr ((pub, priv), toy_rest 5 (replicate 108 6 @ replicate 48 7))"
    using toy_root_ready(1) by blast
  have "cq_ParentID toy_root_req = []" "db_cas (e_db toy_engine) = []"
    by (simp_all add: toy_ca_req_def toy_engine_def empty_db_def)
  then show ?thesis
    using CreateCA_succeeds [OF toy_packages toy_root_policy toy_root_ready(3,4) key toy_root_ready(2)]
    by (auto simp: toy_rest_def)
qed

text \<open>C25. \<open>IssueCertificate\<close> succeeds for a request without CSR and without storing the key that
  the policy allows, under a CA whose key the passphrase unseals, when nothing fails, the names
  and times can be encoded and the serial number is fresh: it takes 16 bytes of entropy after those
  of the key, adds exactly one valid row, under that serial number, and changes no key file.\<close>

theorem IssueCertificate_succeeds:
  assumes E: "packages_ok E" "no_faults E"
    and req: "iq_CSR req = None" "\<not> iq_StoreKey req" "length (iq_ExtKeyUsage req) \<le> 1000"
    and policy: "issue_ca E (iq_CAID req) (e_db s) = Inr (caRec, caCert)"
      "issue_policy req = Inr (subject, sans, alg)"
      "issue_window E (e_maxValidity s) (iq_ValidityDays req) caCert = Inr (nb, na)"
    and enc: "encodable_times nb na" "encodable_name subject" "encodable_sans sans"
    and key: "GenerateKey (env_circl E) (e_rand s) alg = Inr ((pub, priv), r)" "issue_entropy r s"
    and ca: "ca_stored (env_circl E) (env_pem E) (env_sealing E) (iq_CAID req) caCert (iq_CAPassphrase req) s"
      "length (crt_RawSubject caCert) \<le> 2 ^ 24" "GetCA E (iq_CAID req) s = Inr caRes"
  shows "\<exists>s' res cert. IssueCertificate E req s = (s', Inr res) \<and> ir_Certificate res = cert
    \<and> length (crt_Raw cert) < 2 ^ 31 \<and> ir_Serial res = SerialHex (int (serial_draw r 0))
    \<and> s' = s\<lparr>e_rand := drop 16 r, e_db := (e_db s)\<lparr>db_certs := db_certs (e_db s)
          @ [issued_row E req subject sans alg cert (int (serial_draw r 0)) nb na]\<rparr>\<rparr>"
  by (rule IssueCertificate_total [OF E req policy enc key ca])

theorem IssueCertificate_succeeds_witness:
  "\<exists>s s' res. IssueCertificate toy_env toy_leaf_req s = (s', Inr res) \<and> e_files s' = e_files s
    \<and> e_rand s' = []"
proof -
  obtain s2 and sub :: CAResult and caRec caRes pub priv where
    q: "issue_ca toy_env (iq_CAID toy_leaf_req) (e_db s2) = Inr (caRec, cr_Certificate sub)"
      "issue_policy toy_leaf_req = Inr (zero_Name\<lparr>CommonName := ''leaf''\<rparr>, zero_SANs, MLDSA44)"
      "issue_window toy_env (e_maxValidity s2) (iq_ValidityDays toy_leaf_req) (cr_Certificate sub)
        = Inr (toy_now - 300 * second, toy_now + 90 * 86400 * second)"
      "GenerateKey (env_circl toy_env) (e_rand s2) MLDSA44 = Inr ((pub, priv), replicate 16 7)"
      "issue_entropy (replicate 16 7) s2"
      "ca_stored (env_circl toy_env) (env_pem toy_env) (env_sealing toy_env) (iq_CAID toy_leaf_req) (cr_Certificate sub)
        (iq_CAPassphrase toy_leaf_req) s2"
      "length (crt_RawSubject (cr_Certificate sub)) \<le> 2 ^ 24" "GetCA toy_env (iq_CAID toy_leaf_req) s2 = Inr caRes"
    using toy_leaf_ready by blast
  note v = toy_leaf_values
  show ?thesis
    using IssueCertificate_succeeds [OF toy_packages v(1-3) q(1-3) v(7,6,5) q(4-8)] by fastforce
qed

end
