(* ===== verification/Engine_Failure.thy ===== *)
theory Engine_Failure
  imports Engine_Toy
begin

section \<open>What a failing operation leaves behind\<close>

text \<open>
  A weakest precondition for the operations of the engine: \<open>op_wp m Q R s\<close> says that \<open>m\<close>, started in
  \<open>s\<close>, ends with a result and a state that satisfy \<open>Q\<close> or with an error and a state that satisfy
  \<open>R\<close>. It is used for the failures of \<open>CreateCA\<close> and \<open>IssueCertificate\<close>: what the compensations of
  the code undo, and what they do not.
\<close>

subsection \<open>Weakest preconditions\<close>

definition op_wp :: "'a op \<Rightarrow> ('a \<Rightarrow> engine \<Rightarrow> bool) \<Rightarrow> (error \<Rightarrow> engine \<Rightarrow> bool) \<Rightarrow> engine \<Rightarrow> bool" where
  "op_wp m Q R s = (case m s of (s', Inl e) \<Rightarrow> R e s' | (s', Inr x) \<Rightarrow> Q x s')"

lemma wp_bind: "op_wp (op_bind m f) Q R s = op_wp m (\<lambda>x. op_wp (f x) Q R) R s"
  by (simp add: op_wp_def op_bind_def split: prod.split sum.split)

lemma wp_res: "op_wp (op_res r) Q R s = (case r of Inl e \<Rightarrow> R e s | Inr x \<Rightarrow> Q x s)"
  by (simp add: op_wp_def op_res_def)

lemma wp_read: "op_wp (op_read f) Q R s = (case f s of Inl e \<Rightarrow> R e s | Inr x \<Rightarrow> Q x s)"
  by (simp add: op_wp_def op_read_def)

lemma wp_cleanup: "op_wp (op_cleanup c m) Q R s = op_wp m Q (\<lambda>e s'. R e (c s')) s"
  by (simp add: op_wp_def op_cleanup_def split: prod.split sum.split)

lemma wp_wrap: "op_wp (op_wrap g m) Q R s = op_wp m Q (\<lambda>e. R (g e)) s"
  by (simp add: op_wp_def op_wrap_def rmap_err_def split: prod.split sum.split)

lemma wp_rand:
  "op_wp (op_rand f) Q R s = (case f (e_rand s) of Inl e \<Rightarrow> R e s | Inr (x, r) \<Rightarrow> Q x (s\<lparr>e_rand := r\<rparr>))"
  by (simp add: op_wp_def op_rand_def split: prod.split sum.split)

lemma wp_db:
  "op_wp (op_db f) Q R s = (case f (e_db s) of (d, Inl e) \<Rightarrow> R e (s\<lparr>e_db := d\<rparr>) | (d, Inr x) \<Rightarrow> Q x (s\<lparr>e_db := d\<rparr>))"
  by (simp add: op_wp_def op_db_def split: prod.split sum.split)

lemma wp_keys:
  "op_wp (op_keys f) Q R s = (case f (e_files s, e_rand s) of
     ((fs, r), Inl e) \<Rightarrow> R e (s\<lparr>e_files := fs, e_rand := r\<rparr>)
   | ((fs, r), Inr x) \<Rightarrow> Q x (s\<lparr>e_files := fs, e_rand := r\<rparr>))"
  by (simp add: op_wp_def op_keys_def split: prod.split sum.split)

lemmas wp_simps = wp_bind wp_res wp_read wp_cleanup wp_wrap wp_rand wp_db wp_keys

lemma wp_D: "op_wp m Q R s \<Longrightarrow> m s = (s', Inl e) \<Longrightarrow> R e s'"
  by (simp add: op_wp_def)

lemma wp_mono:
  "op_wp m Q R s \<Longrightarrow> (\<And>x t. Q x t \<Longrightarrow> Q' x t) \<Longrightarrow> (\<And>e t. R e t \<Longrightarrow> R' e t) \<Longrightarrow> op_wp m Q' R' s"
  by (auto simp: op_wp_def split: prod.splits sum.splits)

text \<open>A step that does not change the state, when the errors of the state are accepted.\<close>

lemma wp_pure:
  "(\<And>e. R e s) \<Longrightarrow> (\<And>x. r = Inr x \<Longrightarrow> op_wp (f x) Q R s) \<Longrightarrow> op_wp (op_bind (op_res r) f) Q R s"
  "(\<And>e. R e s) \<Longrightarrow> (\<And>x. g s = Inr x \<Longrightarrow> op_wp (f x) Q R s) \<Longrightarrow> op_wp (op_bind (op_read g) f) Q R s"
  by (auto simp: wp_simps split: sum.split)

lemma wp_case_prod: "(\<And>a b. x = (a, b) \<Longrightarrow> op_wp (f a b) Q R s) \<Longrightarrow> op_wp (case x of (a, b) \<Rightarrow> f a b) Q R s"
  by (cases x) simp

lemma wp_step:
  assumes "op_wp m Q' R' s" "\<And>x t. Q' x t \<Longrightarrow> op_wp (f x) Q R t" "\<And>e t. R' e t \<Longrightarrow> R e t"
  shows "op_wp (op_bind m f) Q R s"
  unfolding wp_bind by (rule wp_mono [OF assms])

subsection \<open>CreateCA\<close>

text \<open>The part of the state that a failure must restore.\<close>

definition untouched :: "engine \<Rightarrow> engine \<Rightarrow> bool" where
  "untouched s t = (e_db t = e_db s \<and> e_crlCache t = e_crlCache s \<and> e_files t = e_files s)"

definition orphaned :: "string \<Rightarrow> engine \<Rightarrow> engine \<Rightarrow> bool" where
  "orphaned k s t = (e_db t = e_db s \<and> e_crlCache t = e_crlCache s \<and> e_files s (key_path k) = None
     \<and> validateKeyID k = Inr () \<and> (\<exists>sealed. e_files t = (e_files s)(key_path k \<mapsto> sealed)))"

lemma untouched_refl: "untouched s s"
  by (simp add: untouched_def)

lemma discard_orphan:
  assumes "orphaned k s t" "\<And>c. \<not> os_fault (env_os E) c"
  shows "untouched s (ks_discard E k t)"
  using assms by (auto simp: orphaned_def untouched_def ks_discard_def fb_Delete_def fun_upd_idem)

lemma orphaned_rand: "orphaned k s (t\<lparr>e_rand := r\<rparr>) = orphaned k s t"
  by (simp add: orphaned_def)

lemma wp_Generate:
  assumes "circl_ok (env_circl E)" "seal_ok (env_sealing E)" "\<And>c. \<not> os_fault (env_os E) c"
  shows "op_wp (op_keys (fb_Generate (env_circl E) (env_sealing E) (env_os E) alg pass))
     (\<lambda>(k, pub, priv) t. orphaned k s t \<and> (\<exists>signer. key_Signer (env_circl E) priv = Inr signer)) (\<lambda>_. untouched s) s"
proof -
  obtain fs rnd res where g: "fb_Generate (env_circl E) (env_sealing E) (env_os E) alg pass (e_files s, e_rand s)
    = ((fs, rnd), res)" by (metis prod.exhaust)
  show ?thesis
  proof (cases res)
    case (Inl e)
    then have "fs = e_files s"
      using g assms(3) by (auto simp: fb_Generate_def fb_Store_def split: sum.splits prod.splits if_splits)
    then show ?thesis using g Inl by (simp add: wp_keys untouched_def)
  next
    case (Inr x)
    obtain k pub priv where x: "x = (k, pub, priv)" by (cases x)
    obtain r1 r2 where "GenerateKey (env_circl E) (e_rand s) alg = Inr ((pub, priv), r1)"
      and st: "fb_Store (env_sealing E) (env_os E) k priv pass (e_files s, r2) = ((fs, rnd), Inr ())"
      using g Inr x by (auto simp: fb_Generate_def split: sum.splits prod.splits)
    then have "\<exists>signer. key_Signer (env_circl E) priv = Inr signer"
      using GenerateKey_signer [OF assms(1)] by blast
    moreover have "orphaned k s (s\<lparr>e_files := fs, e_rand := rnd\<rparr>)"
      using fb_Store_cases [OF st] by (auto simp: orphaned_def)
    ultimately show ?thesis using g Inr x by (simp add: wp_keys)
  qed
qed

text \<open>The operations after the serial number only need that the key of the step is the orphan.\<close>

lemma wp_ca_signer:
  assumes "orphaned k s t" "key_Signer (env_circl E) priv = Inr sg" "\<And>c. \<not> os_fault (env_os E) c"
  shows "op_wp (ca_signer E req parent k priv) (\<lambda>_ t'. t' = t) (\<lambda>_. untouched s) t"
  using assms(2) discard_orphan [OF assms(1,3)]
  by (auto simp: ca_signer_def wp_simps split: option.split sum.split prod.split)

lemma wp_after_serial:
  assumes "orphaned k s t" "\<And>c. \<not> os_fault (env_os E) c"
  shows "op_wp (op_cleanup (ks_discard E k)
       (op_bind (op_res (rmap_err g (CreateCertificate tmpl p pub signer))) (\<lambda>der.
        op_bind (op_res (rmap_err h (ParseCertificate der))) (\<lambda>cert.
        op_bind (op_rand NewKeyID) (\<lambda>caID.
        op_bind (op_wrap wrapStoreErr (op_db (st_CreateCA (env_faults E) (row caID der)))) (\<lambda>_.
          op_res (Inr (res caID der cert)))))))) (\<lambda>_ _. True) (\<lambda>_. untouched s) t"
proof -
  have d: "untouched s (ks_discard E k (t\<lparr>e_rand := r\<rparr>))" for r
    using discard_orphan [of k s "t\<lparr>e_rand := r\<rparr>" E] assms by (simp add: orphaned_rand)
  have "untouched s (ks_discard E k (t\<lparr>e_rand := r, e_db := dd\<rparr>))"
    if "st_CreateCA (env_faults E) ca (e_db t) = (dd, Inl e)" for r dd e ca
  proof -
    have "dd = e_db t" using CreateCA_cases [OF that] by auto
    then show ?thesis using d [of r] by simp
  qed
  then show ?thesis
    using discard_orphan [OF assms] d
    by (auto simp: wp_simps split: sum.split prod.split)
qed

definition ca_residue :: "engine \<Rightarrow> error \<Rightarrow> engine \<Rightarrow> bool" where
  "ca_residue s e t = (untouched s t \<or> (\<exists>k r. orphaned k s t \<and> GenerateSerialNumber r = Inl e))"

lemma wp_serial:
  assumes t: "orphaned k s t" and f: "\<And>n r. op_wp (f n) (\<lambda>_ _. True) (\<lambda>_. untouched s) (t\<lparr>e_rand := r\<rparr>)"
  shows "op_wp (op_bind (op_rand GenerateSerialNumber) f) (\<lambda>_ _. True) (ca_residue s) t"
proof (cases "GenerateSerialNumber (e_rand t)")
  case (Inl e)
  then show ?thesis using t by (auto simp: wp_bind wp_rand ca_residue_def)
next
  case (Inr x)
  then show ?thesis using wp_mono [OF f, of "\<lambda>_ _. True" "ca_residue s"]
    by (cases x) (simp add: wp_bind wp_rand ca_residue_def)
qed

lemma CreateCA_failed:
  assumes E: "circl_ok (env_circl E)" "seal_ok (env_sealing E)" "\<And>c. \<not> os_fault (env_os E) c"
    and "CreateCA E req s = (s', Inl e)"
  shows "ca_residue s e s'"
proof -
  have gen: "op_wp (op_wrap g (op_keys (fb_Generate (env_circl E) (env_sealing E) (env_os E) alg pass)))
     (\<lambda>(k, pub, priv) t. orphaned k s t \<and> (\<exists>signer. key_Signer (env_circl E) priv = Inr signer))
     (\<lambda>_. untouched s) s" for g alg pass
    unfolding wp_wrap by (rule wp_Generate [OF E])
  have signer: "op_wp (op_bind (ca_signer E req parent k priv) f) (\<lambda>_ _. True) (\<lambda>_. untouched s) t"
    if "orphaned k s t" "\<exists>sg. key_Signer (env_circl E) priv = Inr sg" "\<And>x. op_wp (f x) (\<lambda>_ _. True) (\<lambda>_. untouched s) t"
    for k t parent priv and f :: "algorithm \<times> Signer \<Rightarrow> CAResult op"
    using wp_step [OF wp_ca_signer [OF that(1) _ E(3)], of priv _ f "\<lambda>_ _. True" "\<lambda>_. untouched s"] that(2,3) by blast
  have same: "ca_residue s e s" "untouched s t \<Longrightarrow> ca_residue s e t" for e t
    by (simp_all add: ca_residue_def untouched_refl)
  have "op_wp (CreateCA E req) (\<lambda>_ _. True) (ca_residue s) s"
    unfolding CreateCA_def
    by (intro wp_pure wp_case_prod same wp_step [OF gen] wp_serial signer wp_after_serial)
      (auto simp: orphaned_rand E(3))
  then show ?thesis using assms(4) by (rule wp_D)
qed

subsection \<open>IssueCertificate\<close>

text \<open>After the row is inserted, an error of \<open>caResult\<close> is returned although the certificate is
  recorded as valid. Encoding the private key cannot fail.\<close>

definition issue_residue :: "('pk, 'sk) env \<Rightarrow> string \<Rightarrow> engine \<Rightarrow> error \<Rightarrow> engine \<Rightarrow> bool" where
  "issue_residue E caID s e t =
     (untouched s t
      \<or> (\<exists>row caRec. ca_at caID (e_db s) = Some caRec
           \<and> e_db t = (e_db s)\<lparr>db_certs := db_certs (e_db s) @ [row]\<rparr> \<and> ct_Status row = StatusValid
           \<and> e_crlCache t = e_crlCache s \<and> caResult E (e_db t) caRec = Inl e))"

definition key_kept :: "string \<Rightarrow> engine \<Rightarrow> engine \<Rightarrow> bool" where
  "key_kept k s t = (if k = [] then untouched s t else orphaned k s t)"

lemma untouched_rand: "untouched s (t\<lparr>e_rand := r\<rparr>) = untouched s t"
  by (simp add: untouched_def)

lemma untouched_Store:
  assumes "untouched s t" "\<And>c. \<not> os_fault os c"
  shows "op_wp (op_keys (fb_Store S os k p pass)) (\<lambda>_. orphaned k s) (\<lambda>_. untouched s) t"
proof -
  obtain fs rnd res where g: "fb_Store S os k p pass (e_files t, e_rand t) = ((fs, rnd), res)" by (metis prod.exhaust)
  show ?thesis
  proof (cases res)
    case (Inl e)
    then have "fs = e_files t"
      using g assms(2) by (auto simp: fb_Store_def split: sum.splits prod.splits if_splits)
    then show ?thesis using g Inl assms(1) by (simp add: wp_keys untouched_def)
  next
    case (Inr u)
    then show ?thesis
      using fb_Store_cases [of S os k p pass "e_files t" "e_rand t" fs rnd res] g assms(1)
      by (auto simp: wp_keys orphaned_def untouched_def)
  qed
qed

lemma wp_store_key:
  assumes "untouched s t" "\<And>c. \<not> os_fault (env_os E) c"
  shows "op_wp (issue_store_key E req priv) (\<lambda>k. key_kept k s) (\<lambda>_. untouched s) t"
proof (cases "iq_StoreKey req")
  case True
  have "op_wp (op_bind (op_keys (fb_Store (env_sealing E) (env_os E) k priv (iq_CAPassphrase req)))
      (\<lambda>_. op_res (Inr k))) (\<lambda>k. key_kept k s) (\<lambda>_. untouched s) (t\<lparr>e_rand := r\<rparr>)"
    if "NewKeyID (e_rand t) = Inr (k, r)" for k r
  proof -
    have "k \<noteq> []" using NewKeyID_valid [OF that] by (auto simp: validateKeyID_def)
    moreover have "untouched s (t\<lparr>e_rand := r\<rparr>)" using assms(1) by (simp add: untouched_rand)
    ultimately show ?thesis
      by (intro wp_step [OF untouched_Store]) (simp_all add: assms(2) wp_res key_kept_def)
  qed
  then show ?thesis
    using True assms(1)
    by (simp add: issue_store_key_def wp_bind wp_rand wp_wrap wp_res split: sum.split)
next
  case False
  then show ?thesis using assms(1) by (simp add: issue_store_key_def wp_res key_kept_def)
qed

lemma wp_issue_key:
  assumes "circl_ok (env_circl E)"
  shows "op_wp (issue_key E req alg) (\<lambda>(pub, priv) t. untouched s t \<and> (iq_CSR req = None \<longrightarrow> priv_ok priv))
    (\<lambda>_. untouched s) s"
  using GenerateKey_signer [OF assms, of "e_rand s" alg]
  by (auto simp: issue_key_def wp_res wp_rand untouched_def split: option.split sum.split)

lemma wp_insert:
  assumes "key_kept k s t" "ct_Status row = StatusValid" "\<And>c. \<not> os_fault (env_os E) c"
  shows "op_wp (op_cleanup (\<lambda>s. if k \<noteq> [] then ks_discard E k s else s)
     (op_wrap wrapStoreErr (op_db (st_InsertCertificate (env_faults E) row))))
     (\<lambda>_ t. \<exists>row. e_db t = (e_db s)\<lparr>db_certs := db_certs (e_db s) @ [row]\<rparr> \<and> ct_Status row = StatusValid
        \<and> e_crlCache t = e_crlCache s) (\<lambda>_. untouched s) t"
proof -
  obtain d res where i: "st_InsertCertificate (env_faults E) row (e_db t) = (d, res)" by force
  have same: "e_db t = e_db s" "e_crlCache t = e_crlCache s"
    using assms(1) by (auto simp: key_kept_def untouched_def orphaned_def split: if_splits)
  have undo: "untouched s (if k \<noteq> [] then ks_discard E k t else t)"
    using assms(1) discard_orphan [of k s t E] assms(3) by (auto simp: key_kept_def split: if_splits)
  show ?thesis
  proof (cases res)
    case (Inl e)
    then have "d = e_db t" using InsertCertificate_cases [OF i] by auto
    then show ?thesis using i Inl undo by (simp add: wp_cleanup wp_wrap wp_db split: if_splits)
  next
    case (Inr u)
    have "d = (e_db t)\<lparr>db_certs := db_certs (e_db t) @ [row\<lparr>ct_RevokedAt := None, ct_RevocationReason := None\<rparr>]\<rparr>"
      using InsertCertificate_cases [OF i] Inr by auto
    then show ?thesis using i Inr same assms(2)
      by (auto simp: wp_cleanup wp_wrap wp_db intro!: exI [of _ "row\<lparr>ct_RevokedAt := None, ct_RevocationReason := None\<rparr>"])
  qed
qed

lemma IssueCertificate_failed:
  assumes E: "circl_ok (env_circl E)" "\<And>c. \<not> os_fault (env_os E) c"
    and "IssueCertificate E req s = (s', Inl e)"
  shows "issue_residue E (iq_CAID req) s e s'"
proof -
  let ?ins = "\<lambda>t. \<exists>row. e_db t = (e_db s)\<lparr>db_certs := db_certs (e_db s) @ [row]\<rparr> \<and> ct_Status row = StatusValid
        \<and> e_crlCache t = e_crlCache s"
  have same: "issue_residue E (iq_CAID req) s e s" "untouched s t \<Longrightarrow> issue_residue E (iq_CAID req) s e t" for e t
    by (simp_all add: issue_residue_def untouched_refl)
  have serial: "op_wp (op_bind (op_rand GenerateSerialNumber) f) (\<lambda>_ _. True) (issue_residue E (iq_CAID req) s) t"
    if "untouched s t" "\<And>n r. op_wp (f n) (\<lambda>_ _. True) (issue_residue E (iq_CAID req) s) (t\<lparr>e_rand := r\<rparr>)"
    for t and f :: "int \<Rightarrow> IssueResult op"
    using that same(2) by (auto simp: wp_bind wp_rand split: sum.split)
  have ca_res: "op_wp (op_bind (op_read (\<lambda>s. caResult E (e_db s) caRec)) f) (\<lambda>_ _. True) (issue_residue E (iq_CAID req) s) t"
    if "?ins t" "issue_ca E (iq_CAID req) (e_db s) = Inr (caRec, caCert)"
      "\<And>x. op_wp (f x) (\<lambda>_ _. True) (issue_residue E (iq_CAID req) s) t" for t caRec caCert and f :: "CAResult \<Rightarrow> IssueResult op"
    using that issue_ca_Inr(1) [OF that(2)]
    by (auto simp: wp_bind wp_read issue_residue_def GetCA_Inr split: sum.split)
  have pem: "op_wp (op_bind (if \<not> iq_StoreKey req \<and> iq_CSR req = None
        then op_res (rmap_err g (EncodePrivateKeyPEM (env_pem E) priv)) else op_res (Inr [])) f)
      (\<lambda>_ _. True) R t"
    if pk: "iq_CSR req = None \<longrightarrow> priv_ok priv" and f: "\<And>x. op_wp (f x) (\<lambda>_ _. True) R t"
    for t priv g R and f :: "bytes \<Rightarrow> IssueResult op"
  proof (cases "\<not> iq_StoreKey req \<and> iq_CSR req = None")
    case True
    then obtain keyPEM where "EncodePrivateKeyPEM (env_pem E) priv = Inr keyPEM"
      using EncodePrivateKeyPEM_total pk by blast
    then show ?thesis using True f by (simp add: wp_bind wp_res)
  next
    case False
    then show ?thesis using f by (auto simp: wp_bind wp_res)
  qed
  have tail: "op_wp (op_bind (issue_store_key E req priv) (\<lambda>k. op_bind
       (op_cleanup (\<lambda>s. if k \<noteq> [] then ks_discard E k s else s)
          (op_wrap wrapStoreErr (op_db (st_InsertCertificate (env_faults E) (row k))))) (\<lambda>_.
       op_bind (op_read (\<lambda>s. caResult E (e_db s) caRec)) (\<lambda>caRes. op_bind
         (if \<not> iq_StoreKey req \<and> iq_CSR req = None
          then op_res (rmap_err g (EncodePrivateKeyPEM (env_pem E) priv)) else op_res (Inr []))
         (\<lambda>keyPEM. op_res (Inr (res caRes keyPEM))))))) (\<lambda>_ _. True) (issue_residue E (iq_CAID req) s) t"
    if t: "untouched s t" and pk: "iq_CSR req = None \<longrightarrow> priv_ok priv" and row: "\<And>k. ct_Status (row k) = StatusValid"
      and ca: "issue_ca E (iq_CAID req) (e_db s) = Inr (caRec, caCert)"
    for t priv row g caRec caCert and res :: "CAResult \<Rightarrow> bytes \<Rightarrow> IssueResult"
    by (intro wp_step [OF wp_store_key [OF t E(2)]] wp_step [OF wp_insert [OF _ row E(2)]] ca_res [OF _ ca] pem pk)
      (auto simp: wp_res intro: same(2))
  have "op_wp (IssueCertificate E req) (\<lambda>_ _. True) (issue_residue E (iq_CAID req) s) s"
    unfolding IssueCertificate_def
    by (intro wp_pure wp_case_prod same wp_step [OF wp_issue_key [OF E(1)]] serial tail)
      (simp_all add: untouched_rand issue_row_def)
  then show ?thesis using assms(3) by (rule wp_D)
qed

subsection \<open>Properties\<close>

text \<open>C4. A failing \<open>CreateCA\<close> changes neither the tables nor the cache, and its compensations
  delete the key that it generated: the key files are what they were, when the operating system
  does not fail. The only exception is a failing \<open>GenerateSerialNumber\<close>, after which the sealed key
  of the CA that does not exist stays in the keystore.\<close>

theorem CreateCA_failure:
  assumes "packages_ok E" "\<And>c. \<not> os_fault (env_os E) c" "CreateCA E req s = (s', Inl e)"
  shows "e_db s' = e_db s \<and> e_crlCache s' = e_crlCache s
    \<and> (e_files s' = e_files s
       \<or> (\<exists>k sealed r. GenerateSerialNumber r = Inl e \<and> e_files s (key_path k) = None
            \<and> e_files s' = (e_files s)(key_path k \<mapsto> sealed)))"
  using CreateCA_failed [OF _ _ assms(2,3)] assms(1)
  by (auto simp: packages_ok_def ca_residue_def untouched_def orphaned_def)

theorem CreateCA_failure_witness:
  "\<exists>s' e. CreateCA toy_env toy_root_req (toy_engine\<lparr>e_rand := replicate 76 5\<rparr>) = (s', Inl e)
     \<and> e_db s' = empty_db \<and> e_files s' \<noteq> e_files toy_engine"
proof -
  let ?s = "toy_engine\<lparr>e_rand := replicate 76 5\<rparr>"
  have "replicate 76 5 = replicate 32 (5 :: byte) @ replicate 44 5" by (simp flip: replicate_add)
  then obtain pub priv where key: "GenerateKey (env_circl toy_env) (replicate 76 5) MLDSA87 = Inr ((pub, priv), replicate 44 5)"
    using toy_generate [of MLDSA87 5 "replicate 44 5"] by (auto simp: toy_env_def)
  obtain sealed where g: "fb_Generate (env_circl toy_env) (env_sealing toy_env) (env_os toy_env) MLDSA87 [1]
      (Map.empty, replicate 76 5)
    = (([key_path toy_root_id \<mapsto> sealed], []), Inr (toy_root_id, pub, priv))"
    using fb_Generate_total [where S = "env_sealing toy_env" and os = "env_os toy_env" and pass = "[1]"
        and fs = "Map.empty", OF _ _ _ _ key] toy_packages
    by (auto simp: packages_ok_def no_faults_def toy_root_id_def)
  have ser: "\<exists>e. GenerateSerialNumber [] = Inl e" by (simp add: GenerateSerialNumber_def serial_loop_Suc numeral_eq_Suc)
  have st: "e_db ?s = e_db toy_engine" "e_files ?s = Map.empty" "e_rand ?s = replicate 76 5" "e_db ?s = empty_db"
    "cq_Passphrase toy_root_req = [1]" "cq_Algorithm toy_root_req = MLDSA87"
    by (simp_all add: toy_engine_def toy_ca_req_def)
  have alg: "checkAlgorithm rootProfile MLDSA87 = Inr ()" using toy_root_policy(3) by (simp add: toy_ca_req_def)
  obtain e where run: "CreateCA toy_env toy_root_req ?s
      = (?s\<lparr>e_files := [key_path toy_root_id \<mapsto> sealed], e_rand := []\<rparr>, Inl e)"
    using g ser toy_root_policy alg
    by (auto simp: CreateCA_def op_bind_def op_res_def op_read_def op_wrap_def op_keys_def op_rand_def st)
  show ?thesis
    using CreateCA_failure [OF toy_packages(1) _ run] run toy_packages(2)
    by (auto simp: no_faults_def toy_engine_def)
qed

text \<open>C15. A failing \<open>IssueCertificate\<close> restores tables, cache and key files, when the operating
  system does not fail, unless the error is that of \<open>caResult\<close>: then the certificate is already
  recorded as valid, although the caller gets neither it nor its private key, and \<open>caResult\<close> failed
  on the record of the CA that the request names.\<close>

theorem IssueCertificate_failure:
  assumes "packages_ok E" "\<And>c. \<not> os_fault (env_os E) c" "IssueCertificate E req s = (s', Inl e)"
  shows "e_crlCache s' = e_crlCache s
    \<and> (e_db s' = e_db s \<and> e_files s' = e_files s
       \<or> (\<exists>row caRec. ca_at (iq_CAID req) (e_db s) = Some caRec
            \<and> e_db s' = (e_db s)\<lparr>db_certs := db_certs (e_db s) @ [row]\<rparr> \<and> ct_Status row = StatusValid
            \<and> caResult E (e_db s') caRec = Inl e))"
  using IssueCertificate_failed [OF _ assms(2,3)] assms(1)
  by (auto simp: packages_ok_def issue_residue_def untouched_def)

theorem IssueCertificate_failure_witness:
  "\<exists>e. IssueCertificate toy_env toy_leaf_req toy_engine = (toy_engine, Inl e) \<and> errors_is e CaErrNotFound"
proof -
  have run: "IssueCertificate toy_env toy_leaf_req toy_engine
      = (toy_engine, Inl (wrapStoreErr (Err [StoreErrNotFound] ''CA'')))"
    by (simp add: IssueCertificate_def op_bind_def op_read_def issue_ca_def st_GetCA_def toy_env_def toy_engine_def
        empty_db_def)
  then show ?thesis
    using IssueCertificate_failure [OF toy_packages(1) _ run] toy_packages(2)
    by (simp add: no_faults_def wrapStoreErr_def)
qed

end
