(* ===== verification/Engine_Tables.thy ===== *)
theory Engine_Tables
  imports Engine_Failure
begin

section \<open>The tables that the engine builds\<close>

text \<open>
  The invariant of the tables of an engine that starts empty: the hierarchy has two levels, every CA
  is active, its certificate and the name of its algorithm can be read back, and every end-entity
  certificate belongs to an intermediate and is filed under the hexadecimal form of a positive
  serial number. With it the readers of the engine succeed on every row.
\<close>

definition ca_row_ok :: "pem_package \<Rightarrow> db \<Rightarrow> ca_rec \<Rightarrow> bool" where
  "ca_row_ok P d rec =
     ((\<exists>c. parseCertPEM P (ca_CertPEM rec) = Inr c) \<and> (\<exists>alg. ParseAlgorithm (ca_Algorithm rec) = Inr alg)
      \<and> ca_Status rec = StatusActive
      \<and> (ca_ParentID rec = [] \<or> (\<exists>parent. ca_at (ca_ParentID rec) d = Some parent \<and> ca_ParentID parent = [])))"

definition leaf_row_ok :: "db \<Rightarrow> cert_rec \<Rightarrow> bool" where
  "leaf_row_ok d c =
     ((\<exists>caRec. ca_at (ct_CAID c) d = Some caRec \<and> ca_ParentID caRec \<noteq> [])
      \<and> (\<exists>n. 0 < n \<and> ct_Serial c = SerialHex n))"

definition tables_ok :: "pem_package \<Rightarrow> db \<Rightarrow> bool" where
  "tables_ok P d = ((\<forall>rec \<in> set (db_cas d). ca_row_ok P d rec) \<and> (\<forall>c \<in> set (db_certs d). leaf_row_ok d c))"

subsection \<open>What the operations do to the tables\<close>

definition same_tables :: "engine \<Rightarrow> engine \<Rightarrow> bool" where
  "same_tables s t = (e_db t = e_db s)"

lemma same_tables_keys: "same_tables s t \<Longrightarrow> op_wp (op_keys f) (\<lambda>_. same_tables s) (\<lambda>_. same_tables s) t"
  by (auto simp: wp_keys same_tables_def split: prod.split sum.split)

lemma same_tables_discard: "same_tables s (ks_discard E k t) = same_tables s t"
  by (simp add: same_tables_def ks_discard_def)

lemma same_tables_rand: "same_tables s (t\<lparr>e_rand := r\<rparr>) = same_tables s t"
  by (simp add: same_tables_def)

lemma CreateCA_error_tables:
  assumes "CreateCA E req s = (s', Inl e)"
  shows "e_db s' = e_db s"
proof -
  let ?T = "\<lambda>_ :: error. same_tables s"
  have gen: "op_wp (op_wrap g (op_keys f)) (\<lambda>_. same_tables s) ?T s"
    for g and f :: "files \<times> bytes \<Rightarrow> (files \<times> bytes) \<times> (string \<times> PublicKey \<times> PrivateKey) res"
    unfolding wp_wrap by (rule same_tables_keys) (simp add: same_tables_def)
  have serial: "op_wp (op_rand GenerateSerialNumber) (\<lambda>_. same_tables s) ?T t" if "same_tables s t" for t
    using that by (auto simp: wp_rand same_tables_rand split: sum.split)
  have signer: "op_wp (ca_signer E req parent k priv) (\<lambda>_. same_tables s) ?T t" if "same_tables s t" for t k priv parent
    using that by (auto simp: ca_signer_def wp_simps same_tables_discard split: option.split sum.split prod.split)
  have tail: "op_wp (op_cleanup (ks_discard E k)
       (op_bind (op_res r1) (\<lambda>der. op_bind (op_res (r2 der)) (\<lambda>cert. op_bind (op_rand NewKeyID) (\<lambda>caID.
        op_bind (op_wrap wrapStoreErr (op_db (st_CreateCA (env_faults E) (row caID der)))) (\<lambda>_.
          op_res (Inr (res caID der cert)))))))) (\<lambda>_ _. True) ?T t"
    if t: "same_tables s t" for k t r1 row and r2 :: "bytes \<Rightarrow> Certificate res" and res :: "string \<Rightarrow> bytes \<Rightarrow> Certificate \<Rightarrow> CAResult"
  proof -
    have "dd = e_db t" if "st_CreateCA (env_faults E) ca (e_db t) = (dd, Inl e)" for dd e ca
      using CreateCA_cases [OF that] by auto
    then show ?thesis using t
      by (auto simp: wp_simps same_tables_discard same_tables_rand same_tables_def ks_discard_def
          split: sum.split prod.split)
  qed
  have "op_wp (CreateCA E req) (\<lambda>_ _. True) ?T s"
    unfolding CreateCA_def
    by (intro wp_pure wp_case_prod wp_step [OF gen] wp_step [OF serial] wp_step [OF signer] tail)
      (auto simp: same_tables_def)
  then have "same_tables s s'" using assms by (rule wp_D)
  then show ?thesis by (simp add: same_tables_def)
qed

text \<open>\<open>IssueCertificate\<close>, whatever its outcome, changes nothing or inserts one good row.\<close>

definition issued_tables :: "('pk, 'sk) env \<Rightarrow> string \<Rightarrow> engine \<Rightarrow> engine \<Rightarrow> bool" where
  "issued_tables E caID s t =
     (e_db t = e_db s
      \<or> (\<exists>row caRec n. ca_at caID (e_db s) = Some caRec \<and> ca_ParentID caRec \<noteq> [] \<and> ct_CAID row = caID
           \<and> 0 < n \<and> ct_Serial row = SerialHex n \<and> st_InsertCertificate (env_faults E) row (e_db s) = (e_db t, Inr ())))"

lemma GenerateSerialNumber_pos: "GenerateSerialNumber r = Inr (n, r') \<Longrightarrow> 0 < n"
  unfolding GenerateSerialNumber_def by (drule serial_loop_Inr) blast

lemma IssueCertificate_tables: "issued_tables E (iq_CAID req) s (fst (IssueCertificate E req s))"
proof -
  let ?R = "\<lambda>_ :: error. issued_tables E (iq_CAID req) s" and ?Q = "\<lambda>_ :: IssueResult. issued_tables E (iq_CAID req) s"
  have same: "same_tables s t \<Longrightarrow> ?R e t" for t e by (simp add: same_tables_def issued_tables_def)
  have key: "op_wp (issue_key E req alg) (\<lambda>_. same_tables s) (\<lambda>_. same_tables s) s" for alg
    by (auto simp: issue_key_def wp_simps same_tables_def split: option.split sum.split)
  have serial: "op_wp (op_rand GenerateSerialNumber) (\<lambda>n t. 0 < n \<and> same_tables s t) (\<lambda>_. same_tables s) t"
    if "same_tables s t" for t
    using that by (auto simp: wp_rand same_tables_rand dest: GenerateSerialNumber_pos split: sum.split)
  have store: "op_wp (issue_store_key E req priv) (\<lambda>_. same_tables s) (\<lambda>_. same_tables s) t"
    if "same_tables s t" for priv t
  proof (cases "iq_StoreKey req")
    case True
    have "op_wp (op_bind (op_wrap g (op_keys f)) (\<lambda>_. op_res (Inr k))) (\<lambda>_. same_tables s) (\<lambda>_. same_tables s) (t\<lparr>e_rand := r\<rparr>)"
      for g r and k :: string and f :: "files \<times> bytes \<Rightarrow> (files \<times> bytes) \<times> unit res"
      unfolding wp_bind wp_wrap wp_res
      by (rule wp_mono [OF same_tables_keys]) (use that in \<open>simp_all add: same_tables_rand\<close>)
    then show ?thesis using True that by (simp add: issue_store_key_def wp_bind wp_rand split: sum.split)
  next
    case False
    then show ?thesis using that by (simp add: issue_store_key_def wp_res)
  qed
  have tail: "op_wp (op_bind (op_cleanup (\<lambda>s. if k \<noteq> [] then ks_discard E k s else s)
          (op_wrap wrapStoreErr (op_db (st_InsertCertificate (env_faults E) row)))) (\<lambda>_.
       op_bind (op_read g) (\<lambda>caRes. op_bind (if b then op_res r1 else op_res r2)
         (\<lambda>keyPEM. op_res (Inr (res caRes keyPEM)))))) ?Q ?R t"
    if t: "same_tables s t" and ca: "issue_ca E (iq_CAID req) (e_db s) = Inr (caRec, caCert)"
      and row: "ct_CAID row = ca_ID caRec" "0 < n" "ct_Serial row = SerialHex n"
    for k row g b r1 r2 t caRec caCert n and res :: "CAResult \<Rightarrow> bytes \<Rightarrow> IssueResult"
  proof -
    obtain d r where i: "st_InsertCertificate (env_faults E) row (e_db t) = (d, r)" by force
    have at: "ca_at (iq_CAID req) (e_db s) = Some caRec" "ca_ParentID caRec \<noteq> []"
      using issue_ca_Inr [OF ca] by (simp_all add: GetCA_Inr)
    have ins: "issued_tables E (iq_CAID req) s (t\<lparr>e_db := d\<rparr>)" if "r = Inr u" for u
      using i that at row ca_at_set [OF at(1)] t by (auto simp: issued_tables_def same_tables_def)
    have err: "issued_tables E (iq_CAID req) s (if k \<noteq> [] then ks_discard E k (t\<lparr>e_db := d\<rparr>) else t\<lparr>e_db := d\<rparr>)"
      if "r = Inl e" for e
      using InsertCertificate_cases [OF i] that t
      by (auto simp: issued_tables_def same_tables_def ks_discard_def)
    show ?thesis
      using i ins err by (cases r) (simp_all add: wp_simps split: sum.split)
  qed
  have "op_wp (IssueCertificate E req) ?Q ?R s"
    unfolding IssueCertificate_def
    by (intro wp_pure wp_case_prod wp_step [OF key] wp_step [OF serial] wp_step [OF store] tail)
      (auto simp: issue_row_def same_tables_def intro: same)
  then show ?thesis by (auto simp: op_wp_def split: prod.splits sum.splits)
qed

subsection \<open>The invariant\<close>

lemma ca_row_ok_step: "ca_row_ok P d rec \<Longrightarrow> db_step\<^sup>*\<^sup>* d d' \<Longrightarrow> ca_row_ok P d' rec"
  unfolding ca_row_ok_def using ca_at_steps [of d d'] by blast

lemma leaf_row_ok_step: "leaf_row_ok d c \<Longrightarrow> db_step\<^sup>*\<^sup>* d d' \<Longrightarrow> leaf_row_ok d' c"
  unfolding leaf_row_ok_def using ca_at_steps [of d d'] by blast

lemma tables_ok_CreateCA:
  assumes P: "pem_ok (env_pem E)" and t: "tables_ok (env_pem E) (e_db s)"
  shows "tables_ok (env_pem E) (e_db (fst (CreateCA E req s)))"
proof (cases "snd (CreateCA E req s)")
  case (Inl e)
  then have "e_db (fst (CreateCA E req s)) = e_db s" by (metis CreateCA_error_tables prod.collapse)
  then show ?thesis using t by simp
next
  case (Inr r)
  then obtain s' where c: "CreateCA E req s = (s', Inr r)" by (metis prod.collapse)
  obtain profile parent der cert caID keyID now where
    pa: "ca_parent E req (e_db s) = Inr (profile, parent)" and alg: "checkAlgorithm profile (cq_Algorithm req) = Inr ()"
    and p: "ParseCertificate der = Inr cert"
    and st: "st_CreateCA (env_faults E) (ca_row E req caID keyID der now) (e_db s) = (e_db s', Inr ())"
    using CreateCA_Inr [OF c] by metis
  let ?row = "ca_row E req caID keyID der now"
  have db: "e_db s' = (e_db s)\<lparr>db_cas := db_cas (e_db s) @ [?row]\<rparr>" using CreateCA_cases [OF st] by auto
  have step: "db_step\<^sup>*\<^sup>* (e_db s) (e_db s')"
    using db_step.create_ca [of "e_db s" "env_faults E" ?row] st by (metis fst_conv r_into_rtranclp)
  have "alg_Valid (cq_Algorithm req)"
    using alg ca_parent_Inr [OF pa]
    by (auto simp: checkAlgorithm_Inr profile_defs alg_Valid_iff algorithm_consts split: if_splits)
  then have "ca_row_ok (env_pem E) (e_db s) ?row"
    using ca_parent_Inr [OF pa] p Decode_EncodeCertificatePEM [OF P, of der "[]"]
    by (auto simp: ca_row_ok_def ca_row_def ParseAlgorithm_alg_String parseCertPEM_def GetCA_Inr split: if_splits)
  then have "tables_ok (env_pem E) (e_db s')"
    using t ca_row_ok_step [OF _ step] leaf_row_ok_step [OF _ step] by (auto simp: tables_ok_def db)
  then show ?thesis using c by simp
qed

lemma tables_ok_IssueCertificate:
  assumes t: "tables_ok P (e_db s)"
  shows "tables_ok P (e_db (fst (IssueCertificate E req s)))"
  using IssueCertificate_tables [of E req s] unfolding issued_tables_def
proof (elim disjE exE conjE)
  fix row caRec n
  let ?t = "fst (IssueCertificate E req s)"
  assume i: "st_InsertCertificate (env_faults E) row (e_db s) = (e_db ?t, Inr ())"
    and row: "ca_at (iq_CAID req) (e_db s) = Some caRec" "ca_ParentID caRec \<noteq> []" "ct_CAID row = iq_CAID req"
      "0 < n" "ct_Serial row = SerialHex n"
  have db: "e_db ?t = (e_db s)\<lparr>db_certs := db_certs (e_db s) @ [row\<lparr>ct_RevokedAt := None, ct_RevocationReason := None\<rparr>]\<rparr>"
    using InsertCertificate_cases [OF i] by auto
  have at: "ca_at k (e_db ?t) = ca_at k (e_db s)" for k unfolding db by (simp add: ca_at_def)
  show ?thesis
    using t row unfolding tables_ok_def ca_row_ok_def leaf_row_ok_def at by (auto simp: db)
qed (use t in simp)

lemma tables_ok_Revoke:
  assumes t: "tables_ok P (e_db s)"
  shows "tables_ok P (e_db (fst (Revoke E serial reason s)))"
proof -
  have "op_wp (Revoke E serial reason) (\<lambda>_ u. tables_ok P (e_db u)) (\<lambda>_ u. tables_ok P (e_db u)) s"
  proof -
    have "tables_ok P d" if "st_RevokeCertificate F k at r (e_db s) = (d, res)" for F k at r d and res :: "unit res"
    proof -
      let ?key = "\<lambda>c. (ct_CAID c, ct_Serial c)"
      have c: "db_cas d = db_cas (e_db s)" "map ?key (db_certs d) = map ?key (db_certs (e_db s))"
        using that by (auto simp: st_RevokeCertificate_def revoke_row_def split: if_splits option.splits)
      have at: "ca_at k d = ca_at k (e_db s)" for k by (simp add: ca_at_def c(1))
      show ?thesis
        unfolding tables_ok_def
      proof (intro conjI ballI)
        show "ca_row_ok P d rec" if "rec \<in> set (db_cas d)" for rec
          using t that unfolding tables_ok_def ca_row_ok_def at c(1) by blast
        show "leaf_row_ok d c" if c': "c \<in> set (db_certs d)" for c
        proof -
          have "?key c \<in> ?key ` set (db_certs (e_db s))"
            using c(2) c' by (metis (no_types, lifting) image_eqI image_set)
          then show ?thesis using t unfolding tables_ok_def leaf_row_ok_def at by auto
        qed
      qed
    qed
    moreover have "op_wp (\<lambda>s. (invalidateCRL caID s, Inr ())) Q R u = Q () (invalidateCRL caID u)" for caID Q R u
      by (simp add: op_wp_def)
    ultimately show ?thesis
      using t by (auto simp: Revoke_def wp_simps invalidateCRL_def split: sum.split prod.split)
  qed
  then show ?thesis by (auto simp: op_wp_def split: prod.splits sum.splits)
qed

lemma CRL_tables: "e_db (fst (CRL E caID pass s)) = e_db s"
  by (auto simp: CRL_def op_bind_def op_read_def op_res_def split: sum.splits option.splits prod.splits)

lemma tables_ok_step:
  assumes "engine_step C P S s t" "pem_ok P" "tables_ok P (e_db s)"
  shows "tables_ok P (e_db t)"
  using assms(1)
proof cases
  case (create E req)
  then show ?thesis using tables_ok_CreateCA [of E s req] assms by simp
qed (use assms in \<open>simp_all add: tables_ok_IssueCertificate tables_ok_Revoke CRL_tables\<close>)

lemma tables_ok_steps:
  "(engine_step C P S)\<^sup>*\<^sup>* s t \<Longrightarrow> pem_ok P \<Longrightarrow> tables_ok P (e_db s) \<Longrightarrow> tables_ok P (e_db t)"
  by (induction rule: rtranclp_induct) (auto intro: tables_ok_step)

subsection \<open>Reading\<close>

lemma tables_ok_caResult:
  assumes "ca_row_ok (env_pem E) d rec" "no_faults E"
  shows "\<exists>r. caResult E d rec = Inr r"
  using assms by (auto simp: ca_row_ok_def caResult_def no_faults_def parent_faults_def GetCA_Inr st_GetCA_def ca_at_def split: option.split)

lemma rmap_all: "(\<And>x. x \<in> set xs \<Longrightarrow> \<exists>y. f x = Inr y) \<Longrightarrow> \<exists>ys. rmap f xs = Inr ys \<and> length ys = length xs"
  by (induction xs) fastforce+

lemma tables_ok_ListCAs:
  assumes "tables_ok (env_pem E) (e_db s)" "no_faults E"
  shows "\<exists>rs. ListCAs E s = Inr rs \<and> length rs = length (db_cas (e_db s))"
proof -
  let ?cas = "sort_key (\<lambda>ca. (ca_CreatedAt ca, ca_ID ca)) (db_cas (e_db s))"
  have "\<exists>rs. rmap (caResult E (e_db s)) ?cas = Inr rs \<and> length rs = length ?cas"
    using assms by (intro rmap_all tables_ok_caResult) (auto simp: tables_ok_def)
  then show ?thesis using assms(2) by (simp add: ListCAs_def st_ListCAs_def no_faults_def)
qed

lemma tables_ok_GetCertificate:
  assumes "tables_ok P (e_db s)" "db_ok (e_db s)" "c \<in> set (db_certs (e_db s))" "no_faults E"
  shows "GetCertificate E (ct_Serial c) s = Inr c" "\<exists>e. crl_entry now c = Inr e"
proof -
  obtain n where n: "0 < n" "ct_Serial c = SerialHex n" using assms(1,3) by (auto simp: tables_ok_def leaf_row_ok_def)
  have "cert_at (ct_Serial c) (e_db s) = Some c" using assms(2,3) by (simp add: cert_at_iff)
  then show "GetCertificate E (ct_Serial c) s = Inr c"
    using n assms(4) by (simp add: GetCertificate_def st_GetCertificate_def cert_at_def to_lower_SerialHex no_faults_def)
  show "\<exists>e. crl_entry now c = Inr e" using n by (simp add: crl_entry_def SetString16_SerialHex)
qed

subsection \<open>Properties\<close>

text \<open>C5. The tables of an engine that starts empty, after any operations with any failures: the
  hierarchy has exactly two levels (the parent of an intermediate is a root, and only
  intermediates have issued end-entity certificates), every CA and every certificate can be read
  back through the engine, and the stored serial numbers are the lower-case hexadecimal numbers
  that \<open>GetCertificate\<close> looks up and \<open>CRL\<close> reads.\<close>

theorem engine_hierarchy:
  assumes "(engine_step C P S)\<^sup>*\<^sup>* s0 s" "e_db s0 = empty_db" "pem_ok P" "env_pem E = P" "no_faults E"
  shows "(\<forall>rec \<in> set (db_cas (e_db s)). ca_Status rec = StatusActive
        \<and> (ca_ParentID rec = [] \<or> (\<exists>parent. ca_at (ca_ParentID rec) (e_db s) = Some parent \<and> ca_ParentID parent = []))
        \<and> (\<exists>r. caResult E (e_db s) rec = Inr r))
    \<and> (\<exists>rs. ListCAs E s = Inr rs \<and> length rs = length (db_cas (e_db s)))
    \<and> (\<forall>c \<in> set (db_certs (e_db s)).
        (\<exists>caRec. ca_at (ct_CAID c) (e_db s) = Some caRec \<and> ca_ParentID caRec \<noteq> [])
        \<and> GetCertificate E (ct_Serial c) s = Inr c \<and> (\<exists>e. crl_entry (env_now E) c = Inr e))"
proof -
  have "tables_ok P (e_db s0)" by (simp add: tables_ok_def assms(2) empty_db_def)
  then have t: "tables_ok (env_pem E) (e_db s)" using tables_ok_steps [OF assms(1,3)] assms(4) by simp
  have "db_ok (e_db s)"
    using db_ok_steps [OF engine_steps_tables [OF assms(1)]] db_ok_empty assms(2) by simp
  note read = tables_ok_GetCertificate [OF t this _ assms(5)]
  have rows: "\<exists>r. caResult E (e_db s) rec = Inr r" "ca_row_ok (env_pem E) (e_db s) rec"
    if "rec \<in> set (db_cas (e_db s))" for rec
    using t that tables_ok_caResult [of E "e_db s" rec] assms(5) by (auto simp: tables_ok_def)
  have leaves: "leaf_row_ok (e_db s) c" if "c \<in> set (db_certs (e_db s))" for c
    using t that by (simp add: tables_ok_def)
  show ?thesis
    by (intro conjI ballI tables_ok_ListCAs [OF t assms(5)] rows(1) read)
      (use rows(2) leaves in \<open>auto simp: ca_row_ok_def leaf_row_ok_def\<close>)
qed

theorem engine_hierarchy_witness:
  "\<exists>s rs. (engine_step toy_circl toy_pem toy_sealing)\<^sup>*\<^sup>* toy_engine s \<and> ListCAs toy_env s = Inr rs \<and> length rs = 2"
proof -
  obtain s1 root s2 sub where run: "CreateCA toy_env toy_root_req toy_engine = (s1, Inr root)"
    "CreateCA toy_env (toy_ca_req toy_root_id ''sub'' MLDSA65) s1 = (s2, Inr sub)"
    and two: "length (db_cas (e_db s2)) = 2"
    using toy_sub_created by (fastforce simp: numeral_2_eq_2)
  have env: "env_circl toy_env = toy_circl" "env_pem toy_env = toy_pem" "env_sealing toy_env = toy_sealing"
    by (simp_all add: toy_env_def)
  have "engine_step toy_circl toy_pem toy_sealing toy_engine s1" "engine_step toy_circl toy_pem toy_sealing s1 s2"
    using engine_step.create [OF env, of toy_engine toy_root_req]
      engine_step.create [OF env, of s1 "toy_ca_req toy_root_id ''sub'' MLDSA65"] run by simp_all
  then have steps: "(engine_step toy_circl toy_pem toy_sealing)\<^sup>*\<^sup>* toy_engine s2" by simp
  moreover have "e_db toy_engine = empty_db" by (simp add: toy_engine_def)
  ultimately show ?thesis
    using engine_hierarchy [OF steps _ toy_pem_ok env(2) toy_packages(2)] two by auto
qed

end
