(* ===== verification/Crl_Cache.thy ===== *)
theory Crl_Cache
  imports Engine_Toy
begin

section \<open>The CRL cache under interleaving (internal/ca/crl.go)\<close>

text \<open>
  \<open>Engine.CRL\<close> holds the mutex of the cache only while it reads or writes the cache: between the
  reading of the revoked certificates and the writing of the list that is built from them, any
  other operation can run, among them a revocation that invalidates the cache. The system below
  splits \<open>CRL\<close> at that point: \<open>snapshot\<close> reads the tables and remembers what it read, \<open>publish\<close>
  builds a list from a remembered reading (however old) and stores it, every operation of the
  engine can run in between, and the process can be restarted. The steps \<open>tables\<close> and \<open>invalidate\<close>
  are the two halves of \<open>Revoke\<close>, and of any other operation: a change of the tables and the
  removal of a cached list, in either order and any number of times. The invariant says what a
  cached list is, and the property that a list which \<open>CRL\<close> serves is never stale.
\<close>

subsection \<open>The revoked certificates only grow\<close>

definition listed :: "string \<Rightarrow> db \<Rightarrow> cert_rec list" where
  "listed caID d = sort_key (\<lambda>c. (ct_RevokedAt c, ct_Serial c))
     (filter (\<lambda>c. ct_CAID c = caID \<and> ct_Status c = StatusRevoked) (db_certs d))"

lemma ListRevoked_Inr: "st_ListRevoked F caID d = Inr cs \<Longrightarrow> cs = listed caID d"
  by (simp add: st_ListRevoked_def listed_def split: if_splits)

lemma listed_set:
  "db_ok d \<Longrightarrow> set (listed caID d) = {c. cert_at (ct_Serial c) d = Some c \<and> ct_CAID c = caID \<and> is_revoked c}"
  by (auto simp: cert_at_iff listed_def)

lemma listed_distinct:
  assumes "db_ok d"
  shows "distinct (map ct_Serial (listed caID d))"
  using assms by (auto simp: listed_def db_ok_def distinct_map intro: inj_on_subset)

lemma listed_mono:
  assumes "db_ok d" "db_step\<^sup>*\<^sup>* d d'"
  shows "set (listed caID d) \<subseteq> set (listed caID d')"
proof -
  have ok': "db_ok d'" using db_ok_steps [OF assms(2,1)] .
  have "cert_at k d' = Some c" if "cert_at k d = Some c" "is_revoked c" for k c
    using certificates.revoked_forever [OF assms(2,1) that] .
  then show ?thesis unfolding listed_set [OF assms(1)] listed_set [OF ok'] by auto
qed

lemma listed_same:
  assumes "db_ok d" "db_step\<^sup>*\<^sup>* d d'" "length (listed caID d) = length (listed caID d')"
  shows "listed caID d = listed caID d'"
proof -
  let ?k = "\<lambda>c. (ct_RevokedAt c, ct_Serial c)"
  have ok': "db_ok d'" using db_ok_steps [OF assms(2,1)] .
  have d: "distinct (map ct_Serial (listed caID d))" "distinct (map ct_Serial (listed caID d'))"
    using listed_distinct assms(1) ok' by blast+
  then have "card (set (listed caID d)) = card (set (listed caID d'))"
    using assms(3) distinct_card [of "listed caID d"] distinct_card [of "listed caID d'"] by (simp only: distinct_map)
  then have same: "set (listed caID d) = set (listed caID d')"
    using listed_mono [OF assms(1,2)] by (simp add: card_subset_eq)
  have "inj_on ct_Serial (set (listed caID d'))" using d(2) by (simp add: distinct_map)
  then have inj: "inj_on ?k (set (listed caID d) \<union> set (listed caID d'))"
    using same by (auto simp: inj_on_def)
  have "distinct (map ?k xs)" if "distinct (map ct_Serial xs)" for xs
    using that by (auto simp: distinct_map inj_on_def)
  then show ?thesis
    using d same by (intro map_sorted_distinct_set_unique [OF inj]) (simp_all add: listed_def)
qed

subsection \<open>The system\<close>

record crl_snapshot =
  sn_caID :: string
  sn_rec :: ca_rec
  sn_revoked :: "cert_rec list"

inductive crl_system ::
  "('pk, 'sk) circl \<Rightarrow> pem_package \<Rightarrow> sealing \<Rightarrow> engine \<times> crl_snapshot list \<Rightarrow> engine \<times> crl_snapshot list \<Rightarrow> bool"
  for C P S where
  operation: "engine_step C P S s t \<Longrightarrow> crl_system C P S (s, ps) (t, ps)"
| snapshot: "st_GetCA F caID (e_db s) = Inr rec \<Longrightarrow> st_ListRevoked F caID (e_db s) = Inr revoked
    \<Longrightarrow> crl_system C P S (s, ps) (s, ps @ [\<lparr>sn_caID = caID, sn_rec = rec, sn_revoked = revoked\<rparr>])"
| publish: "p \<in> set ps \<Longrightarrow> env_circl E = C \<Longrightarrow> env_pem E = P \<Longrightarrow> env_sealing E = S
    \<Longrightarrow> crl_build E passphrase (sn_rec p) (sn_revoked p) s = Inr entry
    \<Longrightarrow> crl_system C P S (s, ps) (s\<lparr>e_crlCache := (e_crlCache s)(sn_caID p \<mapsto> entry)\<rparr>, ps)"
| tables: "db_step (e_db s) d \<Longrightarrow> crl_system C P S (s, ps) (s\<lparr>e_db := d\<rparr>, ps)"
| invalidate: "crl_system C P S (s, ps) (invalidateCRL caID s, ps)"
| restart: "restarted s t \<Longrightarrow> crl_system C P S (s, ps) (t, [])"

inductive_cases crl_systemE: "crl_system C P S (s, ps) st"

text \<open>\<open>crl_served\<close>: what the second half of \<open>CRL\<close> returns for a reading of the tables, the cached
  octets when their count and their next update fit, else those of a new list.\<close>

definition crl_served :: "('pk, 'sk) env \<Rightarrow> crl_snapshot \<Rightarrow> bytes \<Rightarrow> engine \<Rightarrow> bytes res" where
  "crl_served E p passphrase s =
     (case crl_cached (time_Truncate (env_now E)) (sn_caID p) (length (sn_revoked p)) s of
        Some der \<Rightarrow> Inr der
      | None \<Rightarrow> rbind (crl_build E passphrase (sn_rec p) (sn_revoked p) s) (\<lambda>entry. Inr (cc_der entry)))"

text \<open>\<open>read_before\<close>: the list was read from an earlier state of the tables. \<open>list_of\<close>: the octets
  are a list of these revoked certificates. \<open>agree\<close>: two readings of one authority with the same
  number of certificates are the same reading.\<close>

definition agree :: "string \<Rightarrow> cert_rec list \<Rightarrow> crl_snapshot list \<Rightarrow> bool" where
  "agree caID cs ps = (\<forall>p \<in> set ps. sn_caID p = caID \<longrightarrow> length (sn_revoked p) = length cs \<longrightarrow> sn_revoked p = cs)"

definition read_before :: "string \<Rightarrow> cert_rec list \<Rightarrow> db \<Rightarrow> bool" where
  "read_before caID cs d = (\<exists>d0. db_ok d0 \<and> db_step\<^sup>*\<^sup>* d0 d \<and> cs = listed caID d0)"

definition list_of :: "cert_rec list \<Rightarrow> instant \<Rightarrow> bytes \<Rightarrow> bool" where
  "list_of cs nextUpdate der =
     (\<exists>issuer signer now entries. subject_ok issuer \<and> rmap (crl_entry now) cs = Inr entries
        \<and> CreateRevocationList (Some issuer) (Some signer) (Some (int (length cs) + 1)) entries now nextUpdate
          = Inr der)"

definition entry_ok :: "string \<Rightarrow> crlCacheEntry \<Rightarrow> crl_snapshot list \<Rightarrow> db \<Rightarrow> bool" where
  "entry_ok caID c ps d =
     (\<exists>cs. read_before caID cs d \<and> agree caID cs ps \<and> cc_entryCount c = length cs \<and> cc_number c = int (length cs) + 1
        \<and> list_of cs (cc_nextUpdate c) (cc_der c))"

definition cache_ok :: "engine \<times> crl_snapshot list \<Rightarrow> bool" where
  "cache_ok st =
     (db_ok (e_db (fst st))
      \<and> (\<forall>caID c. e_crlCache (fst st) caID = Some c \<longrightarrow> entry_ok caID c (snd st) (e_db (fst st)))
      \<and> (\<forall>p \<in> set (snd st). read_before (sn_caID p) (sn_revoked p) (e_db (fst st))
            \<and> agree (sn_caID p) (sn_revoked p) (snd st)))"

lemma read_before_refl: "db_ok d \<Longrightarrow> read_before caID (listed caID d) d"
  by (auto simp: read_before_def)

lemma read_before_step: "read_before caID cs d \<Longrightarrow> db_step\<^sup>*\<^sup>* d d' \<Longrightarrow> read_before caID cs d'"
  unfolding read_before_def using rtranclp_trans [of db_step _ d d'] by blast

lemma read_before_now: "read_before caID cs d \<Longrightarrow> length cs = length (listed caID d) \<Longrightarrow> cs = listed caID d"
  unfolding read_before_def using listed_same by blast

lemma entry_ok_step: "entry_ok caID c ps d \<Longrightarrow> db_step\<^sup>*\<^sup>* d d' \<Longrightarrow> entry_ok caID c ps d'"
  unfolding entry_ok_def using read_before_step by blast

text \<open>A reading of the present tables agrees with every earlier one.\<close>

lemma agree_now:
  "(\<forall>p \<in> set ps. read_before (sn_caID p) (sn_revoked p) d) \<Longrightarrow> agree caID (listed caID d) ps"
  unfolding agree_def using read_before_now by blast

lemma agree_snoc:
  "agree caID cs (ps @ [p]) \<longleftrightarrow>
     agree caID cs ps \<and> (sn_caID p = caID \<longrightarrow> length (sn_revoked p) = length cs \<longrightarrow> sn_revoked p = cs)"
  by (auto simp: agree_def)

lemma agree_read:
  assumes "agree caID cs ps" "read_before caID cs d" "sn_caID p = caID \<Longrightarrow> sn_revoked p = listed caID d"
  shows "agree caID cs (ps @ [p])"
  using assms(1,3) read_before_now [OF assms(2)] by (auto simp: agree_snoc)

lemma crl_build_list:
  assumes "crl_build E passphrase caRec cs s = Inr entry"
  shows "cc_entryCount entry = length cs \<and> cc_number entry = int (length cs) + 1
    \<and> list_of cs (cc_nextUpdate entry) (cc_der entry)
    \<and> time_Truncate (env_now E) < cc_nextUpdate entry"
proof -
  obtain issuer signer entries der where i: "parseCertPEM (env_pem E) (ca_CertPEM caRec) = Inr issuer"
    and b: "rmap (crl_entry (time_Truncate (env_now E))) cs = Inr entries"
    "CreateRevocationList (Some issuer) (Some signer) (Some (int (length cs) + 1)) entries
       (time_Truncate (env_now E)) (time_Add (time_Truncate (env_now E)) (e_crlValidity s)) = Inr der"
    "entry = \<lparr>cc_der = der, cc_entryCount = length cs,
       cc_nextUpdate = time_Add (time_Truncate (env_now E)) (e_crlValidity s), cc_number = int (length cs) + 1\<rparr>"
    using assms by (auto simp: crl_build_def Let_def go_inv)
  then show ?thesis
    using CreateRevocationList_Inr [OF b(2)] parsed_issuer(1) [OF i] unfolding list_of_def by auto
qed

text \<open>What each operation of the engine does to the cache: nothing, an invalidation, or a new entry
  of a list that is read and built at once.\<close>

definition cache_drops :: "engine \<Rightarrow> engine \<Rightarrow> bool" where
  "cache_drops s t = (\<forall>caID. e_crlCache t caID = None \<or> e_crlCache t caID = e_crlCache s caID)"

interpretation cache: op_frame cache_drops
proof
  show "cache_drops s t \<Longrightarrow> cache_drops t u \<Longrightarrow> cache_drops s u" for s t u
    unfolding cache_drops_def by metis
qed (auto simp: cache_drops_def)

lemma cache_drops_db: "op_keeps cache_drops (op_db f)"
  by (auto simp: op_keeps_def op_db_def cache_drops_def split: prod.splits)

lemma cache_drops_ops:
  "cache_drops s (fst (CreateCA E req s))" "cache_drops s (fst (IssueCertificate E ireq s))"
  "cache_drops s (fst (Revoke E serial reason s))"
proof -
  have "cache_drops s (invalidateCRL caID s)" for s caID by (simp add: cache_drops_def invalidateCRL_def)
  then have "op_keeps cache_drops (CreateCA E req)" "op_keeps cache_drops (IssueCertificate E ireq)"
    "op_keeps cache_drops (Revoke E serial reason)"
    by (auto intro!: cache.keeps_CreateCA cache.keeps_IssueCertificate cache.keeps_Revoke cache_drops_db)
  then show "cache_drops s (fst (CreateCA E req s))" "cache_drops s (fst (IssueCertificate E ireq s))"
    "cache_drops s (fst (Revoke E serial reason s))"
    by (simp_all add: op_keeps_def)
qed

lemma CRL_cases:
  obtains (same) "fst (CRL E caID pass s) = s"
      "\<And>der. snd (CRL E caID pass s) = Inr der \<Longrightarrow>
         crl_cached (time_Truncate (env_now E)) caID (length (listed caID (e_db s))) s = Some der"
    | (built) entry rec where "crl_build E pass rec (listed caID (e_db s)) s = Inr entry"
      "CRL E caID pass s = (s\<lparr>e_crlCache := (e_crlCache s)(caID \<mapsto> entry)\<rparr>, Inr (cc_der entry))"
proof (cases "snd (CRL E caID pass s)")
  case (Inl e)
  then have "fst (CRL E caID pass s) = s"
    by (auto simp: CRL_def op_bind_def op_read_def op_res_def split: sum.splits option.splits prod.splits)
  then show ?thesis using same Inl by simp
next
  case (Inr der)
  then obtain rec cs where cs: "rmap_err wrapStoreErr (st_GetCA (env_faults E) caID (e_db s)) = Inr rec"
    "rmap_err wrapStoreErr (st_ListRevoked (env_faults E) caID (e_db s)) = Inr cs"
    by (auto simp: CRL_def op_bind_def op_read_def split: sum.splits)
  then have l: "cs = listed caID (e_db s)" using ListRevoked_Inr by (auto simp: go_inv)
  have run: "CRL E caID pass s = (case crl_cached (time_Truncate (env_now E)) caID (length cs) s of
         Some der \<Rightarrow> (s, Inr der)
       | None \<Rightarrow> (case crl_build E pass rec cs s of Inl e \<Rightarrow> (s, Inl e)
            | Inr entry \<Rightarrow> (s\<lparr>e_crlCache := (e_crlCache s)(caID \<mapsto> entry)\<rparr>, Inr (cc_der entry))))"
    using cs by (auto simp: CRL_def op_bind_def op_read_def op_res_def split: option.split sum.split)
  show ?thesis
  proof (cases "crl_cached (time_Truncate (env_now E)) caID (length cs) s")
    case None
    then obtain entry where "crl_build E pass rec cs s = Inr entry" using Inr run by (auto split: sum.splits)
    then show ?thesis using built [of rec entry] run None l by simp
  next
    case (Some d)
    then show ?thesis using same run l by simp
  qed
qed

text \<open>The invariant, preserved by every step.\<close>

lemma cache_ok_engine:
  assumes "cache_ok (s, ps)" "db_step\<^sup>*\<^sup>* (e_db s) (e_db t)" "cache_drops s t"
  shows "cache_ok (t, ps)"
  unfolding cache_ok_def
proof (intro conjI allI ballI impI)
  show "db_ok (e_db (fst (t, ps)))" using db_ok_steps [OF assms(2)] assms(1) by (simp add: cache_ok_def)
  show "entry_ok caID c (snd (t, ps)) (e_db (fst (t, ps)))" if "e_crlCache (fst (t, ps)) caID = Some c" for caID c
  proof -
    have "e_crlCache s caID = Some c"
      using that assms(3) [unfolded cache_drops_def, rule_format, of caID] by auto
    then show ?thesis using assms(1) entry_ok_step [OF _ assms(2)] by (simp add: cache_ok_def)
  qed
  show "read_before (sn_caID p) (sn_revoked p) (e_db (fst (t, ps)))"
    "agree (sn_caID p) (sn_revoked p) (snd (t, ps))" if "p \<in> set (snd (t, ps))" for p
    using assms(1) that read_before_step [OF _ assms(2)] by (simp_all add: cache_ok_def)
qed

lemma cache_ok_store:
  assumes "cache_ok (s, ps)" "entry_ok caID entry ps (e_db s)"
  shows "cache_ok (s\<lparr>e_crlCache := (e_crlCache s)(caID \<mapsto> entry)\<rparr>, ps)"
  using assms by (auto simp: cache_ok_def)

lemma cache_ok_step:
  assumes "crl_system C P S st st'" "cache_ok st"
  shows "cache_ok st'"
  using assms
proof (induction rule: crl_system.induct)
  case (operation s t ps)
  have db: "db_step\<^sup>*\<^sup>* (e_db s) (e_db t)" using engine_step_tables [OF operation(1)] .
  show ?case
    using operation(1)
  proof cases
    case (crl E caID pass)
    show ?thesis
    proof (cases rule: CRL_cases [of E caID pass s])
      case same
      then show ?thesis using crl operation(2) by simp
    next
      case (built entry rec)
      have "read_before caID (listed caID (e_db s)) (e_db s)"
        using operation(2) read_before_refl by (simp add: cache_ok_def)
      moreover have "agree caID (listed caID (e_db s)) ps"
        using operation(2) by (intro agree_now) (simp add: cache_ok_def)
      ultimately have "entry_ok caID entry ps (e_db s)"
        using crl_build_list [OF built(1)] by (auto simp: entry_ok_def)
      then show ?thesis using cache_ok_store [OF operation(2)] crl built(2) by simp
    qed
  qed (use cache_ok_engine [OF operation(2) db] in \<open>simp_all add: cache_drops_ops\<close>)
next
  case (snapshot F caID s rec revoked ps)
  note r = ListRevoked_Inr [OF snapshot(2)] and ok = snapshot(3) [unfolded cache_ok_def, simplified]
  let ?p = "\<lparr>sn_caID = caID, sn_rec = rec, sn_revoked = revoked\<rparr>"
  have "read_before caID revoked (e_db s)" "agree caID revoked (ps @ [?p])"
    using ok r read_before_refl agree_now [of ps "e_db s" caID] by (simp_all add: agree_snoc)
  moreover have "entry_ok i c (ps @ [?p]) (e_db s)" if "e_crlCache s i = Some c" for i c
  proof -
    have "entry_ok i c ps (e_db s)" using ok that by simp
    then obtain cs where "read_before i cs (e_db s)" "agree i cs ps" "cc_entryCount c = length cs"
      "cc_number c = int (length cs) + 1" "list_of cs (cc_nextUpdate c) (cc_der c)"
      unfolding entry_ok_def by blast
    moreover from this have "agree i cs (ps @ [?p])" by (intro agree_read) (simp_all add: r)
    ultimately show ?thesis unfolding entry_ok_def by blast
  qed
  moreover have "agree (sn_caID q) (sn_revoked q) (ps @ [?p])" if "q \<in> set ps" for q
    using ok that by (intro agree_read [where d = "e_db s"]) (auto simp: r)
  ultimately show ?case using ok by (simp add: cache_ok_def)
next
  case (publish p ps E passphrase s entry)
  have "read_before (sn_caID p) (sn_revoked p) (e_db s)" "agree (sn_caID p) (sn_revoked p) ps"
    using publish by (simp_all add: cache_ok_def)
  then have "entry_ok (sn_caID p) entry ps (e_db s)"
    using crl_build_list [OF publish(5)] by (auto simp: entry_ok_def)
  then show ?case by (rule cache_ok_store [OF publish(6)])
next
  case (tables s d ps)
  then show ?case by (intro cache_ok_engine [OF tables(2)]) (auto simp: cache_drops_def)
next
  case (invalidate s ps caID)
  then show ?case
    by (intro cache_ok_engine [OF invalidate]) (auto simp: cache_drops_def invalidateCRL_def)
next
  case (restart s t ps)
  then show ?case by (simp add: cache_ok_def restarted_def)
qed

lemma cache_ok_steps: "(crl_system C P S)\<^sup>*\<^sup>* st st' \<Longrightarrow> cache_ok st \<Longrightarrow> cache_ok st'"
  by (induction rule: rtranclp_induct) (auto intro: cache_ok_step)

text \<open>\<open>CRL\<close> is a reading of the tables and, at once, its second half.\<close>

lemma CRL_split:
  assumes "CRL E caID pass s = (s', Inr der)"
  obtains p where "crl_system C P S (s, ps) (s, ps @ [p])" "sn_caID p = caID" "sn_revoked p = listed caID (e_db s)"
    "crl_served E p pass s = Inr der"
proof -
  obtain rec cs where "st_GetCA (env_faults E) caID (e_db s) = Inr rec" "st_ListRevoked (env_faults E) caID (e_db s) = Inr cs"
    "crl_served E \<lparr>sn_caID = caID, sn_rec = rec, sn_revoked = cs\<rparr> pass s = Inr der"
    using assms by (auto simp: CRL_def op_bind_def op_read_def op_res_def crl_served_def go_inv
        split: sum.splits option.splits)
  then show ?thesis using that crl_system.snapshot ListRevoked_Inr by fastforce
qed

text \<open>The second half of a call whose reading is a remembered one.\<close>

lemma served_current:
  assumes "cache_ok (s, ps)" "p \<in> set ps" "crl_served E p pass s = Inr der"
  shows "\<exists>nextUpdate. list_of (sn_revoked p) nextUpdate der \<and> time_Truncate (env_now E) < nextUpdate"
proof (cases "crl_cached (time_Truncate (env_now E)) (sn_caID p) (length (sn_revoked p)) s")
  case None
  then obtain entry where "crl_build E pass (sn_rec p) (sn_revoked p) s = Inr entry" "cc_der entry = der"
    using assms(3) by (auto simp: crl_served_def go_inv)
  then show ?thesis using crl_build_list by blast
next
  case (Some d)
  then obtain c where c: "e_crlCache s (sn_caID p) = Some c" "cc_entryCount c = length (sn_revoked p)"
    "time_Truncate (env_now E) < cc_nextUpdate c" "cc_der c = der"
    using assms(3) by (auto simp: crl_served_def crl_cached_def split: option.splits if_splits)
  then obtain cs where "agree (sn_caID p) cs ps" "length cs = length (sn_revoked p)"
    "list_of cs (cc_nextUpdate c) (cc_der c)"
    using assms(1) unfolding cache_ok_def entry_ok_def by fastforce
  moreover from this have "sn_revoked p = cs" using assms(2) by (simp add: agree_def)
  ultimately show ?thesis using c(3,4) unfolding list_of_def by blast
qed

subsection \<open>What a list says\<close>

lemma find_revoked_iff: "snd (find_revoked es (Some n)) \<longleftrightarrow> Some n \<in> re_Serial ` set es"
  by (induction es) auto

definition reasons_ok :: "cert_rec list \<Rightarrow> bool" where
  "reasons_ok cs = (\<forall>c \<in> set cs. \<forall>r. ct_RevocationReason c = Some r \<longrightarrow> int32_ok r)"

lemma crl_entry_Inr:
  assumes "crl_entry now c = Inr e"
  shows "re_Serial e = SetString16 (ct_Serial c)"
    "re_Reason e = (case ct_RevocationReason c of None \<Rightarrow> 0 | Some r \<Rightarrow> r)"
  using assms by (auto simp: crl_entry_def split: option.splits)

lemma crl_entries_serials:
  "rmap (crl_entry now) cs = Inr entries \<Longrightarrow> map re_Serial entries = map (\<lambda>c. SetString16 (ct_Serial c)) cs"
  by (induction cs arbitrary: entries) (auto simp: go_inv crl_entry_Inr(1))

lemma crl_entries_reasons:
  "rmap (crl_entry now) cs = Inr entries \<Longrightarrow> reasons_ok cs \<Longrightarrow> list_all (\<lambda>e. int32_ok (re_Reason e)) entries"
proof (induction cs arbitrary: entries)
  case Nil
  then show ?case by simp
next
  case (Cons c cs)
  have "int32_ok 0" by (simp add: int32_ok_def)
  then have "int32_ok (re_Reason e)" if "crl_entry now c = Inr e" for e
    using crl_entry_Inr(2) [OF that] Cons.prems(2) by (auto simp: reasons_ok_def split: option.split)
  moreover have "reasons_ok cs" using Cons.prems(2) by (simp add: reasons_ok_def)
  ultimately show ?case using Cons.prems(1) Cons.IH by (auto simp: go_inv)
qed

lemma list_marks:
  assumes "rmap (crl_entry now) cs = Inr entries"
    and "CreateRevocationList (Some issuer) (Some signer) (Some k) entries now next = Inr der"
    and "subject_ok issuer" "signer_ok C signer" "length der < 2 ^ 31"
    and "reasons_ok cs"
  shows "\<exists>l. ParseRevocationList der = Inr l
    \<and> (\<forall>n. snd (IsRevoked l (Some n)) \<longleftrightarrow> (\<exists>c \<in> set cs. SetString16 (ct_Serial c) = Some n))"
proof -
  obtain tbsDER sig issuerDER where
    "ParseRevocationList der = Inr (issued_crl issuer k entries now next der tbsDER sig issuerDER)"
    using CreateRevocationList_parse [OF assms(2,5,4,3) crl_entries_reasons [OF assms(1,6)]] by blast
  moreover have "map re_Serial (map entry_view entries) = map (\<lambda>c. SetString16 (ct_Serial c)) cs"
    using crl_entries_serials [OF assms(1)] by (simp add: entry_view_def comp_def)
  then have "re_Serial ` set (map entry_view entries) = (\<lambda>c. SetString16 (ct_Serial c)) ` set cs"
    by (metis list.set_map)
  ultimately show ?thesis
    by (intro exI conjI) (assumption, auto simp: IsRevoked_def find_revoked_iff issued_crl_def image_iff eq_commute)
qed

subsection \<open>An empty list can be created\<close>

lemma empty_list_created:
  assumes sg: "signer_ok C signer" "sg_pub signer = crt_PublicKey issuer"
    and t: "this < next" "marshalTime this = Inr nb" "marshalTime next = Inr na"
    and ku: "crt_KeyUsage issuer AND KeyUsageCRLSign \<noteq> 0"
    and sub: "subject_der issuer = Inr sub" "length sub \<le> 2 ^ 24" "sub \<noteq> []"
  shows "\<exists>der. CreateRevocationList (Some issuer) (Some signer) (Some 1) [] this next = Inr der \<and> length der < 2 ^ 31"
proof -
  have ok: "pub_ok (crt_PublicKey issuer)" "sg_alg signer = pub_alg (crt_PublicKey issuer)"
    "alg_Valid (sg_alg signer)"
    using sg by (auto simp: signer_ok_def pub_ok_def)
  obtain kid where kid: "KeyIdentifier (crt_PublicKey issuer) = Inr kid" "length kid = 20"
    using key_identifier_total [OF ok(1)] by blast
  obtain a n eb where ex: "marshalAuthorityKeyID kid = Inr a" "marshalCRLNumber 1 = Inr n"
    "marshal_extensions 0 [ext_of oidExtAuthorityKeyID False a, ext_of oidExtCRLNumber False n] = Inr eb"
    "length eb < 1000"
    using toy_crl_exts [OF kid(2)] by blast
  obtain ai where ai: "marshal_algorithmIdentifier (algorithm_identifier (alg_OID (sg_alg signer))) = Inr ai"
    "length ai \<le> 60"
    using marshal_algorithm_identifier [OF ok(3)] length_algorithm_identifier [OF ok(3)] by auto
  let ?T = "\<lparr>tl_version = 1, tl_sigalg = algorithm_identifier (alg_OID (sg_alg signer)),
      tl_issuer = raw_full sub, tl_this = nb, tl_next = na, tl_revoked = [],
      tl_exts = [ext_of oidExtAuthorityKeyID False a, ext_of oidExtCRLNumber False n]\<rparr>"
  have v: "length (tlv 0 False 2 (int_bytes 1)) < 20" by code_simp
  let ?body = "tlv 0 False 2 (int_bytes 1) @ ai @ sub @ marshal_raw nb @ marshal_raw na @ eb"
  have "na \<noteq> zero_raw" using marshalTime_Inr [OF t(3)] raw_ok_nonzero by blast
  then have "marshal_tbsCertList ?T = Inr (tlv 0 True 16 ?body)"
    using sub(3) ai(1) ex(3) by (simp add: marshal_tbsCertList_def marshal_int_def marshal_revoked_list_def)
  moreover have "length (tlv 0 True 16 ?body) < 2 ^ 30"
    using length_tlv_le [of 16 ?body 0 True] v sub(2) ai(2) ex(4)
      length_marshalTime [OF t(2)] length_marshalTime [OF t(3)] by simp
  ultimately obtain tbs where tbs: "marshal_tbsCertList ?T = Inr tbs" "length tbs < 2 ^ 30" "tbs \<noteq> []"
    by (metis tlv_neq_Nil)
  obtain sig where sig: "sg_sign signer tbs = Inr sig" "length sig = SignatureSize (sg_alg signer)"
    using sg(1) by (auto simp: signer_ok_def)
  have "length sig < 2 ^ 20" using sig(2) size_bounds(2) [of "sg_alg signer"] by simp
  then obtain der where "marshal_signed \<lparr>sd_tbs = raw_full tbs,
      sd_alg = algorithm_identifier (alg_OID (sg_alg signer)), sd_sig = octet_bits sig\<rparr> = Inr der" "length der < 2 ^ 31"
    using marshal_signed_total [OF ok(3) tbs(2) _ tbs(3)] by blast
  then show ?thesis
    using t ku sub(1) kid(1) ex(1,2) tbs(1) sig(1) ok(2)
    by (auto simp: CreateRevocationList_def sign_tbs_def)
qed

subsection \<open>A list of the concrete root\<close>

lemma toy_list_created:
  "\<exists>s1 root der. CreateCA toy_env toy_root_req toy_engine = (s1, Inr root)
    \<and> db_ok (e_db s1) \<and> e_crlCache s1 = Map.empty
    \<and> st_ListRevoked (\<lambda>_. False) toy_root_id (e_db s1) = Inr []
    \<and> snd (CRL toy_env toy_root_id [1] s1) = Inr der"
proof -
  obtain s1 root sealed where root: "CreateCA toy_env toy_root_req toy_engine = (s1, Inr root)"
    "length (crt_Raw (cr_Certificate root)) < 2 ^ 31" "cr_ID root = toy_root_id"
    and s1: "s1 = toy_engine\<lparr>e_files := [key_path toy_root_id \<mapsto> sealed], e_rand := replicate 108 6 @ replicate 48 7,
        e_db := empty_db\<lparr>db_cas := [ca_row toy_env toy_root_req toy_root_id toy_root_id
          (crt_Raw (cr_Certificate root)) toy_now]\<rparr>\<rparr>"
    using toy_root_created by blast
  note P = toy_parent [OF root]
  let ?rc = "cr_Certificate root"
  let ?row = "ca_row toy_env toy_root_req toy_root_id toy_root_id (crt_Raw ?rc) toy_now"
  have row: "ca_ID ?row = toy_root_id" "ca_CertPEM ?row = EncodeCertificatePEM (env_pem toy_env) (crt_Raw ?rc)"
    "ca_ParentID ?row = []"
    by (simp_all add: ca_row_def toy_ca_req_def)
  have st: "e_db s1 = \<lparr>db_cas = [?row], db_certs = [], db_tokens = []\<rparr>" "e_crlCache s1 = Map.empty"
    "e_crlValidity s1 = 168 * hour"
    by (simp_all add: s1 empty_db_def toy_engine_def)
  have env: "env_circl toy_env = toy_circl" "env_pem toy_env = toy_pem" "env_sealing toy_env = toy_sealing"
    "env_faults toy_env = (\<lambda>_. False)"
    by (simp_all add: toy_env_def)
  have get: "st_GetCA (env_faults toy_env) toy_root_id (e_db s1) = Inr ?row"
    by (simp add: st_GetCA_def st env row)
  then have at: "ca_at toy_root_id (e_db s1) = Some ?row" by (simp add: GetCA_Inr)
  obtain signer where sg: "ks_Load toy_env (ca_KeyID ?row) [1] s1 = Inr signer" "signer_ok toy_circl signer"
    "sg_pub signer = crt_PublicKey ?rc"
    using ca_stored_signer [OF P(1) at, of "env_os toy_env"] toy_packages(2)
    by (auto simp: ks_Load_def env no_faults_def)
  have kid: "ca_KeyID ?row = toy_root_id" by (simp add: ca_row_def)
  let ?next = "toy_now + 168 * 3600 * second"
  have nx: "time_Add toy_now (e_crlValidity s1) = ?next"
    using time_Add_exact [of toy_now "168 * hour"] by (simp add: st hour_def second_def)
  have "0 \<le> time_Year (time_Truncate toy_now) \<and> time_Year (time_Truncate toy_now) \<le> 9999"
    "0 \<le> time_Year (time_Truncate ?next) \<and> time_Year (time_Truncate ?next) \<le> 9999" by code_simp+
  then obtain nb na where t: "marshalTime toy_now = Inr nb" "marshalTime ?next = Inr na"
    using marshalTime_parse [of toy_now] marshalTime_parse [of ?next] by auto
  have level: "ca_level rootProfile ?rc" "subject_der ?rc = Inr (crt_RawSubject ?rc)" "crt_RawSubject ?rc \<noteq> []"
  proof -
    have n: "name_size (cq_Subject toy_root_req) \<le> 2 ^ 30" "cq_ParentID toy_root_req = []"
      using toy_name(1) [of "''root''"] by (simp_all add: toy_ca_req_def encodable_name_def)
    then show "ca_level rootProfile ?rc"
      using CreateCA_certificate [OF root(1) _ _ _ root(2) n(1)]
      by (simp add: env toy_circl_ok toy_sealing_ok toy_pem_ok)
    show "subject_der ?rc = Inr (crt_RawSubject ?rc)" "crt_RawSubject ?rc \<noteq> []"
      using ParseCertificate_subject_ok [OF P(3)] by (simp_all add: subject_der_def)
  qed
  then have "crt_KeyUsage ?rc AND KeyUsageCRLSign \<noteq> 0"
    by (simp add: ca_level_def KeyUsageKeyCertSign_def KeyUsageCRLSign_def)
  then obtain der where der: "CreateRevocationList (Some ?rc) (Some signer) (Some 1) [] toy_now ?next = Inr der"
    using empty_list_created [OF sg(2,3) _ t _ level(2) P(2) level(3)] by (auto simp: second_def)
  have "parseCertPEM (env_pem toy_env) (ca_CertPEM ?row) = Inr ?rc" using toy_parse [OF P(3)] by (simp add: row)
  then have "crl_build toy_env [1] ?row [] s1
      = Inr \<lparr>cc_der = der, cc_entryCount = 0, cc_nextUpdate = ?next, cc_number = 1\<rparr>"
    using sg(1) der by (simp add: crl_build_def Let_def nx)
  then have "snd (CRL toy_env toy_root_id [1] s1) = Inr der"
    using get by (simp add: CRL_def op_bind_def op_read_def op_res_def st_ListRevoked_def st env crl_cached_def)
  moreover have "db_ok (e_db s1)" by (simp add: db_ok_def st row)
  ultimately show ?thesis using root(1) st by (auto simp: st_ListRevoked_def)
qed

subsection \<open>Properties\<close>

text \<open>What a reader gets from the octets: a list of these certificates, numbered one above their count,
  that has not expired; its parser accepts it and marks exactly their serial numbers as revoked.\<close>

definition current_list :: "('pk, 'sk) circl \<Rightarrow> instant \<Rightarrow> cert_rec list \<Rightarrow> bytes \<Rightarrow> bool" where
  "current_list C t cs der =
     (\<exists>issuer signer now entries nextUpdate.
        rmap (crl_entry now) cs = Inr entries
        \<and> CreateRevocationList (Some issuer) (Some signer) (Some (int (length cs) + 1)) entries now nextUpdate = Inr der
        \<and> t < nextUpdate
        \<and> (signer_ok C signer \<longrightarrow> length der < 2 ^ 31 \<longrightarrow> reasons_ok cs \<longrightarrow>
            (\<exists>l. ParseRevocationList der = Inr l
               \<and> (\<forall>n. snd (IsRevoked l (Some n)) \<longleftrightarrow> (\<exists>c \<in> set cs. SetString16 (ct_Serial c) = Some n)))))"

lemma list_of_current:
  assumes "list_of cs nextUpdate der" "t < nextUpdate"
  shows "current_list C t cs der"
proof -
  obtain issuer signer now entries where l: "subject_ok issuer"
    "rmap (crl_entry now) cs = Inr entries"
    "CreateRevocationList (Some issuer) (Some signer) (Some (int (length cs) + 1)) entries now nextUpdate = Inr der"
    using assms(1) unfolding list_of_def by blast
  then show ?thesis using list_marks [OF l(2,3,1)] assms(2) unfolding current_list_def by blast
qed

text \<open>C3. A list that \<open>CRL\<close> serves is never stale. However its calls interleave with issuances,
  revocations, restarts and other calls, between the reading of the tables and the writing of the cache, the
  octets that it returns, from the cache or not, are a list of exactly the certificates of the CA
  that are revoked at the time of the call, in the order of \<open>ListRevoked\<close>, with a CRL number one
  above their count and a next update that has not passed. Its reader \<open>ParseRevocationList\<close> accepts
  it, when it was signed with a good key, and \<open>IsRevoked\<close> marks exactly their serial numbers. When other steps come between the reading of a call
  and its look at the cache, the same holds of the certificates that were revoked at its reading.\<close>

theorem crl_never_stale:
  assumes "db_ok (e_db s0)" "e_crlCache s0 = Map.empty" "(crl_system C P S)\<^sup>*\<^sup>* (s0, []) (s, ps)"
    and "CRL E caID pass s = (s', Inr der)" "st_ListRevoked F caID (e_db s) = Inr cs"
  shows "current_list C (time_Truncate (env_now E)) cs der
    \<and> (\<forall>p \<in> set ps. \<forall>E' pass' der'. crl_served E' p pass' s = Inr der' \<longrightarrow>
         current_list C (time_Truncate (env_now E')) (sn_revoked p) der')"
proof -
  have "cache_ok (s0, [])" using assms(1,2) by (simp add: cache_ok_def)
  then have ok: "cache_ok (s, ps)" by (rule cache_ok_steps [OF assms(3)])
  obtain p where p: "crl_system C P S (s, ps) (s, ps @ [p])" "sn_revoked p = listed caID (e_db s)"
    "crl_served E p pass s = Inr der"
    using CRL_split [OF assms(4)] by metis
  have "current_list C (time_Truncate (env_now E)) (sn_revoked p) der"
    using served_current [OF cache_ok_step [OF p(1) ok] _ p(3)] list_of_current by fastforce
  then show ?thesis
    using p(2) ListRevoked_Inr [OF assms(5)] served_current [OF ok] list_of_current by metis
qed

theorem crl_never_stale_witness:
  "\<exists>s1 root der p entries issuer signer now nextUpdate.
     CreateCA toy_env toy_root_req toy_engine = (s1, Inr root)
     \<and> snd (CRL toy_env toy_root_id [1] s1) = Inr der
     \<and> CreateRevocationList (Some issuer) (Some signer) (Some 1) entries now nextUpdate = Inr der
     \<and> toy_now < nextUpdate
     \<and> crl_system toy_circl toy_pem toy_sealing (s1, []) (s1, [p])
     \<and> crl_served toy_env p [1] s1 = Inr der \<and> current_list toy_circl toy_now (sn_revoked p) der"
proof -
  obtain s1 der and root :: CAResult where w: "CreateCA toy_env toy_root_req toy_engine = (s1, Inr root)"
    "db_ok (e_db s1)" "e_crlCache s1 = Map.empty" "st_ListRevoked (\<lambda>_. False) toy_root_id (e_db s1) = Inr []"
    "snd (CRL toy_env toy_root_id [1] s1) = Inr der"
    using toy_list_created by blast
  then obtain s' where run: "CRL toy_env toy_root_id [1] s1 = (s', Inr der)" by (metis prod.collapse)
  obtain p where p: "crl_system toy_circl toy_pem toy_sealing (s1, []) (s1, [p])"
    "crl_served toy_env p [1] s1 = Inr der"
    using CRL_split [OF run, where ps = "[]"] by (metis append_Nil)
  note c = crl_never_stale [OF w(2,3) r_into_rtranclp [of "crl_system _ _ _", OF p(1)] run w(4)]
  have "current_list toy_circl toy_now (sn_revoked p) der"
    using c [THEN conjunct2, rule_format, of p toy_env "[1]" der] p(2) by simp
  moreover have "current_list toy_circl toy_now [] der"
    using c [THEN conjunct1] by simp
  then obtain issuer signer now nextUpdate and entries :: "RevocationEntry list" where
    "CreateRevocationList (Some issuer) (Some signer) (Some 1) entries now nextUpdate = Inr der" "toy_now < nextUpdate"
    unfolding current_list_def by auto
  ultimately show ?thesis using w(1,5) p by blast
qed

end
