(* ===== verification/Net_Text.thy ===== *)
theory Net_Text
  imports Rendering
begin

section \<open>Text of the network (net.ParseIP, base64.RawURLEncoding)\<close>

text \<open>
  What the API uses of the standard library to read an IP address and to write a token.
  \<open>ParseIP\<close> follows \<open>netip.ParseAddr\<close>: the first dot or colon decides the family, an IPv4
  address has four decimal fields without leading zeros, an IPv6 address has groups of one to four
  hexadecimal digits, one \<open>::\<close> for at least one group, and may end with an IPv4 address. An
  address with a zone is refused; the result has 16 octets.
\<close>

subsection \<open>strings.Split\<close>

fun split_at :: "char \<Rightarrow> string \<Rightarrow> string list" where
  "split_at sep [] = [[]]"
| "split_at sep (c # cs) =
     (if c = sep then [] # split_at sep cs
      else (case split_at sep cs of [] \<Rightarrow> [[c]] | p # ps \<Rightarrow> (c # p) # ps))"

lemma split_at_neq_Nil [simp]: "split_at sep s \<noteq> []"
  by (induction s) (auto split: list.split)

lemma split_at_plain: "sep \<notin> set s \<Longrightarrow> split_at sep s = [s]"
  by (induction s) auto

lemma split_at_append: "sep \<notin> set k \<Longrightarrow> split_at sep (k @ sep # v) = k # split_at sep v"
  by (induction k) auto

lemma split_at_join:
  "ps \<noteq> [] \<Longrightarrow> (\<And>p. p \<in> set ps \<Longrightarrow> sep \<notin> set p) \<Longrightarrow> split_at sep (str_join [sep] ps) = ps"
proof (induction ps)
  case (Cons p ps)
  then show ?case
    by (cases ps) (simp_all add: split_at_plain split_at_append)
qed simp

subsection \<open>IPv4\<close>

definition digit_value :: "char \<Rightarrow> nat option" where
  "digit_value c = (if CHR ''0'' \<le> c \<and> c \<le> CHR ''9'' then Some (of_char c - 48) else None)"

fun decimal_number :: "nat \<Rightarrow> string \<Rightarrow> nat option" where
  "decimal_number acc [] = Some acc"
| "decimal_number acc (c # cs) =
     (case digit_value c of None \<Rightarrow> None | Some d \<Rightarrow> decimal_number (10 * acc + d) cs)"

definition decimal_octet :: "string \<Rightarrow> byte option" where
  "decimal_octet s =
     (if s = [] \<or> (1 < length s \<and> hd s = CHR ''0'') then None
      else (case decimal_number 0 s of
              None \<Rightarrow> None
            | Some n \<Rightarrow> if 255 < n then None else Some (of_nat n)))"

definition parse_ip4 :: "string \<Rightarrow> bytes option" where
  "parse_ip4 s =
     (case map decimal_octet (split_at CHR ''.'' s) of
        [Some a, Some b, Some c, Some d] \<Rightarrow> Some [a, b, c, d]
      | _ \<Rightarrow> None)"

subsection \<open>IPv6\<close>

text \<open>The loop over the groups: what is read so far, the place of the \<open>::\<close>, and the rest.\<close>

function parse_groups :: "bytes \<Rightarrow> nat option \<Rightarrow> string \<Rightarrow> (bytes \<times> nat option) option" where
  "parse_groups ip ell s =
     (if 16 \<le> length ip then (if s = [] then Some (ip, ell) else None)
      else
        (let digits = takeWhile (\<lambda>c. hex_value c \<noteq> None) s; rest = dropWhile (\<lambda>c. hex_value c \<noteq> None) s in
         if digits = [] \<or> 4 < length digits then None
         else
           (case rest of
              [] \<Rightarrow>
                (case hex_number 0 digits of None \<Rightarrow> None
                 | Some n \<Rightarrow> Some (ip @ [of_nat (n div 256), of_nat n], ell))
            | c # rest' \<Rightarrow>
                if c = CHR ''.'' then
                  (if ell = None \<and> length ip \<noteq> 12 then None
                   else if 12 < length ip then None
                   else (case parse_ip4 s of None \<Rightarrow> None | Some v4 \<Rightarrow> Some (ip @ v4, ell)))
                else if c \<noteq> CHR '':'' \<or> rest' = [] then None
                else
                  (case hex_number 0 digits of None \<Rightarrow> None
                   | Some n \<Rightarrow>
                       let ip' = ip @ [of_nat (n div 256), of_nat n] in
                       if hd rest' = CHR '':'' then
                         (if ell \<noteq> None then None
                          else if tl rest' = [] then Some (ip', Some (length ip'))
                          else parse_groups ip' (Some (length ip')) (tl rest'))
                       else parse_groups ip' ell rest'))))"
  by pat_completeness auto
termination by (relation "measure (\<lambda>(ip, ell, s). 16 - length ip)") auto

declare parse_groups.simps [simp del]

definition parse_ip6 :: "string \<Rightarrow> bytes option" where
  "parse_ip6 s =
     (if s = ''::'' then Some (replicate 16 0)
      else
        (case (if take 2 s = ''::'' then parse_groups [] (Some 0) (drop 2 s) else parse_groups [] None s) of
           None \<Rightarrow> None
         | Some (ip, ell) \<Rightarrow>
             (case ell of
                None \<Rightarrow> if length ip = 16 then Some ip else None
              | Some e \<Rightarrow>
                  if length ip = 16 then None
                  else Some (take e ip @ replicate (16 - length ip) 0 @ drop e ip))))"

definition v4_prefix :: bytes where
  "v4_prefix = replicate 10 0 @ [0xFF, 0xFF]"

definition ParseIP :: "string \<Rightarrow> bytes option" where
  "ParseIP s =
     (if CHR ''%'' \<in> set s then None
      else
        (case find (\<lambda>c. c = CHR ''.'' \<or> c = CHR '':'') s of
           None \<Rightarrow> None
         | Some c \<Rightarrow> if c = CHR ''.'' then map_option (\<lambda>v4. v4_prefix @ v4) (parse_ip4 s) else parse_ip6 s))"

subsection \<open>base64.RawURLEncoding\<close>

definition base64_char :: "nat \<Rightarrow> char" where
  "base64_char n = ''ABCDEFGHIJKLMNOPQRSTUVWXYZabcdefghijklmnopqrstuvwxyz0123456789-_'' ! n"

definition base64_group :: "nat \<Rightarrow> nat \<Rightarrow> string" where
  "base64_group k v = take k (map (\<lambda>i. base64_char (v div 64 ^ (3 - i) mod 64)) [0..<4])"

fun base64_EncodeToString :: "bytes \<Rightarrow> string" where
  "base64_EncodeToString (a # b # c # bs) =
     base64_group 4 (65536 * unat a + 256 * unat b + unat c) @ base64_EncodeToString bs"
| "base64_EncodeToString [a, b] = base64_group 3 (65536 * unat a + 256 * unat b)"
| "base64_EncodeToString [a] = base64_group 2 (65536 * unat a)"
| "base64_EncodeToString [] = []"

lemma base64_length_mod:
  "length (base64_EncodeToString bs)
     = 4 * (length bs div 3) + (if length bs mod 3 = 0 then 0 else length bs mod 3 + 1)"
proof (induction bs rule: base64_EncodeToString.induct)
  case (1 a b c bs)
  have "(3 + n) div 3 = n div 3 + 1 \<and> (3 + n) mod 3 = n mod 3" for n :: nat by presburger
  then show ?case using 1 by (simp add: base64_group_def)
qed (simp_all add: base64_group_def)

lemma base64_group_chars: "c \<in> set (base64_group k v) \<Longrightarrow> \<exists>n < 64. c = base64_char n"
proof -
  assume "c \<in> set (base64_group k v)"
  then obtain i where "c = base64_char (v div 64 ^ (3 - i) mod 64)"
    by (auto simp: base64_group_def dest!: in_set_takeD)
  moreover have "v div 64 ^ (3 - i) mod 64 < 64" by simp
  ultimately show ?thesis by blast
qed

lemma base64_chars: "c \<in> set (base64_EncodeToString bs) \<Longrightarrow> \<exists>n < 64. c = base64_char n"
  by (induction bs rule: base64_EncodeToString.induct) (auto dest: base64_group_chars)

end
