(* ===== verification/Http.thy ===== *)
theory Http
  imports Net_Text Engine
begin

section \<open>Requests, responses and authentication (internal/api/problem.go, auth.go)\<close>

text \<open>
  What the handlers read and write of net/http and encoding/json. A request has the segments of its
  path (the values of the wildcards are set when it is routed), its headers and its body; a
  response has a status, a content type and a body, which is a JSON value or octets. A handler
  that panics sends no response: net/http recovers the panic and closes the connection
  (\<open>Aborted\<close>).

  The text of JSON is the business of encoding/json: \<open>json_package\<close> is the function that reads the
  first value of a body. How a value is decoded into a struct is in the model: a key selects the
  field of its name, exactly or up to case, an unknown key is an error (\<open>DisallowUnknownFields\<close>),
  \<open>null\<close> leaves a field as it is, and a value of another type is an error.
\<close>

subsection \<open>JSON\<close>

datatype json =
    JNull
  | JBool bool
  | JInt int
  | JNumber string
  | JString string
  | JTime instant
  | JArray "json list"
  | JObject "(string \<times> json) list"

type_synonym json_package = "bytes \<Rightarrow> json option"

type_synonym 'a reader = "json \<Rightarrow> 'a \<Rightarrow> 'a res"

definition json_mismatch :: error where
  "json_mismatch = Err [] ''json: cannot unmarshal value into Go value''"

fun read_string :: "string reader" where
  "read_string (JString s) old = Inr s"
| "read_string JNull old = Inr old"
| "read_string _ old = Inl json_mismatch"

fun read_pointer :: "string option reader" where
  "read_pointer (JString s) old = Inr (Some s)"
| "read_pointer JNull old = Inr None"
| "read_pointer _ old = Inl json_mismatch"

fun read_int :: "int reader" where
  "read_int (JInt i) old = (if - (2 ^ 63) \<le> i \<and> i < 2 ^ 63 then Inr i else Inl json_mismatch)"
| "read_int JNull old = Inr old"
| "read_int _ old = Inl json_mismatch"

fun read_bool :: "bool reader" where
  "read_bool (JBool b) old = Inr b"
| "read_bool JNull old = Inr old"
| "read_bool _ old = Inl json_mismatch"

fun read_strings :: "string list reader" where
  "read_strings (JArray vs) old = rmap (\<lambda>v. read_string v []) vs"
| "read_strings JNull old = Inr []"
| "read_strings _ old = Inl json_mismatch"

definition json_field :: "'a reader \<Rightarrow> ('r \<Rightarrow> 'a) \<Rightarrow> (('a \<Rightarrow> 'a) \<Rightarrow> 'r \<Rightarrow> 'r) \<Rightarrow> 'r reader" where
  "json_field rd get upd v r = rbind (rd v (get r)) (\<lambda>x. Inr (upd (\<lambda>_. x) r))"

definition find_field :: "(string \<times> 'r reader) list \<Rightarrow> string \<Rightarrow> (string \<times> 'r reader) option" where
  "find_field fs key =
     (case find (\<lambda>(name, rd). name = key) fs of
        Some f \<Rightarrow> Some f
      | None \<Rightarrow> find (\<lambda>(name, rd). equal_fold key name) fs)"

fun read_fields :: "(string \<times> 'r reader) list \<Rightarrow> (string \<times> json) list \<Rightarrow> 'r \<Rightarrow> 'r res" where
  "read_fields fs [] r = Inr r"
| "read_fields fs ((key, v) # kvs) r =
     (case find_field fs key of
        None \<Rightarrow> Inl (Err [] ''json: unknown field'')
      | Some (name, rd) \<Rightarrow> rbind (rd v r) (read_fields fs kvs))"

fun read_struct :: "(string \<times> 'r reader) list \<Rightarrow> 'r reader" where
  "read_struct fs (JObject kvs) r = read_fields fs kvs r"
| "read_struct fs JNull r = Inr r"
| "read_struct fs _ r = Inl json_mismatch"

definition json_strings :: "string list \<Rightarrow> json" where
  "json_strings ss = JArray (map JString ss)"

subsection \<open>Requests and responses\<close>

record http_request =
  rq_Method :: string
  rq_Path :: "string list"
  rq_PathValues :: "(string \<times> string) list"
  rq_Header :: "string \<Rightarrow> string"
  rq_Body :: bytes

definition PathValue :: "http_request \<Rightarrow> string \<Rightarrow> string" where
  "PathValue r name = (case map_of (rq_PathValues r) name of None \<Rightarrow> [] | Some v \<Rightarrow> v)"

datatype detail = Text string | ErrorText error

record problem =
  pr_Type :: string
  pr_Title :: string
  pr_Status :: int
  pr_Detail :: detail

datatype body = Json json | Problem problem | Octets bytes | Page string

record response =
  rs_Status :: int
  rs_ContentType :: string
  rs_Body :: body

datatype outcome = Response response | Aborted

type_synonym handler = "http_request \<Rightarrow> engine \<Rightarrow> engine \<times> outcome"

subsection \<open>Problems\<close>

definition typeInvalidRequest :: string where "typeInvalidRequest = ''urn:pqtrust:error:invalid-request''"
definition typeUnauthorized :: string where "typeUnauthorized = ''urn:pqtrust:error:unauthorized''"
definition typeNotFound :: string where "typeNotFound = ''urn:pqtrust:error:not-found''"
definition typeConflict :: string where "typeConflict = ''urn:pqtrust:error:conflict''"
definition typeWrongPassphrase :: string where "typeWrongPassphrase = ''urn:pqtrust:error:wrong-passphrase''"
definition typeConstraintViolation :: string where
  "typeConstraintViolation = ''urn:pqtrust:error:constraint-violation''"
definition typeInternal :: string where "typeInternal = ''urn:pqtrust:error:internal''"

definition writeProblem :: "int \<Rightarrow> string \<Rightarrow> string \<Rightarrow> detail \<Rightarrow> outcome" where
  "writeProblem status typeURN title det =
     Response \<lparr>rs_Status = status, rs_ContentType = ''application/problem+json'',
       rs_Body = Problem \<lparr>pr_Type = typeURN, pr_Title = title, pr_Status = status, pr_Detail = det\<rparr>\<rparr>"

definition problemForError :: "error \<Rightarrow> int \<times> string \<times> string" where
  "problemForError e =
     (if errors_is e CaErrNotFound then (404, typeNotFound, ''Not found'')
      else if errors_is e ErrAlreadyRevoked then (409, typeConflict, ''Conflict'')
      else if errors_is e ErrWrongPassphrase then (403, typeWrongPassphrase, ''Wrong passphrase'')
      else if errors_is e ErrConstraintViolation then (422, typeConstraintViolation, ''Constraint violation'')
      else if errors_is e ErrUnknownAlgorithm then (400, typeInvalidRequest, ''Invalid request'')
      else if errors_is e ErrInvalidCSR \<or> errors_is e ErrCSRSignature
      then (400, typeInvalidRequest, ''Invalid request'')
      else (500, typeInternal, ''Internal server error''))"

text \<open>The texts of the messages are not in the model: \<open>ErrorText e\<close> is \<open>err.Error()\<close>. A panic does
  not reach \<open>writeError\<close>.\<close>

definition writeError :: "error \<Rightarrow> outcome" where
  "writeError e =
     (if is_panic e then Aborted
      else
        (case problemForError e of
           (status, typeURN, title) \<Rightarrow>
             writeProblem status typeURN title
               (if status = 500 then Text ''an internal error occurred'' else ErrorText e)))"

definition bad_request :: "error \<Rightarrow> outcome" where
  "bad_request e =
     (if is_panic e then Aborted else writeProblem 400 typeInvalidRequest ''Invalid request'' (ErrorText e))"

definition writeJSON :: "int \<Rightarrow> json \<Rightarrow> outcome" where
  "writeJSON status v = Response \<lparr>rs_Status = status, rs_ContentType = ''application/json'', rs_Body = Json v\<rparr>"

definition max_body :: nat where "max_body = 2 ^ 20"

definition decodeJSON ::
  "json_package \<Rightarrow> 'r reader \<Rightarrow> 'r \<Rightarrow> http_request \<Rightarrow> outcome + 'r" where
  "decodeJSON J rd zero r =
     (case J (take max_body (rq_Body r)) of
        None \<Rightarrow> Inl (bad_request (Err [] ''malformed request body: ''))
      | Some v \<Rightarrow>
          (case rd v zero of
             Inl e \<Rightarrow> Inl (bad_request (wrap_errs [] ''malformed request body: '' e))
           | Inr x \<Rightarrow> Inr x))"

subsection \<open>Tokens\<close>

definition GenerateToken :: "bytes \<Rightarrow> (string \<times> bytes) res" where
  "GenerateToken r =
     rbind (rmap_err (wrap_errs [] ''api: generating token'') (read_full 32 r)) (\<lambda>(b, r').
       Inr (base64_EncodeToString b, r'))"

definition HashToken :: "string \<Rightarrow> string" where
  "HashToken token = hex_encode (sha256 (bytes_of token))"

definition bearerToken :: "string \<Rightarrow> string option" where
  "bearerToken header =
     (let pre = ''Bearer '' in
      if length header \<le> length pre \<or> \<not> equal_fold (take (length pre) header) pre then None
      else
        (let token = trim_space (drop (length pre) header) in
         if token = [] then None else Some token))"

definition requireToken :: "('pk, 'sk) env \<Rightarrow> handler \<Rightarrow> handler" where
  "requireToken E handle r s =
     (case bearerToken (rq_Header r ''Authorization'') of
        None \<Rightarrow>
          (s, writeProblem 401 typeUnauthorized ''Unauthorized''
                (Text ''a bearer token is required in the Authorization header''))
      | Some token \<Rightarrow>
          (case st_TokenByHash (env_faults E) (HashToken token) (e_db s) of
             Inl e \<Rightarrow>
               if errors_is e StoreErrNotFound
               then (s, writeProblem 401 typeUnauthorized ''Unauthorized''
                          (Text ''the bearer token is not recognized''))
               else (s, writeError e)
           | Inr _ \<Rightarrow> handle r s))"

text \<open>What \<open>pqtrustd token create\<close> does once the layers are open: the token is printed, and only its
  hash is stored. Printing may fail after the token was recorded.\<close>

definition token_create :: "('pk, 'sk) env \<Rightarrow> string \<Rightarrow> string op" where
  "token_create E name =
     op_bind (op_rand GenerateToken) (\<lambda>token.
     op_bind (op_rand NewKeyID) (\<lambda>i.
     op_bind (op_db (st_CreateToken (env_faults E)
       \<lparr>tk_ID = i, tk_Name = name, tk_TokenHash = HashToken token, tk_CreatedAt = env_now E\<rparr>)) (\<lambda>_.
     op_res
       (if os_fault (env_os E) ''print'' then Inl (Err [] ''pqtrustd: writing token'') else Inr token))))"

end
