(* ===== verification/Api_Authorities.thy ===== *)
theory Api_Authorities
  imports Http
begin

section \<open>The handlers of authorities (internal/api/handlers_ca.go)\<close>

text \<open>
  The request of \<open>POST /v1/ca\<close> with the names of its JSON fields, the response that describes an
  authority, and the four handlers: create, list, get, and the revocation list as DER or PEM.
\<close>

subsection \<open>Requests and responses\<close>

record subjectJSON =
  sj_CommonName :: string
  sj_Organization :: "string list"
  sj_OrganizationalUnit :: "string list"
  sj_Country :: "string list"
  sj_Locality :: "string list"
  sj_Province :: "string list"

definition zero_subject :: subjectJSON where
  "zero_subject = \<lparr>sj_CommonName = [], sj_Organization = [], sj_OrganizationalUnit = [], sj_Country = [],
     sj_Locality = [], sj_Province = []\<rparr>"

definition subject_fields :: "(string \<times> subjectJSON reader) list" where
  "subject_fields =
     [(''common_name'', json_field read_string sj_CommonName sj_CommonName_update),
      (''organization'', json_field read_strings sj_Organization sj_Organization_update),
      (''organizational_unit'', json_field read_strings sj_OrganizationalUnit sj_OrganizationalUnit_update),
      (''country'', json_field read_strings sj_Country sj_Country_update),
      (''locality'', json_field read_strings sj_Locality sj_Locality_update),
      (''province'', json_field read_strings sj_Province sj_Province_update)]"

definition toName :: "subjectJSON \<Rightarrow> Name" where
  "toName s =
     \<lparr>Country = sj_Country s, Organization = sj_Organization s, OrganizationalUnit = sj_OrganizationalUnit s,
      Locality = sj_Locality s, Province = sj_Province s, CommonName = sj_CommonName s\<rparr>"

definition subject_empty :: "subjectJSON \<Rightarrow> bool" where
  "subject_empty s =
     (sj_CommonName s = [] \<and> sj_Organization s = [] \<and> sj_OrganizationalUnit s = [] \<and> sj_Country s = []
      \<and> sj_Locality s = [] \<and> sj_Province s = [])"

record createCARequest =
  cj_Name :: string
  cj_ParentID :: "string option"
  cj_Algorithm :: string
  cj_Subject :: subjectJSON
  cj_ValidityDays :: int
  cj_Passphrase :: string
  cj_ParentPassphrase :: "string option"

definition zero_createCA :: createCARequest where
  "zero_createCA = \<lparr>cj_Name = [], cj_ParentID = None, cj_Algorithm = [], cj_Subject = zero_subject,
     cj_ValidityDays = 0, cj_Passphrase = [], cj_ParentPassphrase = None\<rparr>"

definition createCA_fields :: "(string \<times> createCARequest reader) list" where
  "createCA_fields =
     [(''name'', json_field read_string cj_Name cj_Name_update),
      (''parent_id'', json_field read_pointer cj_ParentID cj_ParentID_update),
      (''algorithm'', json_field read_string cj_Algorithm cj_Algorithm_update),
      (''subject'', json_field (read_struct subject_fields) cj_Subject cj_Subject_update),
      (''validity_days'', json_field read_int cj_ValidityDays cj_ValidityDays_update),
      (''passphrase'', json_field read_string cj_Passphrase cj_Passphrase_update),
      (''parent_passphrase'', json_field read_pointer cj_ParentPassphrase cj_ParentPassphrase_update)]"

record caResponse =
  ca_resp_ID :: string
  ca_resp_Name :: string
  ca_resp_ParentID :: "string option"
  ca_resp_Algorithm :: string
  ca_resp_CertificatePEM :: string
  ca_resp_ChainPEM :: string
  ca_resp_SubjectDN :: string
  ca_resp_NotBefore :: instant
  ca_resp_NotAfter :: instant
  ca_resp_CreatedAt :: instant

definition json_pointer :: "string option \<Rightarrow> json" where
  "json_pointer p = (case p of None \<Rightarrow> JNull | Some s \<Rightarrow> JString s)"

definition json_ca :: "caResponse \<Rightarrow> json" where
  "json_ca c =
     JObject
       [(''id'', JString (ca_resp_ID c)), (''name'', JString (ca_resp_Name c)),
        (''parent_id'', json_pointer (ca_resp_ParentID c)), (''algorithm'', JString (ca_resp_Algorithm c)),
        (''certificate_pem'', JString (ca_resp_CertificatePEM c)), (''chain_pem'', JString (ca_resp_ChainPEM c)),
        (''subject_dn'', JString (ca_resp_SubjectDN c)), (''not_before'', JTime (ca_resp_NotBefore c)),
        (''not_after'', JTime (ca_resp_NotAfter c)), (''created_at'', JTime (ca_resp_CreatedAt c))]"

definition toCAResponse :: "CAResult \<Rightarrow> caResponse" where
  "toCAResponse res =
     \<lparr>ca_resp_ID = cr_ID res, ca_resp_Name = cr_Name res,
      ca_resp_ParentID = (if cr_ParentID res \<noteq> [] then Some (cr_ParentID res) else None),
      ca_resp_Algorithm = alg_String (cr_Algorithm res),
      ca_resp_CertificatePEM = string_of (cr_CertPEM res), ca_resp_ChainPEM = string_of (cr_ChainPEM res),
      ca_resp_SubjectDN = name_String (crt_Subject (cr_Certificate res)),
      ca_resp_NotBefore = crt_NotBefore (cr_Certificate res), ca_resp_NotAfter = crt_NotAfter (cr_Certificate res),
      ca_resp_CreatedAt = cr_CreatedAt res\<rparr>"

subsection \<open>Handlers\<close>

definition pointer_value :: "string option \<Rightarrow> string" where
  "pointer_value p = (case p of None \<Rightarrow> [] | Some s \<Rightarrow> s)"

definition createCA_engine_request :: "createCARequest \<Rightarrow> CreateCARequest res" where
  "createCA_engine_request req =
     rbind (ParseAlgorithm (cj_Algorithm req)) (\<lambda>alg.
       if cj_Passphrase req = [] then Inl (Err [] ''passphrase is required'')
       else Inr
         \<lparr>cq_Name = cj_Name req, cq_ParentID = pointer_value (cj_ParentID req), cq_Algorithm = alg,
          cq_Subject = toName (cj_Subject req), cq_ValidityDays = cj_ValidityDays req,
          cq_Passphrase = bytes_of (cj_Passphrase req),
          cq_ParentPassphrase = bytes_of (pointer_value (cj_ParentPassphrase req))\<rparr>)"

definition handleCreateCA :: "('pk, 'sk) env \<Rightarrow> json_package \<Rightarrow> handler" where
  "handleCreateCA E J r s =
     (case decodeJSON J (read_struct createCA_fields) zero_createCA r of
        Inl out \<Rightarrow> (s, out)
      | Inr req \<Rightarrow>
          (case createCA_engine_request req of
             Inl e \<Rightarrow> (s, bad_request e)
           | Inr engineReq \<Rightarrow>
               (case CreateCA E engineReq s of
                  (s', Inl e) \<Rightarrow> (s', writeError e)
                | (s', Inr res) \<Rightarrow> (s', writeJSON 201 (json_ca (toCAResponse res))))))"

definition handleListCAs :: "('pk, 'sk) env \<Rightarrow> handler" where
  "handleListCAs E r s =
     (case ListCAs E s of
        Inl e \<Rightarrow> (s, writeError e)
      | Inr list \<Rightarrow>
          (s, writeJSON 200 (JObject [(''cas'', JArray (map (\<lambda>res. json_ca (toCAResponse res)) list))])))"

definition handleGetCA :: "('pk, 'sk) env \<Rightarrow> handler" where
  "handleGetCA E r s =
     (case GetCA E (PathValue r ''id'') s of
        Inl e \<Rightarrow> (s, writeError e)
      | Inr res \<Rightarrow> (s, writeJSON 200 (json_ca (toCAResponse res))))"

definition handleGetCRL :: "('pk, 'sk) env \<Rightarrow> handler" where
  "handleGetCRL E r s =
     (case CRL E (PathValue r ''id'') (bytes_of (rq_Header r ''X-PQTrust-Passphrase'')) s of
        (s', Inl e) \<Rightarrow> (s', writeError e)
      | (s', Inr der) \<Rightarrow>
          if rq_Header r ''Accept'' = ''application/x-pem-file''
          then (s', Response \<lparr>rs_Status = 200, rs_ContentType = ''application/x-pem-file'',
                      rs_Body = Octets (EncodeCRLPEM (env_pem E) der)\<rparr>)
          else (s', Response \<lparr>rs_Status = 200, rs_ContentType = ''application/pkix-crl'', rs_Body = Octets der\<rparr>))"

end
