(* ===== verification/Api_Certificates.thy ===== *)
theory Api_Certificates
  imports Api_Authorities Csr
begin

section \<open>The handlers of certificates (internal/api/handlers_certs.go)\<close>

text \<open>
  The requests of \<open>POST /v1/certificates\<close> and \<open>POST /v1/certificates/{serial}/revoke\<close>, their
  translation into a request of the engine, and the three handlers.
\<close>

subsection \<open>Requests and responses\<close>

record issueRequest =
  ij_CAID :: string
  ij_Passphrase :: string
  ij_Subject :: subjectJSON
  ij_DNSNames :: "string list"
  ij_IPAddresses :: "string list"
  ij_EmailAddresses :: "string list"
  ij_Algorithm :: string
  ij_ValidityDays :: int
  ij_ExtKeyUsage :: "string list"
  ij_StoreKey :: bool
  ij_CSRPEM :: string

definition zero_issue :: issueRequest where
  "zero_issue = \<lparr>ij_CAID = [], ij_Passphrase = [], ij_Subject = zero_subject, ij_DNSNames = [],
     ij_IPAddresses = [], ij_EmailAddresses = [], ij_Algorithm = [], ij_ValidityDays = 0,
     ij_ExtKeyUsage = [], ij_StoreKey = False, ij_CSRPEM = []\<rparr>"

definition issue_fields :: "(string \<times> issueRequest reader) list" where
  "issue_fields =
     [(''ca_id'', json_field read_string ij_CAID ij_CAID_update),
      (''passphrase'', json_field read_string ij_Passphrase ij_Passphrase_update),
      (''subject'', json_field (read_struct subject_fields) ij_Subject ij_Subject_update),
      (''dns_names'', json_field read_strings ij_DNSNames ij_DNSNames_update),
      (''ip_addresses'', json_field read_strings ij_IPAddresses ij_IPAddresses_update),
      (''email_addresses'', json_field read_strings ij_EmailAddresses ij_EmailAddresses_update),
      (''algorithm'', json_field read_string ij_Algorithm ij_Algorithm_update),
      (''validity_days'', json_field read_int ij_ValidityDays ij_ValidityDays_update),
      (''ext_key_usage'', json_field read_strings ij_ExtKeyUsage ij_ExtKeyUsage_update),
      (''store_key'', json_field read_bool ij_StoreKey ij_StoreKey_update),
      (''csr_pem'', json_field read_string ij_CSRPEM ij_CSRPEM_update)]"

record issueResponse =
  is_resp_Serial :: string
  is_resp_CertificatePEM :: string
  is_resp_ChainPEM :: string
  is_resp_PrivateKeyPEM :: string
  is_resp_NotBefore :: instant
  is_resp_NotAfter :: instant

definition json_issue :: "issueResponse \<Rightarrow> json" where
  "json_issue c =
     JObject
       ([(''serial'', JString (is_resp_Serial c)), (''certificate_pem'', JString (is_resp_CertificatePEM c)),
         (''chain_pem'', JString (is_resp_ChainPEM c))]
        @ (if is_resp_PrivateKeyPEM c = [] then [] else [(''private_key_pem'', JString (is_resp_PrivateKeyPEM c))])
        @ [(''not_before'', JTime (is_resp_NotBefore c)), (''not_after'', JTime (is_resp_NotAfter c))])"

record certificateResponse =
  ct_resp_Serial :: string
  ct_resp_CAID :: string
  ct_resp_SubjectDN :: string
  ct_resp_SANs :: "string list"
  ct_resp_Algorithm :: string
  ct_resp_Status :: string
  ct_resp_CertificatePEM :: string
  ct_resp_NotBefore :: instant
  ct_resp_NotAfter :: instant
  ct_resp_RevokedAt :: "instant option"
  ct_resp_RevocationReason :: "int option"

definition json_time_pointer :: "instant option \<Rightarrow> json" where
  "json_time_pointer p = (case p of None \<Rightarrow> JNull | Some t \<Rightarrow> JTime t)"

definition json_int_pointer :: "int option \<Rightarrow> json" where
  "json_int_pointer p = (case p of None \<Rightarrow> JNull | Some i \<Rightarrow> JInt i)"

text \<open>The slice of names is nil when there is none, and a nil slice is \<open>null\<close>.\<close>

definition json_certificate :: "certificateResponse \<Rightarrow> json" where
  "json_certificate c =
     JObject
       [(''serial'', JString (ct_resp_Serial c)), (''ca_id'', JString (ct_resp_CAID c)),
        (''subject_dn'', JString (ct_resp_SubjectDN c)),
        (''sans'', if ct_resp_SANs c = [] then JNull else json_strings (ct_resp_SANs c)),
        (''algorithm'', JString (ct_resp_Algorithm c)), (''status'', JString (ct_resp_Status c)),
        (''certificate_pem'', JString (ct_resp_CertificatePEM c)),
        (''not_before'', JTime (ct_resp_NotBefore c)), (''not_after'', JTime (ct_resp_NotAfter c)),
        (''revoked_at'', json_time_pointer (ct_resp_RevokedAt c)),
        (''revocation_reason'', json_int_pointer (ct_resp_RevocationReason c))]"

record revokeRequest =
  rj_Reason :: int

definition revoke_fields :: "(string \<times> revokeRequest reader) list" where
  "revoke_fields = [(''reason'', json_field read_int rj_Reason rj_Reason_update)]"

subsection \<open>Issuance\<close>

definition parseCSRPEM :: "('pk, 'sk) env \<Rightarrow> string \<Rightarrow> CertificateRequest res" where
  "parseCSRPEM E pemStr =
     (case pem_Decode (env_pem E) (bytes_of pemStr) of
        None \<Rightarrow> Inl (Err [] ''csr_pem: no PEM block found'')
      | Some (block, _) \<Rightarrow>
          if pem_Type block \<noteq> ''CERTIFICATE REQUEST'' then Inl (Err [] ''csr_pem: PEM block type'')
          else
            rbind (ParseCertificateRequest (pem_Bytes block)) (\<lambda>csr.
            rbind (CheckSignature (env_circl E) csr) (\<lambda>_. Inr csr)))"

definition csrForbiddenField :: "issueRequest \<Rightarrow> string" where
  "csrForbiddenField req =
     (if \<not> subject_empty (ij_Subject req) then ''subject''
      else if 0 < length (ij_DNSNames req) then ''dns_names''
      else if 0 < length (ij_IPAddresses req) then ''ip_addresses''
      else if 0 < length (ij_EmailAddresses req) then ''email_addresses''
      else if ij_Algorithm req \<noteq> [] then ''algorithm''
      else if ij_StoreKey req then ''store_key''
      else [])"

definition issue_request_csr :: "('pk, 'sk) env \<Rightarrow> issueRequest \<Rightarrow> CertificateRequest option res" where
  "issue_request_csr E req =
     (if ij_CSRPEM req \<noteq> []
      then
        rbind (parseCSRPEM E (ij_CSRPEM req)) (\<lambda>parsed.
          if csrForbiddenField req \<noteq> []
          then Inl (Err [] (csrForbiddenField req @ '' must be empty when csr_pem is set''))
          else Inr (Some parsed))
      else Inr None)"

definition issue_request_ip :: "string \<Rightarrow> ip res" where
  "issue_request_ip raw =
     (case ParseIP raw of
        None \<Rightarrow> Inl (Err [] ''not an IP address: '')
      | Some b \<Rightarrow> Inr (case To4 b of Some v4 \<Rightarrow> v4 | None \<Rightarrow> b))"

definition issue_engine_request :: "('pk, 'sk) env \<Rightarrow> issueRequest \<Rightarrow> IssueRequest res" where
  "issue_engine_request E req =
     rbind (issue_request_csr E req) (\<lambda>csr.
     rbind (if ij_Algorithm req \<noteq> [] then ParseAlgorithm (ij_Algorithm req) else Inr 0) (\<lambda>alg.
     rbind (if 0 < length (ij_ExtKeyUsage req) then ParseExtKeyUsages (ij_ExtKeyUsage req) else Inr []) (\<lambda>ekus.
     rbind (rmap issue_request_ip (ij_IPAddresses req)) (\<lambda>ips.
       Inr \<lparr>iq_CAID = ij_CAID req, iq_CAPassphrase = bytes_of (ij_Passphrase req),
            iq_Subject = toName (ij_Subject req),
            iq_SANs = \<lparr>DNSNames = ij_DNSNames req, EmailAddresses = ij_EmailAddresses req, IPAddresses = ips\<rparr>,
            iq_Algorithm = alg, iq_ValidityDays = ij_ValidityDays req, iq_ExtKeyUsage = ekus,
            iq_StoreKey = ij_StoreKey req, iq_CSR = csr\<rparr>))))"

definition issue_response :: "IssueResult \<Rightarrow> issueResponse" where
  "issue_response res =
     \<lparr>is_resp_Serial = ir_Serial res, is_resp_CertificatePEM = string_of (ir_CertPEM res),
      is_resp_ChainPEM = string_of (ir_ChainPEM res), is_resp_PrivateKeyPEM = string_of (ir_PrivateKeyPEM res),
      is_resp_NotBefore = crt_NotBefore (ir_Certificate res), is_resp_NotAfter = crt_NotAfter (ir_Certificate res)\<rparr>"

definition handleIssueCertificate :: "('pk, 'sk) env \<Rightarrow> json_package \<Rightarrow> handler" where
  "handleIssueCertificate E J r s =
     (case decodeJSON J (read_struct issue_fields) zero_issue r of
        Inl out \<Rightarrow> (s, out)
      | Inr req \<Rightarrow>
          (case issue_engine_request E req of
             Inl e \<Rightarrow> (s, bad_request e)
           | Inr engineReq \<Rightarrow>
               (case IssueCertificate E engineReq s of
                  (s', Inl e) \<Rightarrow> (s', writeError e)
                | (s', Inr res) \<Rightarrow> (s', writeJSON 201 (json_issue (issue_response res))))))"

subsection \<open>Reading and revoking\<close>

definition certificate_response :: "cert_rec \<Rightarrow> certificateResponse" where
  "certificate_response rec =
     \<lparr>ct_resp_Serial = ct_Serial rec, ct_resp_CAID = ct_CAID rec, ct_resp_SubjectDN = ct_SubjectDN rec,
      ct_resp_SANs = (if ct_SANs rec \<noteq> [] then split_at CHR '','' (ct_SANs rec) else []),
      ct_resp_Algorithm = ct_Algorithm rec, ct_resp_Status = ct_Status rec,
      ct_resp_CertificatePEM = string_of (ct_CertPEM rec), ct_resp_NotBefore = ct_NotBefore rec,
      ct_resp_NotAfter = ct_NotAfter rec, ct_resp_RevokedAt = ct_RevokedAt rec,
      ct_resp_RevocationReason = ct_RevocationReason rec\<rparr>"

definition handleGetCertificate :: "('pk, 'sk) env \<Rightarrow> handler" where
  "handleGetCertificate E r s =
     (case GetCertificate E (PathValue r ''serial'') s of
        Inl e \<Rightarrow> (s, writeError e)
      | Inr rec \<Rightarrow> (s, writeJSON 200 (json_certificate (certificate_response rec))))"

definition json_revoked :: "cert_rec \<Rightarrow> json" where
  "json_revoked rec =
     JObject
       [(''reason'', json_int_pointer (ct_RevocationReason rec)),
        (''revoked_at'', json_time_pointer (ct_RevokedAt rec)),
        (''serial'', JString (ct_Serial rec)), (''status'', JString (ct_Status rec))]"

definition handleRevoke :: "('pk, 'sk) env \<Rightarrow> json_package \<Rightarrow> handler" where
  "handleRevoke E J r s =
     (case decodeJSON J (read_struct revoke_fields) \<lparr>rj_Reason = 0\<rparr> r of
        Inl out \<Rightarrow> (s, out)
      | Inr req \<Rightarrow>
          (case Revoke E (PathValue r ''serial'') (rj_Reason req) s of
             (s', Inl e) \<Rightarrow> (s', writeError e)
           | (s', Inr _) \<Rightarrow>
               (case GetCertificate E (PathValue r ''serial'') s' of
                  Inl e \<Rightarrow> (s', writeError e)
                | Inr rec \<Rightarrow> (s', writeJSON 200 (json_revoked rec)))))"

end
