(* ===== verification/Api_Server.thy ===== *)
theory Api_Server
  imports Api_Certificates
begin

section \<open>Routing (internal/api/server.go, handlers_misc.go)\<close>

text \<open>
  The patterns that \<open>NewServer\<close> registers and how \<open>ServeMux\<close> selects one: the segments of the path
  must match, a wildcard stands for one segment, and \<open>GET\<close> also serves \<open>HEAD\<close> (whose body net/http
  drops). A path that no pattern matches is answered with 404, a path that only patterns of other
  methods match with 405. At most one of the patterns matches a path and a method, so their order
  does not matter. Paths that are not clean are redirected by \<open>ServeMux\<close> before this.
\<close>

definition Version :: string where "Version = ''0.1.0-dev''"

definition handleHealth :: handler where
  "handleHealth r s =
     (s, writeJSON 200 (JObject [(''status'', JString ''ok''), (''version'', JString Version)]))"

datatype segment = Lit string | Wild string

fun match_path :: "segment list \<Rightarrow> string list \<Rightarrow> (string \<times> string) list option" where
  "match_path [] [] = Some []"
| "match_path (Lit l # ps) (s # ss) = (if s = l then match_path ps ss else None)"
| "match_path (Wild w # ps) (s # ss) =
     (if s = [] then None else map_option (\<lambda>vs. (w, s) # vs) (match_path ps ss))"
| "match_path _ _ = None"

record endpoint =
  ep_Method :: string
  ep_Pattern :: "segment list"
  ep_Handler :: handler

definition authed :: "('pk, 'sk) env \<Rightarrow> json_package \<Rightarrow> endpoint list" where
  "authed E J =
     [\<lparr>ep_Method = ''POST'', ep_Pattern = [Lit ''v1'', Lit ''ca''], ep_Handler = handleCreateCA E J\<rparr>,
      \<lparr>ep_Method = ''GET'', ep_Pattern = [Lit ''v1'', Lit ''ca''], ep_Handler = handleListCAs E\<rparr>,
      \<lparr>ep_Method = ''GET'', ep_Pattern = [Lit ''v1'', Lit ''ca'', Wild ''id''], ep_Handler = handleGetCA E\<rparr>,
      \<lparr>ep_Method = ''GET'', ep_Pattern = [Lit ''v1'', Lit ''ca'', Wild ''id'', Lit ''crl''],
       ep_Handler = handleGetCRL E\<rparr>,
      \<lparr>ep_Method = ''POST'', ep_Pattern = [Lit ''v1'', Lit ''certificates''],
       ep_Handler = handleIssueCertificate E J\<rparr>,
      \<lparr>ep_Method = ''GET'', ep_Pattern = [Lit ''v1'', Lit ''certificates'', Wild ''serial''],
       ep_Handler = handleGetCertificate E\<rparr>,
      \<lparr>ep_Method = ''POST'', ep_Pattern = [Lit ''v1'', Lit ''certificates'', Wild ''serial'', Lit ''revoke''],
       ep_Handler = handleRevoke E J\<rparr>]"

definition NewServer :: "('pk, 'sk) env \<Rightarrow> json_package \<Rightarrow> endpoint list" where
  "NewServer E J =
     \<lparr>ep_Method = ''GET'', ep_Pattern = [Lit ''v1'', Lit ''health''], ep_Handler = handleHealth\<rparr>
     # map (ep_Handler_update (requireToken E)) (authed E J)"

definition method_serves :: "string \<Rightarrow> string \<Rightarrow> bool" where
  "method_serves pattern method = (pattern = method \<or> (pattern = ''GET'' \<and> method = ''HEAD''))"

definition error_page :: "int \<Rightarrow> string \<Rightarrow> outcome" where
  "error_page status msg =
     Response \<lparr>rs_Status = status, rs_ContentType = ''text/plain; charset=utf-8'', rs_Body = Page msg\<rparr>"

definition mux_ServeHTTP :: "endpoint list \<Rightarrow> handler" where
  "mux_ServeHTTP mux r s =
     (let hits = filter (\<lambda>ep. match_path (ep_Pattern ep) (rq_Path r) \<noteq> None) mux in
      case find (\<lambda>ep. method_serves (ep_Method ep) (rq_Method r)) hits of
        Some ep \<Rightarrow>
          ep_Handler ep (r\<lparr>rq_PathValues := the (match_path (ep_Pattern ep) (rq_Path r))\<rparr>) s
      | None \<Rightarrow>
          (s, if hits = [] then error_page 404 ''404 page not found'' else error_page 405 ''Method Not Allowed''))"

definition ServeHTTP :: "('pk, 'sk) env \<Rightarrow> json_package \<Rightarrow> handler" where
  "ServeHTTP E J r s = mux_ServeHTTP (NewServer E J) r s"

end
