(* ===== verification/Api_Auth.thy ===== *)
theory Api_Auth
  imports Api_Server Engine_Tables
begin

section \<open>Who may call the API, and what a request changes\<close>

text \<open>
  The steps of a server: any request, with any body, clock and failures, the creation of tokens by
  the command line on the same database, and a restart of the process. A request is a step of the engine or changes
  nothing, so the invariants of the engine and the datastore hold of the server. The theorems are
  about the gate: without a token nothing of the state leaves the server, and a created token opens
  it from then on.
\<close>

subsection \<open>Routing\<close>

lemma find_filter_set: "find P (filter Q xs) = Some x \<Longrightarrow> x \<in> set xs \<and> P x \<and> Q x"
  by (auto simp: find_Some_iff) (metis nth_mem mem_Collect_eq set_filter)+

lemma mux_ServeHTTP_cases:
  "mux_ServeHTTP mux r = (\<lambda>s. (s, error_page 404 ''404 page not found''))
   \<or> mux_ServeHTTP mux r = (\<lambda>s. (s, error_page 405 ''Method Not Allowed''))
   \<or> (\<exists>ep vs. ep \<in> set mux \<and> match_path (ep_Pattern ep) (rq_Path r) = Some vs
        \<and> method_serves (ep_Method ep) (rq_Method r)
        \<and> mux_ServeHTTP mux r = ep_Handler ep (r\<lparr>rq_PathValues := vs\<rparr>))"
proof -
  let ?hits = "filter (\<lambda>ep. match_path (ep_Pattern ep) (rq_Path r) \<noteq> None) mux"
  show ?thesis
  proof (cases "find (\<lambda>ep. method_serves (ep_Method ep) (rq_Method r)) ?hits")
    case (Some ep)
    then show ?thesis using find_filter_set [OF Some] by (auto simp: mux_ServeHTTP_def Let_def fun_eq_iff)
  qed (auto simp: mux_ServeHTTP_def Let_def fun_eq_iff)
qed

lemma NewServer_handler:
  "ep \<in> set (NewServer E J) \<Longrightarrow>
     (ep_Pattern ep = [Lit ''v1'', Lit ''health''] \<and> ep_Handler ep = handleHealth)
     \<or> (\<exists>handle. ep_Handler ep = requireToken E handle)"
  by (auto simp: NewServer_def)

subsection \<open>Frames\<close>

text \<open>Every handler leaves the state as it is, or performs one operation of the engine.\<close>

definition engine_moves :: "('pk, 'sk) env \<Rightarrow> engine \<Rightarrow> engine \<Rightarrow> bool" where
  "engine_moves E s t =
     (t = s \<or> engine_step (env_circl E) (env_pem E) (env_sealing E) s t)"

lemma moves_same [simp]: "engine_moves E s s"
  by (simp add: engine_moves_def)

lemma moves_ops:
  "engine_moves E s (fst (CreateCA E req s))" "engine_moves E s (fst (IssueCertificate E ireq s))"
  "engine_moves E s (fst (Revoke E serial reason s))" "engine_moves E s (fst (CRL E caID passphrase s))"
  by (auto simp: engine_moves_def intro: engine_step.intros)

lemma handler_moves:
  "engine_moves E s (fst (handleCreateCA E J r s))" "engine_moves E s (fst (handleListCAs E r s))"
  "engine_moves E s (fst (handleGetCA E r s))" "engine_moves E s (fst (handleGetCRL E r s))"
  "engine_moves E s (fst (handleIssueCertificate E J r s))" "engine_moves E s (fst (handleGetCertificate E r s))"
  "engine_moves E s (fst (handleRevoke E J r s))" "engine_moves E s (fst (handleHealth r s))"
  using moves_ops [where E = E and s = s]
  by (auto simp: handleCreateCA_def handleListCAs_def handleGetCA_def handleGetCRL_def handleIssueCertificate_def
      handleGetCertificate_def handleRevoke_def handleHealth_def split: sum.split prod.split)
    (metis fst_conv)+

lemma requireToken_moves:
  "engine_moves E s (fst (handle r s)) \<Longrightarrow> engine_moves E s (fst (requireToken E handle r s))"
  by (simp add: requireToken_def split: option.split sum.split)

lemma ServeHTTP_moves: "engine_moves E s (fst (ServeHTTP E J r s))"
proof -
  have "engine_moves E s (fst (ep_Handler ep r' s))" if "ep \<in> set (NewServer E J)" for ep r'
    using that handler_moves [where E = E and s = s]
    by (auto simp: NewServer_def authed_def intro!: requireToken_moves)
  then show ?thesis
    using mux_ServeHTTP_cases [of "NewServer E J" r] by (auto simp: ServeHTTP_def)
qed

subsection \<open>The server as a state machine\<close>

inductive server_step :: "('pk, 'sk) circl \<Rightarrow> pem_package \<Rightarrow> sealing \<Rightarrow> engine \<Rightarrow> engine \<Rightarrow> bool"
  for C P S where
  request: "env_circl E = C \<Longrightarrow> env_pem E = P \<Longrightarrow> env_sealing E = S \<Longrightarrow>
    server_step C P S s (fst (ServeHTTP E J r s))"
| token: "env_circl E = C \<Longrightarrow> env_pem E = P \<Longrightarrow> env_sealing E = S \<Longrightarrow>
    server_step C P S s (fst (token_create E name s))"
| restart: "restarted s t \<Longrightarrow> server_step C P S s t"

inductive_cases server_stepE: "server_step C P S s t"

lemma token_create_tables: "db_step\<^sup>*\<^sup>* (e_db s) (e_db (fst (token_create E name s)))"
proof -
  have "op_keeps db_frame (token_create E name)"
    unfolding token_create_def
    by (intro tables.keeps_if tables.keeps_bind tables.keeps_res tables.keeps_rand op_db_tables db_step.create_token)
  then show ?thesis by (simp add: op_keeps_def db_frame_def)
qed

lemma server_step_tables: "server_step C P S s t \<Longrightarrow> db_step\<^sup>*\<^sup>* (e_db s) (e_db t)"
proof (elim server_stepE)
  fix E :: "('a, 'b) env" and J r
  assume "t = fst (ServeHTTP E J r s)"
  then have "engine_moves E s t" using ServeHTTP_moves by blast
  then show ?thesis by (auto simp: engine_moves_def dest: engine_step_tables)
qed (simp_all add: token_create_tables restarted_def)

lemma server_steps_tables: "(server_step C P S)\<^sup>*\<^sup>* s t \<Longrightarrow> db_step\<^sup>*\<^sup>* (e_db s) (e_db t)"
  by (induction rule: rtranclp_induct) (auto dest: server_step_tables)

subsection \<open>Tokens\<close>

lemma tokens_step: "db_step d d' \<Longrightarrow> set (db_tokens d) \<subseteq> set (db_tokens d')"
proof (elim db_stepE)
  fix F t
  assume "d' = fst (st_CreateToken F t d)"
  then show ?thesis using CreateToken_cases [of F t d] by (cases "st_CreateToken F t d") auto
qed (auto simp: st_CreateCA_def st_InsertCertificate_def st_RevokeCertificate_def split: option.splits)

lemma tokens_steps: "db_step\<^sup>*\<^sup>* d d' \<Longrightarrow> set (db_tokens d) \<subseteq> set (db_tokens d')"
  by (induction rule: rtranclp_induct) (auto dest: tokens_step)

lemma find_hash: "find (\<lambda>t. tk_TokenHash t = h) ts = None \<longleftrightarrow> h \<notin> tk_TokenHash ` set ts"
  by (auto simp: find_None_iff)

lemma TokenByHash_found:
  "h \<in> tk_TokenHash ` set (db_tokens d) \<Longrightarrow> \<not> F ''get token'' \<Longrightarrow> \<exists>t. st_TokenByHash F h d = Inr t"
  by (cases "find (\<lambda>t. tk_TokenHash t = h) (db_tokens d)") (auto simp: st_TokenByHash_def find_hash)

lemma TokenByHash_error:
  "h \<notin> tk_TokenHash ` set (db_tokens d) \<Longrightarrow> \<not> F ''get token'' \<Longrightarrow>
     st_TokenByHash F h d = Inl (Err [StoreErrNotFound] ''token'')"
  by (simp add: st_TokenByHash_def flip: find_hash)

lemma writeProblem_status: "\<exists>resp. writeProblem status u t det = Response resp \<and> rs_Status resp = status"
  by (simp add: writeProblem_def)

definition authenticated :: "http_request \<Rightarrow> db \<Rightarrow> bool" where
  "authenticated r d =
     (\<exists>token. bearerToken (rq_Header r ''Authorization'') = Some token
        \<and> HashToken token \<in> tk_TokenHash ` set (db_tokens d))"

lemma requireToken_pass:
  assumes "authenticated r (e_db s)" "\<not> env_faults E ''get token''"
  shows "requireToken E handle r s = handle r s"
proof -
  obtain token where token: "bearerToken (rq_Header r ''Authorization'') = Some token"
    "HashToken token \<in> tk_TokenHash ` set (db_tokens (e_db s))"
    using assms(1) by (auto simp: authenticated_def)
  then obtain t where "st_TokenByHash (env_faults E) (HashToken token) (e_db s) = Inr t"
    using TokenByHash_found [OF token(2), of "env_faults E"] assms(2) by blast
  with token(1) show ?thesis by (simp add: requireToken_def)
qed

lemma requireToken_deny:
  assumes "\<not> authenticated r d"
  shows "\<exists>resp. (\<forall>s. db_tokens (e_db s) = db_tokens d \<longrightarrow> requireToken E handle r s = (s, Response resp))
    \<and> (rs_Status resp = 401 \<or> rs_Status resp = 500 \<and> env_faults E ''get token'')"
proof (cases "bearerToken (rq_Header r ''Authorization'')")
  case None
  then have "requireToken E handle r s = (s, writeProblem 401 typeUnauthorized ''Unauthorized''
      (Text ''a bearer token is required in the Authorization header''))" for s
    by (simp add: requireToken_def)
  then show ?thesis using writeProblem_status by metis
next
  case (Some token)
  then have h: "HashToken token \<notin> tk_TokenHash ` set (db_tokens d)" using assms by (simp add: authenticated_def)
  show ?thesis
  proof (cases "env_faults E ''get token''")
    case True
    then have "requireToken E handle r s = (s, writeProblem 500 typeInternal ''Internal server error''
        (Text ''an internal error occurred''))" for s
      using Some by (simp add: requireToken_def st_TokenByHash_def writeError_def problemForError_def)
    then show ?thesis using writeProblem_status True by metis
  next
    case False
    then have "requireToken E handle r s = (s, writeProblem 401 typeUnauthorized ''Unauthorized''
        (Text ''the bearer token is not recognized''))" if "db_tokens (e_db s) = db_tokens d" for s
      using Some h TokenByHash_error [of "HashToken token" "e_db s" "env_faults E"] that
      by (simp add: requireToken_def)
    then show ?thesis using writeProblem_status by metis
  qed
qed

lemma match_health: "match_path [Lit ''v1'', Lit ''health''] p = Some vs \<Longrightarrow> p = [''v1'', ''health'']"
  by (cases p; cases "tl p"; cases "tl (tl p)") (auto split: if_splits)

lemma ServeHTTP_deny:
  assumes "rq_Path r \<noteq> [''v1'', ''health'']" "\<not> authenticated r d"
  shows "\<exists>resp. (\<forall>s. db_tokens (e_db s) = db_tokens d \<longrightarrow> ServeHTTP E J r s = (s, Response resp))
    \<and> (rs_Status resp \<in> {401, 404, 405} \<or> rs_Status resp = 500 \<and> env_faults E ''get token'')"
  using mux_ServeHTTP_cases [of "NewServer E J" r]
proof (elim disjE exE conjE)
  fix ep vs
  assume ep: "ep \<in> set (NewServer E J)" "match_path (ep_Pattern ep) (rq_Path r) = Some vs"
    and run: "mux_ServeHTTP (NewServer E J) r = ep_Handler ep (r\<lparr>rq_PathValues := vs\<rparr>)"
  then obtain handle where h: "ep_Handler ep = requireToken E handle"
    using NewServer_handler [OF ep(1)] match_health assms(1) by metis
  have "\<not> authenticated (r\<lparr>rq_PathValues := vs\<rparr>) d" using assms(2) by (simp add: authenticated_def)
  from requireToken_deny [OF this] show ?thesis by (fastforce simp: ServeHTTP_def run h)
qed (auto simp: ServeHTTP_def error_page_def)

lemma mux_gate:
  assumes "authenticated r (e_db s)" "\<not> env_faults E ''get token''"
  shows "mux_ServeHTTP (health # map (ep_Handler_update (requireToken E)) eps) r s = mux_ServeHTTP (health # eps) r s"
proof -
  let ?gate = "ep_Handler_update (requireToken E)"
  let ?hit = "\<lambda>ep :: endpoint. match_path (ep_Pattern ep) (rq_Path r) \<noteq> None"
  let ?serves = "\<lambda>ep. method_serves (ep_Method ep) (rq_Method r)"
  have hits: "filter ?hit (map ?gate eps) = map ?gate (filter ?hit eps)"
    by (simp add: filter_map o_def)
  have found: "find ?serves (map ?gate eps) = map_option ?gate (find ?serves eps)" for eps
    by (induction eps) simp_all
  have pass: "requireToken E handle (r\<lparr>rq_PathValues := vs\<rparr>) s = handle (r\<lparr>rq_PathValues := vs\<rparr>) s" for handle vs
    using assms by (intro requireToken_pass) (simp_all add: authenticated_def)
  show ?thesis
    unfolding mux_ServeHTTP_def Let_def filter.simps hits
    by (auto simp: found pass split: option.split)
qed

lemma ServeHTTP_pass:
  "authenticated r (e_db s) \<Longrightarrow> \<not> env_faults E ''get token'' \<Longrightarrow>
     ServeHTTP E J r s = mux_ServeHTTP (hd (NewServer E J) # authed E J) r s"
  unfolding ServeHTTP_def NewServer_def list.sel by (rule mux_gate)

text \<open>The text of a token: 32 random bytes in base64url, which has no white space.\<close>

lemma base64_char_plain: "n < 64 \<Longrightarrow> \<not> space_head (base64_char n) \<and> \<not> space_tail (base64_char n)"
proof -
  have "\<forall>n \<in> set [0..<64]. \<not> space_head (base64_char n) \<and> \<not> space_tail (base64_char n)" by code_simp
  then show "n < 64 \<Longrightarrow> ?thesis" by simp
qed

definition token_text :: "string \<Rightarrow> bool" where
  "token_text token = (\<exists>b. length b = 32 \<and> token = base64_EncodeToString b)"

lemma bearerToken_token:
  assumes "token_text token" "length scheme = 7" "equal_fold scheme ''Bearer ''"
  shows "bearerToken (scheme @ token) = Some token"
proof -
  obtain b where b: "length b = 32" "token = base64_EncodeToString b" using assms(1) by (auto simp: token_text_def)
  then have ne: "token \<noteq> []" using base64_length_mod [of b] by auto
  then have "hd token \<in> set token" "last token \<in> set token" by simp_all
  then have "trim_space token = token"
    using base64_chars [of _ b] b(2) base64_char_plain by (intro trim_space_id [OF ne]) metis+
  then show ?thesis using assms(2,3) ne by (simp add: bearerToken_def)
qed

lemma GenerateToken_text: "GenerateToken r = Inr (token, r') \<Longrightarrow> token_text token"
  unfolding token_text_def
  by (rule exI [of _ "take 32 r"]) (auto simp: GenerateToken_def read_full_def go_inv split: if_splits)

lemma token_create_Inr:
  assumes "token_create E name s = (s', Inr token)"
  shows "token_text token" "HashToken token \<in> tk_TokenHash ` set (db_tokens (e_db s'))"
proof -
  obtain r1 r2 i d where g: "GenerateToken (e_rand s) = Inr (token, r1)"
    and st: "st_CreateToken (env_faults E) \<lparr>tk_ID = i, tk_Name = name, tk_TokenHash = HashToken token,
        tk_CreatedAt = env_now E\<rparr> (e_db s) = (d, Inr ())" and s': "e_db s' = d"
    using assms by (auto simp: token_create_def op_Inr split: if_splits)
  show "token_text token" using g by (rule GenerateToken_text)
  show "HashToken token \<in> tk_TokenHash ` set (db_tokens (e_db s'))"
    using CreateToken_cases [OF st] s' by auto
qed

lemma created_token_passes:
  assumes "token_create E name s0 = (s1, Inr token)"
    and "(server_step C P S)\<^sup>*\<^sup>* s1 s"
    and "rq_Header r ''Authorization'' = scheme @ token" "length scheme = 7" "equal_fold scheme ''Bearer ''"
    and "\<not> env_faults E' ''get token''"
  shows "(\<exists>b. length b = 32 \<and> token = base64_EncodeToString b)
    \<and> HashToken token \<in> tk_TokenHash ` set (db_tokens (e_db s))
    \<and> requireToken E' handle r s = handle r s
    \<and> ServeHTTP E' J r s = mux_ServeHTTP (hd (NewServer E' J) # authed E' J) r s"
proof -
  have "HashToken token \<in> tk_TokenHash ` set (db_tokens (e_db s))"
    using token_create_Inr(2) [OF assms(1)] tokens_steps [OF server_steps_tables [OF assms(2)]] by auto
  moreover from this have "authenticated r (e_db s)"
    using bearerToken_token [OF token_create_Inr(1) [OF assms(1)] assms(4,5)] assms(3)
    by (simp add: authenticated_def)
  ultimately show ?thesis
    using token_create_Inr(1) [OF assms(1)] requireToken_pass [OF _ assms(6)] ServeHTTP_pass [OF _ assms(6)]
    by (simp add: token_text_def)
qed

subsection \<open>Properties\<close>

text \<open>C7. The API is closed: to a request for anything but the health check that carries no bearer
  token, or one whose hash is not in the table, the server answers 401 (404 or 405 for what it does
  not serve, 500 when the table cannot be read), it changes nothing, and its answer is the same
  for all states with the same table of tokens, so it tells nothing of authorities, certificates,
  keys or revocation lists.\<close>

theorem authentication_required:
  fixes d :: db
  assumes "rq_Path r \<noteq> [''v1'', ''health'']"
    and "\<And>token. bearerToken (rq_Header r ''Authorization'') = Some token \<Longrightarrow>
      HashToken token \<notin> tk_TokenHash ` set (db_tokens d)"
  shows "\<exists>resp. (\<forall>s. db_tokens (e_db s) = db_tokens d \<longrightarrow> ServeHTTP E J r s = (s, Response resp))
    \<and> (rs_Status resp \<in> {401, 404, 405} \<or> rs_Status resp = 500 \<and> env_faults E ''get token'')"
proof -
  have "\<not> authenticated r d" using assms(2) by (auto simp: authenticated_def)
  from ServeHTTP_deny [OF assms(1) this] show ?thesis .
qed

definition toy_get_cas :: "string \<Rightarrow> http_request" where
  "toy_get_cas authorization = \<lparr>rq_Method = ''GET'', rq_Path = [''v1'', ''ca''], rq_PathValues = [],
     rq_Header = (\<lambda>h. if h = ''Authorization'' then authorization else []), rq_Body = []\<rparr>"

theorem authentication_required_witness:
  "\<exists>resp. ServeHTTP toy_env (\<lambda>_. None) (toy_get_cas ''Bearer x'') toy_engine = (toy_engine, Response resp)"
proof -
  have "db_tokens (e_db toy_engine) = []" by (simp add: toy_engine_def empty_db_def)
  then show ?thesis
    using authentication_required [of "toy_get_cas ''Bearer x''" "e_db toy_engine" toy_env "\<lambda>_. None"]
    by (auto simp: toy_get_cas_def)
qed

text \<open>C17. A created token is accepted: whatever requests the server handles, tokens are created
  and restarts happen after \<open>pqtrustd token create\<close> printed it, a request that carries it under the scheme \<open>Bearer\<close> in
  any case passes the gate of every endpoint, as long as the table can be read. The table holds its
  hash, and the token is the text of 32 random bytes.\<close>

theorem created_token_authenticates:
  assumes "token_create E name s0 = (s1, Inr token)"
    and "(server_step C P S)\<^sup>*\<^sup>* s1 s"
    and "rq_Header r ''Authorization'' = scheme @ token" "length scheme = 7" "equal_fold scheme ''Bearer ''"
    and "\<not> env_faults E' ''get token''"
  shows "(\<exists>b. length b = 32 \<and> token = base64_EncodeToString b)
    \<and> HashToken token \<in> tk_TokenHash ` set (db_tokens (e_db s))
    \<and> requireToken E' handle r s = handle r s
    \<and> ServeHTTP E' J r s = mux_ServeHTTP (hd (NewServer E' J) # authed E' J) r s"
  using created_token_passes [OF assms] .

lemma toy_token_created:
  "\<exists>s1 token. token_create toy_env ''ci'' toy_engine = (s1, Inr token)"
  by (simp add: token_create_def op_bind_def op_rand_def op_res_def op_db_def GenerateToken_def NewKeyID_def
      read_full_def st_CreateToken_def toy_engine_def toy_env_def toy_os_def empty_db_def trim_space_keep space_head_def
      space_runes_def)

theorem created_token_authenticates_witness:
  "\<exists>s1 token. token_create toy_env ''ci'' toy_engine = (s1, Inr token)
     \<and> requireToken toy_env (handleListCAs toy_env) (toy_get_cas (''bEARER '' @ token)) s1
       = handleListCAs toy_env (toy_get_cas (''bEARER '' @ token)) s1"
proof -
  obtain s1 token where run: "token_create toy_env ''ci'' toy_engine = (s1, Inr token)"
    using toy_token_created by blast
  let ?r = "toy_get_cas (''bEARER '' @ token)"
  have "equal_fold ''bEARER '' ''Bearer ''" by code_simp
  moreover have "rq_Header ?r ''Authorization'' = ''bEARER '' @ token"
    by (simp add: toy_get_cas_def)
  moreover have "\<not> env_faults toy_env ''get token''" using toy_packages(2) by (simp add: no_faults_def)
  ultimately have "requireToken toy_env (handleListCAs toy_env) ?r s1 = handleListCAs toy_env ?r s1"
    using created_token_authenticates [OF run rtranclp.rtrancl_refl, of ?r "''bEARER ''" toy_env] by simp
  then show ?thesis using run by blast
qed

end
