(* ===== verification/Api_Effects.thy ===== *)
theory Api_Effects
  imports Api_Auth
begin

section \<open>What the API changes and reports\<close>

text \<open>
  The tables change only by an authenticated POST that reports success, and a revocation that was
  reported stays visible and cannot be repeated, through the HTTP interface, whatever else the
  server does in between.
\<close>

subsection \<open>The tables under the operations\<close>

lemma IssueCertificate_error_tables:
  assumes "packages_ok E" "no_faults E" "tables_ok (env_pem E) (e_db s)"
    and "IssueCertificate E req s = (s', Inl e)"
  shows "e_db s' = e_db s"
proof (rule ccontr)
  assume "e_db s' \<noteq> e_db s"
  moreover have "issue_residue E (iq_CAID req) s e s'"
    using assms(1,2) by (intro IssueCertificate_failed [OF _ _ assms(4)]) (simp_all add: packages_ok_def no_faults_def)
  ultimately obtain row caRec where r: "ca_at (iq_CAID req) (e_db s) = Some caRec"
    "e_db s' = (e_db s)\<lparr>db_certs := db_certs (e_db s) @ [row]\<rparr>" "caResult E (e_db s') caRec = Inl e"
    by (auto simp: issue_residue_def untouched_def)
  have "ca_row_ok (env_pem E) (e_db s) caRec" using ca_at_set [OF r(1)] assms(3) by (simp add: tables_ok_def)
  then have "ca_row_ok (env_pem E) (e_db s') caRec" unfolding r(2) by (simp add: ca_row_ok_def ca_at_def)
  then show False using tables_ok_caResult [OF _ assms(2)] r(3) by fastforce
qed

lemma Revoke_Inr:
  assumes "Revoke E serial reason s = (s', Inr u)"
  shows "\<exists>rec. cert_at (to_lower serial) (e_db s) = Some rec \<and> \<not> is_revoked rec
      \<and> e_db s' = (e_db s)\<lparr>db_certs :=
           map (revoke_row (to_lower serial) (time_Truncate (env_now E)) reason) (db_certs (e_db s))\<rparr>"
    and "0 \<le> reason \<and> reason \<le> 10 \<and> reason \<noteq> 7"
  using assms
  by (auto simp: Revoke_def op_Inr invalidateCRL_def RevokeCertificate_cert_at split: if_splits option.splits)

lemma Revoke_error_tables: "Revoke E serial reason s = (s', Inl e) \<Longrightarrow> e_db s' = e_db s"
proof -
  have "op_wp (Revoke E serial reason) (\<lambda>_ _. True) (\<lambda>_ t. e_db t = e_db s) s"
    by (auto simp: Revoke_def wp_simps op_wp_def [of "\<lambda>s. (invalidateCRL _ s, Inr ())"] split: sum.split prod.split
        dest: RevokeCertificate_cases)
  then show "Revoke E serial reason s = (s', Inl e) \<Longrightarrow> e_db s' = e_db s" by (rule wp_D)
qed

lemma GetCertificate_at:
  "cert_at (to_lower serial) (e_db s) = Some rec \<Longrightarrow> no_faults E \<Longrightarrow> GetCertificate E serial s = Inr rec"
  by (simp add: GetCertificate_def st_GetCertificate_def cert_at_def no_faults_def)

lemma Revoke_GetCertificate:
  assumes "Revoke E serial reason s = (s', Inr u)" "no_faults E'"
  shows "\<exists>rec. GetCertificate E' serial s' = Inr rec"
proof -
  obtain rec where "cert_at (to_lower serial) (e_db s) = Some rec"
    and "e_db s' = (e_db s)\<lparr>db_certs :=
           map (revoke_row (to_lower serial) (time_Truncate (env_now E)) reason) (db_certs (e_db s))\<rparr>"
    using Revoke_Inr(1) [OF assms(1)] by blast
  then have "cert_at (to_lower serial) (e_db s')
      = Some (revoke_row (to_lower serial) (time_Truncate (env_now E)) reason rec)"
    by (simp add: cert_at_revoked)
  from GetCertificate_at [OF this assms(2)] show ?thesis by blast
qed

subsection \<open>Effects of the handlers\<close>

definition reported :: "engine \<Rightarrow> engine \<times> outcome \<Rightarrow> bool" where
  "reported s res =
     (e_db (fst res) = e_db s
      \<or> (\<exists>resp. snd res = Response resp \<and> rs_Status resp \<in> {200, 201}))"

lemma reported_same [simp]: "reported s (s, out)"
  by (simp add: reported_def)

lemma reported_readers:
  "reported s (handleHealth r s)" "reported s (handleListCAs E r s)" "reported s (handleGetCA E r s)"
  "reported s (handleGetCertificate E r s)"
  by (simp_all add: handleHealth_def handleListCAs_def handleGetCA_def handleGetCertificate_def split: sum.split)

lemma GetCRL_tables: "e_db (fst (handleGetCRL E r s)) = e_db s"
  using CRL_tables [of E "PathValue r ''id''" "bytes_of (rq_Header r ''X-PQTrust-Passphrase'')" s]
  by (auto simp: handleGetCRL_def split: prod.split sum.split)

lemma reported_CreateCA: "reported s (handleCreateCA E J r s)"
  using CreateCA_error_tables [of E _ s]
  by (auto simp: handleCreateCA_def reported_def writeJSON_def split: sum.split prod.split)

lemma reported_IssueCertificate:
  "packages_ok E \<Longrightarrow> no_faults E \<Longrightarrow> tables_ok (env_pem E) (e_db s) \<Longrightarrow> reported s (handleIssueCertificate E J r s)"
  using IssueCertificate_error_tables [of E s]
  by (auto simp: handleIssueCertificate_def reported_def writeJSON_def split: sum.split prod.split)

lemma reported_Revoke:
  assumes "no_faults E"
  shows "reported s (handleRevoke E J r s)"
proof -
  have "\<exists>resp. (case GetCertificate E serial s' of Inl e \<Rightarrow> (s', writeError e) | Inr rec \<Rightarrow> (s', writeJSON 200 (json_revoked rec)))
      = (s', Response resp) \<and> rs_Status resp = 200"
    if "Revoke E serial reason s = (s', Inr u)" for serial reason s' u
    using Revoke_GetCertificate [OF that assms] by (auto simp: writeJSON_def)
  then show ?thesis
    using Revoke_error_tables [of E _ _ s]
    by (fastforce simp: handleRevoke_def reported_def split: sum.split prod.split)
qed

lemma reported_requireToken:
  "reported s (handle r s) \<Longrightarrow> reported s (requireToken E handle r s)"
  by (simp add: requireToken_def split: option.split sum.split)

lemma GET_tables:
  assumes "ep \<in> set (NewServer E J)" "method_serves (ep_Method ep) (rq_Method r)" "rq_Method r \<noteq> ''POST''"
  shows "e_db (fst (ep_Handler ep r' s)) = e_db s"
proof -
  have "e_db (fst (requireToken E handle r' s)) = e_db s" if "e_db (fst (handle r' s)) = e_db s" for handle
    using that by (simp add: requireToken_def split: option.split sum.split)
  then show ?thesis
    using assms
    by (auto simp: NewServer_def authed_def method_serves_def GetCRL_tables handleHealth_def handleListCAs_def
        handleGetCA_def handleGetCertificate_def split: sum.split)
qed

lemma ServeHTTP_reported:
  assumes "packages_ok E" "no_faults E" "tables_ok (env_pem E) (e_db s)"
  shows "reported s (ServeHTTP E J r s)"
proof -
  have "reported s (ep_Handler ep r' s)" if "ep \<in> set (NewServer E J)" for ep r'
    using that reported_IssueCertificate [OF assms] reported_Revoke [OF assms(2)]
    by (auto simp: NewServer_def authed_def reported_readers reported_CreateCA GetCRL_tables
        intro!: reported_requireToken) (simp add: reported_def GetCRL_tables)
  then show ?thesis
    using mux_ServeHTTP_cases [of "NewServer E J" r] by (auto simp: ServeHTTP_def)
qed

lemma ServeHTTP_GET_tables: "rq_Method r \<noteq> ''POST'' \<Longrightarrow> e_db (fst (ServeHTTP E J r s)) = e_db s"
  using mux_ServeHTTP_cases [of "NewServer E J" r] GET_tables [of _ E J r _ s] by (auto simp: ServeHTTP_def)

lemma health_tables:
  assumes "rq_Path r = [''v1'', ''health'']"
  shows "e_db (fst (ServeHTTP E J r s)) = e_db s"
proof -
  have "ep_Handler ep = handleHealth"
    if "ep \<in> set (NewServer E J)" "match_path (ep_Pattern ep) (rq_Path r) = Some vs" for ep vs
    using that by (auto simp: NewServer_def authed_def assms split: if_splits)
  then show ?thesis
    using mux_ServeHTTP_cases [of "NewServer E J" r] by (auto simp: ServeHTTP_def handleHealth_def)
qed

lemma ServeHTTP_authenticated:
  assumes "e_db (fst (ServeHTTP E J r s)) \<noteq> e_db s"
  shows "authenticated r (e_db s)"
proof (rule ccontr)
  assume no: "\<not> authenticated r (e_db s)"
  have "rq_Path r \<noteq> [''v1'', ''health'']" using health_tables assms by blast
  from ServeHTTP_deny [OF this no, of E J] show False using assms by auto
qed

lemma tables_ok_server_steps:
  "(server_step C P S)\<^sup>*\<^sup>* s t \<Longrightarrow> pem_ok P \<Longrightarrow> tables_ok P (e_db s) \<Longrightarrow> tables_ok P (e_db t)"
proof (induction rule: rtranclp_induct)
  case (step t u)
  have t: "tables_ok P (e_db t)" using step by blast
  from step.hyps(2) show ?case
  proof cases
    case (request E J r)
    then show ?thesis
      using ServeHTTP_moves [of E t J r] tables_ok_step [OF _ step.prems(1) t] t by (auto simp: engine_moves_def)
  next
    case (token E name)
    have "db_cas (e_db u) = db_cas (e_db t) \<and> db_certs (e_db u) = db_certs (e_db t)"
      unfolding token(1)
      by (auto simp: token_create_def op_bind_def op_res_def op_rand_def op_db_def st_CreateToken_def
          split: prod.split sum.split)
    then show ?thesis using t unfolding tables_ok_def ca_row_ok_def leaf_row_ok_def ca_at_def by simp
  next
    case restart
    then show ?thesis using t by (simp add: restarted_def)
  qed
qed simp

subsection \<open>Revocation over HTTP\<close>

definition cert_path :: "string \<Rightarrow> string list" where
  "cert_path serial = [''v1'', ''certificates'', serial]"

definition revoke_path :: "string \<Rightarrow> string list" where
  "revoke_path serial = [''v1'', ''certificates'', serial, ''revoke'']"

lemma ServeHTTP_revoke:
  assumes "rq_Method r = ''POST''" "rq_Path r = revoke_path serial" "serial \<noteq> []"
  shows "ServeHTTP E J r s = requireToken E (handleRevoke E J) (r\<lparr>rq_PathValues := [(''serial'', serial)]\<rparr>) s"
  using assms
  by (simp add: ServeHTTP_def NewServer_def authed_def mux_ServeHTTP_def revoke_path_def method_serves_def)

lemma ServeHTTP_certificate:
  assumes "rq_Method r = ''GET''" "rq_Path r = cert_path serial" "serial \<noteq> []"
  shows "ServeHTTP E J r s = requireToken E (handleGetCertificate E) (r\<lparr>rq_PathValues := [(''serial'', serial)]\<rparr>) s"
  using assms
  by (simp add: ServeHTTP_def NewServer_def authed_def mux_ServeHTTP_def cert_path_def method_serves_def)

lemma writeError_status: "writeError e = Response resp \<Longrightarrow> rs_Status resp \<noteq> 200"
  by (auto simp: writeError_def problemForError_def writeProblem_def split: if_splits)

lemma decodeJSON_status: "decodeJSON J rd zero r = Inl (Response resp) \<Longrightarrow> rs_Status resp = 400"
  by (auto simp: decodeJSON_def bad_request_def writeProblem_def split: option.splits sum.splits if_splits)

lemma handleRevoke_200:
  assumes "handleRevoke E J r s = (s', Response resp)" "rs_Status resp = 200"
  obtains reason rec where "Revoke E (PathValue r ''serial'') reason s = (s', Inr ())"
    "GetCertificate E (PathValue r ''serial'') s' = Inr rec" "rs_Body resp = Json (json_revoked rec)"
  using assms decodeJSON_status [of J _ _ r resp] writeError_status [of _ resp]
  by (fastforce simp: handleRevoke_def writeJSON_def split: sum.splits prod.splits)

lemma requireToken_200:
  assumes "requireToken E handle r s = (s', Response resp)" "rs_Status resp = 200"
  shows "handle r s = (s', Response resp)"
  using assms writeError_status [of _ resp]
  by (auto simp: requireToken_def writeProblem_def split: option.splits sum.splits if_splits)

lemma revoke_decode:
  "decodeJSON J (read_struct revoke_fields) zero r = Inl out \<Longrightarrow> \<exists>resp. out = Response resp"
proof -
  have "\<not> is_panic e" if "read_int v old = Inl e" for v old e
    using that by (cases "(v, old)" rule: read_int.cases) (auto simp: json_mismatch_def split: if_splits)
  then have fields: "\<not> is_panic e" if "read_fields revoke_fields kvs z = Inl e" for kvs z e
    using that by (induction kvs arbitrary: z)
      (auto simp: revoke_fields_def find_field_def json_field_def rbind_Inl_iff split: option.splits if_splits)
  have "\<not> is_panic e" if "read_struct revoke_fields v z = Inl e" for v z e
    using that fields by (cases v) (auto simp: json_mismatch_def)
  moreover have "is_panic (wrap_errs ss m e) = is_panic e" for ss m e by (cases e) simp_all
  ultimately show "decodeJSON J (read_struct revoke_fields) zero r = Inl out \<Longrightarrow> ?thesis"
    by (auto simp: decodeJSON_def bad_request_def writeProblem_def split: option.splits sum.splits)
qed

lemma Revoke_again:
  assumes "cert_at (to_lower serial) (e_db s) = Some rec" "is_revoked rec" "no_faults E"
    and "0 \<le> reason" "reason \<le> 10" "reason \<noteq> 7"
  shows "Revoke E serial reason s = (s, Inl (Err [ErrAlreadyRevoked] ''already revoked''))"
  using assms GetCertificate_at [OF assms(1,3)]
  by (simp add: Revoke_def op_bind_def op_read_def op_wrap_def op_db_def RevokeCertificate_cert_at no_faults_def
      revoke_err_def)

lemma handleRevoke_again:
  assumes "cert_at (to_lower (PathValue r ''serial'')) (e_db s) = Some rec" "is_revoked rec" "no_faults E"
  shows "\<exists>resp. handleRevoke E J r s = (s, Response resp) \<and> rs_Status resp \<in> {400, 409, 422}
    \<and> (\<forall>reason. decodeJSON J (read_struct revoke_fields) \<lparr>rj_Reason = 0\<rparr> r = Inr \<lparr>rj_Reason = reason\<rparr>
         \<longrightarrow> rs_Status resp = (if 0 \<le> reason \<and> reason \<le> 10 \<and> reason \<noteq> 7 then 409 else 422))"
proof (cases "decodeJSON J (read_struct revoke_fields) \<lparr>rj_Reason = 0\<rparr> r")
  case (Inl out)
  then obtain resp where "out = Response resp"
    using revoke_decode by blast
  then show ?thesis using Inl decodeJSON_status [OF Inl [unfolded \<open>out = Response resp\<close>]] by (simp add: handleRevoke_def)
next
  case (Inr req)
  show ?thesis
  proof (cases "0 \<le> rj_Reason req \<and> rj_Reason req \<le> 10 \<and> rj_Reason req \<noteq> 7")
    case True
    then show ?thesis
      using Inr Revoke_again [OF assms, of "rj_Reason req"]
      by (auto simp: handleRevoke_def writeError_def problemForError_def writeProblem_def)
  next
    case False
    then have "Revoke E (PathValue r ''serial'') (rj_Reason req) s = (s, Inl (violation ''not an RFC 5280 CRLReason''))"
      by (auto simp: Revoke_def op_res_def)
    then show ?thesis
      using Inr False by (auto simp: handleRevoke_def writeError_def problemForError_def writeProblem_def violation_def)
  qed
qed

subsection \<open>A request that creates a root\<close>

definition toy_server :: engine where
  "toy_server = toy_engine\<lparr>e_rand := replicate 48 9 @ e_rand toy_engine\<rparr>"

definition toy_token :: string where "toy_token = base64_EncodeToString (replicate 32 9)"

definition toy_served :: engine where
  "toy_served = toy_engine\<lparr>e_db := empty_db\<lparr>db_tokens :=
     [\<lparr>tk_ID = hex_encode (replicate 16 9), tk_Name = ''ci'', tk_TokenHash = HashToken toy_token,
       tk_CreatedAt = toy_now\<rparr>]\<rparr>\<rparr>"

definition toy_post :: "string list \<Rightarrow> http_request" where
  "toy_post path = \<lparr>rq_Method = ''POST'', rq_Path = path, rq_PathValues = [],
     rq_Header = (\<lambda>h. if h = ''Authorization'' then ''Bearer '' @ toy_token else []), rq_Body = []\<rparr>"

definition toy_root_json :: json_package where
  "toy_root_json body = Some (JObject
     [(''name'', JString ''root''), (''algorithm'', JString (alg_String MLDSA87)),
      (''subject'', JObject [(''common_name'', JString ''root'')]),
      (''passphrase'', JString (string_of [1])), (''parent_passphrase'', JString (string_of [1]))])"

lemma toy_server_token: "token_create toy_env ''ci'' toy_server = (toy_served, Inr toy_token)"
proof -
  have "replicate 48 9 = replicate 32 (9 :: byte) @ replicate 16 9" by (simp flip: replicate_add)
  then have rnd: "e_rand toy_server = replicate 32 9 @ replicate 16 9 @ e_rand toy_engine"
    by (simp add: toy_server_def)
  have "trim_space ''ci'' \<noteq> []" by code_simp
  moreover have "env_now toy_env = toy_now" by (simp add: toy_env_def)
  ultimately show ?thesis
    by (simp add: token_create_def op_bind_def op_rand_def op_res_def op_db_def GenerateToken_def NewKeyID_def
        read_full_def st_CreateToken_def rnd toy_env_def toy_os_def toy_served_def toy_token_def)
      (simp add: toy_server_def toy_engine_def empty_db_def)
qed

lemma toy_authenticated: "authenticated (toy_post path) (e_db toy_served)"
proof -
  have "bearerToken (''Bearer '' @ toy_token) = Some toy_token"
    unfolding toy_token_def by (rule bearerToken_token) (unfold token_text_def, rule exI [of _ "replicate 32 9"], simp_all)
  then show ?thesis by (simp add: authenticated_def toy_post_def toy_served_def)
qed

lemma toy_served_root:
  "\<exists>s' res. CreateCA toy_env toy_root_req toy_served = (s', Inr res) \<and> db_cas (e_db s') \<noteq> []"
proof -
  let ?rest = "replicate 108 6 @ replicate 48 7 :: bytes"
  have st: "e_rand toy_served = e_rand toy_engine" "e_files toy_served = Map.empty" "db_cas (e_db toy_served) = []"
    by (simp_all add: toy_served_def toy_engine_def empty_db_def)
  obtain pub priv where key: "GenerateKey (env_circl toy_env) (e_rand toy_served) (cq_Algorithm toy_root_req)
     = Inr ((pub, priv), toy_rest 5 ?rest)"
    using toy_root_ready(1) by (auto simp: st)
  have ent: "ca_entropy (toy_rest 5 ?rest) toy_served"
    unfolding toy_rest_def by (intro toy_entropy) (simp_all add: st)
  have par: "ca_parent toy_env toy_root_req (e_db toy_served) = Inr (rootProfile, None)" "cq_ParentID toy_root_req = []"
    by (simp_all add: ca_parent_def toy_ca_req_def)
  show ?thesis
    using CreateCA_total [OF toy_packages toy_root_policy(1) par(1) toy_root_policy(3-5) toy_root_ready(3,4) key ent] par(2)
    by fastforce
qed

lemma toy_root_request:
  "decodeJSON toy_root_json (read_struct createCA_fields) zero_createCA r =
     Inr (zero_createCA\<lparr>cj_Name := ''root'', cj_Algorithm := alg_String MLDSA87,
       cj_Subject := zero_subject\<lparr>sj_CommonName := ''root''\<rparr>, cj_Passphrase := string_of [1],
       cj_ParentPassphrase := Some (string_of [1])\<rparr>)"
  by (simp add: decodeJSON_def toy_root_json_def createCA_fields_def subject_fields_def find_field_def json_field_def
      zero_createCA_def zero_subject_def)

lemma toy_root_engine_request:
  "createCA_engine_request (zero_createCA\<lparr>cj_Name := ''root'', cj_Algorithm := alg_String MLDSA87,
       cj_Subject := zero_subject\<lparr>sj_CommonName := ''root''\<rparr>, cj_Passphrase := string_of [1],
       cj_ParentPassphrase := Some (string_of [1])\<rparr>) = Inr toy_root_req"
proof -
  have "alg_Valid MLDSA87" by (simp add: alg_Valid_iff algorithm_consts)
  then have "ParseAlgorithm (alg_String MLDSA87) = Inr MLDSA87" by (rule ParseAlgorithm_alg_String)
  moreover have "string_of [1] \<noteq> []" by (simp add: string_of_def)
  ultimately show ?thesis
    by (simp add: createCA_engine_request_def toy_ca_req_def pointer_value_def toName_def zero_createCA_def
        zero_subject_def zero_Name_def bytes_of_string_of)
qed

lemma ServeHTTP_create:
  assumes "rq_Method r = ''POST''" "rq_Path r = [''v1'', ''ca'']"
  shows "ServeHTTP E J r s = requireToken E (handleCreateCA E J) (r\<lparr>rq_PathValues := []\<rparr>) s"
  using assms by (simp add: ServeHTTP_def NewServer_def authed_def mux_ServeHTTP_def method_serves_def)

lemma toy_request_served:
  "\<exists>s' out. ServeHTTP toy_env toy_root_json (toy_post [''v1'', ''ca'']) toy_served = (s', out)
     \<and> e_db s' \<noteq> e_db toy_served"
proof -
  let ?r = "toy_post [''v1'', ''ca'']\<lparr>rq_PathValues := []\<rparr>"
  obtain s' res where run: "CreateCA toy_env toy_root_req toy_served = (s', Inr res)" "db_cas (e_db s') \<noteq> []"
    using toy_served_root by blast
  have auth: "authenticated ?r (e_db toy_served)" using toy_authenticated by (simp add: authenticated_def)
  have "\<not> env_faults toy_env ''get token''" using toy_packages(2) by (simp add: no_faults_def)
  then have "ServeHTTP toy_env toy_root_json (toy_post [''v1'', ''ca'']) toy_served
      = handleCreateCA toy_env toy_root_json ?r toy_served"
    using ServeHTTP_create [of "toy_post [''v1'', ''ca'']" toy_env toy_root_json toy_served]
      requireToken_pass [OF auth, of toy_env "handleCreateCA toy_env toy_root_json"]
    by (simp add: toy_post_def)
  then show ?thesis
    using run by (auto simp: handleCreateCA_def toy_root_request toy_root_engine_request toy_served_def empty_db_def)
qed

subsection \<open>Properties\<close>

text \<open>C8. The tables change only by what is asked for and reported: in every state that a server
  which started on empty tables reaches, a request that changes the tables is a POST with a token
  of the table, and its response has the status 200 or 201. So no read, no refused and no failed
  request changes them, when neither the operating system nor the driver fails.\<close>

theorem request_effects:
  assumes "(server_step C P S)\<^sup>*\<^sup>* s0 s" "e_db s0 = empty_db"
    and "packages_ok E" "no_faults E" "env_pem E = P"
    and "ServeHTTP E J r s = (s', out)" "e_db s' \<noteq> e_db s"
  shows "rq_Method r = ''POST'' \<and> authenticated r (e_db s)
    \<and> (\<exists>resp. out = Response resp \<and> rs_Status resp \<in> {200, 201})"
proof -
  have "tables_ok P (e_db s0)" by (simp add: tables_ok_def assms(2) empty_db_def)
  moreover have "pem_ok P" using assms(3,5) by (simp add: packages_ok_def)
  ultimately have "tables_ok (env_pem E) (e_db s)" using tables_ok_server_steps [OF assms(1)] assms(5) by blast
  from ServeHTTP_reported [OF assms(3,4) this, of J r]
  show ?thesis
    using ServeHTTP_GET_tables [of r E J s] ServeHTTP_authenticated [of E J r s] assms(6,7)
    by (auto simp: reported_def)
qed

theorem request_effects_witness:
  "\<exists>s' resp. ServeHTTP toy_env toy_root_json (toy_post [''v1'', ''ca'']) toy_served = (s', Response resp)
     \<and> e_db s' \<noteq> e_db toy_served \<and> rs_Status resp \<in> {200, 201}"
proof -
  have env: "env_circl toy_env = toy_circl" "env_pem toy_env = toy_pem" "env_sealing toy_env = toy_sealing"
    by (simp_all add: toy_env_def)
  have "(server_step toy_circl toy_pem toy_sealing)\<^sup>*\<^sup>* toy_server toy_served"
    using server_step.token [OF env, of toy_server "''ci''"] toy_server_token by auto
  moreover have "e_db toy_server = empty_db" by (simp add: toy_server_def toy_engine_def)
  moreover obtain s' out where "ServeHTTP toy_env toy_root_json (toy_post [''v1'', ''ca'']) toy_served = (s', out)"
    "e_db s' \<noteq> e_db toy_served" using toy_request_served by blast
  ultimately show ?thesis using request_effects [OF _ _ toy_packages env(2)] by blast
qed

text \<open>C9. A revocation that the API reported is final. After a 200 to
  \<open>POST /v1/certificates/{serial}/revoke\<close>, whatever the server does afterwards, an authenticated GET
  of that certificate answers 200 with the status \<open>revoked\<close> and the time and reason of that
  response, and an authenticated second revocation changes nothing and is answered with 409 (400
  when its body cannot be read, 422 when its reason is not one of RFC 5280).\<close>

theorem revocation_over_http:
  assumes "db_ok (e_db s)" "ServeHTTP E J r s = (s1, Response resp)" "rs_Status resp = 200"
    and "rq_Method r = ''POST''" "rq_Path r = revoke_path serial" "serial \<noteq> []"
    and "(server_step C P S)\<^sup>*\<^sup>* s1 s2" "no_faults E'" "authenticated r' (e_db s2)"
  shows "\<exists>rec reason. rs_Body resp = Json (json_revoked rec) \<and> ct_Status rec = StatusRevoked
    \<and> ct_RevokedAt rec = Some (time_Truncate (env_now E)) \<and> ct_RevocationReason rec = Some reason
    \<and> (rq_Method r' = ''GET'' \<and> rq_Path r' = cert_path serial \<longrightarrow>
         ServeHTTP E' J' r' s2 = (s2, writeJSON 200 (json_certificate (certificate_response rec))))
    \<and> (rq_Method r' = ''POST'' \<and> rq_Path r' = revoke_path serial \<longrightarrow>
         (\<exists>resp'. ServeHTTP E' J' r' s2 = (s2, Response resp') \<and> rs_Status resp' \<in> {400, 409, 422}
            \<and> (\<forall>reason. decodeJSON J' (read_struct revoke_fields) \<lparr>rj_Reason = 0\<rparr> r' = Inr \<lparr>rj_Reason = reason\<rparr>
                 \<longrightarrow> rs_Status resp' = (if 0 \<le> reason \<and> reason \<le> 10 \<and> reason \<noteq> 7 then 409 else 422))))"
proof -
  let ?r = "r\<lparr>rq_PathValues := [(''serial'', serial)]\<rparr>" and ?r' = "r'\<lparr>rq_PathValues := [(''serial'', serial)]\<rparr>"
  have pv: "PathValue ?r ''serial'' = serial" "PathValue ?r' ''serial'' = serial" by (simp_all add: PathValue_def)
  have "handleRevoke E J ?r s = (s1, Response resp)"
    using assms(2,3) ServeHTTP_revoke [OF assms(4-6), of E J s] by (intro requireToken_200) simp_all
  then obtain reason rec where rev: "Revoke E serial reason s = (s1, Inr ())"
    and get: "GetCertificate E serial s1 = Inr rec" and body: "rs_Body resp = Json (json_revoked rec)"
    using handleRevoke_200 [OF _ assms(3)] pv(1) by metis
  let ?k = "to_lower serial" and ?at = "time_Truncate (env_now E)"
  obtain c where c: "cert_at ?k (e_db s) = Some c" "\<not> is_revoked c"
    "e_db s1 = (e_db s)\<lparr>db_certs := map (revoke_row ?k ?at reason) (db_certs (e_db s))\<rparr>"
    using Revoke_Inr(1) [OF rev] by blast
  have at1: "cert_at ?k (e_db s1) = Some (revoke_row ?k ?at reason c)" by (simp add: c cert_at_revoked)
  then have rec: "rec = revoke_row ?k ?at reason c"
    using get by (auto simp: GetCertificate_def st_GetCertificate_def cert_at_def split: if_splits option.splits)
  have row: "ct_Status rec = StatusRevoked" "ct_RevokedAt rec = Some ?at" "ct_RevocationReason rec = Some reason"
    using cert_at_set [OF c(1)] by (simp_all add: rec revoke_row_def)
  have "engine_moves E s s1" using ServeHTTP_moves [of E s J r] assms(2) by simp
  then have "db_ok (e_db s1)"
    using assms(1) db_ok_steps [OF engine_step_tables] by (auto simp: engine_moves_def)
  from certificates.revoked_forever [OF server_steps_tables [OF assms(7)] this at1] row(1)
  have at2: "cert_at ?k (e_db s2) = Some rec" by (simp add: rec)
  have pass: "requireToken E' handle ?r' s2 = handle ?r' s2" for handle
    using assms(8,9) by (intro requireToken_pass) (simp_all add: authenticated_def no_faults_def)
  have "ServeHTTP E' J' r' s2 = (s2, writeJSON 200 (json_certificate (certificate_response rec)))"
    if "rq_Method r' = ''GET''" "rq_Path r' = cert_path serial"
    using ServeHTTP_certificate [OF that assms(6), of E' J' s2] GetCertificate_at [OF at2 assms(8)]
    by (simp add: pass handleGetCertificate_def pv)
  moreover have "decodeJSON J' rd zero ?r' = decodeJSON J' rd zero r'" for rd and zero :: revokeRequest
    by (simp add: decodeJSON_def)
  ultimately show ?thesis
    using body row ServeHTTP_revoke [of r' serial E' J' s2] assms(6) handleRevoke_again [of ?r', unfolded pv, OF at2 row(1) assms(8), of J']
    by (auto simp: pass)
qed

definition toy_listed :: engine where
  "toy_listed = toy_served\<lparr>e_db := toy_db\<lparr>db_tokens := db_tokens (e_db toy_served)\<rparr>\<rparr>"

definition toy_reason_json :: json_package where
  "toy_reason_json body = Some (JObject [(''reason'', JInt 1)])"

lemma toy_revoke_served:
  "\<exists>s1 resp. ServeHTTP toy_env toy_reason_json (toy_post (revoke_path ''1'')) toy_listed = (s1, Response resp)
     \<and> rs_Status resp = 200"
proof -
  let ?r = "toy_post (revoke_path ''1'')\<lparr>rq_PathValues := [(''serial'', ''1'')]\<rparr>"
  have low: "to_lower ''1'' = ''1''" by code_simp
  have dec: "decodeJSON toy_reason_json (read_struct revoke_fields) \<lparr>rj_Reason = 0\<rparr> ?r = Inr \<lparr>rj_Reason = 1\<rparr>"
    by (simp add: decodeJSON_def toy_reason_json_def revoke_fields_def find_field_def json_field_def)
  have at: "cert_at ''1'' (e_db toy_listed) = Some (toy_row ''1'')"
    by (simp add: cert_at_def toy_listed_def toy_db_def toy_row_def)
  have nf: "no_faults toy_env" by simp
  have get: "GetCertificate toy_env ''1'' toy_listed = Inr (toy_row ''1'')"
    using GetCertificate_at [of "''1''" toy_listed "toy_row ''1''" toy_env] at nf by (simp add: low)
  have "\<exists>s1. Revoke toy_env ''1'' 1 toy_listed = (s1, Inr ())"
    using at nf get
    by (simp add: Revoke_def op_bind_def op_read_def op_wrap_def op_db_def RevokeCertificate_cert_at low no_faults_def
        toy_row_def status_defs)
  then obtain s1 where run: "Revoke toy_env ''1'' 1 toy_listed = (s1, Inr ())" by blast
  obtain rec where rec: "GetCertificate toy_env ''1'' s1 = Inr rec" using Revoke_GetCertificate [OF run nf] by blast
  have "authenticated ?r (e_db toy_listed)"
    using toy_authenticated [of "revoke_path ''1''"] by (simp add: authenticated_def toy_listed_def)
  from requireToken_pass [OF this, of toy_env] nf
  have pass: "requireToken toy_env handle ?r toy_listed = handle ?r toy_listed" for handle by (simp add: no_faults_def)
  have "PathValue ?r ''serial'' = ''1''" by (simp add: PathValue_def)
  then have "handleRevoke toy_env toy_reason_json ?r toy_listed = (s1, writeJSON 200 (json_revoked rec))"
    using dec run rec by (simp add: handleRevoke_def)
  then show ?thesis
    using ServeHTTP_revoke [of "toy_post (revoke_path ''1'')" "''1''" toy_env toy_reason_json toy_listed]
    unfolding pass by (simp add: toy_post_def writeJSON_def)
qed

theorem revocation_over_http_witness:
  "\<exists>s1 resp resp'. ServeHTTP toy_env toy_reason_json (toy_post (revoke_path ''1'')) toy_listed = (s1, Response resp)
     \<and> rs_Status resp = 200
     \<and> ServeHTTP toy_env toy_reason_json (toy_post (revoke_path ''1'')) s1 = (s1, Response resp')
     \<and> rs_Status resp' = 409"
proof -
  let ?r = "toy_post (revoke_path ''1'')"
  obtain s1 resp where run: "ServeHTTP toy_env toy_reason_json ?r toy_listed = (s1, Response resp)" "rs_Status resp = 200"
    using toy_revoke_served by blast
  have ok: "db_ok (e_db toy_listed)"
    by (simp add: db_ok_def cert_row_ok_def toy_listed_def toy_served_def toy_db_def toy_row_def toy_ca_def status_defs)
  have r: "rq_Method ?r = ''POST''" "rq_Path ?r = revoke_path ''1''" "''1'' \<noteq> []" by (simp_all add: toy_post_def)
  have step: "(server_step toy_circl toy_pem toy_sealing)\<^sup>*\<^sup>* toy_listed s1"
    using server_step.request [of toy_env toy_circl toy_pem toy_sealing toy_listed toy_reason_json ?r] run(1)
    by (auto simp: toy_env_def)
  have "authenticated ?r (e_db toy_listed)"
    using toy_authenticated [of "revoke_path ''1''"] by (simp add: authenticated_def toy_listed_def)
  then have auth: "authenticated ?r (e_db s1)"
    using tokens_steps [OF server_steps_tables [OF step]] by (auto simp: authenticated_def)
  have dec: "decodeJSON toy_reason_json (read_struct revoke_fields) \<lparr>rj_Reason = 0\<rparr> ?r = Inr \<lparr>rj_Reason = 1\<rparr>"
    by (simp add: decodeJSON_def toy_reason_json_def revoke_fields_def find_field_def json_field_def)
  from revocation_over_http [OF ok run r rtranclp.rtrancl_refl toy_packages(2) auth, of toy_reason_json]
  obtain resp' where "ServeHTTP toy_env toy_reason_json ?r s1 = (s1, Response resp')"
    "\<forall>reason. decodeJSON toy_reason_json (read_struct revoke_fields) \<lparr>rj_Reason = 0\<rparr> ?r = Inr \<lparr>rj_Reason = reason\<rparr>
       \<longrightarrow> rs_Status resp' = (if 0 \<le> reason \<and> reason \<le> 10 \<and> reason \<noteq> 7 then 409 else 422)"
    using r by blast
  moreover from this(2) have "rs_Status resp' = 409" by (auto simp: dec)
  ultimately show ?thesis using run by blast
qed

end
