(* ===== verification/Api_Issue.thy ===== *)
theory Api_Issue
  imports Api_Effects
begin

section \<open>Issuance through the API\<close>

text \<open>
  What \<open>POST /v1/certificates\<close> makes of a request with a certification request, and how the names
  of a certificate come back from \<open>GET /v1/certificates/{serial}\<close>, which splits the stored text at
  its commas.
\<close>

subsection \<open>Certification requests\<close>

lemma csrForbiddenField_Nil:
  "csrForbiddenField req = [] \<longleftrightarrow>
     subject_empty (ij_Subject req) \<and> ij_DNSNames req = [] \<and> ij_IPAddresses req = [] \<and> ij_EmailAddresses req = []
     \<and> ij_Algorithm req = [] \<and> \<not> ij_StoreKey req"
  by (auto simp: csrForbiddenField_def)

lemma parseCSRPEM_Inr:
  "parseCSRPEM E text = Inr csr \<Longrightarrow>
     CheckSignature (env_circl E) csr = Inr () \<and> (\<exists>der. ParseCertificateRequest der = Inr csr)"
  by (auto simp: parseCSRPEM_def go_inv split: option.splits if_splits)

lemma issue_engine_request_csr:
  assumes "issue_engine_request E req = Inr q" "ij_CSRPEM req \<noteq> []"
  shows "\<exists>csr. parseCSRPEM E (ij_CSRPEM req) = Inr csr \<and> csrForbiddenField req = [] \<and> iq_CSR q = Some csr"
    "\<not> iq_StoreKey q" "iq_CAID q = ij_CAID req"
  using assms
  by (auto simp: issue_engine_request_def issue_request_csr_def go_inv csrForbiddenField_Nil split: if_splits)

lemma IssueCertificate_csr:
  assumes "IssueCertificate E q s = (s', Inr res)" "iq_CSR q = Some csr" "\<not> iq_StoreKey q"
  shows "\<exists>row t caCert signer der. e_files s' = e_files s
      \<and> e_db s' = (e_db s)\<lparr>db_certs := db_certs (e_db s) @ [row]\<rparr> \<and> ct_CAID row = iq_CAID q
      \<and> CreateCertificate (Some t) (Parent caCert) (csr_PublicKey csr) (Some signer) = Inr der
      \<and> crt_Subject t = csr_Subject csr \<and> ct_CertPEM row = EncodeCertificatePEM (env_pem E) der
      \<and> crt_SANs t = \<lparr>DNSNames = csr_DNSNames csr, EmailAddresses = csr_EmailAddresses csr,
            IPAddresses = csr_IPAddresses csr\<rparr>
      \<and> ct_SubjectDN row = name_String (csr_Subject csr)
      \<and> ct_Algorithm row = alg_String (pub_alg (csr_PublicKey csr)) \<and> ct_KeyID row = []
      \<and> ir_PrivateKeyPEM res = []"
proof -
  obtain caRec caCert subject sans alg notBefore notAfter signer pub priv serial der keyID s1 s2 er' where
    1: "issue_ca E (iq_CAID q) (e_db s) = Inr (caRec, caCert)" "issue_policy q = Inr (subject, sans, alg)"
    and key: "issue_key E q alg s = (s1, Inr (pub, priv))"
    and der: "CreateCertificate
       (Some (issue_template q subject sans serial (pub_alg (crt_PublicKey caCert)) notBefore notAfter))
       (Parent caCert) pub (Some signer) = Inr der"
    and st: "issue_store_key E q priv (s1\<lparr>e_rand := er'\<rparr>) = (s2, Inr keyID)"
    and ins: "st_InsertCertificate (env_faults E)
       (issue_row E (ca_ID caRec) serial subject sans alg der keyID notBefore notAfter) (e_db s)
       = (e_db s', Inr ())" "e_files s' = e_files s2"
    and pk: "if \<not> iq_StoreKey q \<and> iq_CSR q = None
     then EncodePrivateKeyPEM (env_pem E) priv = Inr (ir_PrivateKeyPEM res) else ir_PrivateKeyPEM res = []"
    using IssueCertificate_Inr [OF assms(1)] by metis
  have k: "pub = csr_PublicKey csr" "s1 = s" using key assms(2) by (simp_all add: issue_key_def op_res_def)
  have f: "keyID = []" "e_files s' = e_files s"
    using st assms(3) ins(2) k by (auto simp: issue_store_key_def op_res_def)
  have p: "subject = csr_Subject csr" "alg = pub_alg (csr_PublicKey csr)"
    "sans = \<lparr>DNSNames = csr_DNSNames csr, EmailAddresses = csr_EmailAddresses csr, IPAddresses = csr_IPAddresses csr\<rparr>"
    using issue_policy_Inr(1) [OF 1(2)] assms(2) by (simp_all add: issue_subject_def)
  let ?row = "issue_row E (ca_ID caRec) serial subject sans alg der keyID notBefore notAfter"
  have "ca_ID caRec = iq_CAID q"
    using issue_ca_Inr(1) [OF 1(1)] ca_at_set by (auto simp: GetCA_Inr)
  then show ?thesis
    using InsertCertificate_cases [OF ins(1)] der pk assms(2) f
    by (intro exI [of _ "?row\<lparr>ct_RevokedAt := None, ct_RevocationReason := None\<rparr>"]
        exI [of _ "issue_template q subject sans serial (pub_alg (crt_PublicKey caCert)) notBefore notAfter"]
        exI [of _ caCert] exI [of _ signer] exI [of _ der])
      (auto simp: issue_row_def issue_template_def k p)
qed

subsection \<open>Passphrases\<close>

text \<open>A CA passphrase that is missing from the request is reported as an internal error: no case of
  \<open>problemForError\<close> is about \<open>ErrEmptyPassphrase\<close>.\<close>

lemma empty_passphrase_status:
  assumes "validateKeyID k = Inr ()" "e_files s (key_path k) = Some sealed" "\<And>c. \<not> os_fault (env_os E) c"
  shows "\<exists>e resp. ks_Load E k [] s = Inl e \<and> errors_is e ErrEmptyPassphrase
    \<and> writeError e = Response resp \<and> rs_Status resp = 500"
  using assms
  by (simp add: ks_Load_def fb_Load_def Unseal_def writeError_def problemForError_def writeProblem_def)

lemma wrong_passphrase_status:
  "errors_is e ErrWrongPassphrase \<Longrightarrow> \<not> errors_is e CaErrNotFound \<Longrightarrow> \<not> errors_is e ErrAlreadyRevoked \<Longrightarrow>
     \<exists>resp. writeError e = Response resp \<and> rs_Status resp = 403"
  by (cases e) (auto simp: writeError_def problemForError_def writeProblem_def)

subsection \<open>The names of a certificate\<close>

lemma radix_digits_chars:
  "2 \<le> b \<Longrightarrow> b \<le> 16 \<Longrightarrow> c \<in> set (radix_digits b n) \<Longrightarrow> \<exists>d < 16. c = digit_char d"
proof (induction n rule: less_induct)
  case (less n)
  show ?case
  proof (cases "n < b")
    case True
    then show ?thesis using less.prems by (subst (asm) radix_digits.simps) (auto intro!: exI [of _ n])
  next
    case False
    then have lt: "n div b < n" "n mod b < 16"
      using less.prems mod_less_divisor [of b n] by (simp, linarith)
    then have "c \<in> set (radix_digits b (n div b)) \<or> c = digit_char (n mod b)"
      using less.prems False by (subst (asm) radix_digits.simps) auto
    then show ?thesis using less.IH [OF lt(1)] less.prems lt(2) by blast
  qed
qed

lemma digit_no_comma: "d < 16 \<Longrightarrow> digit_char d \<noteq> CHR '',''"
proof -
  have "\<forall>d \<in> set [0..<16]. digit_char d \<noteq> CHR '',''" by code_simp
  then show "d < 16 \<Longrightarrow> ?thesis" by simp
qed

lemma radix_no_comma: "2 \<le> b \<Longrightarrow> b \<le> 16 \<Longrightarrow> CHR '','' \<notin> set (radix_digits b n)"
  using radix_digits_chars digit_no_comma by metis

lemma join_chars: "c \<in> set (str_join sep ps) \<Longrightarrow> c \<in> set sep \<or> (\<exists>p \<in> set ps. c \<in> set p)"
  by (induction sep ps rule: str_join.induct) auto

lemma hex_no_comma: "CHR '','' \<notin> set (hex_encode bs)"
proof
  assume "CHR '','' \<in> set (hex_encode bs)"
  then obtain b :: byte where "CHR '','' = digit_char (unat b div 16) \<or> CHR '','' = digit_char (unat b mod 16)"
    by (auto simp: hex_encode_def)
  moreover have "unat b div 16 < 16" using byte_less [of b] by simp
  ultimately show False using digit_no_comma by (metis mod_less_divisor zero_less_numeral)
qed

lemma ip_String_no_comma: "CHR '','' \<notin> set (ip_String b)"
proof -
  have colons: "CHR '','' \<notin> set (colon_join gs)" for gs
    using radix_no_comma [of 16] by (auto simp: colon_join_def dest!: join_chars)
  have v4: "CHR '','' \<notin> set (str_join ''.'' (map (\<lambda>x :: byte. radix_digits 10 (unat x)) bs))" for bs
    using radix_no_comma [of 10] by (auto dest!: join_chars)
  show ?thesis
    using hex_no_comma colons v4
    by (auto simp: ip_String_def ip6_String_def Let_def split: option.split prod.split)
qed

lemma split_at_parts: "p \<in> set (split_at sep s) \<Longrightarrow> sep \<notin> set p"
proof (induction s arbitrary: p)
  case (Cons c s)
  then show ?case by (cases "split_at sep s") (auto split: if_splits)
qed simp

lemma split_join_iff:
  "(if str_join [sep] ps = [] then [] else split_at sep (str_join [sep] ps)) = ps \<longleftrightarrow>
     (\<forall>p \<in> set ps. sep \<notin> set p) \<and> ps \<noteq> [[]]"
proof (cases "str_join [sep] ps = []")
  case True
  then have "ps = [] \<or> ps = [[]]" by (cases "([sep], ps)" rule: str_join.cases) auto
  then show ?thesis by auto
next
  case False
  then have ne: "ps \<noteq> []" "ps \<noteq> [[]]" by auto
  show ?thesis
  proof
    assume "(if str_join [sep] ps = [] then [] else split_at sep (str_join [sep] ps)) = ps"
    then have "split_at sep (str_join [sep] ps) = ps" using False by simp
    then show "(\<forall>p \<in> set ps. sep \<notin> set p) \<and> ps \<noteq> [[]]" using split_at_parts ne(2) by metis
  next
    assume "(\<forall>p \<in> set ps. sep \<notin> set p) \<and> ps \<noteq> [[]]"
    then show "(if str_join [sep] ps = [] then [] else split_at sep (str_join [sep] ps)) = ps"
      using False split_at_join [OF ne(1)] by simp
  qed
qed

definition san_texts :: "SANs \<Rightarrow> string list" where
  "san_texts sans = DNSNames sans @ map ip_String (IPAddresses sans) @ EmailAddresses sans"

subsection \<open>Properties\<close>

text \<open>C16. Issuance for a certification request. When \<open>csr_pem\<close> is set, the handler answers 400
  and changes nothing, or the text is a request whose self-signature verifies and no field that it
  replaces is set; and then a 201 means that one row was added, for a certificate made for the key,
  the subject and the names of the certification request, that no key file was written, and that the
  response holds no private key.\<close>

theorem csr_issuance:
  assumes "decodeJSON J (read_struct issue_fields) zero_issue r = Inr req" "ij_CSRPEM req \<noteq> []"
    and "handleIssueCertificate E J r s = (s', Response resp)"
  shows "s' = s \<and> rs_Status resp = 400
    \<or> (\<exists>csr. parseCSRPEM E (ij_CSRPEM req) = Inr csr \<and> CheckSignature (env_circl E) csr = Inr ()
        \<and> subject_empty (ij_Subject req) \<and> ij_DNSNames req = [] \<and> ij_IPAddresses req = []
        \<and> ij_EmailAddresses req = [] \<and> ij_Algorithm req = [] \<and> \<not> ij_StoreKey req
        \<and> (rs_Status resp = 201 \<longrightarrow>
            (\<exists>row t caCert signer der c. e_files s' = e_files s
              \<and> e_db s' = (e_db s)\<lparr>db_certs := db_certs (e_db s) @ [row]\<rparr> \<and> ct_CAID row = ij_CAID req
              \<and> CreateCertificate (Some t) (Parent caCert) (csr_PublicKey csr) (Some signer) = Inr der
              \<and> ct_CertPEM row = EncodeCertificatePEM (env_pem E) der \<and> crt_Subject t = csr_Subject csr
              \<and> crt_SANs t = \<lparr>DNSNames = csr_DNSNames csr, EmailAddresses = csr_EmailAddresses csr,
                   IPAddresses = csr_IPAddresses csr\<rparr>
              \<and> ct_Algorithm row = alg_String (pub_alg (csr_PublicKey csr)) \<and> ct_KeyID row = []
              \<and> rs_Body resp = Json (json_issue c) \<and> is_resp_PrivateKeyPEM c = [])))"
proof (cases "issue_engine_request E req")
  case (Inl e)
  then show ?thesis
    using assms by (auto simp: handleIssueCertificate_def bad_request_def writeProblem_def split: if_splits)
next
  case (Inr q)
  note q = issue_engine_request_csr [OF Inr assms(2)]
  obtain csr where csr: "parseCSRPEM E (ij_CSRPEM req) = Inr csr" "csrForbiddenField req = []" "iq_CSR q = Some csr"
    using q(1) by blast
  have made: "rs_Status resp = 201 \<Longrightarrow> \<exists>res. IssueCertificate E q s = (s', Inr res)
      \<and> rs_Body resp = Json (json_issue (issue_response res))"
    using assms Inr
    by (auto simp: handleIssueCertificate_def writeJSON_def writeError_def problemForError_def writeProblem_def
        split: prod.splits sum.splits if_splits)
  have "is_resp_PrivateKeyPEM (issue_response res) = []" if "ir_PrivateKeyPEM res = []" for res
    using that by (simp add: issue_response_def string_of_def)
  then have "rs_Status resp = 201 \<Longrightarrow>
     \<exists>row t caCert signer der c. e_files s' = e_files s
      \<and> e_db s' = (e_db s)\<lparr>db_certs := db_certs (e_db s) @ [row]\<rparr> \<and> ct_CAID row = ij_CAID req
      \<and> CreateCertificate (Some t) (Parent caCert) (csr_PublicKey csr) (Some signer) = Inr der
      \<and> ct_CertPEM row = EncodeCertificatePEM (env_pem E) der \<and> crt_Subject t = csr_Subject csr
      \<and> crt_SANs t = \<lparr>DNSNames = csr_DNSNames csr, EmailAddresses = csr_EmailAddresses csr,
           IPAddresses = csr_IPAddresses csr\<rparr>
      \<and> ct_Algorithm row = alg_String (pub_alg (csr_PublicKey csr)) \<and> ct_KeyID row = []
      \<and> rs_Body resp = Json (json_issue c) \<and> is_resp_PrivateKeyPEM c = []"
    using made IssueCertificate_csr [OF _ csr(3) q(2)] q(3) by metis
  then show ?thesis using csr(1,2) parseCSRPEM_Inr [OF csr(1)] by (simp add: csrForbiddenField_Nil)
qed

definition toy_csr_json :: "bytes \<Rightarrow> json_package" where
  "toy_csr_json der body = Some (JObject [(''csr_pem'', JString (string_of (EncodeToMemory toy_pem
     \<lparr>pem_Type = ''CERTIFICATE REQUEST'', pem_Headers = [], pem_Bytes = der\<rparr>)))])"

theorem csr_issuance_witness:
  "\<exists>der csr resp. handleIssueCertificate toy_env (toy_csr_json der) (toy_post []) toy_engine = (toy_engine, Response resp)
     \<and> rs_Status resp = 404 \<and> ParseCertificateRequest der = Inr csr \<and> CheckSignature toy_circl csr = Inr ()"
proof -
  let ?n = "zero_Name\<lparr>CommonName := ''CA''\<rparr>"
  let ?sans = "\<lparr>DNSNames = [''a''], EmailAddresses = [], IPAddresses = []\<rparr>"
  obtain der where der: "CreateCertificateRequest ?n toy_key (Some toy_signer) ?sans = Inr der" "length der < 2 ^ 31"
    using toy_csr_created by blast
  have "name_size ?n \<le> 2 ^ 30" "san_ok ?sans"
    by (simp_all add: name_size_def name_parts_def zero_Name_def san_ok_def)
  from CreateCertificateRequest_parse [OF der toy_signer_ok this]
  obtain csr where csr: "ParseCertificateRequest der = Inr csr" "CheckSignature toy_circl csr = Inr ()" by blast
  let ?block = "\<lparr>pem_Type = ''CERTIFICATE REQUEST'', pem_Headers = [], pem_Bytes = der\<rparr>"
  let ?text = "string_of (EncodeToMemory toy_pem ?block)"
  let ?req = "zero_issue\<lparr>ij_CSRPEM := ?text\<rparr>"
  have pem: "pem_Decode toy_pem (EncodeToMemory toy_pem ?block) = Some (?block, [])"
    using toy_get_put [of _ "[]"] by (simp add: toy_pem_def)
  have env: "env_pem toy_env = toy_pem" "env_circl toy_env = toy_circl" "env_faults toy_env = (\<lambda>_. False)"
    by (simp_all add: toy_env_def)
  have "EncodeToMemory toy_pem ?block \<noteq> []" using pem by (auto simp: toy_pem_def)
  then have filled: "?text \<noteq> []" by (simp add: string_of_def)
  have parse: "parseCSRPEM toy_env ?text = Inr csr" by (simp add: parseCSRPEM_def env bytes_of_string_of pem csr)
  have dec: "decodeJSON (toy_csr_json der) (read_struct issue_fields) zero_issue (toy_post []) = Inr ?req"
    by (simp add: decodeJSON_def toy_csr_json_def issue_fields_def find_field_def json_field_def zero_issue_def)
  have "\<exists>q. issue_engine_request toy_env ?req = Inr q \<and> iq_CAID q = []"
    using parse filled
    by (simp add: issue_engine_request_def issue_request_csr_def csrForbiddenField_def subject_empty_def zero_issue_def
        zero_subject_def)
  then obtain q where q: "issue_engine_request toy_env ?req = Inr q" "iq_CAID q = []" by blast
  have "IssueCertificate toy_env q toy_engine = (toy_engine, Inl (wrapStoreErr (Err [StoreErrNotFound] ''CA'')))"
    by (simp add: IssueCertificate_def op_bind_def op_read_def issue_ca_def st_GetCA_def env toy_engine_def
        empty_db_def)
  then obtain resp where run: "handleIssueCertificate toy_env (toy_csr_json der) (toy_post []) toy_engine = (toy_engine, Response resp)"
    "rs_Status resp = 404"
    by (simp add: handleIssueCertificate_def dec q writeError_def wrapStoreErr_def problemForError_def writeProblem_def)
  from csr_issuance [OF dec _ run(1)] filled run parse csr show ?thesis by (auto simp: env)
qed

text \<open>The names of a certificate as the API lists them: \<open>GET /v1/certificates/{serial}\<close> returns the
  names that the certificate was issued with (DNS names, addresses, e-mail addresses) exactly when
  no DNS name and no e-mail address contains a comma, and the names are not one empty text.\<close>

theorem certificate_names_listed:
  "ct_resp_SANs (certificate_response
       (issue_row E caID serial subject sans alg der keyID notBefore notAfter))
     = DNSNames sans @ map ip_String (IPAddresses sans) @ EmailAddresses sans
   \<longleftrightarrow> CHR '','' \<notin> set (concat (DNSNames sans @ EmailAddresses sans))
     \<and> DNSNames sans @ map ip_String (IPAddresses sans) @ EmailAddresses sans \<noteq> [[]]"
proof -
  have "(\<forall>n \<in> set (san_texts sans). CHR '','' \<notin> set n)
      \<longleftrightarrow> CHR '','' \<notin> set (concat (DNSNames sans @ EmailAddresses sans))"
    using ip_String_no_comma by (auto simp: san_texts_def)
  moreover have "ct_resp_SANs (certificate_response
       (issue_row E caID serial subject sans alg der keyID notBefore notAfter))
     = (if str_join '','' (san_texts sans) = [] then [] else split_at CHR '','' (str_join '','' (san_texts sans)))"
    by (simp add: certificate_response_def issue_row_def sansString_def san_texts_def)
  ultimately show ?thesis by (simp only: split_join_iff flip: san_texts_def)
qed

end
