(* ===== verification/Config.thy ===== *)
theory Config
  imports Http Issue_Policy Store_Rows
begin

section \<open>Configuration (internal/config/config.go) and start (cmd/pqtrustd/serve.go)\<close>

text \<open>
  The settings, their defaults, the overrides from the environment and the validation, and \<open>newApp\<close>,
  which opens the layers with them. The machine is the record \<open>host\<close>: its environment variables,
  the files that can be read, the YAML decoder (which decodes a document over the settings that are
  there), the failures of the operating system and of the database driver, the database files and the
  keys that it holds.
\<close>

subsection \<open>Settings\<close>

record TLSConfig =
  CertFile :: string
  KeyFile :: string
  AutoSelfSigned :: bool
  Hostname :: string

record ServerConfig =
  Listen :: string
  TLS :: TLSConfig

record DatabaseConfig =
  Path :: string

record KeystoreConfig =
  Dir :: string

record IssuanceConfig =
  MaxValidityDays :: int
  CRLValidityHours :: int

record Config =
  Server :: ServerConfig
  Database :: DatabaseConfig
  Keystore :: KeystoreConfig
  Issuance :: IssuanceConfig

definition Default :: Config where
  "Default =
     \<lparr>Server = \<lparr>Listen = '':8443'',
        TLS = \<lparr>CertFile = [], KeyFile = [], AutoSelfSigned = True, Hostname = ''localhost''\<rparr>\<rparr>,
      Database = \<lparr>Path = ''/var/lib/pqtrust/pqtrust.db''\<rparr>,
      Keystore = \<lparr>Dir = ''/var/lib/pqtrust/keys''\<rparr>,
      Issuance = \<lparr>MaxValidityDays = 397, CRLValidityHours = 168\<rparr>\<rparr>"

record host =
  h_Env :: "string \<Rightarrow> string option"
  h_ReadFile :: "string \<Rightarrow> bytes option"
  h_Yaml :: "bytes \<Rightarrow> Config \<Rightarrow> Config res"
  h_os :: os_state
  h_driver :: driver
  h_disk :: "string \<Rightarrow> db_file option"
  h_keys :: "string \<Rightarrow> files"
  h_rand :: bytes

subsection \<open>strconv\<close>

definition ParseBool :: "string \<Rightarrow> bool res" where
  "ParseBool s =
     (if s \<in> set [''1'', ''t'', ''T'', ''TRUE'', ''true'', ''True''] then Inr True
      else if s \<in> set [''0'', ''f'', ''F'', ''FALSE'', ''false'', ''False''] then Inr False
      else Inl (Err [] ''invalid syntax''))"

definition Atoi :: "string \<Rightarrow> int res" where
  "Atoi s =
     (let neg = (s \<noteq> [] \<and> hd s = CHR ''-'');
          digits = (if s \<noteq> [] \<and> (hd s = CHR ''-'' \<or> hd s = CHR ''+'') then tl s else s) in
      case (if digits = [] then None else decimal_number 0 digits) of
        None \<Rightarrow> Inl (Err [] ''invalid syntax'')
      | Some n \<Rightarrow>
          let i = (if neg then - int n else int n) in
          if - (2 ^ 63) \<le> i \<and> i < 2 ^ 63 then Inr i else Inl (Err [] ''value out of range''))"

subsection \<open>Load\<close>

definition env_string :: "(string \<Rightarrow> string option) \<Rightarrow> string \<Rightarrow> ((string \<Rightarrow> string) \<Rightarrow> Config \<Rightarrow> Config) \<Rightarrow> Config \<Rightarrow> Config" where
  "env_string env name upd c = (case env name of None \<Rightarrow> c | Some v \<Rightarrow> upd (\<lambda>_. v) c)"

definition env_int ::
  "(string \<Rightarrow> string option) \<Rightarrow> string \<Rightarrow> ((int \<Rightarrow> int) \<Rightarrow> Config \<Rightarrow> Config) \<Rightarrow> Config \<Rightarrow> Config res" where
  "env_int env name upd c =
     (case env name of
        None \<Rightarrow> Inr c
      | Some v \<Rightarrow>
          rbind (rmap_err (wrap_errs [] ''config: environment variable is not an integer'') (Atoi v))
            (\<lambda>n. Inr (upd (\<lambda>_. n) c)))"

abbreviation "upd_Listen f \<equiv> Server_update (Listen_update f)"
abbreviation "upd_CertFile f \<equiv> Server_update (TLS_update (CertFile_update f))"
abbreviation "upd_KeyFile f \<equiv> Server_update (TLS_update (KeyFile_update f))"
abbreviation "upd_Hostname f \<equiv> Server_update (TLS_update (Hostname_update f))"
abbreviation "upd_AutoSelfSigned f \<equiv> Server_update (TLS_update (AutoSelfSigned_update f))"
abbreviation "upd_Path f \<equiv> Database_update (Path_update f)"
abbreviation "upd_Dir f \<equiv> Keystore_update (Dir_update f)"
abbreviation "upd_MaxValidityDays f \<equiv> Issuance_update (MaxValidityDays_update f)"
abbreviation "upd_CRLValidityHours f \<equiv> Issuance_update (CRLValidityHours_update f)"

definition env_strings :: "(string \<Rightarrow> string option) \<Rightarrow> Config \<Rightarrow> Config" where
  "env_strings env c =
     env_string env ''PQTRUST_KEYSTORE_DIR'' upd_Dir
       (env_string env ''PQTRUST_DB_PATH'' upd_Path
         (env_string env ''PQTRUST_TLS_HOSTNAME'' upd_Hostname
           (env_string env ''PQTRUST_TLS_KEY_FILE'' upd_KeyFile
             (env_string env ''PQTRUST_TLS_CERT_FILE'' upd_CertFile
               (env_string env ''PQTRUST_LISTEN'' upd_Listen c)))))"

definition env_bool ::
  "(string \<Rightarrow> string option) \<Rightarrow> string \<Rightarrow> Config \<Rightarrow> Config res" where
  "env_bool env name c =
     (case env name of
        None \<Rightarrow> Inr c
      | Some v \<Rightarrow>
          rbind (rmap_err (wrap_errs [] ''config: PQTRUST_TLS_AUTO_SELF_SIGNED is not a boolean'') (ParseBool v))
            (\<lambda>b. Inr (upd_AutoSelfSigned (\<lambda>_. b) c)))"

definition applyEnv :: "(string \<Rightarrow> string option) \<Rightarrow> Config \<Rightarrow> Config res" where
  "applyEnv env c =
     rbind (env_bool env ''PQTRUST_TLS_AUTO_SELF_SIGNED'' (env_strings env c)) (\<lambda>c1.
     rbind (env_int env ''PQTRUST_MAX_VALIDITY_DAYS'' upd_MaxValidityDays c1) (\<lambda>c2.
     env_int env ''PQTRUST_CRL_VALIDITY_HOURS'' upd_CRLValidityHours c2))"

definition Validate :: "Config \<Rightarrow> unit res" where
  "Validate c =
     (if Listen (Server c) = [] then Inl (Err [] ''config: server.listen must not be empty'')
      else if \<not> AutoSelfSigned (TLS (Server c)) \<and> (CertFile (TLS (Server c)) = [] \<or> KeyFile (TLS (Server c)) = [])
      then Inl (Err [] ''config: server.tls.cert_file and key_file are required when auto_self_signed is false'')
      else if Path (Database c) = [] then Inl (Err [] ''config: database.path must not be empty'')
      else if Dir (Keystore c) = [] then Inl (Err [] ''config: keystore.dir must not be empty'')
      else if MaxValidityDays (Issuance c) \<le> 0
      then Inl (Err [] ''config: issuance.max_validity_days must be positive'')
      else if CRLValidityHours (Issuance c) \<le> 0
      then Inl (Err [] ''config: issuance.crl_validity_hours must be positive'')
      else Inr ())"

definition file_config :: "host \<Rightarrow> string \<Rightarrow> Config res" where
  "file_config H path =
     (if path \<noteq> []
      then
        (case h_ReadFile H path of
           None \<Rightarrow> Inl (Err [] ''config: reading'')
         | Some data \<Rightarrow> rmap_err (wrap_errs [] ''config: parsing'') (h_Yaml H data Default))
      else Inr Default)"

definition Load :: "host \<Rightarrow> string \<Rightarrow> Config res" where
  "Load H path =
     rbind (file_config H path) (\<lambda>c0.
     rbind (applyEnv (h_Env H) c0) (\<lambda>c.
     rbind (Validate c) (\<lambda>_. Inr c)))"

subsection \<open>newApp\<close>

definition ensureDir :: "os_state \<Rightarrow> unit res" where
  "ensureDir os = (if os_fault os ''mkdir database'' then Inl (Err [] ''pqtrustd: creating directory'') else Inr ())"

text \<open>The durations are products of \<open>time.Duration\<close>, which wrap around in 64 bits.\<close>

definition app_options :: "Config \<Rightarrow> Options" where
  "app_options c =
     \<lparr>MaxValidity = wrap64 (wrap64 (MaxValidityDays (Issuance c) * 24) * hour),
      CRLValidity = wrap64 (CRLValidityHours (Issuance c) * hour)\<rparr>"

text \<open>The datastore in the file of a path, as \<open>Open\<close> leaves it; a file that is not the program's own has
  no such state.\<close>

definition open_store :: "host \<Rightarrow> string \<Rightarrow> db res" where
  "open_store H path =
     (case Open (h_driver H) path (h_disk H) of
        (disk, r) \<Rightarrow> rbind r (\<lambda>_. case disk path of None \<Rightarrow> Inr empty_db | Some f \<Rightarrow> records_of (fst f)))"

text \<open>\<open>newApp\<close> says whether the daemon starts and with what engine. What it writes to the disk is what
  \<open>Open\<close> writes (theory \<open>Store_Rows\<close>), also when a later layer fails.\<close>

definition newApp :: "host \<Rightarrow> string \<Rightarrow> (Config \<times> engine) res" where
  "newApp H configPath =
     rbind (Load H configPath) (\<lambda>cfg.
     rbind (ensureDir (h_os H)) (\<lambda>_.
     rbind (open_store H (Path (Database cfg))) (\<lambda>st.
     rbind (NewFileBackend (h_os H) (Dir (Keystore cfg))) (\<lambda>dir.
     rbind (New (Some (st, h_rand H)) (Some (h_keys H dir)) (app_options cfg)) (\<lambda>engine.
       Inr (cfg, engine))))))"

text \<open>\<open>pqtrustd token create\<close>: the state is that of the database after it, when it was opened.\<close>

definition runTokenCreate ::
  "host \<Rightarrow> ('pk, 'sk) env \<Rightarrow> string \<Rightarrow> string \<Rightarrow> engine option \<times> string res" where
  "runTokenCreate H E configPath name =
     (if trim_space name = [] then (None, Inl (Err [] ''pqtrustd: -name is required''))
      else
        (case newApp H configPath of
           Inl e \<Rightarrow> (None, Inl e)
         | Inr (cfg, s) \<Rightarrow> (case token_create E name s of (s', r) \<Rightarrow> (Some s', r))))"

subsection \<open>Where a setting comes from\<close>

definition env_or :: "(string \<Rightarrow> string option) \<Rightarrow> string \<Rightarrow> (string \<Rightarrow> 'a \<Rightarrow> bool) \<Rightarrow> 'a \<Rightarrow> 'a \<Rightarrow> bool" where
  "env_or env name reads file v = (case env name of None \<Rightarrow> v = file | Some w \<Rightarrow> reads w v)"

lemma env_strings_sel:
  "env_or env ''PQTRUST_LISTEN'' (=) (Listen (Server c)) (Listen (Server (env_strings env c)))"
  "env_or env ''PQTRUST_TLS_CERT_FILE'' (=) (CertFile (TLS (Server c))) (CertFile (TLS (Server (env_strings env c))))"
  "env_or env ''PQTRUST_TLS_KEY_FILE'' (=) (KeyFile (TLS (Server c))) (KeyFile (TLS (Server (env_strings env c))))"
  "env_or env ''PQTRUST_TLS_HOSTNAME'' (=) (Hostname (TLS (Server c))) (Hostname (TLS (Server (env_strings env c))))"
  "env_or env ''PQTRUST_DB_PATH'' (=) (Path (Database c)) (Path (Database (env_strings env c)))"
  "env_or env ''PQTRUST_KEYSTORE_DIR'' (=) (Dir (Keystore c)) (Dir (Keystore (env_strings env c)))"
  "AutoSelfSigned (TLS (Server (env_strings env c))) = AutoSelfSigned (TLS (Server c))"
  "Issuance (env_strings env c) = Issuance c"
  by (simp_all add: env_strings_def env_string_def env_or_def split: option.split)

lemma env_int_days:
  "env_int env name upd_MaxValidityDays c = Inr c' \<Longrightarrow>
     Server c' = Server c \<and> Database c' = Database c \<and> Keystore c' = Keystore c
     \<and> CRLValidityHours (Issuance c') = CRLValidityHours (Issuance c)
     \<and> env_or env name (\<lambda>w n. Atoi w = Inr n) (MaxValidityDays (Issuance c)) (MaxValidityDays (Issuance c'))"
  by (cases "env name") (auto simp: env_int_def env_or_def go_inv)

lemma env_int_hours:
  "env_int env name upd_CRLValidityHours c = Inr c' \<Longrightarrow>
     Server c' = Server c \<and> Database c' = Database c \<and> Keystore c' = Keystore c
     \<and> MaxValidityDays (Issuance c') = MaxValidityDays (Issuance c)
     \<and> env_or env name (\<lambda>w n. Atoi w = Inr n) (CRLValidityHours (Issuance c)) (CRLValidityHours (Issuance c'))"
  by (cases "env name") (auto simp: env_int_def env_or_def go_inv)

lemma env_bool_Inr:
  "env_bool env name c = Inr c' \<Longrightarrow>
     Listen (Server c') = Listen (Server c) \<and> CertFile (TLS (Server c')) = CertFile (TLS (Server c))
     \<and> KeyFile (TLS (Server c')) = KeyFile (TLS (Server c)) \<and> Hostname (TLS (Server c')) = Hostname (TLS (Server c))
     \<and> Database c' = Database c \<and> Keystore c' = Keystore c \<and> Issuance c' = Issuance c
     \<and> env_or env name (\<lambda>w b. ParseBool w = Inr b) (AutoSelfSigned (TLS (Server c))) (AutoSelfSigned (TLS (Server c')))"
  by (cases "env name") (auto simp: env_bool_def env_or_def go_inv)

lemma applyEnv_Inr:
  assumes "applyEnv env c = Inr c'"
  shows "env_or env ''PQTRUST_LISTEN'' (=) (Listen (Server c)) (Listen (Server c'))"
    "env_or env ''PQTRUST_TLS_CERT_FILE'' (=) (CertFile (TLS (Server c))) (CertFile (TLS (Server c')))"
    "env_or env ''PQTRUST_TLS_KEY_FILE'' (=) (KeyFile (TLS (Server c))) (KeyFile (TLS (Server c')))"
    "env_or env ''PQTRUST_TLS_HOSTNAME'' (=) (Hostname (TLS (Server c))) (Hostname (TLS (Server c')))"
    "env_or env ''PQTRUST_DB_PATH'' (=) (Path (Database c)) (Path (Database c'))"
    "env_or env ''PQTRUST_KEYSTORE_DIR'' (=) (Dir (Keystore c)) (Dir (Keystore c'))"
    "env_or env ''PQTRUST_TLS_AUTO_SELF_SIGNED'' (\<lambda>w b. ParseBool w = Inr b) (AutoSelfSigned (TLS (Server c)))
       (AutoSelfSigned (TLS (Server c')))"
    "env_or env ''PQTRUST_MAX_VALIDITY_DAYS'' (\<lambda>w n. Atoi w = Inr n) (MaxValidityDays (Issuance c))
       (MaxValidityDays (Issuance c'))"
    "env_or env ''PQTRUST_CRL_VALIDITY_HOURS'' (\<lambda>w n. Atoi w = Inr n) (CRLValidityHours (Issuance c))
       (CRLValidityHours (Issuance c'))"
proof -
  obtain c1 c2 where c: "env_bool env ''PQTRUST_TLS_AUTO_SELF_SIGNED'' (env_strings env c) = Inr c1"
    "env_int env ''PQTRUST_MAX_VALIDITY_DAYS'' upd_MaxValidityDays c1 = Inr c2"
    "env_int env ''PQTRUST_CRL_VALIDITY_HOURS'' upd_CRLValidityHours c2 = Inr c'"
    using assms unfolding applyEnv_def rbind_Inr_iff by blast
  note f = env_bool_Inr [OF c(1)] env_int_days [OF c(2)] env_int_hours [OF c(3)]
  have same: "Listen (Server c') = Listen (Server (env_strings env c))"
    "CertFile (TLS (Server c')) = CertFile (TLS (Server (env_strings env c)))"
    "KeyFile (TLS (Server c')) = KeyFile (TLS (Server (env_strings env c)))"
    "Hostname (TLS (Server c')) = Hostname (TLS (Server (env_strings env c)))"
    "Path (Database c') = Path (Database (env_strings env c))"
    "Dir (Keystore c') = Dir (Keystore (env_strings env c))"
    "AutoSelfSigned (TLS (Server c')) = AutoSelfSigned (TLS (Server c1))"
    "MaxValidityDays (Issuance c) = MaxValidityDays (Issuance c1)"
    "MaxValidityDays (Issuance c') = MaxValidityDays (Issuance c2)"
    "CRLValidityHours (Issuance c) = CRLValidityHours (Issuance c2)"
    using f by (simp_all add: env_strings_sel(8))
  show "env_or env ''PQTRUST_LISTEN'' (=) (Listen (Server c)) (Listen (Server c'))"
    "env_or env ''PQTRUST_TLS_CERT_FILE'' (=) (CertFile (TLS (Server c))) (CertFile (TLS (Server c')))"
    "env_or env ''PQTRUST_TLS_KEY_FILE'' (=) (KeyFile (TLS (Server c))) (KeyFile (TLS (Server c')))"
    "env_or env ''PQTRUST_TLS_HOSTNAME'' (=) (Hostname (TLS (Server c))) (Hostname (TLS (Server c')))"
    "env_or env ''PQTRUST_DB_PATH'' (=) (Path (Database c)) (Path (Database c'))"
    "env_or env ''PQTRUST_KEYSTORE_DIR'' (=) (Dir (Keystore c)) (Dir (Keystore c'))"
    unfolding same(1-6) by (rule env_strings_sel)+
  show "env_or env ''PQTRUST_TLS_AUTO_SELF_SIGNED'' (\<lambda>w b. ParseBool w = Inr b) (AutoSelfSigned (TLS (Server c)))
       (AutoSelfSigned (TLS (Server c')))"
    using f(1) unfolding same(7) env_strings_sel(7) by blast
  show "env_or env ''PQTRUST_MAX_VALIDITY_DAYS'' (\<lambda>w n. Atoi w = Inr n) (MaxValidityDays (Issuance c))
       (MaxValidityDays (Issuance c'))"
    using f(2) unfolding same(8,9) by blast
  show "env_or env ''PQTRUST_CRL_VALIDITY_HOURS'' (\<lambda>w n. Atoi w = Inr n) (CRLValidityHours (Issuance c))
       (CRLValidityHours (Issuance c'))"
    using f(3) unfolding same(10) by blast
qed

lemma Validate_Inr:
  "Validate c = Inr u \<longleftrightarrow>
     Listen (Server c) \<noteq> []
     \<and> (AutoSelfSigned (TLS (Server c)) \<or> (CertFile (TLS (Server c)) \<noteq> [] \<and> KeyFile (TLS (Server c)) \<noteq> []))
     \<and> Path (Database c) \<noteq> [] \<and> Dir (Keystore c) \<noteq> []
     \<and> 0 < MaxValidityDays (Issuance c) \<and> 0 < CRLValidityHours (Issuance c)"
  by (auto simp: Validate_def)

subsection \<open>Durations\<close>

lemma wrap64_days: "wrap64 (wrap64 (days * 24) * hour) = wrap64 (days * (86400 * second))"
proof -
  have "requested_validity days = wrap64 (days * (86400 * second))"
    by (simp add: requested_validity_wrap day_seconds_def)
  then show ?thesis by (simp add: requested_validity_def)
qed

text \<open>A negative period of the revocation lists: \<open>CreateRevocationList\<close> refuses an end before the
  start.\<close>

lemma crl_build_period:
  assumes "clock_ok (env_now E)" "e_crlValidity s < 0" "\<bar>e_crlValidity s\<bar> < 2 ^ 63"
  shows "\<exists>e. crl_build E pass rec cs s = Inl e"
proof (cases "crl_build E pass rec cs s")
  case (Inr entry)
  let ?now = "time_Truncate (env_now E)"
  have "time_Add ?now (e_crlValidity s) = ?now + e_crlValidity s"
    using time_Add_exact [OF clock_ok_Truncate [OF assms(1)] assms(3)] .
  moreover have "?now < time_Add ?now (e_crlValidity s)"
    using Inr by (auto simp: crl_build_def Let_def go_inv elim!: CreateRevocationList_Inr)
  ultimately show ?thesis using assms(2) by simp
qed simp

lemma newApp_Inr:
  assumes "newApp H path = Inr (cfg, s)"
  shows "Load H path = Inr cfg"
    "e_maxValidity s = (if MaxValidity (app_options cfg) = 0 then maxEndEntityValidityDays * 24 * hour
       else MaxValidity (app_options cfg))"
    "e_crlValidity s = (if CRLValidity (app_options cfg) = 0 then 168 * hour else CRLValidity (app_options cfg))"
  using assms by (auto simp: newApp_def New_def go_inv)

subsection \<open>Restarts\<close>

lemma open_store_held:
  assumes "file_holds (h_disk H path) d" "open_store H path = Inr d'"
  shows "d' = d"
  using assms Open_held [of "h_driver H" path "h_disk H" _ _ d]
  by (auto simp: open_store_def go_inv file_holds_def records_of_rows_of split: prod.splits)

lemma open_store_new:
  assumes "path \<noteq> []" "\<And>s. h_driver H s = None" "file_new (h_disk H path)"
  shows "open_store H path = Inr empty_db"
  using Open_clean(2) [of path "h_driver H" "h_disk H"] assms by (simp add: open_store_def records_of_rows_of)

lemma newApp_restarted:
  assumes "newApp H configPath = Inr (cfg, t)"
    and "file_holds (h_disk H (Path (Database cfg))) (e_db s)" "h_keys H (Dir (Keystore cfg)) = e_files s"
  shows "restarted s t"
proof -
  obtain st dir where st: "open_store H (Path (Database cfg)) = Inr st"
    and dir: "NewFileBackend (h_os H) (Dir (Keystore cfg)) = Inr dir"
    and new: "New (Some (st, h_rand H)) (Some (h_keys H dir)) (app_options cfg) = Inr t"
    using assms(1) by (auto simp: newApp_def go_inv)
  have "dir = Dir (Keystore cfg)" using dir by (simp add: NewFileBackend_def split: if_splits)
  then show ?thesis
    using open_store_held [OF assms(2) st] new assms(3) by (auto simp: New_def restarted_def)
qed

subsection \<open>Properties\<close>

text \<open>C33. Where each setting of a loaded configuration comes from: the environment variable when it
  is set (a boolean and two integers must parse), else the file when a path is given, else the
  default. And what is loaded can run a server: it has an address, a database, a key directory, a
  certificate or the permission to make one, and positive periods.\<close>

theorem Load_precedence:
  assumes "Load H path = Inr c"
  shows "\<exists>c0. (if path = [] then c0 = Default
        else \<exists>data. h_ReadFile H path = Some data \<and> h_Yaml H data Default = Inr c0)
    \<and> env_or (h_Env H) ''PQTRUST_LISTEN'' (=) (Listen (Server c0)) (Listen (Server c))
    \<and> env_or (h_Env H) ''PQTRUST_TLS_CERT_FILE'' (=) (CertFile (TLS (Server c0))) (CertFile (TLS (Server c)))
    \<and> env_or (h_Env H) ''PQTRUST_TLS_KEY_FILE'' (=) (KeyFile (TLS (Server c0))) (KeyFile (TLS (Server c)))
    \<and> env_or (h_Env H) ''PQTRUST_TLS_HOSTNAME'' (=) (Hostname (TLS (Server c0))) (Hostname (TLS (Server c)))
    \<and> env_or (h_Env H) ''PQTRUST_DB_PATH'' (=) (Path (Database c0)) (Path (Database c))
    \<and> env_or (h_Env H) ''PQTRUST_KEYSTORE_DIR'' (=) (Dir (Keystore c0)) (Dir (Keystore c))
    \<and> env_or (h_Env H) ''PQTRUST_TLS_AUTO_SELF_SIGNED'' (\<lambda>w b. ParseBool w = Inr b)
         (AutoSelfSigned (TLS (Server c0))) (AutoSelfSigned (TLS (Server c)))
    \<and> env_or (h_Env H) ''PQTRUST_MAX_VALIDITY_DAYS'' (\<lambda>w n. Atoi w = Inr n)
         (MaxValidityDays (Issuance c0)) (MaxValidityDays (Issuance c))
    \<and> env_or (h_Env H) ''PQTRUST_CRL_VALIDITY_HOURS'' (\<lambda>w n. Atoi w = Inr n)
         (CRLValidityHours (Issuance c0)) (CRLValidityHours (Issuance c))
    \<and> Listen (Server c) \<noteq> [] \<and> Path (Database c) \<noteq> [] \<and> Dir (Keystore c) \<noteq> []
    \<and> (AutoSelfSigned (TLS (Server c)) \<or> (CertFile (TLS (Server c)) \<noteq> [] \<and> KeyFile (TLS (Server c)) \<noteq> []))
    \<and> 0 < MaxValidityDays (Issuance c) \<and> 0 < CRLValidityHours (Issuance c)"
proof -
  obtain c0 where c0: "file_config H path = Inr c0" "applyEnv (h_Env H) c0 = Inr c" "Validate c = Inr ()"
    using assms by (auto simp: Load_def go_inv)
  have "if path = [] then c0 = Default else \<exists>data. h_ReadFile H path = Some data \<and> h_Yaml H data Default = Inr c0"
    using c0(1) by (auto simp: file_config_def go_inv split: option.splits if_splits)
  then show ?thesis
    using applyEnv_Inr [OF c0(2)] c0(3) unfolding Validate_Inr by blast
qed

definition toy_host :: "string \<Rightarrow> host" where
  "toy_host days = \<lparr>h_Env = [''PQTRUST_MAX_VALIDITY_DAYS'' \<mapsto> days], h_ReadFile = (\<lambda>_. None),
     h_Yaml = (\<lambda>_ c. Inr c), h_os = \<lparr>os_fault = (\<lambda>_. False), os_written = 0\<rparr>, h_driver = (\<lambda>_. None), h_disk = Map.empty,
     h_keys = (\<lambda>_. Map.empty), h_rand = []\<rparr>"

lemma toy_load:
  assumes "Atoi days = Inr n" "0 < n"
  shows "Load (toy_host days) [] = Inr (upd_MaxValidityDays (\<lambda>_. n) Default)"
  using assms
  by (simp add: Load_def file_config_def applyEnv_def env_strings_def env_string_def env_int_def env_bool_def toy_host_def
      Validate_def Default_def)

theorem Load_precedence_witness:
  "\<exists>c. Load (toy_host ''90'') [] = Inr c \<and> Atoi ''90'' = Inr (MaxValidityDays (Issuance c))
     \<and> Listen (Server c) = Listen (Server Default)"
proof -
  have "Atoi ''90'' = Inr 90" by code_simp
  then obtain c where c: "Load (toy_host ''90'') [] = Inr c" using toy_load by fastforce
  show ?thesis using Load_precedence [OF c] c by (auto simp: env_or_def toy_host_def)
qed

text \<open>C32. The periods of the engine that \<open>newApp\<close> makes are those of the configuration only up to
  106751 days and 2562047 hours. Above that the product with \<open>time.Hour\<close> wraps around: one more
  gives a negative period, with which the engine refuses every request that does not ask for more
  than 106751 days (a negative period for revocation lists lets none be built), and 2^48 days wrap to
  zero, for which \<open>New\<close> takes its own maximum of 397 days.\<close>

theorem newApp_periods:
  assumes "newApp H path = Inr (cfg, s)"
  defines "days \<equiv> MaxValidityDays (Issuance cfg)" and "hours \<equiv> CRLValidityHours (Issuance cfg)"
  shows "0 < days \<and> 0 < hours
    \<and> (days \<le> 106751 \<longrightarrow> e_maxValidity s = days * 24 * hour)
    \<and> (days = 106752 \<longrightarrow> e_maxValidity s < 0
         \<and> (\<forall>E d caCert. 0 \<le> d \<and> d \<le> 106751 \<longrightarrow> (\<exists>e. issue_window E (e_maxValidity s) d caCert = Inl e
              \<and> errors_is e ErrConstraintViolation)))
    \<and> (days = 2 ^ 48 \<longrightarrow> e_maxValidity s = 397 * 24 * hour)
    \<and> (hours \<le> 2562047 \<longrightarrow> e_crlValidity s = hours * hour)
    \<and> (hours = 2562048 \<longrightarrow> e_crlValidity s < 0
         \<and> (\<forall>E pass rec cs. clock_ok (env_now E) \<longrightarrow> (\<exists>e. crl_build E pass rec cs s = Inl e)))"
proof -
  have pos: "0 < days" "0 < hours"
    using newApp_Inr(1) [OF assms(1)] by (auto simp: Load_def go_inv Validate_Inr days_def hours_def)
  have opt: "MaxValidity (app_options cfg) = wrap64 (days * (86400 * second))"
    "CRLValidity (app_options cfg) = wrap64 (hours * hour)"
    by (simp_all add: app_options_def wrap64_days days_def hours_def)
  note m = newApp_Inr(2) [OF assms(1), unfolded opt] and c = newApp_Inr(3) [OF assms(1), unfolded opt]
  have neg: "e_maxValidity s < 0" if "days = 106752"
    using m that by (simp add: wrap64_def second_def)
  have "\<exists>e. issue_window E (e_maxValidity s) d caCert = Inl e \<and> errors_is e ErrConstraintViolation"
    if "days = 106752" "0 \<le> d" "d \<le> 106751" for E :: "('a, 'b) env" and d caCert
  proof -
    let ?d = "if d = 0 then endEntityValidityDays else d"
    have "0 \<le> ?d" "?d \<le> 106751" using that by (simp_all add: endEntityValidityDays_def)
    then have "0 \<le> requested_validity ?d"
      unfolding requested_validity_wrap by (subst wrap64_id) (simp_all add: day_seconds_def second_def)
    then have "e_maxValidity s < requested_validity ?d" using neg [OF that(1)] by linarith
    then show ?thesis using \<open>0 \<le> ?d\<close> by (simp add: issue_window_def Let_def violation_def)
  qed
  moreover have "e_maxValidity s = days * 24 * hour" if "days \<le> 106751"
    using m pos(1) that by (simp add: wrap64_id second_def hour_def)
  moreover have "e_maxValidity s = 397 * 24 * hour" if "days = 2 ^ 48"
    using m that by (simp add: wrap64_def second_def maxEndEntityValidityDays_def)
  moreover have "e_crlValidity s = hours * hour" if "hours \<le> 2562047"
    using c pos(2) that by (simp add: wrap64_id second_def hour_def)
  moreover have crl_neg: "e_crlValidity s < 0 \<and> \<bar>e_crlValidity s\<bar> < 2 ^ 63" if "hours = 2562048"
    using c that by (simp add: wrap64_def second_def hour_def)
  have "\<exists>e. crl_build E pass rec cs s = Inl e"
    if "hours = 2562048" "clock_ok (env_now E)" for E :: "('c, 'd) env" and pass rec cs
    using crl_build_period [OF that(2)] crl_neg [OF that(1)] by blast
  ultimately show ?thesis using pos neg crl_neg by blast
qed

lemma toy_digits:
  "digit_value CHR ''0'' = Some 0" "digit_value CHR ''1'' = Some 1" "digit_value CHR ''2'' = Some 2"
  "digit_value CHR ''5'' = Some 5" "digit_value CHR ''6'' = Some 6" "digit_value CHR ''7'' = Some 7"
  by code_simp+

theorem newApp_periods_witness:
  "\<exists>cfg s. newApp (toy_host ''106752'') [] = Inr (cfg, s) \<and> e_maxValidity s < 0 \<and> e_crlValidity s = 168 * hour"
proof -
  have n: "Atoi ''106752'' = Inr 106752" by (simp add: Atoi_def toy_digits)
  let ?cfg = "upd_MaxValidityDays (\<lambda>_. 106752) Default"
  have load: "Load (toy_host ''106752'') [] = Inr ?cfg" using toy_load [OF n] by simp
  have sel: "os_fault (h_os (toy_host d)) = (\<lambda>_. False)" for d
    by (simp add: toy_host_def)
  have fresh: "open_store (toy_host d) path = Inr empty_db" if "path \<noteq> []" for d path
    using open_store_new [of path "toy_host d"] that by (simp add: toy_host_def file_new_def)
  have path: "Path (Database ?cfg) \<noteq> []" by (simp add: Default_def)
  have dir: "Dir (Keystore ?cfg) \<noteq> []" and hours: "CRLValidityHours (Issuance ?cfg) = 168"
    and days: "MaxValidityDays (Issuance ?cfg) = 106752"
    by (simp_all add: Default_def)
  obtain s where run: "newApp (toy_host ''106752'') [] = Inr (?cfg, s)"
    using dir path by (simp add: newApp_def load ensureDir_def NewFileBackend_def New_def sel fresh)
  note periods = newApp_periods [OF run, where 'a = unit and 'b = unit and 'c = unit and 'd = unit, unfolded hours days]
  then have "e_maxValidity s < 0" "e_crlValidity s = 168 * hour" by simp_all
  then show ?thesis using run by blast
qed

end
