(* ===== verification/Serve.thy ===== *)
theory Serve
  imports Config Issuance
begin

section \<open>The running daemon (cmd/pqtrustd/serve.go, selfsigned.go)\<close>

text \<open>
  The certificate of the listener, and \<open>serveOnListener\<close> as a system of the goroutine that serves,
  the goroutine that waits for it or for the end of the context, and the clients. The packages
  \<open>crypto/ecdsa\<close> and \<open>crypto/x509\<close> and the reader of key pairs of \<open>crypto/tls\<close> are parameters. Of
  \<open>net/http\<close> the model has what its documentation says of \<open>ServeTLS\<close> and \<open>Shutdown\<close>: a server that is
  shut down does not start to serve, its listener is closed, \<open>Shutdown\<close> waits for the accept loop to
  end, and then for the connections to be idle or its context to expire.
\<close>

subsection \<open>The certificate of the listener\<close>

definition time_AddYears :: "instant \<Rightarrow> int \<Rightarrow> instant" where
  "time_AddYears t n = instant_of ((civil_of t)\<lparr>c_year := c_year (civil_of t) + n\<rparr>) + t mod second"

record tls_template =
  tt_SerialNumber :: nat
  tt_CommonName :: string
  tt_Organization :: "string list"
  tt_NotBefore :: instant
  tt_NotAfter :: instant
  tt_KeyUsage :: int
  tt_ExtKeyUsage :: "string list"
  tt_BasicConstraintsValid :: bool
  tt_DNSNames :: "string list"
  tt_IPAddresses :: "bytes list"

record 'key tls_std =
  ts_GenerateKey :: "bytes \<Rightarrow> ('key \<times> bytes) res"
  ts_CreateCertificate :: "tls_template \<Rightarrow> 'key \<Rightarrow> bytes res"
  ts_LoadX509KeyPair :: "string \<Rightarrow> string \<Rightarrow> (bytes list \<times> 'key) res"

text \<open>The template: \<open>x509.KeyUsageDigitalSignature\<close> is 1 and \<open>x509.KeyUsageKeyEncipherment\<close> is 4.\<close>

definition self_signed_template :: "nat \<Rightarrow> string \<Rightarrow> instant \<Rightarrow> tls_template" where
  "self_signed_template serial hostname now =
     \<lparr>tt_SerialNumber = serial, tt_CommonName = hostname, tt_Organization = [''pqtrust''],
      tt_NotBefore = time_Add now (- (5 * 60 * second)), tt_NotAfter = time_AddYears now 1,
      tt_KeyUsage = 1 OR 4, tt_ExtKeyUsage = [''serverAuth''], tt_BasicConstraintsValid = True,
      tt_DNSNames = [hostname] @ (if hostname \<noteq> ''localhost'' then [''localhost''] else []),
      tt_IPAddresses = [replicate 10 0 @ [0xff, 0xff, 127, 0, 0, 1], replicate 15 0 @ [1]]\<rparr>"

definition selfSignedTLSCert ::
  "'key tls_std \<Rightarrow> bytes \<Rightarrow> instant \<Rightarrow> string \<Rightarrow> (bytes list \<times> 'key) res" where
  "selfSignedTLSCert X r now hostname =
     rbind (rmap_err (wrap_errs [] ''pqtrustd: generating TLS key'') (ts_GenerateKey X r)) (\<lambda>(key, r1).
     rbind (rmap_err (wrap_errs [] ''pqtrustd: generating TLS serial'') (rand_Int (2 ^ 127) r1)) (\<lambda>(serial, r2).
     let name = (if hostname = [] then ''localhost'' else hostname) in
     rbind (rmap_err (wrap_errs [] ''pqtrustd: creating TLS certificate'')
             (ts_CreateCertificate X (self_signed_template serial name now) key)) (\<lambda>der.
       Inr ([der], key))))"

text \<open>\<open>tls.VersionTLS13\<close> is 0x0304.\<close>

record 'key tls_config =
  tc_MinVersion :: int
  tc_Certificates :: "(bytes list \<times> 'key) list"

definition tlsConfig :: "'key tls_std \<Rightarrow> bytes \<Rightarrow> instant \<Rightarrow> Config \<Rightarrow> 'key tls_config res" where
  "tlsConfig X r now cfg =
     (let tls = TLS (Server cfg) in
      if AutoSelfSigned tls
      then rbind (selfSignedTLSCert X r now (Hostname tls)) (\<lambda>cert.
             Inr \<lparr>tc_MinVersion = 0x0304, tc_Certificates = [cert]\<rparr>)
      else rbind (rmap_err (wrap_errs [] ''pqtrustd: loading TLS key pair'')
                   (ts_LoadX509KeyPair X (CertFile tls) (KeyFile tls))) (\<lambda>cert.
             Inr \<lparr>tc_MinVersion = 0x0304, tc_Certificates = [cert]\<rparr>))"

subsection \<open>serveOnListener\<close>

text \<open>Where the waiting goroutine is: in the \<open>select\<close>, in \<open>Shutdown\<close> before and after it closed the
  listener, in the last receive, or returned (and the datastore is closed).\<close>

datatype waiter = Selecting | Closing | Draining | Receiving | Returned "unit res"

text \<open>Where the serving goroutine is; \<open>None\<close> is \<open>http.ErrServerClosed\<close>.\<close>

datatype server = Starting | Accepting | Stopped "error option" | Finished

record serve_state =
  sv_waiter :: waiter
  sv_server :: server
  sv_errCh :: "unit res list"
  sv_cancelled :: bool
  sv_inShutdown :: bool
  sv_listening :: bool
  sv_conns :: nat

definition serve_init :: serve_state where
  "serve_init = \<lparr>sv_waiter = Selecting, sv_server = Starting, sv_errCh = [], sv_cancelled = False,
     sv_inShutdown = False, sv_listening = True, sv_conns = 0\<rparr>"

text \<open>The channel has a buffer of one error: a send waits while it is full.\<close>

definition errCh_capacity :: nat where
  "errCh_capacity = 1"

definition sent_error :: "error option \<Rightarrow> unit res" where
  "sent_error e = (case e of None \<Rightarrow> Inr () | Some err \<Rightarrow> Inl err)"

definition shutdown_error :: "unit res" where
  "shutdown_error = Inl (Err [] ''pqtrustd: shutting down'')"

datatype actor = Daemon | World

inductive serve_step :: "actor \<Rightarrow> serve_state \<Rightarrow> serve_state \<Rightarrow> bool" where
  cancel: "serve_step World s (s\<lparr>sv_cancelled := True\<rparr>)"
| connect: "sv_server s = Accepting \<Longrightarrow> sv_listening s \<Longrightarrow>
    serve_step World s (s\<lparr>sv_conns := Suc (sv_conns s)\<rparr>)"
| idle: "sv_conns s = Suc n \<Longrightarrow> serve_step World s (s\<lparr>sv_conns := n\<rparr>)"
| start: "sv_server s = Starting \<Longrightarrow>
    serve_step Daemon s (s\<lparr>sv_server := (if sv_inShutdown s then Stopped None else Accepting)\<rparr>)"
| start_failed: "sv_server s = Starting \<Longrightarrow> serve_step Daemon s (s\<lparr>sv_server := Stopped (Some e)\<rparr>)"
| accept_failed: "sv_server s = Accepting \<Longrightarrow>
    serve_step Daemon s (s\<lparr>sv_server := Stopped (if sv_inShutdown s then None else Some e)\<rparr>)"
| accept_closed: "sv_server s = Accepting \<Longrightarrow> \<not> sv_listening s \<Longrightarrow>
    serve_step Daemon s (s\<lparr>sv_server := Stopped None\<rparr>)"
| send: "sv_server s = Stopped e \<Longrightarrow> length (sv_errCh s) < errCh_capacity \<Longrightarrow>
    serve_step Daemon s (s\<lparr>sv_server := Finished, sv_errCh := sv_errCh s @ [sent_error e]\<rparr>)"
| select_error: "sv_waiter s = Selecting \<Longrightarrow> sv_errCh s = r # rs \<Longrightarrow>
    serve_step Daemon s (s\<lparr>sv_waiter := Returned r, sv_errCh := rs\<rparr>)"
| select_done: "sv_waiter s = Selecting \<Longrightarrow> sv_cancelled s \<Longrightarrow>
    serve_step Daemon s (s\<lparr>sv_waiter := Closing, sv_inShutdown := True\<rparr>)"
| close_listener: "sv_waiter s = Closing \<Longrightarrow>
    serve_step Daemon s (s\<lparr>sv_waiter := Draining, sv_listening := False\<rparr>)"
| drained: "sv_waiter s = Draining \<Longrightarrow> sv_server s \<noteq> Accepting \<Longrightarrow> sv_conns s = 0 \<Longrightarrow>
    serve_step Daemon s (s\<lparr>sv_waiter := Receiving\<rparr>)"
| close_failed: "sv_waiter s = Draining \<Longrightarrow> sv_server s \<noteq> Accepting \<Longrightarrow> sv_conns s = 0 \<Longrightarrow>
    serve_step Daemon s (s\<lparr>sv_waiter := Returned shutdown_error\<rparr>)"
| timed_out: "sv_waiter s = Draining \<Longrightarrow> sv_server s \<noteq> Accepting \<Longrightarrow> 0 < sv_conns s \<Longrightarrow>
    serve_step Daemon s (s\<lparr>sv_waiter := Returned shutdown_error\<rparr>)"
| receive: "sv_waiter s = Receiving \<Longrightarrow> sv_errCh s = r # rs \<Longrightarrow>
    serve_step Daemon s (s\<lparr>sv_waiter := Returned r, sv_errCh := rs\<rparr>)"

inductive_cases daemon_stepE: "serve_step Daemon s t"
inductive_cases world_stepE: "serve_step World s t"

text \<open>A run with the number of the daemon's own steps in it.\<close>

inductive serve_run :: "nat \<Rightarrow> serve_state \<Rightarrow> serve_state \<Rightarrow> bool" where
  stay: "serve_run 0 s s"
| daemon: "serve_run n s t \<Longrightarrow> serve_step Daemon t u \<Longrightarrow> serve_run (Suc n) s u"
| world: "serve_run n s t \<Longrightarrow> serve_step World t u \<Longrightarrow> serve_run n s u"

text \<open>What \<open>serveOnListener\<close> and \<open>serve\<close> return, when they do. \<open>listen\<close> is \<open>net.Listen\<close>; \<open>r\<close> the randomness
  of the certificate of the listener.\<close>

inductive serveOnListener ::
  "host \<Rightarrow> 'key tls_std \<Rightarrow> bytes \<Rightarrow> instant \<Rightarrow> string \<Rightarrow> unit res \<Rightarrow> bool" for H X r now path where
  no_app: "newApp H path = Inl e \<Longrightarrow> serveOnListener H X r now path (Inl e)"
| no_tls: "newApp H path = Inr (cfg, s) \<Longrightarrow> tlsConfig X r now cfg = Inl e \<Longrightarrow>
    serveOnListener H X r now path (Inl e)"
| served: "newApp H path = Inr (cfg, s) \<Longrightarrow> tlsConfig X r now cfg = Inr tc \<Longrightarrow>
    serve_run n serve_init st \<Longrightarrow> sv_waiter st = Returned res \<Longrightarrow> serveOnListener H X r now path res"

inductive serve ::
  "host \<Rightarrow> (string \<Rightarrow> unit res) \<Rightarrow> 'key tls_std \<Rightarrow> bytes \<Rightarrow> instant \<Rightarrow> string \<Rightarrow> unit res \<Rightarrow> bool"
  for H listen X r now path where
  no_config: "Load H path = Inl e \<Longrightarrow> serve H listen X r now path (Inl e)"
| no_listener: "Load H path = Inr cfg \<Longrightarrow> listen (Listen (Server cfg)) = Inl e \<Longrightarrow>
    serve H listen X r now path (Inl (wrap_errs [] ''pqtrustd: listening'' e))"
| listening: "Load H path = Inr cfg \<Longrightarrow> listen (Listen (Server cfg)) = Inr () \<Longrightarrow>
    serveOnListener H X r now path res \<Longrightarrow> serve H listen X r now path res"

inductive_cases serveE: "serve H listen X r now path res"
inductive_cases serveOnListenerE: "serveOnListener H X r now path res"

subsection \<open>The daemon's own steps are bounded\<close>

fun waiter_work :: "waiter \<Rightarrow> nat" where
  "waiter_work Selecting = 4"
| "waiter_work Closing = 3"
| "waiter_work Draining = 2"
| "waiter_work Receiving = 1"
| "waiter_work (Returned r) = 0"

fun server_work :: "server \<Rightarrow> nat" where
  "server_work Starting = 3"
| "server_work Accepting = 2"
| "server_work (Stopped e) = 1"
| "server_work Finished = 0"

definition serve_work :: "serve_state \<Rightarrow> nat" where
  "serve_work s = waiter_work (sv_waiter s) + server_work (sv_server s)"

lemma daemon_work: "serve_step Daemon s t \<Longrightarrow> serve_work t < serve_work s"
  by (elim daemon_stepE) (auto simp: serve_work_def)

lemma world_work: "serve_step World s t \<Longrightarrow> serve_work t = serve_work s"
  by (elim world_stepE) (auto simp: serve_work_def)

lemma run_work: "serve_run n s t \<Longrightarrow> n + serve_work t \<le> serve_work s"
  by (induction rule: serve_run.induct) (auto dest: daemon_work world_work)

lemma run_trans: "serve_run n s t \<Longrightarrow> serve_run m r s \<Longrightarrow> serve_run (n + m) r t"
  by (induction rule: serve_run.induct) (auto intro: serve_run.intros)

subsection \<open>The invariant\<close>

definition returned :: "serve_state \<Rightarrow> bool" where
  "returned s = (\<exists>r. sv_waiter s = Returned r)"

text \<open>The result of the server goroutine is in one place; nobody serves behind a closed listener; and a
  clean end has been asked for.\<close>

fun serve_ok :: "serve_state \<Rightarrow> bool" where
  "serve_ok s =
     (length (sv_errCh s) \<le> 1
      \<and> (sv_errCh s \<noteq> [] \<longrightarrow> sv_server s = Finished)
      \<and> (sv_server s = Finished \<and> sv_errCh s = [] \<longrightarrow> returned s)
      \<and> (sv_inShutdown s \<longrightarrow> sv_cancelled s)
      \<and> (sv_waiter s = Selecting \<longrightarrow> \<not> sv_inShutdown s)
      \<and> (sv_waiter s \<in> {Closing, Draining, Receiving} \<longrightarrow> sv_inShutdown s)
      \<and> (sv_waiter s \<in> {Draining, Receiving} \<longrightarrow> \<not> sv_listening s)
      \<and> (\<not> sv_listening s \<longrightarrow> sv_inShutdown s)
      \<and> (sv_server s = Stopped None \<or> Inr () \<in> set (sv_errCh s) \<longrightarrow> sv_inShutdown s)
      \<and> (sv_waiter s = Receiving \<longrightarrow> sv_server s \<noteq> Accepting \<and> sv_conns s = 0)
      \<and> (returned s \<longrightarrow> sv_server s \<noteq> Accepting \<and> (sv_server s = Starting \<longrightarrow> sv_inShutdown s))
      \<and> (sv_waiter s = Returned (Inr ()) \<longrightarrow> sv_inShutdown s \<and> \<not> sv_listening s \<and> sv_server s = Finished \<and> sv_conns s = 0))"

lemma serve_ok_init: "serve_ok serve_init"
  by (simp add: serve_init_def returned_def)

lemma serve_ok_world: "serve_step World s t \<Longrightarrow> serve_ok s \<Longrightarrow> serve_ok t"
  by (elim world_stepE) (auto simp: returned_def)

lemma serve_ok_daemon: "serve_step Daemon s t \<Longrightarrow> serve_ok s \<Longrightarrow> serve_ok t"
proof (elim daemon_stepE)
  fix r rs
  assume s: "serve_ok s" and w: "sv_waiter s = Selecting" and e: "sv_errCh s = r # rs"
    and t: "t = s\<lparr>sv_waiter := Returned r, sv_errCh := rs\<rparr>"
  have "r \<noteq> Inr ()" using s w e by auto
  then show ?thesis using s w e t by (auto simp: returned_def)
next
  fix r rs
  assume s: "serve_ok s" and w: "sv_waiter s = Receiving" and e: "sv_errCh s = r # rs"
    and t: "t = s\<lparr>sv_waiter := Returned r, sv_errCh := rs\<rparr>"
  then show ?thesis using s w e t by (auto simp: returned_def)
next
  fix e
  assume "serve_ok s" "sv_server s = Stopped e" "length (sv_errCh s) < errCh_capacity"
    "t = s\<lparr>sv_server := Finished, sv_errCh := sv_errCh s @ [sent_error e]\<rparr>"
  then show ?thesis by (cases e) (auto simp: returned_def errCh_capacity_def sent_error_def)
qed (auto simp: returned_def shutdown_error_def)

lemma serve_ok_run: "serve_run n s t \<Longrightarrow> serve_ok s \<Longrightarrow> serve_ok t"
  by (induction rule: serve_run.induct) (auto intro: serve_ok_daemon serve_ok_world simp del: serve_ok.simps)

subsection \<open>The daemon is never stuck\<close>

lemma server_moves:
  assumes "serve_ok s" "sv_server s \<noteq> Finished" "sv_server s \<noteq> Accepting \<or> \<not> sv_listening s"
  shows "\<exists>t. serve_step Daemon s t"
proof (cases "sv_server s")
  case Starting
  then show ?thesis using serve_step.start by blast
next
  case Accepting
  then show ?thesis using assms(3) serve_step.accept_closed by blast
next
  case (Stopped e)
  then have "length (sv_errCh s) < errCh_capacity" using assms(1) by (auto simp: errCh_capacity_def)
  then show ?thesis using serve_step.send [OF Stopped] by blast
qed (use assms in simp)

lemma daemon_moves:
  assumes "serve_ok s" "\<not> returned s" "sv_cancelled s \<or> sv_server s = Finished"
  shows "\<exists>t. serve_step Daemon s t"
proof (cases "sv_waiter s")
  case Selecting
  then show ?thesis
  proof (cases "sv_cancelled s")
    case True
    then show ?thesis using serve_step.select_done [OF Selecting] by blast
  next
    case False
    then have "sv_errCh s \<noteq> []" using assms by auto
    then show ?thesis using serve_step.select_error [OF Selecting] by (cases "sv_errCh s") auto
  qed
next
  case Closing
  then show ?thesis using serve_step.close_listener by blast
next
  case Draining
  show ?thesis
  proof (cases "sv_server s = Accepting")
    case True
    then show ?thesis using server_moves assms(1) Draining by simp
  next
    case False
    then show ?thesis using serve_step.drained [OF Draining] serve_step.timed_out [OF Draining]
      by (cases "sv_conns s = 0") auto
  qed
next
  case Receiving
  show ?thesis
  proof (cases "sv_errCh s")
    case Nil
    then have "sv_server s \<noteq> Finished" using assms(1,2) by auto
    then show ?thesis using server_moves [OF assms(1)] assms(1) Receiving by auto
  next
    case (Cons r rs)
    then show ?thesis using serve_step.receive [OF Receiving] by blast
  qed
qed (use assms(2) in \<open>simp add: returned_def\<close>)

text \<open>When the waiting goroutine has returned the serving one is not left blocked on its send.\<close>

definition ended :: "serve_state \<Rightarrow> bool" where
  "ended s = (returned s \<and> sv_server s = Finished)"

lemma daemon_ends:
  assumes "serve_ok s" "\<not> ended s" "sv_cancelled s \<or> sv_server s = Finished"
  shows "\<exists>t. serve_step Daemon s t"
proof (cases "returned s")
  case True
  then show ?thesis using server_moves [OF assms(1)] assms(1,2) by (auto simp: ended_def)
next
  case False
  then show ?thesis using daemon_moves assms(1,3) by blast
qed

lemma cancelled_step: "serve_step a s t \<Longrightarrow> sv_cancelled s \<Longrightarrow> sv_cancelled t"
  by (cases a) (auto elim!: daemon_stepE world_stepE)

text \<open>A moment of an infinite run: a step, or none.\<close>

definition serve_moment :: "serve_state \<Rightarrow> serve_state \<Rightarrow> bool" where
  "serve_moment s t = (t = s \<or> serve_step World s t \<or> serve_step Daemon s t)"

lemma moment_keeps:
  assumes "serve_moment s t"
  shows "serve_ok s \<Longrightarrow> serve_ok t" "sv_cancelled s \<Longrightarrow> sv_cancelled t" "serve_work t \<le> serve_work s"
  using assms serve_ok_world serve_ok_daemon cancelled_step world_work [of s t] daemon_work [of s t]
  by (auto simp: serve_moment_def simp del: serve_ok.simps)

lemma moments_keep:
  assumes "\<And>i. serve_moment (f i) (f (Suc i))" "i \<le> j"
  shows "serve_ok (f i) \<Longrightarrow> serve_ok (f j)" "sv_cancelled (f i) \<Longrightarrow> sv_cancelled (f j)"
    "serve_work (f j) \<le> serve_work (f i)"
proof -
  have "(serve_ok (f i) \<longrightarrow> serve_ok (f j)) \<and> (sv_cancelled (f i) \<longrightarrow> sv_cancelled (f j))
      \<and> serve_work (f j) \<le> serve_work (f i)"
    using assms(2)
  proof (induction j rule: dec_induct)
    case (step j)
    then show ?case using moment_keeps [OF assms(1) [of j]] by (auto simp del: serve_ok.simps)
  qed simp
  then show "serve_ok (f i) \<Longrightarrow> serve_ok (f j)" "sv_cancelled (f i) \<Longrightarrow> sv_cancelled (f j)"
    "serve_work (f j) \<le> serve_work (f i)" by blast+
qed

lemma fair_run_ends:
  assumes run: "\<And>i. serve_moment (f i) (f (Suc i))"
    and ok: "serve_ok (f c)" "sv_cancelled (f c)"
    and fair: "\<And>i. c \<le> i \<Longrightarrow> \<exists>t. serve_step Daemon (f i) t \<Longrightarrow> \<exists>j\<ge>i. serve_step Daemon (f j) (f (Suc j))"
  shows "c \<le> i \<Longrightarrow> \<exists>j\<ge>i. ended (f j)"
proof (induction "serve_work (f i)" arbitrary: i rule: less_induct)
  case less
  show ?case
  proof (cases "ended (f i)")
    case False
    have "serve_ok (f i)" "sv_cancelled (f i)" using moments_keep(1,2) [of f c i] run less.prems ok by blast+
    then obtain j where j: "i \<le> j" "serve_step Daemon (f j) (f (Suc j))"
      using fair [OF less.prems] daemon_ends False by blast
    have "serve_work (f (Suc j)) < serve_work (f i)"
      using daemon_work [OF j(2)] moments_keep(3) [of f i j] run j(1) by (meson order_less_le_trans)
    then obtain k where "Suc j \<le> k" "ended (f k)" using less.hyps [of "Suc j"] less.prems j(1) by auto
    then show ?thesis using j(1) by (meson Suc_leD le_trans)
  qed auto
qed

subsection \<open>A year of the calendar\<close>

lemma div_next: "0 < n \<Longrightarrow> y div n = (y - 1) div n + (if y mod n = 0 then 1 else 0)" for y n :: int
proof (cases "y mod n = 0")
  case True
  assume n: "0 < n"
  have "y - 1 = n * (y div n - 1) + (n - 1)" using True mult_div_mod_eq [of n y] by (simp add: algebra_simps)
  then have "(y - 1) div n = y div n - 1" by (rule int_div_pos_eq) (use n in simp_all)
  then show ?thesis using True by simp
next
  case False
  assume n: "0 < n"
  have "0 \<le> y mod n" "y mod n < n" using n by simp_all
  then have m: "0 \<le> y mod n - 1" "y mod n - 1 < n" using False by linarith+
  have "y - 1 = n * (y div n) + (y mod n - 1)" by simp
  then have "(y - 1) div n = y div n" using m by (rule int_div_pos_eq)
  then show ?thesis using False by simp
qed

lemma leap_days:
  fixes a a' b b' c c' :: int
  assumes "a' = a + (if p then 1 else 0)" "b' = b + (if q then 1 else 0)" "c' = c + (if r then 1 else 0)"
    and "r \<Longrightarrow> q" "q \<Longrightarrow> p"
  shows "365 * y + a' - b' + c' = 365 * (y - 1) + a - b + c + 365 + (if p \<and> (\<not> q \<or> r) then 1 else 0)"
  using assms by (cases p; cases q; cases r) auto

lemma days_of_year: "days_before_year (y + 1) = days_before_year y + 365 + (if isLeap y then 1 else 0)"
proof -
  have mods: "y mod 400 = 0 \<Longrightarrow> y mod 100 = 0" "y mod 100 = 0 \<Longrightarrow> y mod 4 = 0" by presburger+
  have divs: "y div 4 = (y - 1) div 4 + (if y mod 4 = 0 then 1 else 0)"
    "y div 100 = (y - 1) div 100 + (if y mod 100 = 0 then 1 else 0)"
    "y div 400 = (y - 1) div 400 + (if y mod 400 = 0 then 1 else 0)"
    by (rule div_next, simp)+
  show ?thesis
    unfolding days_before_year_def isLeap_def add_diff_cancel_right'
    by (rule leap_days [OF divs mods])
qed

lemma year_length:
  assumes "0 \<le> m" "m \<le> 11"
  shows "days_before_year (y + 1) + sum_list (take (nat m) (month_lengths (y + 1)))
    - (days_before_year y + sum_list (take (nat m) (month_lengths y))) \<in> {365, 366}"
proof -
  have next_leap: "isLeap y \<Longrightarrow> \<not> isLeap (y + 1)" unfolding isLeap_def by presburger
  have take: "sum_list (take (nat m) (month_lengths z)) = (if m < 2 then 31 * m
      else sum_list (take (nat m) [31, 28, 31, 30, 31, 30, 31, 31, 30, 31, 30, 31]) + (if isLeap z then 1 else 0))" for z
  proof -
    have "m \<in> {0, 1, 2, 3, 4, 5, 6, 7, 8, 9, 10, 11}" using assms unfolding insert_iff empty_iff by presburger
    then show ?thesis by (elim insertE emptyE) (simp_all add: month_lengths_def)
  qed
  show ?thesis unfolding take days_of_year using next_leap by auto
qed

lemma time_AddYears_one:
  "time_AddYears t 1 = t + 365 * day_seconds * second \<or> time_AddYears t 1 = t + 366 * day_seconds * second"
proof -
  let ?c = "civil_of t"
  have m: "0 \<le> c_month ?c - 1" "c_month ?c - 1 \<le> 11" using civil_of(1) [of t] by (auto simp: civil_ok_def)
  have "instant_of ?c + t mod second = t" unfolding civil_of(2) by (simp add: time_Truncate_def)
  then have "time_AddYears t 1 - t = instant_of (?c\<lparr>c_year := c_year ?c + 1\<rparr>) - instant_of ?c"
    by (simp add: time_AddYears_def)
  then show ?thesis
    using year_length [OF m, of "c_year ?c"] by (auto simp: instant_of_def second_def day_seconds_def)
qed

subsection \<open>Properties\<close>

lemma tlsConfig_self_signed:
  assumes "tlsConfig X r now cfg = Inr tc" "AutoSelfSigned (TLS (Server cfg))"
  obtains der key serial where "tc = \<lparr>tc_MinVersion = 0x0304, tc_Certificates = [([der], key)]\<rparr>" "serial < 2 ^ 127"
    "ts_CreateCertificate X (self_signed_template serial
       (if Hostname (TLS (Server cfg)) = [] then ''localhost'' else Hostname (TLS (Server cfg))) now) key = Inr der"
proof -
  have small: "n < 2 ^ 127" if "rand_Int (2 ^ 127) r1 = Inr (n, r2)" for n r1 r2
    using that unfolding rand_Int_serial by (auto split: if_splits)
  show ?thesis
    using assms that by (auto simp: tlsConfig_def selfSignedTLSCert_def Let_def go_inv split: prod.splits dest!: small [simplified])
qed

lemma self_signed_window:
  assumes "clock_ok now"
  shows "tt_NotBefore (self_signed_template serial name now) = now - 300 * second"
    "tt_NotAfter (self_signed_template serial name now) \<in>
       {now + 365 * day_seconds * second, now + 366 * day_seconds * second}"
proof -
  have "- (2 ^ 63) \<le> (now + - (5 * 60 * second)) div second" "(now + - (5 * 60 * second)) div second < 2 ^ 63"
  proof -
    have "(now + - (5 * 60 * second)) div second = now div second - 300"
      using div_mult_self1 [of second now "-300"] by (simp add: second_def)
    moreover have "0 \<le> now div second" "now div second < 2 ^ 62"
      using assms by (simp_all add: clock_ok_def second_def pos_imp_zdiv_nonneg_iff)
    ultimately show "- (2 ^ 63) \<le> (now + - (5 * 60 * second)) div second" "(now + - (5 * 60 * second)) div second < 2 ^ 63"
      by simp_all
  qed
  then show "tt_NotBefore (self_signed_template serial name now) = now - 300 * second"
    by (simp add: self_signed_template_def time_Add_def Let_def)
  show "tt_NotAfter (self_signed_template serial name now) \<in>
       {now + 365 * day_seconds * second, now + 366 * day_seconds * second}"
    using time_AddYears_one [of now] by (auto simp: self_signed_template_def)
qed

text \<open>The transport of the API: whatever the configuration, the TLS configuration of a started server
  asks for TLS 1.3 and has one certificate, the pair of files when it does not sign its own. A
  certificate of its own has a serial number below 2^127, names the configured host
  (\<open>localhost\<close> when none is) and \<open>localhost\<close>, each once, is for digital signatures and the
  authentication of servers, and is valid from five minutes before to 365 or 366 days after now.\<close>

theorem tls_certificate:
  assumes "tlsConfig X r now cfg = Inr tc" "clock_ok now"
  shows "tc_MinVersion tc = 0x0304
    \<and> (\<exists>chain key. tc_Certificates tc = [(chain, key)]
        \<and> (\<not> AutoSelfSigned (TLS (Server cfg)) \<longrightarrow>
             ts_LoadX509KeyPair X (CertFile (TLS (Server cfg))) (KeyFile (TLS (Server cfg))) = Inr (chain, key))
        \<and> (AutoSelfSigned (TLS (Server cfg)) \<longrightarrow>
             (\<exists>der tmpl. chain = [der] \<and> ts_CreateCertificate X tmpl key = Inr der
                \<and> tt_SerialNumber tmpl < 2 ^ 127
                \<and> set (tt_DNSNames tmpl) = {tt_CommonName tmpl, ''localhost''} \<and> distinct (tt_DNSNames tmpl)
                \<and> tt_CommonName tmpl = (if Hostname (TLS (Server cfg)) = [] then ''localhost'' else Hostname (TLS (Server cfg)))
                \<and> tt_KeyUsage tmpl = 5 \<and> tt_ExtKeyUsage tmpl = [''serverAuth'']
                \<and> tt_NotBefore tmpl = now - 300 * second
                \<and> tt_NotAfter tmpl \<in> {now + 365 * day_seconds * second, now + 366 * day_seconds * second})))"
proof (cases "AutoSelfSigned (TLS (Server cfg))")
  case True
  let ?name = "if Hostname (TLS (Server cfg)) = [] then ''localhost'' else Hostname (TLS (Server cfg))"
  obtain der key serial where c: "tc = \<lparr>tc_MinVersion = 0x0304, tc_Certificates = [([der], key)]\<rparr>" "serial < 2 ^ 127"
    "ts_CreateCertificate X (self_signed_template serial ?name now) key = Inr der"
    using tlsConfig_self_signed [OF assms(1) True] by blast
  let ?t = "self_signed_template serial ?name now"
  have fields: "tt_SerialNumber ?t = serial" "set (tt_DNSNames ?t) = {tt_CommonName ?t, ''localhost''}"
    "distinct (tt_DNSNames ?t)" "tt_CommonName ?t = ?name" "tt_KeyUsage ?t = 5" "tt_ExtKeyUsage ?t = [''serverAuth'']"
    by (auto simp: self_signed_template_def)
  show ?thesis
    unfolding c(1) tls_config.select_convs
    by (intro conjI refl exI [of _ "[der]"] exI [of _ key] impI exI [of _ der] exI [of _ ?t] c(3) fields
        self_signed_window [OF assms(2)]) (use True fields(1) c(2) in simp_all)
next
  case False
  then show ?thesis using assms(1) by (auto simp: tlsConfig_def Let_def go_inv)
qed

definition toy_tls :: "unit tls_std" where
  "toy_tls = \<lparr>ts_GenerateKey = (\<lambda>r. Inr ((), r)),
     ts_CreateCertificate = (\<lambda>t k. Inr (concat (map bytes_of (tt_DNSNames t)))),
     ts_LoadX509KeyPair = (\<lambda>c k. Inl (Err [] ''no file''))\<rparr>"

lemma toy_tlsConfig:
  "tlsConfig toy_tls (replicate 16 1) 0 Default =
     Inr \<lparr>tc_MinVersion = 0x0304, tc_Certificates = [([bytes_of ''localhost''], ())]\<rparr>"
  unfolding tlsConfig_def selfSignedTLSCert_def rand_Int_serial
  by (simp add: toy_tls_def Default_def self_signed_template_def)

theorem tls_certificate_witness:
  "\<exists>tmpl. ts_CreateCertificate toy_tls tmpl () = Inr (bytes_of ''localhost'') \<and> tt_NotBefore tmpl = - (300 * second)
     \<and> tt_CommonName tmpl = ''localhost''"
proof -
  have "clock_ok 0" by (simp add: clock_ok_def)
  from tls_certificate [OF toy_tlsConfig this] show ?thesis by (auto simp: Default_def)
qed

text \<open>C19. The daemon ends. In any run, with any clients, it takes at most seven steps of its own. Once its
  context is cancelled, or its server has stopped, it always has a step of its own to take until it
  has returned and the goroutine that serves has finished, with its result taken from the channel or
  left in the buffer: it cannot be blocked, by connections that stay open either. After seven steps
  it is over.\<close>

theorem serve_terminates:
  assumes "serve_run n serve_init s"
  shows "n \<le> 7
    \<and> (sv_cancelled s \<or> sv_server s = Finished \<longrightarrow>
         (\<exists>r. sv_waiter s = Returned r) \<and> sv_server s = Finished \<or> (\<exists>t. serve_step Daemon s t))
    \<and> (n = 7 \<longrightarrow> (\<exists>r. sv_waiter s = Returned r) \<and> sv_server s = Finished)"
proof -
  have work: "n + serve_work s \<le> 7" using run_work [OF assms] by (simp add: serve_init_def serve_work_def)
  have over: "(\<exists>r. sv_waiter s = Returned r) \<and> sv_server s = Finished" if "serve_work s = 0"
    using that by (cases "sv_waiter s"; cases "sv_server s") (simp_all add: serve_work_def)
  show ?thesis
    using work over daemon_ends [OF serve_ok_run [OF assms serve_ok_init]] by (auto simp: ended_def returned_def)
qed

text \<open>A run of the daemon that is cancelled and ends in order.\<close>

definition toy_serving :: "waiter \<Rightarrow> server \<Rightarrow> unit res list \<Rightarrow> bool \<Rightarrow> bool \<Rightarrow> serve_state" where
  "toy_serving w v ch sh l = \<lparr>sv_waiter = w, sv_server = v, sv_errCh = ch, sv_cancelled = True, sv_inShutdown = sh,
     sv_listening = l, sv_conns = 0\<rparr>"

definition toy_run :: "nat \<Rightarrow> serve_state" where
  "toy_run i =
     [serve_init, toy_serving Selecting Starting [] False True, toy_serving Selecting Accepting [] False True,
      toy_serving Closing Accepting [] True True, toy_serving Draining Accepting [] True False,
      toy_serving Draining (Stopped None) [] True False, toy_serving Draining Finished [Inr ()] True False,
      toy_serving Receiving Finished [Inr ()] True False, toy_serving (Returned (Inr ())) Finished [] True False] ! min i 8"

lemma toy_run_cancel: "serve_step World (toy_run 0) (toy_run 1)"
  using serve_step.cancel [of serve_init] by (simp add: toy_run_def toy_serving_def serve_init_def)

lemma toy_run_daemon:
  assumes "i < 7"
  shows "serve_step Daemon (toy_run (Suc i)) (toy_run (Suc (Suc i)))"
proof -
  note [simp] = toy_run_def toy_serving_def errCh_capacity_def sent_error_def
  consider "i = 0" | "i = 1" | "i = 2" | "i = 3" | "i = 4" | "i = 5" | "i = 6" using assms by linarith
  then show ?thesis
  proof cases
    case 1
    then show ?thesis using serve_step.start [of "toy_run 1"] by simp
  next
    case 2
    then show ?thesis using serve_step.select_done [of "toy_run 2"] by simp
  next
    case 3
    then show ?thesis using serve_step.close_listener [of "toy_run 3"] by simp
  next
    case 4
    then show ?thesis using serve_step.accept_closed [of "toy_run 4"] by simp
  next
    case 5
    then show ?thesis using serve_step.send [of "toy_run 5" None] by simp
  next
    case 6
    then show ?thesis using serve_step.drained [of "toy_run 6"] by simp
  next
    case 7
    then show ?thesis using serve_step.receive [of "toy_run 7" "Inr ()" "[]"] by simp
  qed
qed

lemma toy_run_over: "8 \<le> i \<Longrightarrow> toy_run i = toy_serving (Returned (Inr ())) Finished [] True False"
  by (simp add: toy_run_def)

lemma toy_run_counts: "i \<le> 7 \<Longrightarrow> serve_run i serve_init (toy_run (Suc i))"
proof (induction i)
  case 0
  then show ?case
    using serve_run.world [OF serve_run.stay toy_run_cancel] by (simp add: toy_run_def)
next
  case (Suc i)
  then show ?case using serve_run.daemon [OF Suc.IH toy_run_daemon] by simp
qed

lemma graceful_run: "\<exists>s. serve_run 7 serve_init s \<and> sv_waiter s = Returned (Inr ())"
  using toy_run_counts [of 7] by (intro exI [of _ "toy_run 8"]) (simp add: toy_run_over toy_serving_def)

theorem serve_terminates_witness: "\<exists>s. serve_run 7 serve_init s \<and> sv_server s = Finished"
  using graceful_run serve_terminates by blast

text \<open>C20. The daemon returns. In every infinite run of the two goroutines and the clients in which, from
  the moment the context is cancelled, the daemon is scheduled again whenever it has a step to take,
  there is a moment after which it has returned and its server goroutine has finished, whatever the
  clients do.\<close>

theorem serve_returns:
  assumes "f 0 = serve_init" "\<And>i. f (Suc i) = f i \<or> serve_step World (f i) (f (Suc i)) \<or> serve_step Daemon (f i) (f (Suc i))"
    and "sv_cancelled (f c)"
    and "\<And>i. c \<le> i \<Longrightarrow> \<exists>t. serve_step Daemon (f i) t \<Longrightarrow> \<exists>j\<ge>i. serve_step Daemon (f j) (f (Suc j))"
  shows "\<exists>j\<ge>c. (\<exists>r. sv_waiter (f j) = Returned r) \<and> sv_server (f j) = Finished"
proof -
  have run: "serve_moment (f i) (f (Suc i))" for i using assms(2) by (simp add: serve_moment_def)
  have "serve_ok (f c)" using moments_keep(1) [of f 0 c] run assms(1) serve_ok_init by (metis le0)
  from fair_run_ends [of f, OF run this assms(3,4), of c] show ?thesis by (simp add: ended_def returned_def)
qed

theorem serve_returns_witness:
  "\<exists>j\<ge>1. (\<exists>r. sv_waiter (toy_run j) = Returned r) \<and> sv_server (toy_run j) = Finished"
proof (rule serve_returns)
  show "toy_run 0 = serve_init" by (simp add: toy_run_def)
  show "sv_cancelled (toy_run 1)" by (simp add: toy_run_def toy_serving_def)
  fix i :: nat
  consider "i = 0" | j where "i = Suc j" "j < 7" | "8 \<le> i"
    by (cases i; cases "i < 8") auto
  then show "toy_run (Suc i) = toy_run i \<or> serve_step World (toy_run i) (toy_run (Suc i))
      \<or> serve_step Daemon (toy_run i) (toy_run (Suc i))"
    using toy_run_cancel toy_run_daemon toy_run_over by cases auto
  assume i: "1 \<le> i" and enabled: "\<exists>t. serve_step Daemon (toy_run i) t"
  have "i < 8"
  proof (rule ccontr)
    assume "\<not> i < 8"
    then have "serve_work (toy_run i) = 0" by (simp add: toy_run_over toy_serving_def serve_work_def)
    then show False using enabled daemon_work by fastforce
  qed
  then show "\<exists>j\<ge>i. serve_step Daemon (toy_run j) (toy_run (Suc j))"
    using toy_run_daemon [of 6] by (intro exI [of _ 7]) simp
qed

text \<open>C26. A clean end is an ordered one: \<open>serve\<close> returns no error only when the configuration was loaded,
  the address was free, every layer was opened and the listener had its certificate, when the
  context was cancelled, and after the listener was closed, every connection was done and the server
  had ended. (The datastore is closed by the deferred call of \<open>serveOnListener\<close>, when it returns.)\<close>

theorem serve_clean_end:
  assumes "serve H listen X r now path (Inr ())"
  shows "\<exists>cfg s tc n st. Load H path = Inr cfg \<and> listen (Listen (Server cfg)) = Inr () \<and> newApp H path = Inr (cfg, s)
    \<and> tlsConfig X r now cfg = Inr tc \<and> serve_run n serve_init st \<and> sv_waiter st = Returned (Inr ())
    \<and> sv_cancelled st \<and> \<not> sv_listening st \<and> sv_conns st = 0 \<and> sv_server st = Finished"
proof -
  obtain cfg where cfg: "Load H path = Inr cfg" "listen (Listen (Server cfg)) = Inr ()"
    "serveOnListener H X r now path (Inr ())"
    using assms by (auto elim: serveE)
  from cfg(3) obtain cfg' s tc n st where st: "newApp H path = Inr (cfg', s)" "tlsConfig X r now cfg' = Inr tc"
    "serve_run n serve_init st" "sv_waiter st = Returned (Inr ())"
    by (auto elim: serveOnListenerE)
  have "serve_ok st" using serve_ok_run [OF st(3) serve_ok_init] .
  then have "sv_cancelled st \<and> \<not> sv_listening st \<and> sv_conns st = 0 \<and> sv_server st = Finished" using st(4) by simp
  moreover have "cfg' = cfg" using newApp_Inr(1) [OF st(1)] cfg(1) by simp
  ultimately show ?thesis using cfg st by blast
qed

lemma toy_newApp:
  assumes "Atoi days = Inr n" "0 < n"
  shows "\<exists>s. newApp (toy_host days) [] = Inr (upd_MaxValidityDays (\<lambda>_. n) Default, s)"
proof -
  have "open_store (toy_host days) (Path (Database (upd_MaxValidityDays (\<lambda>_. n) Default))) = Inr empty_db"
    by (rule open_store_new) (simp_all add: Default_def toy_host_def file_new_def)
  then show ?thesis
    using toy_load [OF assms]
    by (simp add: newApp_def ensureDir_def NewFileBackend_def New_def toy_host_def Default_def)
qed

theorem serve_clean_end_witness:
  "\<exists>st n. serve_run n serve_init st \<and> sv_waiter st = Returned (Inr ()) \<and> sv_cancelled st"
proof -
  have n: "Atoi ''90'' = Inr 90" by code_simp
  obtain s where app: "newApp (toy_host ''90'') [] = Inr (upd_MaxValidityDays (\<lambda>_. 90) Default, s)"
    using toy_newApp [OF n] by auto
  obtain st where st: "serve_run 7 serve_init st" "sv_waiter st = Returned (Inr ())" using graceful_run by blast
  have "\<exists>tc. tlsConfig toy_tls (replicate 16 1) 0 (upd_MaxValidityDays (\<lambda>_. 90) Default) = Inr tc"
    using toy_tlsConfig by (simp add: tlsConfig_def Default_def)
  then have "serveOnListener (toy_host ''90'') toy_tls (replicate 16 1) 0 [] (Inr ())"
    using serveOnListener.served [OF app _ st] by blast
  then have "serve (toy_host ''90'') (\<lambda>_. Inr ()) toy_tls (replicate 16 1) 0 [] (Inr ())"
    using serve.listening [OF newApp_Inr(1) [OF app], of "\<lambda>_. Inr ()"] by simp
  from serve_clean_end [OF this] show ?thesis by blast
qed

end
