(* ===== verification/Commands.thy ===== *)
theory Commands
  imports Serve Api_Issue
begin

section \<open>The command line of the daemon (cmd/pqtrustd/main.go)\<close>

text \<open>
  The parser of Go's package \<open>flag\<close> for flags that take a string, the dispatch of \<open>run\<close>, and the exit
  status of \<open>main\<close>. What a command writes to the standard output is a string, what the package \<open>flag\<close> and
  \<open>main\<close> write to the standard error is left out. \<open>srv\<close> stands for what \<open>serve\<close> returns, which theory
  \<open>Serve\<close> tells; \<open>token create\<close> is the function of theory \<open>Config\<close>.
\<close>

subsection \<open>Package flag\<close>

datatype flag_error = ErrHelp | BadFlags string

fun flag_message :: "flag_error \<Rightarrow> string" where
  "flag_message ErrHelp = ''flag: help requested''"
| "flag_message (BadFlags m) = m"

text \<open>One flag: its name, its value and the arguments after it, or \<open>None\<close> when the flags end.\<close>

definition parseOne :: "string list \<Rightarrow> string list \<Rightarrow> flag_error + (string \<times> string \<times> string list) option" where
  "parseOne formal args =
     (case args of
        [] \<Rightarrow> Inr None
      | s # rest \<Rightarrow>
          if length s < 2 \<or> hd s \<noteq> CHR ''-'' \<or> s = ''--'' then Inr None
          else
            let name = (if s ! 1 = CHR ''-'' then drop 2 s else drop 1 s) in
            if name = [] \<or> hd name = CHR ''-'' \<or> hd name = CHR ''='' then Inl (BadFlags ''bad flag syntax'')
            else
              (case str_cut CHR ''='' name of
                 (n, v, hasValue) \<Rightarrow>
                   if n \<notin> set formal
                   then Inl (if n = ''help'' \<or> n = ''h'' then ErrHelp else BadFlags ''flag provided but not defined'')
                   else if hasValue then Inr (Some (n, v, rest))
                   else
                     (case rest of
                        [] \<Rightarrow> Inl (BadFlags ''flag needs an argument'')
                      | v # rest' \<Rightarrow> Inr (Some (n, v, rest')))))"

lemma parseOne_shorter: "parseOne formal args = Inr (Some (n, v, rest)) \<Longrightarrow> length rest < length args"
  by (auto simp: parseOne_def Let_def split: list.splits if_splits prod.splits)

function flag_Parse ::
  "string list \<Rightarrow> string list \<Rightarrow> (string \<Rightarrow> string) \<Rightarrow> flag_error + (string \<Rightarrow> string)" where
  "flag_Parse formal args vals =
     (case parseOne formal args of
        Inl e \<Rightarrow> Inl e
      | Inr None \<Rightarrow> Inr vals
      | Inr (Some (n, v, rest)) \<Rightarrow> flag_Parse formal rest (vals(n := v)))"
  by pat_completeness auto
termination
  by (relation "measure (\<lambda>(_, args, _). length args)") (auto dest: parseOne_shorter)

declare flag_Parse.simps [simp del]

subsection \<open>run and main\<close>

definition newline :: string where
  "newline = [CHR 0x0A]"

definition usage :: string where
  "usage = concat (map (\<lambda>l. l @ newline)
     [''usage: pqtrustd <command> [flags]'',
      [],
      ''commands:'',
      ''  serve                 run the certificate authority API server'',
      ''  token create -name X  mint an API token (printed once)'',
      ''  version               print the pqtrust version'',
      [],
      ''flags:'',
      ''  -config path          configuration file (default: none, built-in defaults)''])"

definition no_flags :: "string \<Rightarrow> string" where
  "no_flags _ = []"

definition printed_token ::
  "engine option \<times> string res \<Rightarrow> engine option \<times> string \<times> unit res" where
  "printed_token r =
     (case r of
        (s, Inl e) \<Rightarrow> (s, [], Inl e)
      | (s, Inr token) \<Rightarrow> (s, token @ newline, Inr ()))"

text \<open>The state that the command leaves when it opened one, its output and its error.\<close>

definition run ::
  "host \<Rightarrow> ('pk, 'sk) env \<Rightarrow> (string \<Rightarrow> unit res) \<Rightarrow> string list \<Rightarrow> engine option \<times> string \<times> unit res" where
  "run H E srv args =
     (case args of
        [] \<Rightarrow> (None, usage, Inl (Err [] ''a command is required''))
      | command # rest \<Rightarrow>
          if command = ''serve''
          then
            (case flag_Parse [''config''] rest no_flags of
               Inl e \<Rightarrow> (None, [], Inl (Err [] (flag_message e)))
             | Inr vals \<Rightarrow> (None, [], srv (vals ''config'')))
          else if command = ''token''
          then
            (if rest = [] \<or> hd rest \<noteq> ''create''
             then (None, [], Inl (Err [] ''usage: pqtrustd token create -name <name>''))
             else
               (case flag_Parse [''config'', ''name''] (tl rest) no_flags of
                  Inl e \<Rightarrow> (None, [], Inl (Err [] (flag_message e)))
                | Inr vals \<Rightarrow> printed_token (runTokenCreate H E (vals ''config'') (vals ''name''))))
          else if command = ''version'' then (None, Version @ newline, Inr ())
          else (None, usage, Inl (Err [] ''unknown command'')))"

definition exit_status :: "unit res \<Rightarrow> int" where
  "exit_status r = (case r of Inl _ \<Rightarrow> 1 | Inr _ \<Rightarrow> 0)"

definition pqtrustd ::
  "host \<Rightarrow> ('pk, 'sk) env \<Rightarrow> (string \<Rightarrow> unit res) \<Rightarrow> string list \<Rightarrow> engine option \<times> string \<times> int" where
  "pqtrustd H E srv args = (case run H E srv args of (s, out, r) \<Rightarrow> (s, out, exit_status r))"

subsection \<open>Flags that are written as the usage says\<close>

text \<open>The ways to write the flag \<open>n\<close> with the value \<open>v\<close>.\<close>

inductive flag_written :: "string \<Rightarrow> string \<Rightarrow> string list \<Rightarrow> bool" for n v where
  two: "flag_written n v [''-'' @ n, v]"
| two_dashes: "flag_written n v [''--'' @ n, v]"
| one: "flag_written n v [''-'' @ n @ ''='' @ v]"
| one_dashes: "flag_written n v [''--'' @ n @ ''='' @ v]"

definition flag_name_ok :: "string \<Rightarrow> bool" where
  "flag_name_ok n = (n \<noteq> [] \<and> hd n \<noteq> CHR ''-'' \<and> CHR ''='' \<notin> set n)"

lemma str_cut_none: "sep \<notin> set s \<Longrightarrow> str_cut sep s = (s, [], False)"
  by (simp add: str_cut_def takeWhile_eq_all_conv dropWhile_eq_Nil_conv)

lemma parseOne_written:
  assumes "flag_written n v w" "flag_name_ok n" "n \<in> set formal"
  shows "parseOne formal (w @ rest) = Inr (Some (n, v, rest))"
proof -
  have n: "n \<noteq> []" "hd n \<noteq> CHR ''-''" "hd n \<noteq> CHR ''=''" "CHR ''='' \<notin> set n"
    using assms(2) by (cases n; auto simp: flag_name_ok_def)+
  note cut = str_cut_none [OF n(4)] str_cut_append [OF n(4), of v]
  obtain c cs where c: "n = c # cs" "c \<noteq> CHR ''-''" using n by (cases n) auto
  from assms(1) show ?thesis
    by cases (use c n(3) cut assms(3) in \<open>simp_all add: parseOne_def\<close>)
qed

lemma flag_Parse_written:
  assumes "flag_written n v w" "flag_name_ok n" "n \<in> set formal"
  shows "flag_Parse formal (w @ rest) vals = flag_Parse formal rest (vals(n := v))"
  by (subst flag_Parse.simps) (simp add: parseOne_written [OF assms])

lemma flag_Parse_end:
  "args = [] \<or> length (hd args) < 2 \<or> hd (hd args) \<noteq> CHR ''-'' \<or> hd args = ''--'' \<Longrightarrow> flag_Parse formal args vals = Inr vals"
  by (subst flag_Parse.simps) (auto simp: parseOne_def split: list.split)

lemma flag_names_ok: "flag_name_ok ''config''" "flag_name_ok ''name''"
  by (simp_all add: flag_name_ok_def)

subsection \<open>Properties\<close>

text \<open>C34. The command line means what the usage says: \<open>serve\<close> and \<open>token create\<close> get the configuration path
  and the name of their flags, written with one dash or two, with the value after an equals sign or
  in the next argument (whatever it is, a text that begins with a dash too), in any order; the
  token is what is printed, with status 0; an unknown command prints the usage, with status 1. But
  an argument that is no flag ends the flags: what follows it is not read and not refused, so
  \<open>serve\<close> with a stray word before \<open>-config\<close> runs with the defaults.\<close>

theorem command_line:
  assumes "flag_written ''config'' path wc" "flag_written ''name'' name wn"
    and "command \<notin> {''serve'', ''token'', ''version''}" "word = [] \<or> hd word \<noteq> CHR ''-''"
  shows "run H E srv (''serve'' # wc) = (None, [], srv path)
    \<and> run H E srv (''token'' # ''create'' # wc @ wn) = printed_token (runTokenCreate H E path name)
    \<and> run H E srv (''token'' # ''create'' # wn @ wc) = printed_token (runTokenCreate H E path name)
    \<and> run H E srv (''token'' # ''create'' # wn) = printed_token (runTokenCreate H E [] name)
    \<and> (\<exists>e. run H E srv (''token'' # ''create'' # wc) = (None, [], Inl e))
    \<and> pqtrustd H E srv [''version''] = (None, Version @ newline, 0)
    \<and> pqtrustd H E srv (command # args) = (None, usage, 1)
    \<and> run H E srv (''serve'' # word # args) = (None, [], srv [])"
proof -
  note c = flag_Parse_written [OF assms(1) flag_names_ok(1)] and n = flag_Parse_written [OF assms(2) flag_names_ok(2)]
  have over: "flag_Parse formal [] vals = Inr vals" for formal vals by (rule flag_Parse_end) simp
  have c1: "flag_Parse formal wc vals = Inr (vals(''config'' := path))" if "''config'' \<in> set formal" for formal vals
    using c [OF that, of "[]" vals] over by simp
  have n1: "flag_Parse formal wn vals = Inr (vals(''name'' := name))" if "''name'' \<in> set formal" for formal vals
    using n [OF that, of "[]" vals] over by simp
  have "trim_space [] = []" by (simp add: trim_space_def trim_left.simps trim_right.simps space_runes_def)
  then have unnamed: "\<exists>e. printed_token (runTokenCreate H E path []) = (None, [], Inl e)"
    by (simp add: runTokenCreate_def printed_token_def)
  have "flag_Parse formal (word # args) vals = Inr vals" for formal vals
    by (rule flag_Parse_end) (use assms(4) in auto)
  then show ?thesis
    using assms(3) unnamed c [of "[''config'', ''name'']"] n [of "[''config'', ''name'']"]
    by (simp add: run_def pqtrustd_def exit_status_def no_flags_def c1 n1)
qed

theorem command_line_witness:
  "run (toy_host ''90'') toy_env (\<lambda>p. if p = ''a.yaml'' then Inr () else Inl (Err [] p)) [''serve'', ''--config=a.yaml'']
     = (None, [], Inr ())
   \<and> run (toy_host ''90'') toy_env (\<lambda>p. if p = ''a.yaml'' then Inr () else Inl (Err [] p)) [''serve'', ''now'', ''--config=a.yaml'']
     = (None, [], Inl (Err [] []))"
proof -
  have "flag_written ''config'' ''a.yaml'' [''--config=a.yaml'']"
    using flag_written.one_dashes [of "''config''" "''a.yaml''"] by simp
  from command_line [OF this flag_written.two, of "''help''" "''now''" "toy_host ''90''" toy_env
      "\<lambda>p. if p = ''a.yaml'' then Inr () else Inl (Err [] p)" _ "[''--config=a.yaml'']"]
  show ?thesis by simp
qed

end
