(* ===== verification/Restart.thy ===== *)
theory Restart
  imports Commands Api_Effects
begin

section \<open>The state across processes\<close>

text \<open>
  The commands and the layers composed on one machine: \<open>pqtrustd token create\<close> in one process, servers
  in others, each of which opens the database file and the keys that the previous ones left. The
  theorems of \<open>Api_Auth\<close> and \<open>Api_Effects\<close> hold of steps among which are restarts; here \<open>newApp\<close> is
  shown to be such a restart.
\<close>

text \<open>\<open>left_by s H cfg\<close>: the files of the machine \<open>H\<close> at the paths of the configuration are those of the
  state \<open>s\<close> of an earlier process.\<close>

definition left_by :: "engine \<Rightarrow> host \<Rightarrow> Config \<Rightarrow> bool" where
  "left_by s H cfg =
     (file_holds (h_disk H (Path (Database cfg))) (e_db s) \<and> h_keys H (Dir (Keystore cfg)) = e_files s)"

lemma newApp_server_step:
  assumes "newApp H path = Inr (cfg, t)" "left_by s H cfg"
  shows "server_step C P S s t"
  using newApp_restarted [OF assms(1)] assms(2) by (auto simp: left_by_def intro: server_step.restart)

lemma runTokenCreate_Inr:
  assumes "runTokenCreate H E path name = (Some s1, Inr token)"
  obtains cfg s0 where "newApp H path = Inr (cfg, s0)" "token_create E name s0 = (s1, Inr token)"
  using assms by (auto simp: runTokenCreate_def split: if_splits sum.splits prod.splits)

text \<open>C18. A printed token outlives the process that printed it, and every other: whatever servers on the
  same files handle and whatever tokens are created after \<open>pqtrustd token create\<close>, a server that
  starts on the files they leave lets every later request with that token pass the gate of every
  endpoint, as long as the table of tokens can be read.\<close>

theorem token_outlives_restart:
  assumes "run H E srv (''token'' # ''create'' # args) = (Some s1, token @ newline, Inr ())"
    and "(server_step C P S)\<^sup>*\<^sup>* s1 s" "newApp H' path' = Inr (cfg, t)" "left_by s H' cfg"
    and "(server_step C P S)\<^sup>*\<^sup>* t u" "\<not> env_faults E' ''get token''"
    and "rq_Header r ''Authorization'' = scheme @ token" "length scheme = 7" "equal_fold scheme ''Bearer ''"
  shows "ServeHTTP E' J r u = mux_ServeHTTP (hd (NewServer E' J) # authed E' J) r u"
proof -
  obtain path name where made: "runTokenCreate H E path name = (Some s1, Inr token)"
    using assms(1) by (auto simp: run_def printed_token_def split: sum.splits if_splits prod.splits)
  obtain s0 where "token_create E name s0 = (s1, Inr token)" using made by (rule runTokenCreate_Inr)
  moreover have "(server_step C P S)\<^sup>*\<^sup>* s1 u"
    using assms(2) newApp_server_step [OF assms(3,4)] assms(5) by (meson converse_rtranclp_into_rtranclp rtranclp_trans)
  ultimately show ?thesis using created_token_passes [OF _ _ assms(7,8,9,6)] by blast
qed

definition toy_machine :: "db_file option \<Rightarrow> host" where
  "toy_machine f = (toy_host ''90'')
     \<lparr>h_rand := replicate 48 9, h_disk := (\<lambda>path. if path = Path (Database Default) then f else None)\<rparr>"

lemma toy_machine_Load: "Load (toy_machine f) [] = Inr (upd_MaxValidityDays (\<lambda>_. 90) Default)"
proof -
  have n: "Atoi ''90'' = Inr 90" by code_simp
  have "Load (toy_machine f) [] = Load (toy_host ''90'') []"
    by (simp add: Load_def file_config_def toy_machine_def)
  then show ?thesis using toy_load [OF n] by simp
qed

lemma toy_machine_newApp:
  assumes "file_new f \<and> d = empty_db \<or> file_holds f d"
  shows "\<exists>s. newApp (toy_machine f) [] = Inr (upd_MaxValidityDays (\<lambda>_. 90) Default, s) \<and> e_db s = d
    \<and> e_files s = Map.empty \<and> e_rand s = replicate 48 9"
proof -
  let ?p = "Path (Database Default)"
  have p: "?p \<noteq> []" and f: "h_disk (toy_machine f) ?p = f" "\<And>s. h_driver (toy_machine f) s = None"
    by (simp_all add: Default_def toy_machine_def toy_host_def)
  have "open_store (toy_machine f) ?p = Inr d"
    using Open_clean [of ?p "h_driver (toy_machine f)" "h_disk (toy_machine f)"] p f assms
    by (auto simp: open_store_def records_of_rows_of file_holds_def)
  then show ?thesis
    by (simp add: newApp_def toy_machine_Load ensureDir_def NewFileBackend_def New_def)
      (simp add: toy_machine_def toy_host_def Default_def)
qed

lemma toy_token_on_machine:
  assumes "e_db s = empty_db" "e_rand s = replicate 48 9"
  shows "\<exists>t token. token_create toy_env ''ci'' s = (t, Inr token) \<and> e_files t = e_files s"
proof -
  have "replicate 48 9 = replicate 32 (9 :: byte) @ replicate 16 9" by (simp flip: replicate_add)
  then have rnd: "e_rand s = replicate 32 9 @ replicate 16 9" using assms(2) by simp
  have "trim_space ''ci'' \<noteq> []" by code_simp
  then show ?thesis
    by (simp add: token_create_def op_bind_def op_rand_def op_res_def op_db_def GenerateToken_def NewKeyID_def
        read_full_def st_CreateToken_def rnd toy_env_def toy_os_def assms(1) empty_db_def)
qed

theorem token_outlives_restart_witness:
  "\<exists>s1 token cfg t r. run (toy_machine None) toy_env (\<lambda>_. Inr ()) [''token'', ''create'', ''-name'', ''ci''] = (Some s1, token @ newline, Inr ())
     \<and> newApp (toy_machine (Some (rows_of (e_db s1), [init_name]))) [] = Inr (cfg, t)
     \<and> rq_Header r ''Authorization'' = ''Bearer '' @ token
     \<and> ServeHTTP toy_env (\<lambda>_. None) r t = mux_ServeHTTP (hd (NewServer toy_env (\<lambda>_. None)) # authed toy_env (\<lambda>_. None)) r t"
proof -
  let ?cfg = "upd_MaxValidityDays (\<lambda>_. 90) Default"
  obtain s0 where s0: "newApp (toy_machine None) [] = Inr (?cfg, s0)" "e_db s0 = empty_db" "e_files s0 = Map.empty"
    "e_rand s0 = replicate 48 9"
    using toy_machine_newApp [of None empty_db] by (auto simp: file_new_def)
  obtain s1 token where tok: "token_create toy_env ''ci'' s0 = (s1, Inr token)" "e_files s1 = Map.empty"
    using toy_token_on_machine [OF s0(2,4)] s0(3) by auto
  have name: "trim_space ''ci'' \<noteq> []" by code_simp
  have "flag_Parse [''config'', ''name''] ([''-name'', ''ci''] @ []) no_flags = Inr (no_flags(''name'' := ''ci''))"
    using flag_Parse_written [OF flag_written.two [of "''name''" "''ci''"] flag_names_ok(2)] flag_Parse_end [of "[]"]
    by simp
  then have made: "run (toy_machine None) toy_env (\<lambda>_. Inr ()) (''token'' # ''create'' # [''-name'', ''ci'']) = (Some s1, token @ newline, Inr ())"
    using name by (simp add: run_def runTokenCreate_def s0(1) tok(1) no_flags_def printed_token_def)
  let ?f = "Some (rows_of (e_db s1), [init_name])"
  obtain t where t: "newApp (toy_machine ?f) [] = Inr (?cfg, t)"
    using toy_machine_newApp [of ?f "e_db s1"] by (auto simp: file_holds_def)
  have left: "left_by s1 (toy_machine ?f) ?cfg"
    using tok(2) by (simp add: left_by_def file_holds_def toy_machine_def toy_host_def Default_def)
  let ?r = "toy_get_cas (''Bearer '' @ token)"
  have auth: "rq_Header ?r ''Authorization'' = ''Bearer '' @ token" by (simp add: toy_get_cas_def)
  have "equal_fold ''Bearer '' ''Bearer ''" by simp
  then have "ServeHTTP toy_env (\<lambda>_. None) ?r t = mux_ServeHTTP (hd (NewServer toy_env (\<lambda>_. None)) # authed toy_env (\<lambda>_. None)) ?r t"
    using token_outlives_restart [OF made rtranclp.rtrancl_refl t left rtranclp.rtrancl_refl, of toy_env ?r "''Bearer ''"] auth
      toy_packages(2) by (simp add: no_faults_def)
  then show ?thesis using made t auth by blast
qed

end
