(* ===== verification/Scripts.thy ===== *)
theory Scripts
  imports Commands Csr Verify_Path Engine_Toy
begin

section \<open>The commands of the interoperability script (scripts/mkcsr, parsecsr, parsecert)\<close>

text \<open>
  The three programs as functions of their arguments, the files and the randomness: what they print,
  their exit status, and the files that mkcsr writes into its directory. What they print with verbs
  like \<open>%q\<close> and \<open>%v\<close> is kept as the values printed. What goes to the standard error is left out.
\<close>

datatype printed =
    Text_line string
  | Parsed_certificate algorithm Name Name "int option" instant
  | Parsed_request algorithm Name "string list" "bytes list" "string list"

type_synonym outcome = "printed list \<times> int"

definition failed :: outcome where
  "failed = ([], 1)"

subsection \<open>mkcsr\<close>

definition csr_block :: "bytes \<Rightarrow> pem_block" where
  "csr_block der = \<lparr>pem_Type = ''CERTIFICATE REQUEST'', pem_Headers = [], pem_Bytes = der\<rparr>"

definition mkcsr_name :: string where
  "mkcsr_name = ''pqtrust-csr.example.com''"

text \<open>The two files, in the order in which they are written.\<close>

definition mkcsr_files ::
  "('pk, 'sk) circl \<Rightarrow> pem_package \<Rightarrow> bytes \<Rightarrow> string \<Rightarrow> (string \<times> bytes) list res" where
  "mkcsr_files C P r algName =
     rbind (ParseAlgorithm algName) (\<lambda>alg.
     rbind (GenerateKey C r alg) (\<lambda>((pub, priv), _).
     rbind (key_Signer C priv) (\<lambda>signer.
     rbind (CreateCertificateRequest (zero_Name\<lparr>CommonName := mkcsr_name\<rparr>) pub (Some signer)
              \<lparr>DNSNames = [mkcsr_name], EmailAddresses = [], IPAddresses = []\<rparr>) (\<lambda>der.
     rbind (EncodePrivateKeyPEM P priv) (\<lambda>keyPEM.
       Inr [(''pqtrust-csr.pem'', EncodeToMemory P (csr_block der)), (''pqtrust-key.pem'', keyPEM)])))))"

text \<open>\<open>os.WriteFile\<close>: the files in the directory, or a failure.\<close>

fun write_files :: "(string \<Rightarrow> bool) \<Rightarrow> (string \<times> bytes) list \<Rightarrow> files \<Rightarrow> files \<times> bool" where
  "write_files fails [] fs = (fs, True)"
| "write_files fails ((n, bs) # rest) fs =
     (if fails n then (fs, False) else write_files fails rest (fs(n \<mapsto> bs)))"

definition mkcsr ::
  "('pk, 'sk) circl \<Rightarrow> pem_package \<Rightarrow> bytes \<Rightarrow> (string \<Rightarrow> bool) \<Rightarrow> string list \<Rightarrow> (string \<Rightarrow> files)
     \<Rightarrow> (string \<Rightarrow> files) \<times> outcome" where
  "mkcsr C P r fails args dirs =
     (case flag_Parse [''dir'', ''alg''] args (no_flags(''dir'' := ''.'', ''alg'' := ''ML-DSA-44'')) of
        Inl ErrHelp \<Rightarrow> (dirs, ([], 0))
      | Inl (BadFlags _) \<Rightarrow> (dirs, ([], 2))
      | Inr vals \<Rightarrow>
          (case mkcsr_files C P r (vals ''alg'') of
             Inl _ \<Rightarrow> (dirs, failed)
           | Inr fs \<Rightarrow>
               (case write_files fails fs (dirs (vals ''dir'')) of
                  (fs', ok) \<Rightarrow>
                    (dirs(vals ''dir'' := fs'),
                     if ok then ([Text_line (''mkcsr: wrote pqtrust-csr.pem and pqtrust-key.pem to '' @ vals ''dir'')], 0)
                     else failed))))"

subsection \<open>parsecsr\<close>

definition parsecsr ::
  "('pk, 'sk) circl \<Rightarrow> pem_package \<Rightarrow> (string \<Rightarrow> bytes option) \<Rightarrow> string list \<Rightarrow> outcome" where
  "parsecsr C P readFile args =
     (case args of
        [file] \<Rightarrow>
          (case readFile file of
             None \<Rightarrow> failed
           | Some pemBytes \<Rightarrow>
               (case pem_Decode P pemBytes of
                  None \<Rightarrow> failed
                | Some (block, _) \<Rightarrow>
                    if pem_Type block \<noteq> ''CERTIFICATE REQUEST'' then failed
                    else
                      (case ParseCertificateRequest (pem_Bytes block) of
                         Inl _ \<Rightarrow> failed
                       | Inr csr \<Rightarrow>
                           (case CheckSignature C csr of
                              Inl _ \<Rightarrow> failed
                            | Inr _ \<Rightarrow>
                                ([Parsed_request (pub_alg (csr_PublicKey csr)) (csr_Subject csr) (csr_DNSNames csr)
                                    (csr_IPAddresses csr) (csr_EmailAddresses csr)], 0)))))
      | _ \<Rightarrow> ([], 2))"

subsection \<open>parsecert\<close>

definition parsecert ::
  "('pk, 'sk) circl \<Rightarrow> pem_package \<Rightarrow> (string \<Rightarrow> bytes option) \<Rightarrow> string list \<Rightarrow> outcome" where
  "parsecert C P readFile args =
     (case args of
        [file] \<Rightarrow>
          (case readFile file of
             None \<Rightarrow> failed
           | Some pemBytes \<Rightarrow>
               (case rbind (DecodeCertificatePEM P pemBytes) ParseCertificate of
                  Inl _ \<Rightarrow> failed
                | Inr cert \<Rightarrow>
                    let line = Parsed_certificate (crt_SigAlg cert) (crt_Subject cert) (crt_Issuer cert)
                          (crt_Serial cert) (crt_NotAfter cert) in
                    if IsSelfSigned cert
                    then
                      (case cert_VerifySignatureFrom C cert (Some cert) of
                         Inl _ \<Rightarrow> ([line], 1)
                       | Inr _ \<Rightarrow> ([line, Text_line ''self-signature verified''], 0))
                    else ([line], 0)))
      | _ \<Rightarrow> ([], 2))"

subsection \<open>A request of mkcsr\<close>

definition pem_requests_ok :: "pem_package \<Rightarrow> bool" where
  "pem_requests_ok P =
     (\<forall>der. pem_Decode P (EncodeToMemory P (csr_block der)) = Some (csr_block der, []))"

definition mkcsr_sans :: SANs where
  "mkcsr_sans = \<lparr>DNSNames = [mkcsr_name], EmailAddresses = [], IPAddresses = []\<rparr>"

lemma mkcsr_request:
  assumes "signer_ok C signer"
  shows "\<exists>der csr. CreateCertificateRequest (zero_Name\<lparr>CommonName := mkcsr_name\<rparr>) (sg_pub signer) (Some signer) mkcsr_sans = Inr der
    \<and> ParseCertificateRequest der = Inr csr \<and> CheckSignature C csr = Inr ()
    \<and> csr_PublicKey csr = sg_pub signer \<and> csr_Subject csr = zero_Name\<lparr>CommonName := mkcsr_name\<rparr>
    \<and> csr_DNSNames csr = [mkcsr_name] \<and> csr_IPAddresses csr = [] \<and> csr_EmailAddresses csr = []"
proof -
  let ?n = "zero_Name\<lparr>CommonName := mkcsr_name\<rparr>"
  have "case ToRDNSequence ?n of Inr b \<Rightarrow> length b < 60 \<and> 3 < length b | Inl e \<Rightarrow> False" by code_simp
  then obtain sub where sub: "ToRDNSequence ?n = Inr sub" "3 < length sub" "length sub \<le> 500"
    by (auto split: sum.splits)
  have san: "marshalSANs mkcsr_sans = Inr (tlv 0 True 16 (tlv 2 False 2 (bytes_of mkcsr_name)))"
    by (simp add: marshalSANs_raws san_raws_def SANs_Empty_def mkcsr_sans_def)
  have "length (tlv 0 True 16 (tlv 2 False 2 (bytes_of mkcsr_name))) < 60" by code_simp
  then obtain der where der: "CreateCertificateRequest ?n (sg_pub signer) (Some signer) mkcsr_sans = Inr der"
    "length der < 2 ^ 31"
    using CreateCertificateRequest_total [OF assms sub san] by (auto simp: SANs_Empty_def mkcsr_sans_def)
  have "name_size ?n \<le> 2 ^ 30"
    by (simp add: name_size_def name_parts_def zero_Name_def mkcsr_name_def)
  moreover have "san_ok mkcsr_sans" by (simp add: san_ok_def mkcsr_sans_def mkcsr_name_def)
  ultimately show ?thesis
    using CreateCertificateRequest_parse [OF der assms] der(1) by (fastforce simp: issued_csr_def mkcsr_sans_def)
qed

lemma EncodePrivateKeyPEM_decodes:
  assumes "pem_ok P" "priv_ok k"
  shows "\<exists>text. EncodePrivateKeyPEM P k = Inr text \<and> DecodePrivateKeyPEM P text = Inr k"
proof -
  obtain d where d: "MarshalPKCS8PrivateKey k = Inr d" "ParsePKCS8PrivateKey d = Inr k"
    using PKCS8_roundtrip [OF assms(2)] by blast
  let ?b = "\<lparr>pem_Type = pemTypePrivateKey, pem_Headers = [], pem_Bytes = d\<rparr>"
  have "pem_Decode P (EncodeToMemory P ?b @ []) = Some (?b, [])"
    by (rule pem_Decode_block [OF assms(1)]) (simp add: program_block_def)
  then show ?thesis
    using d by (simp add: EncodePrivateKeyPEM_def DecodePrivateKeyPEM_def pem_types)
qed

subsection \<open>Properties\<close>

text \<open>C29. The programs of the interoperability script agree. For every algorithm of the registry, when a
  key can be generated and the files written, mkcsr ends with status 0 and writes its two files into
  the directory of its flag and nothing else; parsecsr, run on its request, ends with status 0 and
  prints the algorithm, the subject and the DNS name of mkcsr, so the request parses and verifies; and
  the key file holds the private key of the request.\<close>

theorem parsecsr_mkcsr:
  assumes "circl_ok C" "pem_ok P" "pem_requests_ok P" "ParseAlgorithm algName = Inr alg"
    and "GenerateKey C r alg = Inr ((pub, priv), r')" "\<And>n. \<not> fails n"
    and "flag_written ''dir'' dir wd" "flag_written ''alg'' algName wa"
  shows "\<exists>csrPEM keyPEM.
    mkcsr C P r fails (wd @ wa) dirs =
      (dirs(dir := (dirs dir)(''pqtrust-csr.pem'' \<mapsto> csrPEM, ''pqtrust-key.pem'' \<mapsto> keyPEM)),
       ([Text_line (''mkcsr: wrote pqtrust-csr.pem and pqtrust-key.pem to '' @ dir)], 0))
    \<and> (\<forall>readFile path. readFile path = Some csrPEM \<longrightarrow>
         parsecsr C P readFile [path] =
           ([Parsed_request alg (zero_Name\<lparr>CommonName := mkcsr_name\<rparr>) [mkcsr_name] [] []], 0))
    \<and> DecodePrivateKeyPEM P keyPEM = Inr priv
    \<and> (\<exists>signer. key_Signer C priv = Inr signer \<and> sg_pub signer = pub \<and> pub_alg pub = alg)"
proof -
  obtain s where s: "key_Signer C priv = Inr s" "sg_pub s = pub" "sg_alg s = alg" "signer_ok C s" "priv_ok priv"
    using GenerateKey_signer [OF assms(1,5)] by blast
  have alg: "pub_alg pub = alg" using s by (auto simp: signer_ok_def)
  obtain der csr where csr: "CreateCertificateRequest (zero_Name\<lparr>CommonName := mkcsr_name\<rparr>) pub (Some s) mkcsr_sans = Inr der"
    "ParseCertificateRequest der = Inr csr" "CheckSignature C csr = Inr ()" "csr_PublicKey csr = pub"
    "csr_Subject csr = zero_Name\<lparr>CommonName := mkcsr_name\<rparr>" "csr_DNSNames csr = [mkcsr_name]"
    "csr_IPAddresses csr = []" "csr_EmailAddresses csr = []"
    using mkcsr_request [OF s(4)] unfolding s(2) by blast
  obtain keyPEM where key: "EncodePrivateKeyPEM P priv = Inr keyPEM" "DecodePrivateKeyPEM P keyPEM = Inr priv"
    using EncodePrivateKeyPEM_decodes [OF assms(2) s(5)] by blast
  let ?csrPEM = "EncodeToMemory P (csr_block der)"
  have "flag_name_ok ''dir''" "flag_name_ok ''alg''" by (simp_all add: flag_name_ok_def)
  then have flags: "flag_Parse [''dir'', ''alg''] (wd @ wa) vals = Inr (vals(''dir'' := dir, ''alg'' := algName))" for vals
    using flag_Parse_written [OF assms(7), of "[''dir'', ''alg'']"]
      flag_Parse_written [OF assms(8), of "[''dir'', ''alg'']" "[]"] flag_Parse_end [of "[]"] by simp
  have files: "mkcsr_files C P r algName = Inr [(''pqtrust-csr.pem'', ?csrPEM), (''pqtrust-key.pem'', keyPEM)]"
    using assms(4,5) s(1) csr(1) key(1) by (simp add: mkcsr_files_def mkcsr_sans_def)
  have made: "mkcsr C P r fails (wd @ wa) dirs =
      (dirs(dir := (dirs dir)(''pqtrust-csr.pem'' \<mapsto> ?csrPEM, ''pqtrust-key.pem'' \<mapsto> keyPEM)),
       ([Text_line (''mkcsr: wrote pqtrust-csr.pem and pqtrust-key.pem to '' @ dir)], 0))"
    using assms(6) by (simp add: mkcsr_def flags files)
  have "pem_Decode P ?csrPEM = Some (csr_block der, [])" using assms(3) by (simp add: pem_requests_ok_def)
  then have parsed: "parsecsr C P readFile [path] =
      ([Parsed_request alg (zero_Name\<lparr>CommonName := mkcsr_name\<rparr>) [mkcsr_name] [] []], 0)"
    if "readFile path = Some ?csrPEM" for readFile path
    using that csr alg by (simp add: parsecsr_def csr_block_def)
  show ?thesis using made parsed key(2) s(1,2) alg by blast
qed

lemma toy_pem_requests: "pem_requests_ok toy_pem"
proof -
  have "pem_Decode toy_pem (EncodeToMemory toy_pem (csr_block der)) = Some (csr_block der, [])" for der
    using toy_get_put [of der "[]"] by (simp add: toy_pem_def csr_block_def)
  then show ?thesis by (simp add: pem_requests_ok_def)
qed

theorem parsecsr_mkcsr_witness:
  "\<exists>csrPEM keyPEM fs.
     mkcsr toy_circl toy_pem (replicate 32 7) (\<lambda>_. False) [''-dir=/tmp/x'', ''-alg'', ''ML-DSA-65''] (\<lambda>_. Map.empty) =
       (fs, ([Text_line (''mkcsr: wrote pqtrust-csr.pem and pqtrust-key.pem to '' @ ''/tmp/x'')], 0))
     \<and> fs ''/tmp/x'' = [''pqtrust-csr.pem'' \<mapsto> csrPEM, ''pqtrust-key.pem'' \<mapsto> keyPEM]
     \<and> parsecsr toy_circl toy_pem [''a'' \<mapsto> csrPEM] [''a''] =
       ([Parsed_request MLDSA65 (zero_Name\<lparr>CommonName := mkcsr_name\<rparr>) [mkcsr_name] [] []], 0)"
proof -
  obtain pub priv where gen: "GenerateKey toy_circl (replicate 32 7) MLDSA65 = Inr ((pub, priv), [])"
    using toy_generate [of MLDSA65 7 "[]"] by auto
  have alg: "ParseAlgorithm ''ML-DSA-65'' = Inr MLDSA65"
    using ParseAlgorithm_alg_String [of MLDSA65]
    by (simp add: alg_Valid_def alg_String_def alg_info_def algorithms_def algorithm_consts)
  have dir: "flag_written ''dir'' ''/tmp/x'' [''-dir=/tmp/x'']"
    using flag_written.one [of "''dir''" "''/tmp/x''"] by simp
  have name: "flag_written ''alg'' ''ML-DSA-65'' [''-alg'', ''ML-DSA-65'']"
    using flag_written.two [of "''alg''" "''ML-DSA-65''"] by simp
  obtain csrPEM keyPEM where made: "mkcsr toy_circl toy_pem (replicate 32 7) (\<lambda>_. False)
      ([''-dir=/tmp/x''] @ [''-alg'', ''ML-DSA-65'']) (\<lambda>_. Map.empty) =
      ((\<lambda>_. Map.empty)(''/tmp/x'' := Map.empty(''pqtrust-csr.pem'' \<mapsto> csrPEM, ''pqtrust-key.pem'' \<mapsto> keyPEM)),
       ([Text_line (''mkcsr: wrote pqtrust-csr.pem and pqtrust-key.pem to '' @ ''/tmp/x'')], 0))"
    and parsed: "\<forall>readFile path. readFile path = Some csrPEM \<longrightarrow> parsecsr toy_circl toy_pem readFile [path] =
      ([Parsed_request MLDSA65 (zero_Name\<lparr>CommonName := mkcsr_name\<rparr>) [mkcsr_name] [] []], 0)"
    using parsecsr_mkcsr [where fails = "\<lambda>_. False" and dirs = "\<lambda>_. Map.empty",
        OF toy_circl_ok toy_pem_ok toy_pem_requests alg gen _ dir name] by auto
  have "parsecsr toy_circl toy_pem [''a'' \<mapsto> csrPEM] [''a''] =
      ([Parsed_request MLDSA65 (zero_Name\<lparr>CommonName := mkcsr_name\<rparr>) [mkcsr_name] [] []], 0)"
    using parsed by simp
  then show ?thesis
    using made
    by (intro exI [of _ csrPEM] exI [of _ keyPEM] conjI
        exI [of _ "(\<lambda>_. Map.empty)(''/tmp/x'' := Map.empty(''pqtrust-csr.pem'' \<mapsto> csrPEM, ''pqtrust-key.pem'' \<mapsto> keyPEM))"])
      simp_all
qed

end
