(* ===== verification/Spec2Isabelle.thy ===== *)
theory Spec2Isabelle
  imports Verify_Path Crl Csr Key_Files Store_Rows Engine_Chain Engine_Tables Crl_Cache Api_Issue Restart Scripts
begin

text \<open>
  A model of pqtrust, a certificate authority for post-quantum signatures written in Go, and the
  theorems that make it correct.

  The program. \<open>internal/pqx509\<close> encodes and decodes keys, names, certificates, certification
  requests and revocation lists (X.509 and PKCS 8, 10) for ML-DSA and SLH-DSA, and validates
  certificate chains. \<open>internal/keystore\<close> seals private keys under a passphrase and keeps them as
  files. \<open>internal/store\<close> keeps the authorities, certificates and API tokens in three SQL tables.
  \<open>internal/ca\<close> is the engine: it applies the issuance policy and composes the other three to create
  root and intermediate authorities, issue and revoke certificates and serve revocation lists.
  \<open>internal/api\<close> is the HTTP interface of the engine, with bearer tokens; \<open>internal/config\<close>
  reads the settings, and \<open>cmd/pqtrustd\<close> is the command line and the daemon: it opens the layers, serves
  the API over TLS and shuts down. The programs under \<open>scripts\<close> make and read requests and certificates.

  Conventions. A Go function that returns an error is a function into \<open>error + 'a\<close> (\<open>'a res\<close>, with
  \<open>rbind\<close> for the early return); an error carries the sentinels that \<open>errors.Is\<close> finds. A panic is a
  constructor of its own where the code has one (\<open>ParseName\<close>). Bytes are \<open>8 word\<close>, a struct is a
  record, Go's \<open>int\<close> is \<open>int\<close> with \<open>wrap64\<close> where a value can leave the range, and a time is the
  number of seconds or nanoseconds that the code reads. Code that is not in the repository is a
  parameter: the circl packages, argon2, AES-GCM, encoding/json, encoding/pem, the operating system,
  the SQL driver and the certificates of crypto/x509 are records of functions, with what their
  documentation promises of them as named hypotheses (\<open>circl_ok\<close>, \<open>seal_ok\<close>, \<open>pem_ok\<close>,
  \<open>driver_ok\<close>); the failures of the operating system and of
  the driver are predicates that the theorems leave arbitrary.

  The theories, and what they model.
  \<^item> \<open>Prelude\<close>: errors, results, integers and the lemmas that all components share.
  \<^item> \<open>Der\<close>, \<open>Asn1\<close>, \<open>Asn1_Fields\<close>, \<open>Asn1_Types\<close>: what the code uses of encoding/asn1 (elements,
    INTEGER, OBJECT IDENTIFIER, BIT STRING, struct fields), and asn1types.go.
  \<^item> \<open>Go_Strings\<close>, \<open>Sha256\<close>, \<open>Rendering\<close>: what the code uses of strings, crypto/sha256, big.Int.Text
    and netip.Addr.String, with \<open>SerialHex\<close> and \<open>sansString\<close> of engine.go.
  \<^item> \<open>Algorithm\<close>, \<open>Keys\<close>, \<open>Pkcs8\<close>: algorithm.go, keys.go, family.go, slhdsa.go, pkcs8.go.
  \<^item> \<open>Names\<close>, \<open>Times\<close>, \<open>Extensions\<close>: name.go, time.go, extensions.go.
  \<^item> \<open>Signed\<close>, \<open>Certificate\<close>, \<open>Issuance\<close>: certificate.go. \<open>Verify_Path\<close>: verify.go.
    \<open>Crl\<close>: crl.go. \<open>Csr\<close>: csr.go. \<open>Pem\<close>: pem.go.
  \<^item> \<open>Keystore\<close>, \<open>Key_Files\<close>: seal.go, keystore.go, filebackend.go.
  \<^item> \<open>Store\<close>: cas.go, certificates.go, tokens.go, migrate.go, on tables of records. \<open>Store_Rows\<close>: the
    same functions on the rows of an SQL database with the schema of 0001_init.sql, and store.go.
  \<^item> \<open>Policy\<close>, \<open>Engine\<close>: profiles.go, and engine.go and crl.go of package ca.
  \<^item> \<open>Engine_Frame\<close>, \<open>Canonical\<close>, \<open>Issue_Policy\<close>, \<open>Engine_Keys\<close>, \<open>Engine_Trust\<close>, \<open>Engine_Live\<close>,
    \<open>Engine_Toy\<close>, \<open>Engine_Chain\<close>, \<open>Engine_Failure\<close>, \<open>Engine_Tables\<close>, \<open>Crl_Cache\<close>: the lemmas and the
    properties of the engine, one aspect each.
  \<^item> \<open>Net_Text\<close>: what the API uses of strings.Split, net.ParseIP and base64. \<open>Http\<close>: problem.go and
    auth.go, with the values of JSON and how they are decoded into a struct. \<open>Api_Authorities\<close>:
    handlers_ca.go. \<open>Api_Certificates\<close>: handlers_certs.go. \<open>Api_Server\<close>: server.go and
    handlers_misc.go. \<open>Api_Auth\<close>, \<open>Api_Effects\<close>, \<open>Api_Issue\<close>: the properties of the API.
  \<^item> \<open>Config\<close>: config.go, \<open>newApp\<close> of serve.go and token.go. \<open>Serve\<close>: the rest of serve.go and
    selfsigned.go. \<open>Commands\<close>: main.go. \<open>Restart\<close>: processes on the same files.
  \<^item> \<open>Scripts\<close>: the main functions of mkcsr, parsecsr and parsecert.

  What the lemmas show.
  \<^item> Codecs: encoding and then decoding keys, names, times, extensions, certificates, requests,
    lists and sealed keys gives the value back, and what a decoder accepts is well formed.
  \<^item> Path validation: the search of \<open>Verify\<close> returns exactly the trusted chains of a declarative
    specification, and its error comes from a link that was tried.
  \<^item> Keystore: what \<open>Seal\<close> writes its passphrase opens, what opens is authentic, and keys survive each
    other's operations.
  \<^item> Datastore: the integrity of the tables in every reachable state, permanence of revocations,
    migrations applied once and in order; the SQL implements the operations on the tables, and a
    database file is whole at every moment.
  \<^item> Engine: the chains it issues verify, whatever happened in between; its tables are a two-level
    hierarchy of readable rows; the revocation list it serves is never stale, under any
    interleaving of requests; what an operation that fails leaves behind; when it succeeds.
  \<^item> API: without a recorded token nothing of the state shows or changes, and a created token is
    accepted from then on; the tables change only by an authenticated POST that reports success; a
    reported revocation is final; what issuing for a certification request does; which names a
    certificate is listed with.
  \<^item> Configuration: where each setting comes from, and the bounds of the periods.
  \<^item> Daemon: its two goroutines end within seven steps and are never blocked, in every fair run it
    returns after a signal, and without an error only after an ordered shutdown; what each command
    line does; a token outlives the process that printed it; what mkcsr writes parsecsr accepts.

  Structure. A state machine is an inductive step relation (\<open>db_step\<close>, \<open>engine_step\<close>,
  \<open>crl_system\<close>, \<open>server_step\<close>, \<open>file_step\<close>, \<open>serve_step\<close>) whose invariants are proved by rule induction;
  restarts of the process are among the steps of \<open>crl_system\<close> and \<open>server_step\<close>. The contracts between components
  are locales, each interpreted on the definitions of the model: a codec and its well-formed values,
  an operation and the invariant that it keeps, an operation and the frame that it leaves, a
  specification and the implementation that simulates it.
  The hypotheses of the properties are shown to be satisfiable by concrete instances, above all the
  run of \<open>Engine_Toy\<close>: an engine that creates a root and an intermediate, and issues a leaf.

  Bounds. There is no fuel. A loop over an input recurses on it, with its length as the measure
  where an iteration consumes more than one element. The search of \<open>Verify\<close> terminates by
  \<open>maxChainDepth\<close> of the code. \<open>GenerateSerialNumber\<close> makes the eight attempts of the code, and the
  draw inside each one recurses on the entropy that is left.

  Not modelled. The timeouts of \<open>http.Server\<close>, the protocol of TLS, the watching of the configured
  signals (a cancellation of the context at any moment), what goes to the standard error and the log,
  and the shell scripts. The text of JSON and YAML, and of a time in a column of the database, is a
  parameter or an abstract value. The erasure of buffers and the texts of error messages are not in
  the model, but for the message of the driver that the code searches. Redirections of unclean paths
  by \<open>ServeMux\<close> and the order of concurrent requests other than for the cache of lists are not
  either: a request is one step of the server.
\<close>

end
